(* ===== verification/Prelude.thy ===== *)
theory Prelude
  imports Main "HOL-Library.Char_ord" "HOL-Library.List_Lexorder"
begin

text \<open>
  What every component of the model shares: instants, SQL tables as lists of rows, the
  statements of PostgreSQL the service uses on them (\<open>SELECT\<close>, \<open>UPDATE ... WHERE\<close>,
  \<open>DELETE\<close>, \<open>INSERT\<close> under unique indexes), and the lemmas about them that the component
  proofs rest on. Two locales state the contract of a table: \<open>unique_index\<close> (an index is kept
  by the statements) and \<open>keyed_table\<close> (the primary key identifies a row); every table of
  the schema interprets them.
\<close>

section \<open>Collections of facts\<close>

named_theorems table_simps \<open>how the SQL statements act on a table\<close>
named_theorems schema_intros \<open>the statements keep the unique indexes\<close>

section \<open>Time\<close>

text \<open>
  Instants are integers, in microseconds, the resolution of \<open>timestamptz\<close>. A nullable
  column is an option; a comparison with NULL is not true, so it selects no row.
\<close>

type_synonym time = int

abbreviation seconds :: "int \<Rightarrow> time" where
  "seconds n \<equiv> n * 1000000"

abbreviation minutes :: "int \<Rightarrow> time" where
  "minutes n \<equiv> seconds (60 * n)"

abbreviation hours :: "int \<Rightarrow> time" where
  "hours n \<equiv> minutes (60 * n)"

abbreviation days :: "int \<Rightarrow> time" where
  "days n \<equiv> hours (24 * n)"

fun later_than :: "time option \<Rightarrow> time \<Rightarrow> bool" where
  "later_than None t = False"
| "later_than (Some u) t = (t < u)"

fun earlier_than :: "time option \<Rightarrow> time \<Rightarrow> bool" where
  "earlier_than None t = False"
| "earlier_than (Some u) t = (u < t)"

fun coalesce :: "'a option \<Rightarrow> 'a \<Rightarrow> 'a" where
  "coalesce None d = d"
| "coalesce (Some x) d = x"

lemma later_than_iff: "later_than x t \<longleftrightarrow> (\<exists>u. x = Some u \<and> t < u)"
  by (cases x) auto

lemma earlier_than_iff: "earlier_than x t \<longleftrightarrow> (\<exists>u. x = Some u \<and> u < t)"
  by (cases x) auto

section \<open>Tables\<close>

definition first_row :: "('r \<Rightarrow> bool) \<Rightarrow> 'r list \<Rightarrow> 'r option" where
  "first_row P t = List.find P t"

definition some_row :: "('r \<Rightarrow> bool) \<Rightarrow> 'r list \<Rightarrow> bool" where
  "some_row P t = list_ex P t"

definition count_rows :: "('r \<Rightarrow> bool) \<Rightarrow> 'r list \<Rightarrow> nat" where
  "count_rows P t = length (filter P t)"

definition update_rows :: "('r \<Rightarrow> bool) \<Rightarrow> ('r \<Rightarrow> 'r) \<Rightarrow> 'r list \<Rightarrow> 'r list" where
  "update_rows P f t = map (\<lambda>r. if P r then f r else r) t"

definition delete_rows :: "('r \<Rightarrow> bool) \<Rightarrow> 'r list \<Rightarrow> 'r list" where
  "delete_rows P t = filter (\<lambda>r. \<not> P r) t"

text \<open>
  \<open>clash r s\<close> says that the rows \<open>r\<close> and \<open>s\<close> violate a unique index together.
  \<open>insert_row\<close> is an \<open>INSERT\<close>: \<open>None\<close> is the unique violation (SQLSTATE 23505).
\<close>

definition insert_row :: "('r \<Rightarrow> 'r \<Rightarrow> bool) \<Rightarrow> 'r \<Rightarrow> 'r list \<Rightarrow> 'r list option" where
  "insert_row clash r t = (if list_ex (clash r) t then None else Some (t @ [r]))"

fun insert_rows :: "('r \<Rightarrow> 'r \<Rightarrow> bool) \<Rightarrow> 'r list \<Rightarrow> 'r list \<Rightarrow> 'r list option" where
  "insert_rows clash [] t = Some t"
| "insert_rows clash (r # rs) t =
     (case insert_row clash r t of None \<Rightarrow> None | Some t' \<Rightarrow> insert_rows clash rs t')"

definition indexed :: "('r \<Rightarrow> 'r \<Rightarrow> bool) \<Rightarrow> 'r list \<Rightarrow> bool" where
  "indexed clash t = sorted_wrt (\<lambda>a b. \<not> clash a b) t"

lemma first_row_Some:
  "first_row P t = Some r \<Longrightarrow> r \<in> set t \<and> P r"
  by (auto simp: first_row_def find_Some_iff)

lemma first_row_None:
  "first_row P t = None \<longleftrightarrow> (\<forall>r\<in>set t. \<not> P r)"
  by (auto simp: first_row_def find_None_iff)

lemma first_row_NoneD: "first_row P t = None \<Longrightarrow> r \<in> set t \<Longrightarrow> \<not> P r"
  by (simp add: first_row_None)

lemma first_row_simps [simp]:
  "first_row P [] = None"
  "first_row P (r # t) = (if P r then Some r else first_row P t)"
  by (simp_all add: first_row_def)

lemma some_row_iff [table_simps]: "some_row P t \<longleftrightarrow> (\<exists>r\<in>set t. P r)"
  by (simp add: some_row_def list_ex_iff)

lemma some_row_simps [simp]:
  "some_row P [] = False" "some_row P (r # t) = (P r \<or> some_row P t)"
  by (simp_all add: some_row_def)

lemma count_rows_simps [simp]:
  "count_rows P [] = 0" "count_rows P (r # t) = (if P r then Suc (count_rows P t) else count_rows P t)"
  "count_rows P (t @ u) = count_rows P t + count_rows P u"
  by (simp_all add: count_rows_def)

lemma count_rows_0 [table_simps]: "count_rows P t = 0 \<longleftrightarrow> (\<forall>r\<in>set t. \<not> P r)"
  by (simp add: count_rows_def filter_empty_conv)

lemma update_rows_simps [simp]:
  "update_rows P f [] = []"
  "update_rows P f (r # t) = (if P r then f r else r) # update_rows P f t"
  "update_rows P f (t @ u) = update_rows P f t @ update_rows P f u"
  "length (update_rows P f t) = length t"
  by (simp_all add: update_rows_def)

lemma set_update_rows [table_simps]:
  "set (update_rows P f t) = (\<lambda>r. if P r then f r else r) ` set t"
  by (simp add: update_rows_def)

lemma map_update_rows:
  "(\<And>r. k (f r) = k r) \<Longrightarrow> map k (update_rows P f t) = map k t"
  by (simp add: update_rows_def)

lemma delete_rows_simps [simp]:
  "delete_rows P [] = []"
  "delete_rows P (r # t) = (if P r then delete_rows P t else r # delete_rows P t)"
  by (simp_all add: delete_rows_def)

lemma row_updated: "r \<in> set t \<Longrightarrow> (if P r then f r else r) \<in> set (update_rows P f t)"
  by (simp add: update_rows_def)

lemma ball_update_rows: "(\<forall>s\<in>set (update_rows P f t). Q s) \<longleftrightarrow> (\<forall>r\<in>set t. Q (if P r then f r else r))"
  by (simp only: set_update_rows ball_simps)

lemma bex_update_rows: "(\<exists>s\<in>set (update_rows P f t). Q s) \<longleftrightarrow> (\<exists>r\<in>set t. Q (if P r then f r else r))"
  by (simp only: set_update_rows bex_simps)

lemmas update_quantifiers = ball_update_rows bex_update_rows

lemma in_update_rows:
  assumes "s \<in> set (update_rows P f t)"
  obtains r where "r \<in> set t" "s = (if P r then f r else r)"
  using assms by (auto simp only: set_update_rows)

lemma set_delete_rows [table_simps]: "set (delete_rows P t) = {r \<in> set t. \<not> P r}"
  by (auto simp: delete_rows_def)

lemma insert_row_Some:
  "insert_row clash r t = Some t' \<longleftrightarrow> t' = t @ [r] \<and> (\<forall>s\<in>set t. \<not> clash r s)"
  by (auto simp: insert_row_def list_ex_iff)

lemma insert_row_None: "insert_row clash r t = None \<longleftrightarrow> (\<exists>s\<in>set t. clash r s)"
  by (simp add: insert_row_def list_ex_iff)

definition admits :: "('r \<Rightarrow> 'r \<Rightarrow> bool) \<Rightarrow> 'r list \<Rightarrow> 'r list \<Rightarrow> bool" where
  "admits clash rs t = (insert_rows clash rs t \<noteq> None)"

lemma insert_rows_append:
  "insert_rows clash rs t = Some t' \<Longrightarrow> t' = t @ rs"
  by (induction rs arbitrary: t) (fastforce simp: insert_row_Some split: option.splits)+

lemma insert_rows_Some:
  "insert_rows clash rs t = Some t' \<longleftrightarrow> t' = t @ rs \<and> admits clash rs t"
  using insert_rows_append by (auto simp: admits_def)

lemma admits_simps [simp]:
  "admits clash [] t"
  "admits clash [r] t \<longleftrightarrow> (\<forall>s\<in>set t. \<not> clash r s)"
  "admits clash (rs @ qs) t \<longleftrightarrow> admits clash rs t \<and> admits clash qs (t @ rs)"
proof -
  show "admits clash [] t" by (simp add: admits_def)
  show "admits clash [r] t \<longleftrightarrow> (\<forall>s\<in>set t. \<not> clash r s)"
    by (simp add: admits_def insert_row_def list_ex_iff)
  show "admits clash (rs @ qs) t \<longleftrightarrow> admits clash rs t \<and> admits clash qs (t @ rs)"
    by (induction rs arbitrary: t) (auto simp: admits_def insert_row_def)
qed

lemma first_row_update:
  "(\<And>r. P r \<Longrightarrow> Q (f r) = Q r) \<Longrightarrow>
   first_row Q (update_rows P f t) = map_option (\<lambda>r. if P r then f r else r) (first_row Q t)"
  by (induction t) auto

lemma first_row_cong_snoc:
  "first_row Q (t @ [r]) = (case first_row Q t of Some x \<Rightarrow> Some x | None \<Rightarrow> if Q r then Some r else None)"
  by (induction t) auto

section \<open>The contract of an index\<close>

locale unique_index =
  fixes clash :: "'r \<Rightarrow> 'r \<Rightarrow> bool"
  assumes clash_sym: "clash a b \<Longrightarrow> clash b a"
begin

lemma indexed_Nil: "indexed clash []"
  by (simp add: indexed_def)

lemma insert_row_indexed:
  "indexed clash t \<Longrightarrow> insert_row clash r t = Some t' \<Longrightarrow> indexed clash t'"
  by (auto simp: indexed_def insert_row_Some sorted_wrt_append dest: clash_sym)

lemma snoc_indexed: "indexed clash t \<Longrightarrow> \<forall>s\<in>set t. \<not> clash r s \<Longrightarrow> indexed clash (t @ [r])"
  by (auto simp: indexed_def sorted_wrt_append dest: clash_sym)

lemma insert_rows_indexed:
  "indexed clash t \<Longrightarrow> insert_rows clash rs t = Some t' \<Longrightarrow> indexed clash t'"
  by (induction rs arbitrary: t) (auto split: option.splits dest: insert_row_indexed)

lemma append_indexed: "indexed clash t \<Longrightarrow> admits clash rs t \<Longrightarrow> indexed clash (t @ rs)"
  using insert_rows_indexed by (auto simp: insert_rows_Some)

lemma delete_rows_indexed: "indexed clash t \<Longrightarrow> indexed clash (delete_rows P t)"
  by (simp add: indexed_def delete_rows_def sorted_wrt_filter)

text \<open>An update that creates no clash of its own keeps the index.\<close>

lemma update_rows_indexed_in:
  assumes "\<And>a b. a \<in> set t \<Longrightarrow> b \<in> set t \<Longrightarrow>
      clash (if P a then f a else a) (if P b then f b else b) \<Longrightarrow> clash a b"
    "indexed clash t"
  shows "indexed clash (update_rows P f t)"
proof -
  have "sorted_wrt (\<lambda>a b. \<not> clash (if P a then f a else a) (if P b then f b else b)) t"
    using assms(2) unfolding indexed_def
    by (rule sorted_wrt_mono_rel [rotated]) (use assms(1) in blast)
  then show ?thesis by (simp add: indexed_def update_rows_def sorted_wrt_map)
qed

lemma update_rows_indexed:
  assumes "\<And>a b. clash (if P a then f a else a) (if P b then f b else b) \<Longrightarrow> clash a b"
    "indexed clash t"
  shows "indexed clash (update_rows P f t)"
  using assms by (blast intro: update_rows_indexed_in)

lemma no_clash: "indexed clash t \<Longrightarrow> a \<in> set t \<Longrightarrow> b \<in> set t \<Longrightarrow> clash a b \<Longrightarrow> a = b"
  by (induction t) (auto simp: indexed_def dest: clash_sym)

end

locale keyed_table = unique_index clash
  for clash :: "'r \<Rightarrow> 'r \<Rightarrow> bool" +
  fixes key :: "'r \<Rightarrow> 'k"
  assumes key_clash: "key a = key b \<Longrightarrow> clash a b"
begin

lemma keys_distinct: "indexed clash t \<Longrightarrow> distinct (map key t)"
proof (induction t)
  case Nil
  then show ?case by simp
next
  case (Cons r t)
  then show ?case by (auto simp: indexed_def dest: key_clash)
qed

lemma key_unique:
  "indexed clash t \<Longrightarrow> r \<in> set t \<Longrightarrow> s \<in> set t \<Longrightarrow> key r = key s \<Longrightarrow> r = s"
  by (metis distinct_map inj_onD keys_distinct)

lemma lookup_iff:
  assumes "indexed clash t"
  shows "first_row (\<lambda>r. key r = k) t = Some r \<longleftrightarrow> r \<in> set t \<and> key r = k"
proof
  assume "r \<in> set t \<and> key r = k"
  then obtain s where s: "first_row (\<lambda>r. key r = k) t = Some s"
    by (cases "first_row (\<lambda>r. key r = k) t") (auto dest: first_row_NoneD)
  then have "s \<in> set t" "key s = k" by (auto dest: first_row_Some)
  with \<open>r \<in> set t \<and> key r = k\<close> have "s = r" using key_unique [OF assms] by simp
  with s show "first_row (\<lambda>r. key r = k) t = Some r" by simp
qed (auto dest: first_row_Some)

lemma lookup_insert:
  assumes "insert_row clash r t = Some t'"
  shows "first_row (\<lambda>s. key s = k) t' = (if key r = k then Some r else first_row (\<lambda>s. key s = k) t)"
  using assms
  by (auto simp: insert_row_Some first_row_cong_snoc split: option.splits
      dest!: first_row_Some key_clash)

lemma lookup_where:
  assumes "indexed clash t" "r \<in> set t" "P r" "\<And>s. P s \<Longrightarrow> key s = key r"
  shows "first_row P t = Some r"
proof -
  obtain s where s: "first_row P t = Some s"
    using assms(2,3) by (cases "first_row P t") (auto dest: first_row_NoneD)
  then have "s \<in> set t" "key s = key r" using assms(4) by (auto dest: first_row_Some)
  with assms(1,2) s show ?thesis using key_unique by auto
qed

end

text \<open>Counting the rows that cover a list of keys: as many as there are keys only if no key is repeated and each is covered.\<close>

lemma count_covers:
  assumes "distinct rows" "inj_on k {r \<in> set rows. P r}"
  shows "count_rows (\<lambda>r. P r \<and> k r \<in> set ks) rows = length ks
    \<longleftrightarrow> distinct ks \<and> (\<forall>x\<in>set ks. \<exists>r\<in>set rows. P r \<and> k r = x)"
proof -
  define hit where "hit = {r \<in> set rows. P r \<and> k r \<in> set ks}"
  have "count_rows (\<lambda>r. P r \<and> k r \<in> set ks) rows = card hit"
    using distinct_card [OF distinct_filter [OF assms(1)]] by (simp add: count_rows_def hit_def)
  also have "\<dots> = card (k ` hit)"
    by (rule card_image [symmetric]) (rule inj_on_subset [OF assms(2)], auto simp: hit_def)
  finally have count: "count_rows (\<lambda>r. P r \<and> k r \<in> set ks) rows = card (k ` hit)" .
  have sub: "k ` hit \<subseteq> set ks" by (auto simp: hit_def)
  then have "card (k ` hit) \<le> card (set ks)" by (simp add: card_mono)
  then have "card (k ` hit) = length ks \<longleftrightarrow> k ` hit = set ks \<and> card (set ks) = length ks"
    using card_length [of ks] card_subset_eq [OF _ sub] by fastforce
  moreover have "k ` hit = set ks \<longleftrightarrow> (\<forall>x\<in>set ks. \<exists>r\<in>set rows. P r \<and> k r = x)" (is "_ \<longleftrightarrow> ?all")
  proof
    assume eq: "k ` hit = set ks"
    show ?all
    proof
      fix x assume "x \<in> set ks"
      then obtain r where "r \<in> hit" "x = k r" using eq by (metis imageE)
      then show "\<exists>r\<in>set rows. P r \<and> k r = x" by (auto simp: hit_def)
    qed
  next
    assume ?all
    then have "set ks \<subseteq> k ` hit" by (auto simp: hit_def image_iff)
    with sub show "k ` hit = set ks" by blast
  qed
  moreover have "card (set ks) = length ks \<longleftrightarrow> distinct ks" by (metis card_distinct distinct_card)
  ultimately show ?thesis unfolding count by blast
qed

lemma count_single:
  assumes "distinct rows" "\<And>a b. a \<in> set rows \<Longrightarrow> b \<in> set rows \<Longrightarrow> P a \<Longrightarrow> P b \<Longrightarrow> a = b"
  shows "count_rows P rows = (if some_row P rows then 1 else 0)"
proof -
  have "count_rows P rows = card {r \<in> set rows. P r}"
    using distinct_card [OF distinct_filter [OF assms(1)]] by (simp add: count_rows_def)
  moreover have "{r \<in> set rows. P r} = {r}" if "r \<in> set rows" "P r" for r using that assms(2) by blast
  ultimately show ?thesis by (auto simp: some_row_iff)
qed

end
