(* ===== verification/Go_Library.thy ===== *)
theory Go_Library
  imports Prelude "HOL-Library.Word"
begin

text \<open>
  The parts of Go's standard library the service computes with: \<open>strings\<close>, \<open>slices\<close>,
  \<open>encoding/hex\<close>, \<open>encoding/base64\<close> (without padding), \<open>crypto/subtle\<close> and the \<open>%d\<close> verb of
  \<open>fmt.Sscanf\<close>. A Go \<open>string\<close> and a \<open>[]byte\<close> are both byte sequences: a
  \<open>string\<close> of HOL, whose characters are the 256 bytes. Case conversion and white space
  are those of ASCII; bytes above 127 are left alone.
\<close>

unbundle bit_operations_syntax

section \<open>strings and slices\<close>

definition is_space :: "char \<Rightarrow> bool" where
  "is_space c = (of_char c \<in> {9, 10, 11, 12, 13, 32 :: nat})"

definition trim_space :: "string \<Rightarrow> string" where
  "trim_space s = rev (dropWhile is_space (rev (dropWhile is_space s)))"

definition lower_char :: "char \<Rightarrow> char" where
  "lower_char c = (let n = of_char c :: nat in if 65 \<le> n \<and> n \<le> 90 then char_of (n + 32) else c)"

definition upper_char :: "char \<Rightarrow> char" where
  "upper_char c = (let n = of_char c :: nat in if 97 \<le> n \<and> n \<le> 122 then char_of (n - 32) else c)"

definition to_lower :: "string \<Rightarrow> string" where "to_lower = map lower_char"
definition to_upper :: "string \<Rightarrow> string" where "to_upper = map upper_char"

definition contains_any :: "string \<Rightarrow> string \<Rightarrow> bool" where
  "contains_any s chars = list_ex (\<lambda>c. c \<in> set chars) s"

definition has_prefix :: "string \<Rightarrow> string \<Rightarrow> bool" where
  "has_prefix s p = (take (length p) s = p)"

fun split_on :: "char \<Rightarrow> string \<Rightarrow> string list" where
  "split_on c [] = [[]]"
| "split_on c (x # xs) =
     (if x = c then [] # split_on c xs
      else (case split_on c xs of [] \<Rightarrow> [[x]] | f # fs \<Rightarrow> (x # f) # fs))"

abbreviation blanks :: string where
  "blanks \<equiv> [CHR '' '', CHR 0x09, CHR 0x0D, CHR 0x0A]"

lemma split_on_nonempty [simp]: "split_on c s \<noteq> []"
  by (induction s) (auto split: list.splits)

lemma split_on_none: "c \<notin> set s \<Longrightarrow> split_on c s = [s]"
  by (induction s) auto

lemma split_on_append:
  "c \<notin> set s \<Longrightarrow> split_on c (s @ c # t) = s # split_on c t"
  by (induction s) auto

lemma dropWhile_end:
  "xs \<noteq> [] \<Longrightarrow> P (last xs) \<or> (\<forall>x\<in>set xs. P x) \<or> last (dropWhile P xs) = last xs"
  by (induction xs) auto

lemma hd_rev_dropWhile:
  assumes "xs \<noteq> []" "\<not> P (hd xs)"
  shows "dropWhile P (rev (dropWhile P (rev xs))) = rev (dropWhile P (rev xs))"
proof -
  let ?r = "dropWhile P (rev xs)"
  have ne: "?r \<noteq> []" using assms by (auto simp: dropWhile_eq_Nil_conv)
  have "rev xs = takeWhile P (rev xs) @ ?r" by simp
  then have "last (rev xs) = last ?r" using ne by (metis last_appendR)
  then have "\<not> P (hd (rev ?r))" using assms by (simp add: hd_rev last_rev)
  then show ?thesis using ne by (cases "rev ?r") auto
qed

lemma trim_space_idem: "trim_space (trim_space s) = trim_space s"
proof (cases "dropWhile is_space s")
  case Nil
  show ?thesis unfolding trim_space_def Nil by simp
next
  case (Cons x xs)
  then have "\<not> is_space x" using hd_dropWhile [of is_space s] by simp
  then have *: "dropWhile is_space (rev (dropWhile is_space (rev (x # xs))))
      = rev (dropWhile is_space (rev (x # xs)))"
    by (intro hd_rev_dropWhile) auto
  show ?thesis unfolding trim_space_def Cons * by simp
qed

lemma lower_char_idem: "lower_char (lower_char c) = lower_char c"
  by (auto simp: lower_char_def Let_def)

lemma to_lower_idem: "to_lower (to_lower s) = to_lower s"
  by (simp add: to_lower_def lower_char_idem)

section \<open>encoding/hex\<close>

definition hex_digit :: "nat \<Rightarrow> char" where
  "hex_digit n = ''0123456789abcdef'' ! n"

definition hex_encode :: "string \<Rightarrow> string" where
  "hex_encode s = concat (map (\<lambda>c. let n = of_char c :: nat in [hex_digit (n div 16), hex_digit (n mod 16)]) s)"

lemma length_hex_encode: "length (hex_encode s) = 2 * length s"
  by (induction s) (simp_all add: hex_encode_def Let_def)

section \<open>encoding/base64 without padding\<close>

definition std_alphabet :: string where
  "std_alphabet = ''ABCDEFGHIJKLMNOPQRSTUVWXYZabcdefghijklmnopqrstuvwxyz0123456789+/''"

definition url_alphabet :: string where
  "url_alphabet = ''ABCDEFGHIJKLMNOPQRSTUVWXYZabcdefghijklmnopqrstuvwxyz0123456789-_''"

text \<open>The 6-bit groups of the bytes, and back. A last group of one digit is corrupt input.\<close>

fun to_sextets :: "nat list \<Rightarrow> nat list" where
  "to_sextets [] = []"
| "to_sextets [a] = [a div 4, a mod 4 * 16]"
| "to_sextets [a, b] = [a div 4, a mod 4 * 16 + b div 16, b mod 16 * 4]"
| "to_sextets (a # b # c # bs) =
     [a div 4, a mod 4 * 16 + b div 16, b mod 16 * 4 + c div 64, c mod 64] @ to_sextets bs"

fun of_sextets :: "nat list \<Rightarrow> nat list option" where
  "of_sextets [] = Some []"
| "of_sextets [w] = None"
| "of_sextets [w, x] = Some [w * 4 + x div 16]"
| "of_sextets [w, x, y] = Some [w * 4 + x div 16, x mod 16 * 16 + y div 4]"
| "of_sextets (w # x # y # z # ws) =
     map_option ((@) [w * 4 + x div 16, x mod 16 * 16 + y div 4, y mod 4 * 64 + z]) (of_sextets ws)"

fun digit_of :: "string \<Rightarrow> char \<Rightarrow> nat option" where
  "digit_of [] c = None"
| "digit_of (x # xs) c = (if x = c then Some 0 else map_option Suc (digit_of xs c))"

fun all_some :: "'a option list \<Rightarrow> 'a list option" where
  "all_some [] = Some []"
| "all_some (None # xs) = None"
| "all_some (Some x # xs) = map_option ((#) x) (all_some xs)"

definition base64_encode :: "string \<Rightarrow> string \<Rightarrow> string" where
  "base64_encode alphabet s = map ((!) alphabet) (to_sextets (map of_char s))"

text \<open>\<open>DecodeString\<close> ignores carriage returns and line feeds, as Go's does.\<close>

definition base64_decode :: "string \<Rightarrow> string \<Rightarrow> string option" where
  "base64_decode alphabet s =
     (case all_some (map (digit_of alphabet) (filter (\<lambda>c. c \<noteq> CHR 0x0D \<and> c \<noteq> CHR 0x0A) s)) of
        None \<Rightarrow> None
      | Some ds \<Rightarrow> map_option (map char_of) (of_sextets ds))"

lemma to_sextets_bound: "(\<forall>b\<in>set bs. b < 256) \<Longrightarrow> d \<in> set (to_sextets bs) \<Longrightarrow> d < 64"
  by (induction bs rule: to_sextets.induct) auto

lemma of_to_sextets: "(\<forall>b\<in>set bs. b < 256) \<Longrightarrow> of_sextets (to_sextets bs) = Some bs"
proof (induction bs rule: to_sextets.induct)
  case (4 a b c bs)
  then have "b < 256" "c < 256" by auto
  then have "b div 16 < 16" "c div 64 < 4" by auto
  then have "b div 16 div 16 = 0" "b div 16 mod 16 * 16 + (b mod 16 + c div 64 div 4) = b"
    "c div 64 mod 4 * 64 + c mod 64 = c"
    by simp_all
  with 4 show ?case by simp
qed auto

lemma digit_of_nth:
  "distinct xs \<Longrightarrow> n < length xs \<Longrightarrow> digit_of xs (xs ! n) = Some n"
proof (induction xs arbitrary: n)
  case (Cons x xs)
  then show ?case by (cases n) auto
qed simp

lemma all_some_map_Some: "all_some (map Some xs) = Some xs"
  by (induction xs) auto

lemma length_to_sextets_le: "length (to_sextets bs) = (4 * length bs + 2) div 3"
  by (induction bs rule: to_sextets.induct) auto

lemma base64_encode_chars:
  "length alphabet = 64 \<Longrightarrow> set (base64_encode alphabet s) \<subseteq> set alphabet"
  using to_sextets_bound [of "map of_char s"]
  by (fastforce simp: base64_encode_def intro!: nth_mem)

lemma length_base64_encode: "length (base64_encode alphabet s) = (4 * length s + 2) div 3"
  by (simp add: base64_encode_def length_to_sextets_le)

lemma base64_decode_encode:
  assumes "length alphabet = 64" "distinct alphabet"
    "CHR 0x0D \<notin> set alphabet" "CHR 0x0A \<notin> set alphabet"
  shows "base64_decode alphabet (base64_encode alphabet s) = Some s"
proof -
  let ?ds = "to_sextets (map of_char s)"
  have bound: "\<forall>d\<in>set ?ds. d < 64"
    using to_sextets_bound [of "map of_char s"] by auto
  have "set (base64_encode alphabet s) \<subseteq> set alphabet"
    using assms(1) by (rule base64_encode_chars)
  then have "filter (\<lambda>c. c \<noteq> CHR 0x0D \<and> c \<noteq> CHR 0x0A) (base64_encode alphabet s)
      = base64_encode alphabet s"
    using assms(3,4) by (intro filter_True) auto
  moreover have "map (digit_of alphabet) (base64_encode alphabet s) = map Some ?ds"
    using bound assms(1,2) by (auto simp: base64_encode_def digit_of_nth)
  moreover have "of_sextets ?ds = Some (map of_char s)"
    by (rule of_to_sextets) auto
  ultimately show ?thesis by (simp add: base64_decode_def all_some_map_Some comp_def)
qed

lemma alphabets [simp]:
  "length std_alphabet = 64" "distinct std_alphabet"
  "length url_alphabet = 64" "distinct url_alphabet"
  "CHR 0x0D \<notin> set std_alphabet" "CHR 0x0A \<notin> set std_alphabet" "CHR ''$'' \<notin> set std_alphabet"
  "CHR 0x0D \<notin> set url_alphabet" "CHR 0x0A \<notin> set url_alphabet"
  by (simp_all add: std_alphabet_def url_alphabet_def)

section \<open>crypto/subtle\<close>

text \<open>The running OR of the byte differences, as \<open>ConstantTimeCompare\<close> computes it.\<close>

definition constant_time_compare :: "string \<Rightarrow> string \<Rightarrow> int" where
  "constant_time_compare x y =
     (if length x \<noteq> length y then 0
      else if fold (\<lambda>(a, b) v. v OR (of_char a XOR of_char b :: 8 word)) (zip x y) 0 = 0 then 1 else 0)"

lemma word_or_zero: "(a OR b :: 8 word) = 0 \<longleftrightarrow> a = 0 \<and> b = 0"
  by (auto simp: bit_eq_iff bit_or_iff)

lemma word_xor_zero: "(a XOR b :: 8 word) = 0 \<longleftrightarrow> a = b"
  by (auto simp: bit_eq_iff bit_xor_iff)

lemma of_char_word_inject: "(of_char a :: 8 word) = of_char b \<longleftrightarrow> a = b"
proof
  assume eq: "(of_char a :: 8 word) = of_char b"
  have "unat (of_char c :: 8 word) = of_char c" for c
  proof -
    have "unat (of_char c :: 8 word) = unat (of_nat (of_char c) :: 8 word)"
      by (simp only: of_nat_of_char)
    also have "\<dots> = of_char c mod 256" by (simp only: unat_of_nat) simp
    also have "\<dots> = of_char c" by (rule of_char_mod_256)
    finally show ?thesis .
  qed
  then have "(of_char a :: nat) = of_char b" using eq by metis
  then show "a = b" by simp
qed simp

lemma fold_diff_zero:
  "length x = length y \<Longrightarrow>
   fold (\<lambda>(a, b) v. v OR (of_char a XOR of_char b :: 8 word)) (zip x y) v = 0 \<longleftrightarrow> v = 0 \<and> x = y"
proof (induction x y arbitrary: v rule: list_induct2)
  case (Cons a x b y)
  have "fold (\<lambda>(a, b) v. v OR (of_char a XOR of_char b :: 8 word)) (zip (a # x) (b # y)) v = 0
      \<longleftrightarrow> v OR (of_char a XOR of_char b) = 0 \<and> x = y"
    by (simp only: zip_Cons_Cons fold_simps prod.case Cons.IH)
  also have "\<dots> \<longleftrightarrow> v = 0 \<and> a # x = b # y"
    unfolding word_or_zero word_xor_zero of_char_word_inject by blast
  finally show ?case .
qed simp

lemma constant_time_compare_eq [simp]: "constant_time_compare x y = 1 \<longleftrightarrow> x = y"
  by (auto simp: constant_time_compare_def fold_diff_zero)

end
