(* ===== verification/Security.thy ===== *)
theory Security
  imports Sha256
begin

text \<open>
  \<open>internal/core/security.go\<close>: opaque tokens, their stored digests, and password records.
  Argon2id (\<open>golang.org/x/crypto/argon2\<close>) is the parameter \<open>kdf\<close>: password, salt, passes,
  memory in KiB, lanes and key length give the key.
\<close>

type_synonym kdf = "string \<Rightarrow> string \<Rightarrow> int \<Rightarrow> int \<Rightarrow> int \<Rightarrow> nat \<Rightarrow> string"

datatype err =
    ErrUnauthorized
  | ErrConflict
  | ErrExpired
  | ErrForbidden
  | Failure string
  | UniqueViolation
  | ForeignKeyViolation
  | NoRows
  | OidcInvalidRequest
  | OidcInvalidScope
  | OidcLoginRequired
  | OidcInvalidGrant
  | OidcAccessDenied
  | OidcUnauthorizedClient
  | InvalidRefreshToken
  | DeadlineExceeded

section \<open>Tokens and digests\<close>

text \<open>\<open>raw\<close> is what \<open>rand.Read\<close> put into the 32-byte buffer.\<close>

definition RandomToken :: "string \<Rightarrow> string" where
  "RandomToken raw = base64_encode url_alphabet raw"

definition Hash :: "string \<Rightarrow> string" where
  "Hash value = hex_encode (sha256 value)"

definition equalHash :: "string \<Rightarrow> string \<Rightarrow> bool" where
  "equalHash raw hash = (constant_time_compare (Hash raw) hash = 1)"

lemma equalHash_iff [simp]: "equalHash raw hash \<longleftrightarrow> Hash raw = hash"
  by (simp add: equalHash_def)

lemma length_Hash [simp]: "length (Hash v) = 64"
  by (simp add: Hash_def length_hex_encode length_sha256)

section \<open>Password records\<close>

definition HashPassword :: "kdf \<Rightarrow> string \<Rightarrow> string \<Rightarrow> err + string" where
  "HashPassword kdf salt password =
     (if length password < 12 \<or> length password > 256
      then Inl (Failure ''password must contain 12-256 bytes'')
      else let key = kdf password salt 3 (64 * 1024) 2 32 in
        Inr (''$argon2id$v=19$m=65536,t=3,p=2$'' @ base64_encode std_alphabet salt
             @ ''$'' @ base64_encode std_alphabet key))"

text \<open>
  \<open>%d\<close> into a \<open>uint32\<close>: blanks are skipped (a newline is an error), then at least one
  decimal digit; a value of 33 bits or more is an error.
\<close>

definition is_digit :: "char \<Rightarrow> bool" where
  "is_digit c = (48 \<le> (of_char c :: int) \<and> (of_char c :: int) \<le> 57)"

definition decimal :: "string \<Rightarrow> int" where
  "decimal s = foldl (\<lambda>n c. 10 * n + (of_char c - 48)) 0 s"

definition scan_uint32 :: "string \<Rightarrow> (int \<times> string) option" where
  "scan_uint32 s =
     (let s = dropWhile (\<lambda>c. is_space c \<and> c \<noteq> CHR 0x0A) s;
          ds = takeWhile is_digit s;
          n = decimal ds
      in if ds = [] \<or> n \<ge> 2 ^ 32 then None else Some (n, dropWhile is_digit s))"

definition scan_literal :: "string \<Rightarrow> string \<Rightarrow> string option" where
  "scan_literal lit s = (if has_prefix s lit then Some (drop (length lit) s) else None)"

text \<open>\<open>fmt.Sscanf(s, "m=%d,t=%d,p=%d", ...)\<close>; input after the last verb is ignored.\<close>

definition scan_parameters :: "string \<Rightarrow> (int \<times> int \<times> int) option" where
  "scan_parameters s =
     Option.bind (scan_literal ''m='' s) (\<lambda>s.
     Option.bind (scan_uint32 s) (\<lambda>(memory, s).
     Option.bind (scan_literal '',t='' s) (\<lambda>s.
     Option.bind (scan_uint32 s) (\<lambda>(iterations, s).
     Option.bind (scan_literal '',p='' s) (\<lambda>s.
     Option.bind (scan_uint32 s) (\<lambda>(parallelism, s).
     Some (memory, iterations, parallelism)))))))"

definition PasswordMatches :: "kdf \<Rightarrow> string \<Rightarrow> string \<Rightarrow> bool" where
  "PasswordMatches kdf password encoded =
     (if length password > 256 then False
      else let fields = split_on CHR ''$'' encoded in
      if length fields \<noteq> 6 \<or> fields ! 1 \<noteq> ''argon2id'' \<or> fields ! 2 \<noteq> ''v=19'' then False
      else case scan_parameters (fields ! 3) of
        None \<Rightarrow> False
      | Some (memory, iterations, parallelism) \<Rightarrow>
          if memory < 8 * 1024 \<or> memory > 128 * 1024 \<or> iterations < 1 \<or> iterations > 6
             \<or> parallelism < 1 \<or> parallelism > 4 then False
          else (case base64_decode std_alphabet (fields ! 4) of
            None \<Rightarrow> False
          | Some salt \<Rightarrow> if length salt \<noteq> 16 then False
              else (case base64_decode std_alphabet (fields ! 5) of
                None \<Rightarrow> False
              | Some want \<Rightarrow> if length want \<noteq> 32 then False
                  else constant_time_compare (kdf password salt iterations memory parallelism 32) want = 1)))"

lemma scan_parameters_default: "scan_parameters ''m=65536,t=3,p=2'' = Some (65536, 3, 2)"
  by (simp add: scan_parameters_def scan_literal_def has_prefix_def scan_uint32_def is_digit_def
      is_space_def decimal_def Let_def)

lemma base64_no_dollar: "CHR ''$'' \<notin> set (base64_encode std_alphabet s)"
  using base64_encode_chars [of std_alphabet s] by auto

lemma split_encoded_password:
  "split_on CHR ''$'' (''$argon2id$v=19$m=65536,t=3,p=2$'' @ base64_encode std_alphabet salt
      @ ''$'' @ base64_encode std_alphabet key)
   = [[], ''argon2id'', ''v=19'', ''m=65536,t=3,p=2'', base64_encode std_alphabet salt,
      base64_encode std_alphabet key]"
  by (simp add: split_on_append [OF base64_no_dollar, simplified] split_on_none [OF base64_no_dollar])

text \<open>A key derivation for the witnesses.\<close>

definition kdf_example :: kdf where
  "kdf_example p s t m l n = take n (p @ replicate n CHR ''x'')"

section \<open>Properties\<close>

text \<open>A token drawn from the 32 random bytes is 43 characters of the URL-safe alphabet and
  determines the bytes: distinct draws give distinct tokens.\<close>

theorem RandomToken_faithful:
  assumes "length raw = 32"
  shows "length (RandomToken raw) = 43 \<and> set (RandomToken raw) \<subseteq> set url_alphabet
    \<and> base64_decode url_alphabet (RandomToken raw) = Some raw"
  using assms
  by (simp add: RandomToken_def length_base64_encode base64_encode_chars base64_decode_encode)

theorem RandomToken_faithful_witness:
  "length (RandomToken (replicate 32 CHR 0xFF)) = 43
    \<and> base64_decode url_alphabet (RandomToken (replicate 32 CHR 0xFF)) = Some (replicate 32 CHR 0xFF)"
  using RandomToken_faithful [of "replicate 32 CHR 0xFF"] by simp

text \<open>A stored password record verifies exactly the passwords (of at most 256 bytes) that
  derive the same key: in particular the password it was made from.\<close>

theorem PasswordMatches_HashPassword:
  assumes "HashPassword kdf salt password = Inr encoded"
    and "length salt = 16"
    and "length (kdf password salt 3 65536 2 32) = 32"
  shows "PasswordMatches kdf attempt encoded \<longleftrightarrow>
    length attempt \<le> 256 \<and> kdf attempt salt 3 65536 2 32 = kdf password salt 3 65536 2 32"
proof -
  have encoded: "encoded = ''$argon2id$v=19$m=65536,t=3,p=2$'' @ base64_encode std_alphabet salt
      @ ''$'' @ base64_encode std_alphabet (kdf password salt 3 65536 2 32)"
    using assms(1) by (simp add: HashPassword_def Let_def split: if_splits)
  show ?thesis
    unfolding encoded PasswordMatches_def split_encoded_password
    using assms(2,3) by (simp add: scan_parameters_default base64_decode_encode Let_def)
qed

theorem PasswordMatches_HashPassword_witness:
  "PasswordMatches (\<lambda>p s t m l n. take 32 (p @ replicate 32 CHR ''x'')) ''correct horse''
     (''$argon2id$v=19$m=65536,t=3,p=2$'' @ base64_encode std_alphabet (replicate 16 CHR ''s'') @ ''$''
      @ base64_encode std_alphabet (take 32 (''correct horse'' @ replicate 32 CHR ''x'')))"
  using PasswordMatches_HashPassword
    [where kdf = "\<lambda>p s t m l n. take 32 (p @ replicate 32 CHR ''x'')"
       and salt = "replicate 16 CHR ''s''" and password = "''correct horse''"
       and attempt = "''correct horse''"]
  by (simp add: HashPassword_def Let_def)

text \<open>A password record, however corrupted, never makes the server run the key derivation
  outside the bounds on memory, passes and lanes, and a password matches only by deriving the
  stored 32-byte key from the stored 16-byte salt.\<close>

theorem PasswordMatches_bounded:
  assumes "PasswordMatches kdf password encoded"
  shows "\<exists>memory iterations parallelism salt want.
    8192 \<le> memory \<and> memory \<le> 131072 \<and> 1 \<le> iterations \<and> iterations \<le> 6
    \<and> 1 \<le> parallelism \<and> parallelism \<le> 4 \<and> length salt = 16 \<and> length want = 32
    \<and> scan_parameters (split_on CHR ''$'' encoded ! 3) = Some (memory, iterations, parallelism)
    \<and> base64_decode std_alphabet (split_on CHR ''$'' encoded ! 4) = Some salt
    \<and> base64_decode std_alphabet (split_on CHR ''$'' encoded ! 5) = Some want
    \<and> kdf password salt iterations memory parallelism 32 = want"
  using assms
  by (auto simp: PasswordMatches_def Let_def split: if_splits option.splits)

theorem PasswordMatches_bounded_witness:
  "\<exists>memory iterations parallelism salt want.
    memory \<le> 131072 \<and> iterations \<le> 6 \<and> parallelism \<le> 4 \<and> length salt = 16 \<and> length want = 32
    \<and> kdf_example ''pw'' salt iterations memory parallelism 32 = want"
proof -
  let ?encoded = "''$argon2id$v=19$m=65536,t=3,p=2$'' @ base64_encode std_alphabet (replicate 16 CHR ''s'')
    @ ''$'' @ base64_encode std_alphabet (take 32 (''pw'' @ replicate 32 CHR ''x''))"
  have "PasswordMatches kdf_example ''pw'' ?encoded"
    unfolding PasswordMatches_def split_encoded_password
    by (simp add: scan_parameters_default base64_decode_encode Let_def kdf_example_def)
  from PasswordMatches_bounded [OF this] show ?thesis by blast
qed

end
