(* ===== verification/Schema.thy ===== *)
theory Schema
  imports Security
begin

text \<open>
  The PostgreSQL schema of \<open>internal/core/migrations/\<close> after migration 014: one record per
  table, the enumerations of its CHECK constraints, the unique indexes, and the database as
  the record of its tables. JSON columns hold the structure they encode. Every index is an
  interpretation of \<open>unique_index\<close>, and every primary key one of \<open>keyed_table\<close>.
\<close>

section \<open>Enumerations\<close>

datatype role = Member | Admin
datatype account_status = Active | Disabled
datatype link_state = Pending | Confirmed | Prepared | Linked | Revoked
datatype device_status = DevicePending | DeviceApproved | DeviceDenied | DeviceConsumed
datatype credential_kind = Invite | Recovery | MfaReset
datatype delivery_kind = EventKind | LogoutKind
datatype outcome = Delivered | HttpError | TransportError | ConfigurationError | SigningError

text \<open>
  The states of a link in the order a binding runs through them; \<open>'active'\<close> of the schema is
  \<open>Linked\<close>.
\<close>

fun link_rank :: "link_state \<Rightarrow> nat" where
  "link_rank Pending = 0"
| "link_rank Confirmed = 1"
| "link_rank Prepared = 2"
| "link_rank Linked = 3"
| "link_rank Revoked = 4"

instantiation link_state :: linorder
begin

definition less_eq_link_state :: "link_state \<Rightarrow> link_state \<Rightarrow> bool" where
  "less_eq_link_state a b = (link_rank a \<le> link_rank b)"

definition less_link_state :: "link_state \<Rightarrow> link_state \<Rightarrow> bool" where
  "less_link_state a b = (link_rank a < link_rank b)"

instance
proof
  fix a b :: link_state
  show "a \<le> b \<Longrightarrow> b \<le> a \<Longrightarrow> a = b"
    by (cases a; cases b) (simp_all add: less_eq_link_state_def)
qed (auto simp: less_eq_link_state_def less_link_state_def)

end

section \<open>Values stored as JSON\<close>

text \<open>
  \<open>core.Client\<close> (\<open>client.go\<close>); grant types and scopes are the strings of
  \<open>zitadel/oidc\<close>'s constants.
\<close>

record client =
  cl_id :: string
  cl_name :: string
  cl_redirects :: "string list"
  cl_logout_redirects :: "string list"
  cl_scopes :: "string list"
  cl_resources :: "string list"
  cl_grants :: "string list"
  cl_public :: bool
  cl_development :: bool
  cl_backchannel_url :: string
  cl_events_url :: string

definition GrantTypeCode :: string where "GrantTypeCode = ''authorization_code''"
definition GrantTypeRefreshToken :: string where "GrantTypeRefreshToken = ''refresh_token''"
definition GrantTypeClientCredentials :: string where
  "GrantTypeClientCredentials = ''client_credentials''"
definition GrantTypeDeviceCode :: string where
  "GrantTypeDeviceCode = ''urn:ietf:params:oauth:grant-type:device_code''"
definition GrantTypeTokenExchange :: string where
  "GrantTypeTokenExchange = ''urn:ietf:params:oauth:grant-type:token-exchange''"
definition ScopeOpenID :: string where "ScopeOpenID = ''openid''"
definition ScopeProfile :: string where "ScopeProfile = ''profile''"
definition ScopeEmail :: string where "ScopeEmail = ''email''"
definition ScopeOfflineAccess :: string where "ScopeOfflineAccess = ''offline_access''"

lemmas oidc_constants = GrantTypeCode_def GrantTypeRefreshToken_def GrantTypeClientCredentials_def
  GrantTypeDeviceCode_def GrantTypeTokenExchange_def ScopeOpenID_def ScopeProfile_def
  ScopeEmail_def ScopeOfflineAccess_def

text \<open>The fields of \<open>oidc.AuthRequest\<close> the service reads, and \<open>core.Authorization\<close>.\<close>

record auth_request =
  rq_client_id :: string
  rq_redirect_uri :: string
  rq_response_type :: string
  rq_scopes :: "string list"
  rq_state :: string
  rq_nonce :: string
  rq_code_challenge :: string
  rq_code_challenge_method :: string
  rq_prompt :: "string list"
  rq_max_age :: "int option"

record authorization =
  az_id :: string
  az_created_at :: time
  az_request :: auth_request
  az_subject :: string
  az_session_id :: string
  az_auth_time :: time
  az_authenticated :: bool

text \<open>\<open>core.Token\<close> (\<open>tokens.go\<close>).\<close>

record token =
  tk_id :: string
  tk_client_id :: string
  tk_subject :: string
  tk_audience :: "string list"
  tk_scopes :: "string list"
  tk_auth_time :: time
  tk_session_id :: string
  tk_family_id :: string
  tk_service :: bool
  tk_grant :: string
  tk_delegated :: bool
  tk_source_token_id :: string
  tk_expires_at :: time

text \<open>\<open>core.AccountLink\<close> (\<open>links.go\<close>), also the body of a revocation event.\<close>

record account_link =
  ln_id :: string
  ln_client_id :: string
  ln_local_ref :: string
  ln_subject :: string
  ln_state :: link_state
  ln_version :: int
  ln_verified_at :: time

datatype payload =
    LinkRevoked account_link
  | StatusChanged string string int
  | LogoutOf string string

section \<open>Tables\<close>

record identity_row =
  i_id :: string
  i_email :: string
  i_name :: string
  i_password_hash :: string
  i_role :: role
  i_status :: account_status
  i_email_verified :: bool
  i_mfa_secret :: "string option"
  i_pending_mfa_secret :: "string option"
  i_pending_mfa_expires :: "time option"
  i_mfa_last_step :: int
  i_status_version :: int

record session_row =
  s_id :: string
  s_token_hash :: string
  s_identity_id :: string
  s_csrf_hash :: string
  s_authenticated_at :: time
  s_expires_at :: time
  s_revoked_at :: "time option"
  s_mfa_at :: "time option"

record application_row =
  a_id :: string
  a_name :: string
  a_secret_hash :: string
  a_config :: client
  a_active :: bool
  a_created_at :: time
  a_previous_secret_hash :: "string option"
  a_previous_secret_expires_at :: "time option"

record auth_request_row =
  r_id :: string
  r_client_id :: string
  r_payload :: authorization
  r_code_hash :: "string option"
  r_expires_at :: time
  r_code_expires_at :: "time option"
  r_consumed_at :: "time option"

record family_row =
  f_id :: string
  f_subject :: string
  f_client_id :: string
  f_session_id :: string
  f_revoked_at :: "time option"
  f_expires_at :: time

record refresh_row =
  rt_token_hash :: string
  rt_family_id :: string
  rt_payload :: token
  rt_consumed_at :: "time option"
  rt_expires_at :: time

record access_row =
  t_id :: string
  t_client_id :: string
  t_subject :: string
  t_family_id :: "string option"
  t_payload :: token
  t_expires_at :: time
  t_revoked_at :: "time option"

record intent_row =
  n_id :: string
  n_client_id :: string
  n_local_ref :: string
  n_idempotency_key :: string
  n_payload_hash :: string
  n_nonce :: string
  n_subject :: "string option"
  n_state :: link_state
  n_expires_at :: time

record link_row =
  l_id :: string
  l_client_id :: string
  l_local_ref :: string
  l_subject :: string
  l_state :: link_state
  l_version :: int
  l_verified_at :: time
  l_revoked_at :: "time option"

record credential_row =
  c_token_hash :: string
  c_kind :: credential_kind
  c_email :: string
  c_expires_at :: time
  c_consumed_at :: "time option"

record audit_row =
  e_actor :: string
  e_action :: string
  e_target :: string
  e_created_at :: time

record outbox_row =
  o_id :: string
  o_client_id :: string
  o_payload :: payload
  o_kind :: delivery_kind
  o_created_at :: time
  o_available_at :: time
  o_lease_until :: "time option"
  o_lease_token :: "string option"
  o_delivered_at :: "time option"
  o_attempts :: int
  o_last_status :: "int option"
  o_dead_at :: "time option"

record attempt_row =
  p_event_id :: string
  p_attempt :: int
  p_outcome :: outcome
  p_http_status :: "int option"
  p_duration_ms :: int
  p_finished_at :: time

record rate_row =
  q_key :: string
  q_count :: int
  q_expires_at :: time

record recovery_row =
  v_identity_id :: string
  v_token_hash :: string
  v_consumed_at :: "time option"

record device_row =
  d_device_code_hash :: string
  d_user_code :: string
  d_client_id :: string
  d_scopes :: "string list"
  d_expires_at :: time
  d_status :: device_status
  d_subject :: "string option"
  d_auth_time :: "time option"
  d_next_poll_at :: time
  d_poll_interval_seconds :: int

record policy_row =
  x_caller :: string
  x_target :: string
  x_resource :: string
  x_scope :: string
  x_active :: bool

record consent_row =
  y_subject :: string
  y_caller :: string
  y_target :: string
  y_resource :: string
  y_scope :: string
  y_granted_at :: time
  y_revoked_at :: "time option"

record installation_row =
  k_id :: string
  k_client_id :: string
  k_subject :: string
  k_installation_ref :: string
  k_device_token_id :: string
  k_secret_hash :: string
  k_created_at :: time
  k_revoked_at :: "time option"

record db =
  identities :: "identity_row list"
  browser_sessions :: "session_row list"
  applications :: "application_row list"
  auth_requests :: "auth_request_row list"
  token_families :: "family_row list"
  refresh_tokens :: "refresh_row list"
  access_tokens :: "access_row list"
  link_intents :: "intent_row list"
  account_links :: "link_row list"
  one_time_credentials :: "credential_row list"
  audit_events :: "audit_row list"
  outbox :: "outbox_row list"
  outbox_attempts :: "attempt_row list"
  rate_limits :: "rate_row list"
  recovery_codes :: "recovery_row list"
  device_authorizations :: "device_row list"
  exchange_policies :: "policy_row list"
  exchange_consents :: "consent_row list"
  device_installations :: "installation_row list"

definition empty_db :: db where
  "empty_db = \<lparr>identities = [], browser_sessions = [], applications = [], auth_requests = [],
     token_families = [], refresh_tokens = [], access_tokens = [], link_intents = [],
     account_links = [], one_time_credentials = [], audit_events = [], outbox = [],
     outbox_attempts = [], rate_limits = [], recovery_codes = [], device_authorizations = [],
     exchange_policies = [], exchange_consents = [], device_installations = []\<rparr>"

section \<open>Unique indexes\<close>

text \<open>A partial index or one on a nullable column compares only the rows it covers.\<close>

fun same_some :: "'a option \<Rightarrow> 'a option \<Rightarrow> bool" where
  "same_some (Some x) (Some y) = (x = y)"
| "same_some _ _ = False"

lemma same_some_sym: "same_some x y \<Longrightarrow> same_some y x"
  by (cases x; cases y) auto

definition identity_clash :: "identity_row \<Rightarrow> identity_row \<Rightarrow> bool" where
  "identity_clash a b = (i_id a = i_id b \<or> i_email a = i_email b)"

definition session_clash :: "session_row \<Rightarrow> session_row \<Rightarrow> bool" where
  "session_clash a b = (s_id a = s_id b \<or> s_token_hash a = s_token_hash b)"

definition application_clash :: "application_row \<Rightarrow> application_row \<Rightarrow> bool" where
  "application_clash a b = (a_id a = a_id b)"

definition auth_request_clash :: "auth_request_row \<Rightarrow> auth_request_row \<Rightarrow> bool" where
  "auth_request_clash a b = (r_id a = r_id b \<or> same_some (r_code_hash a) (r_code_hash b))"

definition family_clash :: "family_row \<Rightarrow> family_row \<Rightarrow> bool" where
  "family_clash a b = (f_id a = f_id b)"

definition refresh_clash :: "refresh_row \<Rightarrow> refresh_row \<Rightarrow> bool" where
  "refresh_clash a b = (rt_token_hash a = rt_token_hash b)"

definition access_clash :: "access_row \<Rightarrow> access_row \<Rightarrow> bool" where
  "access_clash a b = (t_id a = t_id b)"

definition intent_clash :: "intent_row \<Rightarrow> intent_row \<Rightarrow> bool" where
  "intent_clash a b = (n_id a = n_id b
     \<or> n_client_id a = n_client_id b \<and> n_idempotency_key a = n_idempotency_key b)"

text \<open>\<open>links_local_live\<close> and \<open>links_subject_live\<close> cover the rows that are not revoked.\<close>

definition link_clash :: "link_row \<Rightarrow> link_row \<Rightarrow> bool" where
  "link_clash a b = (l_id a = l_id b
     \<or> l_state a \<noteq> Revoked \<and> l_state b \<noteq> Revoked \<and> l_client_id a = l_client_id b
       \<and> (l_local_ref a = l_local_ref b \<or> l_subject a = l_subject b))"

definition credential_clash :: "credential_row \<Rightarrow> credential_row \<Rightarrow> bool" where
  "credential_clash a b = (c_token_hash a = c_token_hash b)"

definition outbox_clash :: "outbox_row \<Rightarrow> outbox_row \<Rightarrow> bool" where
  "outbox_clash a b = (o_id a = o_id b)"

definition rate_clash :: "rate_row \<Rightarrow> rate_row \<Rightarrow> bool" where
  "rate_clash a b = (q_key a = q_key b)"

definition recovery_clash :: "recovery_row \<Rightarrow> recovery_row \<Rightarrow> bool" where
  "recovery_clash a b = (v_identity_id a = v_identity_id b \<and> v_token_hash a = v_token_hash b)"

definition device_clash :: "device_row \<Rightarrow> device_row \<Rightarrow> bool" where
  "device_clash a b = (d_device_code_hash a = d_device_code_hash b \<or> d_user_code a = d_user_code b)"

definition policy_clash :: "policy_row \<Rightarrow> policy_row \<Rightarrow> bool" where
  "policy_clash a b = (x_caller a = x_caller b \<and> x_resource a = x_resource b \<and> x_scope a = x_scope b)"

definition consent_clash :: "consent_row \<Rightarrow> consent_row \<Rightarrow> bool" where
  "consent_clash a b = (y_subject a = y_subject b \<and> y_caller a = y_caller b
     \<and> y_target a = y_target b \<and> y_resource a = y_resource b \<and> y_scope a = y_scope b)"

definition installation_clash :: "installation_row \<Rightarrow> installation_row \<Rightarrow> bool" where
  "installation_clash a b = (k_id a = k_id b \<or> k_device_token_id a = k_device_token_id b
     \<or> k_secret_hash a = k_secret_hash b
     \<or> k_revoked_at a = None \<and> k_revoked_at b = None \<and> k_client_id a = k_client_id b
       \<and> k_installation_ref a = k_installation_ref b)"

lemmas clash_defs = identity_clash_def session_clash_def application_clash_def
  auth_request_clash_def family_clash_def refresh_clash_def access_clash_def intent_clash_def
  link_clash_def credential_clash_def outbox_clash_def rate_clash_def recovery_clash_def
  device_clash_def policy_clash_def consent_clash_def installation_clash_def

interpretation identity_ix: keyed_table identity_clash i_id
  by unfold_locales (auto simp: identity_clash_def)
interpretation session_ix: keyed_table session_clash s_id
  by unfold_locales (auto simp: session_clash_def)
interpretation application_ix: keyed_table application_clash a_id
  by unfold_locales (auto simp: application_clash_def)
interpretation auth_request_ix: keyed_table auth_request_clash r_id
  by unfold_locales (auto simp: auth_request_clash_def dest: same_some_sym)
interpretation family_ix: keyed_table family_clash f_id
  by unfold_locales (auto simp: family_clash_def)
interpretation refresh_ix: keyed_table refresh_clash rt_token_hash
  by unfold_locales (auto simp: refresh_clash_def)
interpretation access_ix: keyed_table access_clash t_id
  by unfold_locales (auto simp: access_clash_def)
interpretation intent_ix: keyed_table intent_clash n_id
  by unfold_locales (auto simp: intent_clash_def)
interpretation link_ix: keyed_table link_clash l_id
  by unfold_locales (auto simp: link_clash_def)
interpretation credential_ix: keyed_table credential_clash c_token_hash
  by unfold_locales (auto simp: credential_clash_def)
interpretation outbox_ix: keyed_table outbox_clash o_id
  by unfold_locales (auto simp: outbox_clash_def)
interpretation rate_ix: keyed_table rate_clash q_key
  by unfold_locales (auto simp: rate_clash_def)
interpretation recovery_ix: keyed_table recovery_clash "\<lambda>r. (v_identity_id r, v_token_hash r)"
  by unfold_locales (auto simp: recovery_clash_def)
interpretation device_ix: keyed_table device_clash d_device_code_hash
  by unfold_locales (auto simp: device_clash_def)
interpretation policy_ix: keyed_table policy_clash "\<lambda>r. (x_caller r, x_resource r, x_scope r)"
  by unfold_locales (auto simp: policy_clash_def)
interpretation consent_ix:
  keyed_table consent_clash "\<lambda>r. (y_subject r, y_caller r, y_target r, y_resource r, y_scope r)"
  by unfold_locales (auto simp: consent_clash_def)
interpretation installation_ix: keyed_table installation_clash k_id
  by unfold_locales (auto simp: installation_clash_def)

section \<open>Shared statements\<close>

text \<open>\<open>classify\<close> (\<open>store.go\<close>) and \<open>audit\<close>, which appends to the audit trail.\<close>

fun classify :: "err \<Rightarrow> err" where
  "classify UniqueViolation = ErrConflict"
| "classify NoRows = ErrUnauthorized"
| "classify e = e"

definition audit :: "time \<Rightarrow> string \<Rightarrow> string \<Rightarrow> string \<Rightarrow> db \<Rightarrow> db" where
  "audit now actor action target db = db\<lparr>audit_events := audit_events db
     @ [\<lparr>e_actor = actor, e_action = action, e_target = target, e_created_at = now\<rparr>]\<rparr>"

lemma audit_frame [simp]:
  "identities (audit now a b c db) = identities db"
  "browser_sessions (audit now a b c db) = browser_sessions db"
  "applications (audit now a b c db) = applications db"
  "auth_requests (audit now a b c db) = auth_requests db"
  "token_families (audit now a b c db) = token_families db"
  "refresh_tokens (audit now a b c db) = refresh_tokens db"
  "access_tokens (audit now a b c db) = access_tokens db"
  "link_intents (audit now a b c db) = link_intents db"
  "account_links (audit now a b c db) = account_links db"
  "one_time_credentials (audit now a b c db) = one_time_credentials db"
  "outbox (audit now a b c db) = outbox db"
  "outbox_attempts (audit now a b c db) = outbox_attempts db"
  "rate_limits (audit now a b c db) = rate_limits db"
  "recovery_codes (audit now a b c db) = recovery_codes db"
  "device_authorizations (audit now a b c db) = device_authorizations db"
  "exchange_policies (audit now a b c db) = exchange_policies db"
  "exchange_consents (audit now a b c db) = exchange_consents db"
  "device_installations (audit now a b c db) = device_installations db"
  by (simp_all add: audit_def)

end
