(* ===== verification/History.thy ===== *)
theory History
  imports Schema
begin

text \<open>
  What the operations keep, stated once for the whole schema. \<open>schema_ok\<close> says that every
  unique index holds. \<open>evolves D db db'\<close> is the history every operation respects: how a row may
  change (never back from revoked, consumed, delivered; link states and versions only forward;
  keys, owners and roles fixed), which tables lose no row, that the audit trail is only
  appended to, and that a row that appears in a table with deletions carries a key outside \<open>D\<close>,
  the random values drawn so far. The locale \<open>row_history\<close> is the contract of a row order; every
  table's order interprets it.
\<close>

named_theorems statement_defs \<open>the small statements the operations are made of\<close>

section \<open>The indexes hold\<close>

definition schema_ok :: "db \<Rightarrow> bool" where
  "schema_ok db \<longleftrightarrow>
     indexed identity_clash (identities db) \<and> indexed session_clash (browser_sessions db)
     \<and> indexed application_clash (applications db) \<and> indexed auth_request_clash (auth_requests db)
     \<and> indexed family_clash (token_families db) \<and> indexed refresh_clash (refresh_tokens db)
     \<and> indexed access_clash (access_tokens db) \<and> indexed intent_clash (link_intents db)
     \<and> indexed link_clash (account_links db) \<and> indexed credential_clash (one_time_credentials db)
     \<and> indexed outbox_clash (outbox db) \<and> indexed rate_clash (rate_limits db)
     \<and> indexed recovery_clash (recovery_codes db) \<and> indexed device_clash (device_authorizations db)
     \<and> indexed policy_clash (exchange_policies db) \<and> indexed consent_clash (exchange_consents db)
     \<and> indexed installation_clash (device_installations db)"

lemma schema_ok_tables [simp]:
  assumes "schema_ok db"
  shows "indexed identity_clash (identities db)" "indexed session_clash (browser_sessions db)"
    "indexed application_clash (applications db)" "indexed auth_request_clash (auth_requests db)"
    "indexed family_clash (token_families db)" "indexed refresh_clash (refresh_tokens db)"
    "indexed access_clash (access_tokens db)" "indexed intent_clash (link_intents db)"
    "indexed link_clash (account_links db)" "indexed credential_clash (one_time_credentials db)"
    "indexed outbox_clash (outbox db)" "indexed rate_clash (rate_limits db)"
    "indexed recovery_clash (recovery_codes db)" "indexed device_clash (device_authorizations db)"
    "indexed policy_clash (exchange_policies db)" "indexed consent_clash (exchange_consents db)"
    "indexed installation_clash (device_installations db)"
  using assms by (auto simp: schema_ok_def)

lemma schema_ok_empty: "schema_ok empty_db"
  by (simp add: schema_ok_def empty_db_def indexed_def)

lemma schema_ok_updates [schema_intros]:
  "schema_ok db \<Longrightarrow> indexed identity_clash t1 \<Longrightarrow> schema_ok (db\<lparr>identities := t1\<rparr>)"
  "schema_ok db \<Longrightarrow> indexed session_clash t2 \<Longrightarrow> schema_ok (db\<lparr>browser_sessions := t2\<rparr>)"
  "schema_ok db \<Longrightarrow> indexed application_clash t3 \<Longrightarrow> schema_ok (db\<lparr>applications := t3\<rparr>)"
  "schema_ok db \<Longrightarrow> indexed auth_request_clash t4 \<Longrightarrow> schema_ok (db\<lparr>auth_requests := t4\<rparr>)"
  "schema_ok db \<Longrightarrow> indexed family_clash t5 \<Longrightarrow> schema_ok (db\<lparr>token_families := t5\<rparr>)"
  "schema_ok db \<Longrightarrow> indexed refresh_clash t6 \<Longrightarrow> schema_ok (db\<lparr>refresh_tokens := t6\<rparr>)"
  "schema_ok db \<Longrightarrow> indexed access_clash t7 \<Longrightarrow> schema_ok (db\<lparr>access_tokens := t7\<rparr>)"
  "schema_ok db \<Longrightarrow> indexed intent_clash t8 \<Longrightarrow> schema_ok (db\<lparr>link_intents := t8\<rparr>)"
  "schema_ok db \<Longrightarrow> indexed link_clash t9 \<Longrightarrow> schema_ok (db\<lparr>account_links := t9\<rparr>)"
  "schema_ok db \<Longrightarrow> indexed credential_clash t10 \<Longrightarrow> schema_ok (db\<lparr>one_time_credentials := t10\<rparr>)"
  "schema_ok db \<Longrightarrow> indexed outbox_clash t11 \<Longrightarrow> schema_ok (db\<lparr>outbox := t11\<rparr>)"
  "schema_ok db \<Longrightarrow> indexed rate_clash t12 \<Longrightarrow> schema_ok (db\<lparr>rate_limits := t12\<rparr>)"
  "schema_ok db \<Longrightarrow> indexed recovery_clash t13 \<Longrightarrow> schema_ok (db\<lparr>recovery_codes := t13\<rparr>)"
  "schema_ok db \<Longrightarrow> indexed device_clash t14 \<Longrightarrow> schema_ok (db\<lparr>device_authorizations := t14\<rparr>)"
  "schema_ok db \<Longrightarrow> indexed policy_clash t15 \<Longrightarrow> schema_ok (db\<lparr>exchange_policies := t15\<rparr>)"
  "schema_ok db \<Longrightarrow> indexed consent_clash t16 \<Longrightarrow> schema_ok (db\<lparr>exchange_consents := t16\<rparr>)"
  "schema_ok db \<Longrightarrow> indexed installation_clash t17 \<Longrightarrow> schema_ok (db\<lparr>device_installations := t17\<rparr>)"
  "schema_ok db \<Longrightarrow> schema_ok (db\<lparr>audit_events := a\<rparr>)"
  "schema_ok db \<Longrightarrow> schema_ok (db\<lparr>outbox_attempts := p\<rparr>)"
  by (simp_all add: schema_ok_def del: schema_ok_tables)

lemma schema_ok_audit [schema_intros]: "schema_ok db \<Longrightarrow> schema_ok (audit now a b c db)"
  by (simp add: audit_def schema_intros)

text \<open>Two rows with one key are one row.\<close>

lemma row_unique:
  "i_id i = i_id i' \<Longrightarrow> schema_ok db \<Longrightarrow> i \<in> set (identities db) \<Longrightarrow> i' \<in> set (identities db) \<Longrightarrow> i = i'"
  "s_id s = s_id s' \<Longrightarrow> schema_ok db \<Longrightarrow> s \<in> set (browser_sessions db) \<Longrightarrow>
    s' \<in> set (browser_sessions db) \<Longrightarrow> s = s'"
  "a_id a = a_id a' \<Longrightarrow> schema_ok db \<Longrightarrow> a \<in> set (applications db) \<Longrightarrow> a' \<in> set (applications db) \<Longrightarrow> a = a'"
  "r_id r = r_id r' \<Longrightarrow> schema_ok db \<Longrightarrow> r \<in> set (auth_requests db) \<Longrightarrow> r' \<in> set (auth_requests db) \<Longrightarrow>
    r = r'"
  "f_id f = f_id f' \<Longrightarrow> schema_ok db \<Longrightarrow> f \<in> set (token_families db) \<Longrightarrow> f' \<in> set (token_families db) \<Longrightarrow>
    f = f'"
  "rt_token_hash x = rt_token_hash x' \<Longrightarrow> schema_ok db \<Longrightarrow> x \<in> set (refresh_tokens db) \<Longrightarrow>
    x' \<in> set (refresh_tokens db) \<Longrightarrow> x = x'"
  "t_id t = t_id t' \<Longrightarrow> schema_ok db \<Longrightarrow> t \<in> set (access_tokens db) \<Longrightarrow> t' \<in> set (access_tokens db) \<Longrightarrow>
    t = t'"
  "n_id n = n_id n' \<Longrightarrow> schema_ok db \<Longrightarrow> n \<in> set (link_intents db) \<Longrightarrow> n' \<in> set (link_intents db) \<Longrightarrow> n = n'"
  "l_id l = l_id l' \<Longrightarrow> schema_ok db \<Longrightarrow> l \<in> set (account_links db) \<Longrightarrow> l' \<in> set (account_links db) \<Longrightarrow> l = l'"
  "c_token_hash c = c_token_hash c' \<Longrightarrow> schema_ok db \<Longrightarrow> c \<in> set (one_time_credentials db) \<Longrightarrow>
    c' \<in> set (one_time_credentials db) \<Longrightarrow> c = c'"
  "o_id e = o_id e' \<Longrightarrow> schema_ok db \<Longrightarrow> e \<in> set (outbox db) \<Longrightarrow> e' \<in> set (outbox db) \<Longrightarrow> e = e'"
  "d_device_code_hash d = d_device_code_hash d' \<Longrightarrow> schema_ok db \<Longrightarrow> d \<in> set (device_authorizations db) \<Longrightarrow>
    d' \<in> set (device_authorizations db) \<Longrightarrow> d = d'"
  "k_id k = k_id k' \<Longrightarrow> schema_ok db \<Longrightarrow> k \<in> set (device_installations db) \<Longrightarrow>
    k' \<in> set (device_installations db) \<Longrightarrow> k = k'"
  by (auto intro: identity_ix.key_unique session_ix.key_unique application_ix.key_unique
      auth_request_ix.key_unique family_ix.key_unique refresh_ix.key_unique access_ix.key_unique
      intent_ix.key_unique link_ix.key_unique credential_ix.key_unique outbox_ix.key_unique
      device_ix.key_unique installation_ix.key_unique simp del: schema_ok_tables
      dest: schema_ok_tables)

lemmas inserted_indexed [schema_intros] = identity_ix.snoc_indexed session_ix.snoc_indexed
  application_ix.snoc_indexed auth_request_ix.snoc_indexed family_ix.snoc_indexed
  refresh_ix.snoc_indexed access_ix.snoc_indexed intent_ix.snoc_indexed link_ix.snoc_indexed
  credential_ix.snoc_indexed outbox_ix.snoc_indexed device_ix.snoc_indexed policy_ix.snoc_indexed
  installation_ix.snoc_indexed consent_ix.snoc_indexed rate_ix.snoc_indexed
  outbox_ix.append_indexed recovery_ix.append_indexed

lemmas updated_indexed [schema_intros] = identity_ix.update_rows_indexed
  session_ix.update_rows_indexed application_ix.update_rows_indexed
  auth_request_ix.update_rows_indexed family_ix.update_rows_indexed refresh_ix.update_rows_indexed
  access_ix.update_rows_indexed intent_ix.update_rows_indexed link_ix.update_rows_indexed
  credential_ix.update_rows_indexed outbox_ix.update_rows_indexed rate_ix.update_rows_indexed
  recovery_ix.update_rows_indexed device_ix.update_rows_indexed policy_ix.update_rows_indexed
  consent_ix.update_rows_indexed installation_ix.update_rows_indexed

lemmas deleted_indexed [schema_intros] = auth_request_ix.delete_rows_indexed
  access_ix.delete_rows_indexed rate_ix.delete_rows_indexed outbox_ix.delete_rows_indexed
  recovery_ix.delete_rows_indexed device_ix.delete_rows_indexed

section \<open>Histories of tables\<close>

definition grows :: "('r \<Rightarrow> 'r \<Rightarrow> bool) \<Rightarrow> 'r list \<Rightarrow> 'r list \<Rightarrow> bool" where
  "grows le t t' = (\<forall>r\<in>set t. \<exists>s\<in>set t'. le r s)"

definition descends :: "('r \<Rightarrow> 'r \<Rightarrow> bool) \<Rightarrow> ('r \<Rightarrow> 'k) \<Rightarrow> 'k set \<Rightarrow> 'r list \<Rightarrow> 'r list \<Rightarrow> bool" where
  "descends le key D t t' = (\<forall>s\<in>set t'. (\<exists>r\<in>set t. le r s) \<or> key s \<notin> D)"

named_theorems history_intros \<open>the statements respect the history of a table\<close>

locale row_history =
  fixes le :: "'r \<Rightarrow> 'r \<Rightarrow> bool" and key :: "'r \<Rightarrow> 'k"
  assumes le_refl: "le r r"
    and le_trans: "le a b \<Longrightarrow> le b c \<Longrightarrow> le a c"
    and le_key: "le a b \<Longrightarrow> key a = key b"
begin

lemma grows_refl: "grows le t t"
  unfolding grows_def using le_refl by blast

lemma grows_trans: "grows le t u \<Longrightarrow> grows le u v \<Longrightarrow> grows le t v"
  unfolding grows_def by (meson le_trans)

lemma grows_update:
  assumes "grows le t u" "\<And>r. r \<in> set u \<Longrightarrow> P r \<Longrightarrow> le r (f r)"
  shows "grows le t (update_rows P f u)"
proof (rule grows_trans [OF assms(1)])
  show "grows le u (update_rows P f u)"
    unfolding grows_def
  proof
    fix r assume "r \<in> set u"
    then have "le r (if P r then f r else r)" using assms(2) by (simp add: le_refl)
    moreover have "(if P r then f r else r) \<in> set (update_rows P f u)"
      unfolding set_update_rows using \<open>r \<in> set u\<close> by (rule imageI)
    ultimately show "\<exists>s\<in>set (update_rows P f u). le r s" by blast
  qed
qed

lemma grows_append: "grows le t u \<Longrightarrow> grows le t (u @ rs)"
  unfolding grows_def by fastforce

lemma descends_refl: "descends le key D t t"
  unfolding descends_def using le_refl by blast

lemma descends_trans:
  "descends le key D t u \<Longrightarrow> descends le key D' u v \<Longrightarrow> D \<subseteq> D' \<Longrightarrow> descends le key D t v"
  unfolding descends_def by (metis le_trans le_key subsetD)

lemma descends_update:
  assumes "descends le key D t u" "\<And>r. r \<in> set u \<Longrightarrow> P r \<Longrightarrow> le r (f r)"
  shows "descends le key D t (update_rows P f u)"
proof (rule descends_trans [OF assms(1) _ subset_refl])
  show "descends le key D u (update_rows P f u)"
    using assms(2) by (auto simp: descends_def table_simps intro: le_refl)
qed

lemma descends_delete: "descends le key D t u \<Longrightarrow> descends le key D t (delete_rows P u)"
  by (auto simp: descends_def table_simps)

lemma descends_append:
  "descends le key D t u \<Longrightarrow> \<forall>r\<in>set rs. key r \<notin> D \<Longrightarrow> descends le key D t (u @ rs)"
  unfolding descends_def by fastforce

text \<open>A row whose key is known keeps its place in the order, if keys are unique.\<close>

lemma grows_later:
  assumes "grows le t t'" "distinct (map key t')" "r \<in> set t" "s \<in> set t'" "key s = key r"
  shows "le r s"
proof -
  obtain s' where s': "s' \<in> set t'" "le r s'" using assms(1,3) by (auto simp: grows_def)
  then have "key s' = key s" using le_key assms(5) by metis
  then have "s' = s" using assms(2,4) s'(1) by (metis distinct_map inj_onD)
  with s' show ?thesis by simp
qed

lemma descends_later:
  assumes "descends le key D t t'" "distinct (map key t)" "r \<in> set t" "s \<in> set t'" "key s = key r"
    "key r \<in> D"
  shows "le r s"
proof -
  obtain r' where r': "r' \<in> set t" "le r' s"
    using assms(1,4,5,6) by (auto simp: descends_def)
  then have "key r' = key r" using le_key assms(5) by metis
  then have "r' = r" using assms(2,3) r'(1) by (metis distinct_map inj_onD)
  with r' show ?thesis by simp
qed

end

section \<open>The row orders\<close>

lemma link_state_order [simp]: "Pending \<le> s" "s \<le> Revoked" "s \<le> Pending \<longleftrightarrow> s = Pending"
  "Revoked \<le> s \<longleftrightarrow> s = Revoked"
  by (cases s; simp add: less_eq_link_state_def less_link_state_def)+

definition stays :: "'a option \<Rightarrow> 'a option \<Rightarrow> bool" where
  "stays x y = (x \<noteq> None \<longrightarrow> y = x)"

definition identity_le :: "identity_row \<Rightarrow> identity_row \<Rightarrow> bool" where
  "identity_le a b = (i_id b = i_id a \<and> i_email b = i_email a \<and> i_role b = i_role a
     \<and> i_status_version a \<le> i_status_version b
     \<and> (i_status a \<noteq> i_status b \<longrightarrow> i_status_version a < i_status_version b))"

definition session_le :: "session_row \<Rightarrow> session_row \<Rightarrow> bool" where
  "session_le a b = (s_id b = s_id a \<and> s_token_hash b = s_token_hash a
     \<and> s_identity_id b = s_identity_id a \<and> s_csrf_hash b = s_csrf_hash a
     \<and> s_expires_at b = s_expires_at a
     \<and> stays (s_revoked_at a) (s_revoked_at b))"

text \<open>\<open>is_service\<close> is the test of \<open>serviceClient\<close> (\<open>client.go\<close>).\<close>

definition is_service :: "client \<Rightarrow> bool" where
  "is_service c = (cl_grants c = [GrantTypeClientCredentials])"

definition application_le :: "application_row \<Rightarrow> application_row \<Rightarrow> bool" where
  "application_le a b = (a_id b = a_id a \<and> a_created_at b = a_created_at a
     \<and> cl_id (a_config b) = cl_id (a_config a) \<and> cl_public (a_config b) = cl_public (a_config a)
     \<and> is_service (a_config b) = is_service (a_config a))"

definition request_le :: "auth_request_row \<Rightarrow> auth_request_row \<Rightarrow> bool" where
  "request_le a b = (r_id b = r_id a \<and> r_client_id b = r_client_id a \<and> r_expires_at b = r_expires_at a
     \<and> stays (r_consumed_at a) (r_consumed_at b) \<and> stays (r_code_hash a) (r_code_hash b)
     \<and> (az_authenticated (r_payload a) \<longrightarrow> r_payload b = r_payload a))"

definition family_le :: "family_row \<Rightarrow> family_row \<Rightarrow> bool" where
  "family_le a b = (f_id b = f_id a \<and> f_subject b = f_subject a \<and> f_client_id b = f_client_id a
     \<and> f_session_id b = f_session_id a \<and> f_expires_at b = f_expires_at a
     \<and> stays (f_revoked_at a) (f_revoked_at b))"

definition refresh_le :: "refresh_row \<Rightarrow> refresh_row \<Rightarrow> bool" where
  "refresh_le a b = (rt_token_hash b = rt_token_hash a \<and> rt_family_id b = rt_family_id a
     \<and> rt_payload b = rt_payload a \<and> rt_expires_at b = rt_expires_at a
     \<and> stays (rt_consumed_at a) (rt_consumed_at b))"

definition access_le :: "access_row \<Rightarrow> access_row \<Rightarrow> bool" where
  "access_le a b = (t_id b = t_id a \<and> t_client_id b = t_client_id a \<and> t_subject b = t_subject a
     \<and> t_family_id b = t_family_id a \<and> t_payload b = t_payload a \<and> t_expires_at b = t_expires_at a
     \<and> stays (t_revoked_at a) (t_revoked_at b))"

definition intent_le :: "intent_row \<Rightarrow> intent_row \<Rightarrow> bool" where
  "intent_le a b = (n_id b = n_id a \<and> n_client_id b = n_client_id a \<and> n_local_ref b = n_local_ref a
     \<and> n_idempotency_key b = n_idempotency_key a \<and> n_payload_hash b = n_payload_hash a
     \<and> n_nonce b = n_nonce a \<and> n_expires_at b = n_expires_at a \<and> n_state a \<le> n_state b
     \<and> (n_state a \<noteq> Pending \<longrightarrow> n_subject b = n_subject a))"

definition link_le :: "link_row \<Rightarrow> link_row \<Rightarrow> bool" where
  "link_le a b = (l_id b = l_id a \<and> l_client_id b = l_client_id a \<and> l_local_ref b = l_local_ref a
     \<and> l_subject b = l_subject a \<and> l_verified_at b = l_verified_at a \<and> l_state a \<le> l_state b
     \<and> l_version a \<le> l_version b \<and> (l_state a \<noteq> l_state b \<longrightarrow> l_version a < l_version b)
     \<and> (l_state a = Revoked \<longrightarrow> b = a))"

definition credential_le :: "credential_row \<Rightarrow> credential_row \<Rightarrow> bool" where
  "credential_le a b = (c_token_hash b = c_token_hash a \<and> c_kind b = c_kind a \<and> c_email b = c_email a
     \<and> c_expires_at b = c_expires_at a \<and> stays (c_consumed_at a) (c_consumed_at b))"

definition outbox_le :: "outbox_row \<Rightarrow> outbox_row \<Rightarrow> bool" where
  "outbox_le a b = (o_id b = o_id a \<and> o_client_id b = o_client_id a \<and> o_payload b = o_payload a
     \<and> o_kind b = o_kind a \<and> o_created_at b = o_created_at a
     \<and> (o_delivered_at a \<noteq> None \<longrightarrow> b = a))"

definition recovery_le :: "recovery_row \<Rightarrow> recovery_row \<Rightarrow> bool" where
  "recovery_le a b = (v_identity_id b = v_identity_id a \<and> v_token_hash b = v_token_hash a
     \<and> stays (v_consumed_at a) (v_consumed_at b))"

fun device_reach :: "device_status \<Rightarrow> device_status \<Rightarrow> bool" where
  "device_reach DevicePending s = True"
| "device_reach DeviceApproved s = (s \<noteq> DevicePending)"
| "device_reach DeviceDenied s = (s = DeviceDenied)"
| "device_reach DeviceConsumed s = (s = DeviceConsumed)"

lemma device_reach_refl [simp]: "device_reach s s"
  by (cases s) auto

lemma device_reach_trans: "device_reach a b \<Longrightarrow> device_reach b c \<Longrightarrow> device_reach a c"
  by (cases a; cases b; cases c) auto

definition device_le :: "device_row \<Rightarrow> device_row \<Rightarrow> bool" where
  "device_le a b = (d_device_code_hash b = d_device_code_hash a \<and> d_user_code b = d_user_code a
     \<and> d_client_id b = d_client_id a \<and> d_scopes b = d_scopes a \<and> d_expires_at b = d_expires_at a
     \<and> device_reach (d_status a) (d_status b)
     \<and> (d_status a \<noteq> DevicePending \<longrightarrow> d_subject b = d_subject a \<and> d_auth_time b = d_auth_time a))"

definition installation_le :: "installation_row \<Rightarrow> installation_row \<Rightarrow> bool" where
  "installation_le a b = (k_id b = k_id a \<and> k_client_id b = k_client_id a \<and> k_subject b = k_subject a
     \<and> k_installation_ref b = k_installation_ref a \<and> k_device_token_id b = k_device_token_id a
     \<and> k_secret_hash b = k_secret_hash a \<and> k_created_at b = k_created_at a
     \<and> stays (k_revoked_at a) (k_revoked_at b))"

lemma stays_refl [simp]: "stays x x"
  by (simp add: stays_def)

lemma stays_None [simp]: "stays None y"
  by (simp add: stays_def)

lemma stays_coalesce [simp]: "stays x (Some (coalesce x now))"
  by (cases x) (auto simp: stays_def)

interpretation identity_h: row_history identity_le i_id
  by unfold_locales (auto simp: identity_le_def)
interpretation session_h: row_history session_le s_id
  by unfold_locales (auto simp: session_le_def stays_def)
interpretation application_h: row_history application_le a_id
  by unfold_locales (auto simp: application_le_def)
interpretation request_h: row_history request_le r_id
  by unfold_locales (auto simp: request_le_def stays_def)
interpretation family_h: row_history family_le f_id
  by unfold_locales (auto simp: family_le_def stays_def)
interpretation refresh_h: row_history refresh_le rt_token_hash
  by unfold_locales (auto simp: refresh_le_def stays_def)
interpretation access_h: row_history access_le t_id
  by unfold_locales (auto simp: access_le_def stays_def)
interpretation intent_h: row_history intent_le n_id
proof unfold_locales
  show "intent_le a c" if "intent_le a b" "intent_le b c" for a b c
  proof -
    have "n_state b \<noteq> Pending" if "n_state a \<noteq> Pending"
      using \<open>intent_le a b\<close> that by (cases "n_state a") (auto simp: intent_le_def less_eq_link_state_def)
    then show ?thesis using that by (auto simp: intent_le_def)
  qed
qed (auto simp: intent_le_def)
interpretation link_h: row_history link_le l_id
proof unfold_locales
  show "link_le a c" if "link_le a b" "link_le b c" for a b c
  proof -
    have "l_version a < l_version c" if "l_state a \<noteq> l_state c"
      using \<open>link_le a b\<close> \<open>link_le b c\<close> that unfolding link_le_def by fastforce
    then show ?thesis using that unfolding link_le_def by fastforce
  qed
qed (auto simp: link_le_def)
interpretation credential_h: row_history credential_le c_token_hash
  by unfold_locales (auto simp: credential_le_def stays_def)
interpretation outbox_h: row_history outbox_le o_id
  by unfold_locales (auto simp: outbox_le_def)
interpretation recovery_h: row_history recovery_le v_token_hash
  by unfold_locales (auto simp: recovery_le_def stays_def)
interpretation device_h: row_history device_le d_device_code_hash
proof unfold_locales
  show "device_le a c" if "device_le a b" "device_le b c" for a b c
  proof -
    have "d_status b \<noteq> DevicePending" if "d_status a \<noteq> DevicePending"
      using \<open>device_le a b\<close> that by (cases "d_status a") (auto simp: device_le_def)
    then show ?thesis using that by (auto simp: device_le_def dest: device_reach_trans)
  qed
qed (auto simp: device_le_def)
interpretation installation_h: row_history installation_le k_id
  by unfold_locales (auto simp: installation_le_def stays_def)

section \<open>The history of the database\<close>

text \<open>
  \<open>touches T db db'\<close> says that only tables of \<open>T\<close> differ; \<open>evolves D db db'\<close> that every table
  respects its history, \<open>D t\<close> being the keys that no new row of the table \<open>t\<close> carries.
\<close>

datatype table = T_identities | T_sessions | T_applications | T_requests | T_families | T_refresh
  | T_access | T_intents | T_links | T_credentials | T_audit | T_outbox | T_attempts | T_rates
  | T_recovery | T_devices | T_policies | T_consents | T_installations


definition evolves :: "(table \<Rightarrow> string set) \<Rightarrow> db \<Rightarrow> db \<Rightarrow> bool" where
  "evolves D db db' \<longleftrightarrow>
     grows identity_le (identities db) (identities db')
     \<and> grows session_le (browser_sessions db) (browser_sessions db')
     \<and> grows application_le (applications db) (applications db')
     \<and> descends request_le r_id (D T_requests) (auth_requests db) (auth_requests db')
     \<and> grows family_le (token_families db) (token_families db')
     \<and> grows refresh_le (refresh_tokens db) (refresh_tokens db')
     \<and> descends access_le t_id (D T_access) (access_tokens db) (access_tokens db')
     \<and> grows intent_le (link_intents db) (link_intents db')
     \<and> grows link_le (account_links db) (account_links db')
     \<and> grows credential_le (one_time_credentials db) (one_time_credentials db')
     \<and> descends outbox_le o_id (D T_outbox) (outbox db) (outbox db')
     \<and> descends recovery_le v_token_hash (D T_recovery) (recovery_codes db) (recovery_codes db')
     \<and> descends device_le d_device_code_hash (D T_devices) (device_authorizations db) (device_authorizations db')
     \<and> grows installation_le (device_installations db) (device_installations db')
     \<and> (\<exists>es. audit_events db' = audit_events db @ es)"

lemmas history_refls = identity_h.grows_refl session_h.grows_refl application_h.grows_refl
  request_h.descends_refl family_h.grows_refl refresh_h.grows_refl access_h.descends_refl
  intent_h.grows_refl link_h.grows_refl credential_h.grows_refl outbox_h.descends_refl
  recovery_h.descends_refl device_h.descends_refl installation_h.grows_refl

lemma evolves_refl [history_intros]: "evolves D db db"
  by (simp add: evolves_def history_refls)

lemma evolves_trans:
  assumes "evolves D a b" "evolves D' b c" "D \<le> D'"
  shows "evolves D a c"
proof -
  have "\<exists>es. audit_events c = audit_events a @ es"
    using assms(1,2) by (auto simp: evolves_def)
  moreover have "D T \<subseteq> D' T" for T using assms(3) by (simp add: le_fun_def)
  ultimately show ?thesis
    using assms(1,2) unfolding evolves_def
    by (meson identity_h.grows_trans session_h.grows_trans application_h.grows_trans
        request_h.descends_trans family_h.grows_trans refresh_h.grows_trans access_h.descends_trans
        intent_h.grows_trans link_h.grows_trans credential_h.grows_trans outbox_h.descends_trans
        recovery_h.descends_trans device_h.descends_trans installation_h.grows_trans)
qed

lemma evolves_updates [history_intros]:
  "evolves D a b \<Longrightarrow> grows identity_le (identities a) t1 \<Longrightarrow> evolves D a (b\<lparr>identities := t1\<rparr>)"
  "evolves D a b \<Longrightarrow> grows session_le (browser_sessions a) t2 \<Longrightarrow> evolves D a (b\<lparr>browser_sessions := t2\<rparr>)"
  "evolves D a b \<Longrightarrow> grows application_le (applications a) t3 \<Longrightarrow> evolves D a (b\<lparr>applications := t3\<rparr>)"
  "evolves D a b \<Longrightarrow> descends request_le r_id (D T_requests) (auth_requests a) t4 \<Longrightarrow>
    evolves D a (b\<lparr>auth_requests := t4\<rparr>)"
  "evolves D a b \<Longrightarrow> grows family_le (token_families a) t5 \<Longrightarrow> evolves D a (b\<lparr>token_families := t5\<rparr>)"
  "evolves D a b \<Longrightarrow> grows refresh_le (refresh_tokens a) t6 \<Longrightarrow> evolves D a (b\<lparr>refresh_tokens := t6\<rparr>)"
  "evolves D a b \<Longrightarrow> descends access_le t_id (D T_access) (access_tokens a) t7 \<Longrightarrow>
    evolves D a (b\<lparr>access_tokens := t7\<rparr>)"
  "evolves D a b \<Longrightarrow> grows intent_le (link_intents a) t8 \<Longrightarrow> evolves D a (b\<lparr>link_intents := t8\<rparr>)"
  "evolves D a b \<Longrightarrow> grows link_le (account_links a) t9 \<Longrightarrow> evolves D a (b\<lparr>account_links := t9\<rparr>)"
  "evolves D a b \<Longrightarrow> grows credential_le (one_time_credentials a) t10 \<Longrightarrow>
    evolves D a (b\<lparr>one_time_credentials := t10\<rparr>)"
  "evolves D a b \<Longrightarrow> descends outbox_le o_id (D T_outbox) (outbox a) t11 \<Longrightarrow> evolves D a (b\<lparr>outbox := t11\<rparr>)"
  "evolves D a b \<Longrightarrow> descends recovery_le v_token_hash (D T_recovery) (recovery_codes a) t12 \<Longrightarrow>
    evolves D a (b\<lparr>recovery_codes := t12\<rparr>)"
  "evolves D a b \<Longrightarrow> descends device_le d_device_code_hash (D T_devices) (device_authorizations a) t13 \<Longrightarrow>
    evolves D a (b\<lparr>device_authorizations := t13\<rparr>)"
  "evolves D a b \<Longrightarrow> grows installation_le (device_installations a) t14 \<Longrightarrow>
    evolves D a (b\<lparr>device_installations := t14\<rparr>)"
  "evolves D a b \<Longrightarrow> evolves D a (b\<lparr>rate_limits := t15\<rparr>)"
  "evolves D a b \<Longrightarrow> evolves D a (b\<lparr>outbox_attempts := t16\<rparr>)"
  "evolves D a b \<Longrightarrow> evolves D a (b\<lparr>exchange_policies := t17\<rparr>)"
  "evolves D a b \<Longrightarrow> evolves D a (b\<lparr>exchange_consents := t18\<rparr>)"
  by (simp_all add: evolves_def)

lemma evolves_audit [history_intros]: "evolves D a b \<Longrightarrow> evolves D a (audit now x y z b)"
  by (auto simp: evolves_def audit_def)

lemmas history_rules [history_intros] = history_refls identity_h.grows_update session_h.grows_update
  application_h.grows_update family_h.grows_update refresh_h.grows_update intent_h.grows_update
  link_h.grows_update credential_h.grows_update installation_h.grows_update
  request_h.descends_update access_h.descends_update outbox_h.descends_update
  recovery_h.descends_update device_h.descends_update
  identity_h.grows_append session_h.grows_append application_h.grows_append family_h.grows_append
  refresh_h.grows_append intent_h.grows_append link_h.grows_append credential_h.grows_append
  installation_h.grows_append request_h.descends_append access_h.descends_append
  outbox_h.descends_append recovery_h.descends_append device_h.descends_append
  request_h.descends_delete access_h.descends_delete
  outbox_h.descends_delete recovery_h.descends_delete device_h.descends_delete

definition touches :: "table set \<Rightarrow> db \<Rightarrow> db \<Rightarrow> bool" where
  "touches T db db' \<longleftrightarrow>
     (T_identities \<notin> T \<longrightarrow> identities db' = identities db)
     \<and> (T_sessions \<notin> T \<longrightarrow> browser_sessions db' = browser_sessions db)
     \<and> (T_applications \<notin> T \<longrightarrow> applications db' = applications db)
     \<and> (T_requests \<notin> T \<longrightarrow> auth_requests db' = auth_requests db)
     \<and> (T_families \<notin> T \<longrightarrow> token_families db' = token_families db)
     \<and> (T_refresh \<notin> T \<longrightarrow> refresh_tokens db' = refresh_tokens db)
     \<and> (T_access \<notin> T \<longrightarrow> access_tokens db' = access_tokens db)
     \<and> (T_intents \<notin> T \<longrightarrow> link_intents db' = link_intents db)
     \<and> (T_links \<notin> T \<longrightarrow> account_links db' = account_links db)
     \<and> (T_credentials \<notin> T \<longrightarrow> one_time_credentials db' = one_time_credentials db)
     \<and> (T_audit \<notin> T \<longrightarrow> audit_events db' = audit_events db)
     \<and> (T_outbox \<notin> T \<longrightarrow> outbox db' = outbox db)
     \<and> (T_attempts \<notin> T \<longrightarrow> outbox_attempts db' = outbox_attempts db)
     \<and> (T_rates \<notin> T \<longrightarrow> rate_limits db' = rate_limits db)
     \<and> (T_recovery \<notin> T \<longrightarrow> recovery_codes db' = recovery_codes db)
     \<and> (T_devices \<notin> T \<longrightarrow> device_authorizations db' = device_authorizations db)
     \<and> (T_policies \<notin> T \<longrightarrow> exchange_policies db' = exchange_policies db)
     \<and> (T_consents \<notin> T \<longrightarrow> exchange_consents db' = exchange_consents db)
     \<and> (T_installations \<notin> T \<longrightarrow> device_installations db' = device_installations db)"

lemma touches_refl [history_intros]: "touches T db db"
  by (simp add: touches_def)

lemma untouched:
  assumes "touches T db db'"
  shows "T_identities \<notin> T \<Longrightarrow> identities db' = identities db"
    "T_sessions \<notin> T \<Longrightarrow> browser_sessions db' = browser_sessions db"
    "T_applications \<notin> T \<Longrightarrow> applications db' = applications db"
    "T_requests \<notin> T \<Longrightarrow> auth_requests db' = auth_requests db"
    "T_families \<notin> T \<Longrightarrow> token_families db' = token_families db"
    "T_refresh \<notin> T \<Longrightarrow> refresh_tokens db' = refresh_tokens db"
    "T_access \<notin> T \<Longrightarrow> access_tokens db' = access_tokens db"
    "T_intents \<notin> T \<Longrightarrow> link_intents db' = link_intents db"
    "T_links \<notin> T \<Longrightarrow> account_links db' = account_links db"
    "T_credentials \<notin> T \<Longrightarrow> one_time_credentials db' = one_time_credentials db"
    "T_audit \<notin> T \<Longrightarrow> audit_events db' = audit_events db"
    "T_outbox \<notin> T \<Longrightarrow> outbox db' = outbox db"
    "T_attempts \<notin> T \<Longrightarrow> outbox_attempts db' = outbox_attempts db"
    "T_rates \<notin> T \<Longrightarrow> rate_limits db' = rate_limits db"
    "T_recovery \<notin> T \<Longrightarrow> recovery_codes db' = recovery_codes db"
    "T_devices \<notin> T \<Longrightarrow> device_authorizations db' = device_authorizations db"
    "T_policies \<notin> T \<Longrightarrow> exchange_policies db' = exchange_policies db"
    "T_consents \<notin> T \<Longrightarrow> exchange_consents db' = exchange_consents db"
    "T_installations \<notin> T \<Longrightarrow> device_installations db' = device_installations db"
  using assms by (auto simp: touches_def)

lemma touches_trans:
  assumes "touches T a b" "touches T b c"
  shows "touches T a c"
  unfolding touches_def by (intro conjI impI; simp add: untouched [OF assms(1)] untouched [OF assms(2)])

lemma touches_updates [history_intros]:
  "touches T a b \<Longrightarrow> T_identities \<in> T \<Longrightarrow> touches T a (b\<lparr>identities := t0\<rparr>)"
  "touches T a b \<Longrightarrow> T_sessions \<in> T \<Longrightarrow> touches T a (b\<lparr>browser_sessions := t1\<rparr>)"
  "touches T a b \<Longrightarrow> T_applications \<in> T \<Longrightarrow> touches T a (b\<lparr>applications := t2\<rparr>)"
  "touches T a b \<Longrightarrow> T_requests \<in> T \<Longrightarrow> touches T a (b\<lparr>auth_requests := t3\<rparr>)"
  "touches T a b \<Longrightarrow> T_families \<in> T \<Longrightarrow> touches T a (b\<lparr>token_families := t4\<rparr>)"
  "touches T a b \<Longrightarrow> T_refresh \<in> T \<Longrightarrow> touches T a (b\<lparr>refresh_tokens := t5\<rparr>)"
  "touches T a b \<Longrightarrow> T_access \<in> T \<Longrightarrow> touches T a (b\<lparr>access_tokens := t6\<rparr>)"
  "touches T a b \<Longrightarrow> T_intents \<in> T \<Longrightarrow> touches T a (b\<lparr>link_intents := t7\<rparr>)"
  "touches T a b \<Longrightarrow> T_links \<in> T \<Longrightarrow> touches T a (b\<lparr>account_links := t8\<rparr>)"
  "touches T a b \<Longrightarrow> T_credentials \<in> T \<Longrightarrow> touches T a (b\<lparr>one_time_credentials := t9\<rparr>)"
  "touches T a b \<Longrightarrow> T_audit \<in> T \<Longrightarrow> touches T a (b\<lparr>audit_events := t10\<rparr>)"
  "touches T a b \<Longrightarrow> T_outbox \<in> T \<Longrightarrow> touches T a (b\<lparr>outbox := t11\<rparr>)"
  "touches T a b \<Longrightarrow> T_attempts \<in> T \<Longrightarrow> touches T a (b\<lparr>outbox_attempts := t12\<rparr>)"
  "touches T a b \<Longrightarrow> T_rates \<in> T \<Longrightarrow> touches T a (b\<lparr>rate_limits := t13\<rparr>)"
  "touches T a b \<Longrightarrow> T_recovery \<in> T \<Longrightarrow> touches T a (b\<lparr>recovery_codes := t14\<rparr>)"
  "touches T a b \<Longrightarrow> T_devices \<in> T \<Longrightarrow> touches T a (b\<lparr>device_authorizations := t15\<rparr>)"
  "touches T a b \<Longrightarrow> T_policies \<in> T \<Longrightarrow> touches T a (b\<lparr>exchange_policies := t16\<rparr>)"
  "touches T a b \<Longrightarrow> T_consents \<in> T \<Longrightarrow> touches T a (b\<lparr>exchange_consents := t17\<rparr>)"
  "touches T a b \<Longrightarrow> T_installations \<in> T \<Longrightarrow> touches T a (b\<lparr>device_installations := t18\<rparr>)"
  by (simp_all add: touches_def)

lemma touches_audit [history_intros]:
  "touches T a b \<Longrightarrow> T_audit \<in> T \<Longrightarrow> touches T a (audit now x y z b)"
  by (simp add: touches_def audit_def)

lemma touches_mono:
  assumes "touches T db db'" "T \<subseteq> T'"
  shows "touches T' db db'"
  unfolding touches_def
  by (intro conjI impI; simp add: untouched [OF assms(1)] contra_subsetD [OF assms(2)])

lemmas row_orders = identity_le_def session_le_def application_le_def request_le_def family_le_def
  refresh_le_def access_le_def intent_le_def link_le_def credential_le_def outbox_le_def
  recovery_le_def device_le_def installation_le_def

lemmas history_statements [statement_defs] = insert_row_Some insert_rows_Some some_row_iff
  less_eq_link_state_def

end
