(* ===== verification/Store.thy ===== *)
theory Store
  imports History
begin

text \<open>
  \<open>internal/core/store.go\<close>: identities, rate limits, password authentication and browser
  sessions. An operation takes the instant \<open>now\<close> of the database clock, its arguments and
  the database, and gives its result (\<open>Inl\<close> an error) with the database it leaves. \<open>parse\<close>
  is \<open>net/mail.ParseAddress\<close>: the address part, or \<open>None\<close> on a syntax error. Random tokens
  are arguments: the values the calls of \<open>RandomToken\<close> returned.
\<close>

section \<open>Identities\<close>

record identity_view =
  u_id :: string
  u_email :: string
  u_name :: string
  u_role :: role
  u_status :: account_status
  u_email_verified :: bool

definition view_identity :: "identity_row \<Rightarrow> identity_view" where
  "view_identity i = \<lparr>u_id = i_id i, u_email = i_email i, u_name = i_name i, u_role = i_role i,
     u_status = i_status i, u_email_verified = i_email_verified i\<rparr>"

definition validEmail :: "(string \<Rightarrow> string option) \<Rightarrow> string \<Rightarrow> err + string" where
  "validEmail parse email =
     (let email = to_lower (trim_space email) in
      case parse email of
        None \<Rightarrow> Inl (Failure ''invalid email'')
      | Some address \<Rightarrow>
          if address \<noteq> email \<or> length email > 254 then Inl (Failure ''invalid email'')
          else Inr email)"

definition CreateIdentity ::
  "(string \<Rightarrow> string option) \<Rightarrow> kdf \<Rightarrow> string \<Rightarrow> string \<Rightarrow> string \<Rightarrow> string \<Rightarrow> string \<Rightarrow> string \<Rightarrow> db
    \<Rightarrow> (err + identity_view) \<times> db" where
  "CreateIdentity parse kdf salt new_id email name password role db =
     (case validEmail parse email of
        Inl e \<Rightarrow> (Inl e, db)
      | Inr email \<Rightarrow>
          if role \<noteq> ''member'' \<and> role \<noteq> ''admin'' then (Inl ErrForbidden, db)
          else let name = trim_space name in
          if name = [] \<or> length name > 200
          then (Inl (Failure ''name required (maximum 200 bytes)''), db)
          else (case HashPassword kdf salt password of
            Inl e \<Rightarrow> (Inl e, db)
          | Inr encoded \<Rightarrow>
              let row = \<lparr>i_id = new_id, i_email = email, i_name = name, i_password_hash = encoded,
                    i_role = (if role = ''admin'' then Admin else Member), i_status = Active,
                    i_email_verified = False, i_mfa_secret = None, i_pending_mfa_secret = None,
                    i_pending_mfa_expires = None, i_mfa_last_step = -1, i_status_version = 1\<rparr>
              in (case insert_row identity_clash row (identities db) of
                None \<Rightarrow> (Inl (classify UniqueViolation), db)
              | Some t \<Rightarrow> (Inr (view_identity row), db\<lparr>identities := t\<rparr>))))"

definition active_identity :: "string \<Rightarrow> identity_row \<Rightarrow> bool" where
  "active_identity subject i = (i_id i = subject \<and> i_status i = Active)"

definition Identity :: "string \<Rightarrow> db \<Rightarrow> err + identity_view" where
  "Identity subject db =
     (case first_row (active_identity subject) (identities db) of
        None \<Rightarrow> Inl (classify NoRows)
      | Some i \<Rightarrow> Inr (view_identity i))"

lemma Identity_Inr:
  "Identity subject db = Inr u \<longleftrightarrow>
    (\<exists>i. first_row (active_identity subject) (identities db) = Some i \<and> u = view_identity i)"
  by (auto simp: Identity_def split: option.splits)

lemma Identity_active:
  "Identity subject db = Inr u \<Longrightarrow> \<exists>i\<in>set (identities db). active_identity subject i \<and> u = view_identity i"
  by (auto simp: Identity_Inr dest!: first_row_Some)

lemma Identity_Inl:
  "Identity subject db = Inl e \<longleftrightarrow>
     e = ErrUnauthorized \<and> (\<forall>i\<in>set (identities db). \<not> active_identity subject i)"
proof (cases "first_row (active_identity subject) (identities db)")
  case None
  then show ?thesis using first_row_None [THEN iffD1, OF None] by (auto simp: Identity_def)
next
  case (Some i)
  then show ?thesis using first_row_Some [OF Some] by (auto simp: Identity_def)
qed

lemma Identity_exists:
  "(\<exists>u. Identity subject db = Inr u) \<longleftrightarrow> (\<exists>i\<in>set (identities db). active_identity subject i)"
  by (metis Identity_Inl Identity_active sum.exhaust)

section \<open>Rate limits\<close>

text \<open>One UPSERT: a window that has passed starts anew, any other only counts up.\<close>

definition bump :: "time \<Rightarrow> time \<Rightarrow> rate_row \<Rightarrow> rate_row" where
  "bump now window r = r\<lparr>q_count := (if q_expires_at r < now then 1 else q_count r + 1),
     q_expires_at := (if q_expires_at r < now then now + window else q_expires_at r)\<rparr>"

definition upsert_rate :: "time \<Rightarrow> string \<Rightarrow> time \<Rightarrow> rate_row list \<Rightarrow> rate_row \<times> rate_row list" where
  "upsert_rate now key window t =
     (case first_row (\<lambda>r. q_key r = key) t of
        None \<Rightarrow> let r = \<lparr>q_key = key, q_count = 1, q_expires_at = now + window\<rparr> in (r, t @ [r])
      | Some r \<Rightarrow> (bump now window r, update_rows (\<lambda>s. q_key s = key) (bump now window) t))"

definition Allow :: "time \<Rightarrow> string \<Rightarrow> int \<Rightarrow> time \<Rightarrow> db \<Rightarrow> bool \<times> db" where
  "Allow now key limit window db =
     (case upsert_rate now (Hash key) window (rate_limits db) of
        (r, t) \<Rightarrow> (q_count r \<le> limit, db\<lparr>rate_limits := t\<rparr>))"

lemma Allow_unfold:
  "Allow now key limit window db =
    (q_count (fst (upsert_rate now (Hash key) window (rate_limits db))) \<le> limit,
     db\<lparr>rate_limits := snd (upsert_rate now (Hash key) window (rate_limits db))\<rparr>)"
  by (simp add: Allow_def case_prod_unfold)

lemma upsert_rate_indexed [schema_intros]:
  "indexed rate_clash t \<Longrightarrow> indexed rate_clash (snd (upsert_rate now key window t))"
  by (auto simp: upsert_rate_def Let_def rate_clash_def bump_def split: option.splits if_splits
      intro!: rate_ix.snoc_indexed rate_ix.update_rows_indexed dest: first_row_NoneD)

lemma Allow_eq:
  "\<exists>t. snd (Allow now key limit window db) = db\<lparr>rate_limits := t\<rparr>"
  by (auto simp: Allow_def split: prod.splits)

section \<open>Password authentication\<close>

fun allow_all :: "time \<Rightarrow> string list \<Rightarrow> int \<Rightarrow> time \<Rightarrow> db \<Rightarrow> bool \<times> db" where
  "allow_all now [] limit window db = (True, db)"
| "allow_all now (key # keys) limit window db =
     (case Allow now key limit window db of
        (allowed, db) \<Rightarrow> if allowed then allow_all now keys limit window db else (False, db))"

lemma allow_all_eq:
  "\<exists>t. snd (allow_all now keys limit window db) = db\<lparr>rate_limits := t\<rparr>"
proof (induction keys arbitrary: db)
  case (Cons key keys)
  obtain ok t where A: "Allow now key limit window db = (ok, db\<lparr>rate_limits := t\<rparr>)"
    using Allow_eq [of now key limit window db] by (metis prod.collapse)
  show ?case using Cons.IH [of "db\<lparr>rate_limits := t\<rparr>"] by (auto simp: A)
next
  case Nil
  show ?case by (intro exI [of _ "rate_limits db"]) simp
qed

text \<open>The dummy verification on an unknown account has no effect on the result.\<close>

definition Authenticate ::
  "kdf \<Rightarrow> time \<Rightarrow> string \<Rightarrow> string \<Rightarrow> string \<Rightarrow> db \<Rightarrow> (err + identity_view) \<times> db" where
  "Authenticate kdf now email password peer db =
     (let email = to_lower (trim_space email) in
      case allow_all now [''login-account:'' @ email, ''login-peer:'' @ peer] 12 (minutes 15) db of
        (allowed, db) \<Rightarrow>
          if \<not> allowed then (Inl ErrUnauthorized, db)
          else (case first_row (\<lambda>i. i_email i = email \<and> i_status i = Active) (identities db) of
            None \<Rightarrow> (Inl ErrUnauthorized, db)
          | Some i \<Rightarrow>
              if \<not> PasswordMatches kdf password (i_password_hash i) then (Inl ErrUnauthorized, db)
              else (Identity (i_id i) db, db)))"

lemma Authenticate_eq:
  "\<exists>t. snd (Authenticate kdf now email password peer db) = db\<lparr>rate_limits := t\<rparr>"
proof -
  obtain ok t where "allow_all now [''login-account:'' @ to_lower (trim_space email),
      ''login-peer:'' @ peer] 12 (minutes 15) db = (ok, db\<lparr>rate_limits := t\<rparr>)"
    using allow_all_eq by (metis prod.collapse)
  then show ?thesis
    by (auto simp: Authenticate_def Let_def split: option.splits)
qed

section \<open>Browser sessions\<close>

record session_view =
  w_id :: string
  w_identity_id :: string
  w_authenticated_at :: time
  w_expires_at :: time

definition view_session :: "session_row \<Rightarrow> session_view" where
  "view_session s = \<lparr>w_id = s_id s, w_identity_id = s_identity_id s,
     w_authenticated_at = s_authenticated_at s, w_expires_at = s_expires_at s\<rparr>"

definition NewSession ::
  "time \<Rightarrow> string \<Rightarrow> string \<Rightarrow> string \<Rightarrow> string \<Rightarrow> db \<Rightarrow> (err + string \<times> string) \<times> db" where
  "NewSession now token csrf new_id subject db =
     (if \<not> some_row (active_identity subject) (identities db) then (Inl ErrUnauthorized, db)
      else case insert_row session_clash
          \<lparr>s_id = new_id, s_token_hash = Hash token, s_identity_id = subject, s_csrf_hash = Hash csrf,
           s_authenticated_at = now, s_expires_at = now + hours 8, s_revoked_at = None,
           s_mfa_at = None\<rparr> (browser_sessions db) of
        None \<Rightarrow> (Inl UniqueViolation, db)
      | Some t \<Rightarrow> (Inr (token, csrf), db\<lparr>browser_sessions := t\<rparr>))"

definition live_session :: "time \<Rightarrow> session_row \<Rightarrow> bool" where
  "live_session now s = (s_revoked_at s = None \<and> now < s_expires_at s)"

definition Session :: "time \<Rightarrow> string \<Rightarrow> db \<Rightarrow> err + session_view" where
  "Session now token db =
     (case first_row (\<lambda>s. s_token_hash s = Hash token \<and> live_session now s
            \<and> some_row (active_identity (s_identity_id s)) (identities db)) (browser_sessions db) of
        None \<Rightarrow> Inl (classify NoRows)
      | Some s \<Rightarrow> Inr (view_session s))"

definition CheckCSRF :: "time \<Rightarrow> string \<Rightarrow> string \<Rightarrow> db \<Rightarrow> err + unit" where
  "CheckCSRF now token csrf db =
     (case first_row (\<lambda>s. s_token_hash s = Hash token \<and> live_session now s) (browser_sessions db) of
        None \<Rightarrow> Inl ErrForbidden
      | Some s \<Rightarrow> if \<not> equalHash csrf (s_csrf_hash s) then Inl ErrForbidden else Inr ())"

text \<open>The statement with which \<open>reauthenticate\<close> of \<open>internal/httpapi/accounts.go\<close> ends.\<close>

definition renew_session :: "time \<Rightarrow> string \<Rightarrow> db \<Rightarrow> db" where
  "renew_session now sid db = db\<lparr>browser_sessions := update_rows (\<lambda>s. s_id s = sid)
     (\<lambda>s. s\<lparr>s_authenticated_at := now\<rparr>) (browser_sessions db)\<rparr>"

lemma Session_Inr:
  assumes "Session now token db = Inr w"
  obtains s where "s \<in> set (browser_sessions db)" "s_token_hash s = Hash token" "live_session now s"
    "some_row (active_identity (s_identity_id s)) (identities db)" "w = view_session s"
  using assms by (auto simp: Session_def split: option.splits dest!: first_row_Some)

lemma Session_revoked:
  "(\<forall>s\<in>set (browser_sessions db). s_token_hash s = Hash token \<longrightarrow> s_revoked_at s \<noteq> None) \<Longrightarrow>
   Session now token db = Inl ErrUnauthorized"
  by (cases "Session now token db")
     (auto simp: Session_def live_session_def split: option.splits dest!: first_row_Some)

section \<open>What the operations keep\<close>

lemmas store_statements [statement_defs] = Allow_unfold

lemma CreateIdentity_schema:
  "schema_ok db \<Longrightarrow> schema_ok (snd (CreateIdentity parse kdf salt new_id email name password role db))"
  by (auto simp: CreateIdentity_def Let_def clash_defs statement_defs intro!: schema_intros
      split: option.splits sum.splits prod.splits if_splits)

lemma CreateIdentity_evolves:
  assumes "schema_ok db" 
  shows "evolves D db (snd (CreateIdentity parse kdf salt new_id email name password role db))"
  using assms
  by (auto simp: CreateIdentity_def Let_def row_orders statement_defs intro!: history_intros
      dest!: first_row_Some  dest: row_unique  split: option.splits sum.splits prod.splits if_splits)

lemma NewSession_schema:
  "schema_ok db \<Longrightarrow> schema_ok (snd (NewSession now token csrf new_id subject db))"
  by (auto simp: NewSession_def Let_def clash_defs statement_defs intro!: schema_intros
      split: option.splits sum.splits prod.splits if_splits)

lemma NewSession_evolves:
  assumes "schema_ok db" 
  shows "evolves D db (snd (NewSession now token csrf new_id subject db))"
  using assms
  by (auto simp: NewSession_def Let_def row_orders statement_defs intro!: history_intros
      dest!: first_row_Some  dest: row_unique  split: option.splits sum.splits prod.splits if_splits)

lemma Allow_kept:
  shows Allow_schema: "schema_ok db \<Longrightarrow> schema_ok (snd (Allow now key limit window db))"
    and Allow_evolves: "evolves D db (snd (Allow now key limit window db))"
  by (auto simp: Allow_unfold intro!: schema_intros history_intros)

lemma allow_all_kept:
  shows allow_all_schema: "schema_ok db \<Longrightarrow> schema_ok (snd (allow_all now keys limit window db))"
    and allow_all_evolves: "evolves D db (snd (allow_all now keys limit window db))"
proof -
  show "schema_ok db \<Longrightarrow> schema_ok (snd (allow_all now keys limit window db))"
    by (induction keys arbitrary: db) (auto simp: case_prod_unfold intro: Allow_schema)
  show "evolves D db (snd (allow_all now keys limit window db))"
    using allow_all_eq [of now keys limit window db] by (auto intro!: history_intros)
qed

lemma Authenticate_kept:
  shows Authenticate_schema: "schema_ok db \<Longrightarrow> schema_ok (snd (Authenticate kdf now email password peer db))"
    and Authenticate_evolves: "evolves D db (snd (Authenticate kdf now email password peer db))"
proof -
  let ?a = "allow_all now [''login-account:'' @ to_lower (trim_space email), ''login-peer:'' @ peer] 12 (minutes 15) db"
  have db': "snd (Authenticate kdf now email password peer db) = snd ?a"
    by (auto simp: Authenticate_def Let_def split: prod.splits option.splits)
  show "schema_ok db \<Longrightarrow> schema_ok (snd (Authenticate kdf now email password peer db))"
    unfolding db' by (rule allow_all_schema)
  show "evolves D db (snd (Authenticate kdf now email password peer db))"
    unfolding db' by (rule allow_all_evolves)
qed

lemma renew_session_kept:
  shows renew_session_schema: "schema_ok db \<Longrightarrow> schema_ok (renew_session now sid db)"
    and renew_session_evolves: "evolves D db (renew_session now sid db)"
    and renew_session_touches: "touches {T_sessions} db (renew_session now sid db)"
  by (auto simp: renew_session_def clash_defs row_orders split: if_splits intro!: schema_intros history_intros)

lemma CreateIdentity_touches: "touches {T_identities} db (snd (CreateIdentity parse kdf salt new_id email name password role db))"
  by (auto simp: CreateIdentity_def Let_def  intro!: history_intros
      split: option.splits sum.splits prod.splits)

lemma NewSession_touches: "touches {T_sessions} db (snd (NewSession now token csrf new_id subject db))"
  by (auto simp: NewSession_def Let_def  intro!: history_intros
      split: option.splits sum.splits prod.splits)

lemma Allow_touches: "touches {T_rates} db (snd (Allow now key limit window db))"
  by (auto simp: Allow_def Let_def  intro!: history_intros
      split: option.splits sum.splits prod.splits)

lemma Authenticate_touches: "touches {T_rates} db (snd (Authenticate kdf now email password peer db))"
  using Authenticate_eq [of kdf now email password peer db] by (auto intro!: history_intros)

section \<open>Administrators\<close>

definition standing :: "identity_row list \<Rightarrow> (string \<times> role \<times> account_status) list" where
  "standing t = map (\<lambda>i. (i_id i, i_role i, i_status i)) t"

definition has_admin :: "db \<Rightarrow> bool" where
  "has_admin db = (\<exists>i\<in>set (identities db). i_role i = Admin \<and> i_status i = Active)"

definition same_standing :: "db \<Rightarrow> db \<Rightarrow> bool" where
  "same_standing a b = (\<exists>xs. standing (identities b) = standing (identities a) @ xs)"

lemma has_admin_standing: "has_admin db \<longleftrightarrow> (\<exists>s. (s, Admin, Active) \<in> set (standing (identities db)))"
  by (force simp: has_admin_def standing_def)

lemma has_admin_kept: "has_admin a \<Longrightarrow> same_standing a b \<Longrightarrow> has_admin b"
  by (auto simp: has_admin_standing same_standing_def)

lemma standing_update [simp]:
  "(\<And>i. (i_id (f i), i_role (f i), i_status (f i)) = (i_id i, i_role i, i_status i)) \<Longrightarrow>
   standing (update_rows P f t) = standing t"
  unfolding standing_def by (rule map_update_rows)

lemma standing_append [simp]: "standing (t @ u) = standing t @ standing u"
  by (simp add: standing_def)

lemma same_standing_same [simp]: "standing (identities b) = standing (identities a) \<Longrightarrow> same_standing a b"
  by (simp add: same_standing_def)

lemma same_standing_trans: "same_standing a b \<Longrightarrow> same_standing b c \<Longrightarrow> same_standing a c"
  by (auto simp: same_standing_def)

lemma CreateIdentity_standing: "same_standing db (snd (CreateIdentity parse kdf salt new_id email name password role db))"
  by (auto simp: CreateIdentity_def Let_def same_standing_def insert_row_Some split: option.splits sum.splits)

end
