(* ===== verification/Clients.thy ===== *)
theory Clients
  imports Store
begin

text \<open>
  \<open>internal/core/client.go\<close> and \<open>service_accounts.go\<close>: the registered applications, their
  capabilities, callbacks and secrets. \<open>parse\<close> is \<open>net/url.Parse\<close>, seen through the fields
  the code reads; \<open>dev\<close> is \<open>Store.Dev\<close>.
\<close>

record url =
  url_scheme :: string
  url_host :: string
  url_hostname :: string
  url_user :: bool
  url_path :: string
  url_raw_query :: string
  url_fragment :: string

type_synonym url_parser = "string \<Rightarrow> url option"

section \<open>Validation\<close>

definition host_breakers :: string where
  "host_breakers = blanks @ [CHR '';'', CHR 0x27, CHR 0x22, CHR 0x5C]"

definition loopback :: "string \<Rightarrow> bool" where
  "loopback h = (h = ''localhost'' \<or> h = ''127.0.0.1'' \<or> h = ''::1'')"

definition validEndpoint :: "url_parser \<Rightarrow> string \<Rightarrow> bool \<Rightarrow> bool" where
  "validEndpoint parse raw dev =
     (case parse raw of
        None \<Rightarrow> False
      | Some u \<Rightarrow>
          if url_host u = [] \<or> url_user u \<or> url_fragment u \<noteq> [] \<or> contains_any (url_host u) host_breakers
          then False
          else if url_scheme u = ''https'' then True
          else dev \<and> url_scheme u = ''http'' \<and> loopback (url_hostname u))"

definition known_grant :: "string \<Rightarrow> bool" where
  "known_grant g = (g = GrantTypeCode \<or> g = GrantTypeRefreshToken \<or> g = GrantTypeClientCredentials
     \<or> g = GrantTypeDeviceCode \<or> g = GrantTypeTokenExchange)"

fun grants_ok :: "bool \<Rightarrow> string list \<Rightarrow> string list \<Rightarrow> bool" where
  "grants_ok public seen [] = True"
| "grants_ok public seen (g # gs) =
     (if \<not> known_grant g then False
      else if g \<in> set seen \<or> public \<and> (g = GrantTypeClientCredentials \<or> g = GrantTypeTokenExchange)
        \<or> \<not> public \<and> g = GrantTypeDeviceCode then False
      else grants_ok public (g # seen) gs)"

fun names_ok :: "string list \<Rightarrow> string list \<Rightarrow> bool" where
  "names_ok seen [] = True"
| "names_ok seen (s # ss) =
     (if s = [] \<or> length s > 128 \<or> contains_any s blanks \<or> s \<in> set seen then False
      else names_ok (s # seen) ss)"

definition serviceClient :: "client \<Rightarrow> bool" where
  "serviceClient c = (length (cl_grants c) = 1 \<and> cl_grants c ! 0 = GrantTypeClientCredentials)"

lemma serviceClient_iff: "serviceClient c = is_service c"
  by (cases "cl_grants c") (auto simp: serviceClient_def is_service_def)

definition validateCapabilities :: "client \<Rightarrow> err + unit" where
  "validateCapabilities c =
     (if length (cl_grants c) = 0 \<or> length (cl_grants c) > 5 \<or> length (cl_scopes c) > 64
         \<or> length (cl_resources c) > 32 then Inl ErrForbidden
      else if \<not> grants_ok (cl_public c) [] (cl_grants c) then Inl ErrForbidden
      else if GrantTypeCode \<in> set (cl_grants c) \<and> length (cl_redirects c) = 0 then Inl ErrForbidden
      else if \<not> names_ok [] (cl_scopes c) then Inl ErrForbidden
      else if \<not> names_ok [] (cl_resources c) then Inl ErrForbidden
      else if GrantTypeTokenExchange \<in> set (cl_grants c)
        \<and> (cl_public c \<or> length (cl_resources c) = 0) then Inl ErrForbidden
      else if GrantTypeClientCredentials \<in> set (cl_grants c)
        \<and> (length (cl_resources c) = 0 \<or> length (cl_scopes c) = 0) then Inl ErrForbidden
      else if serviceClient c \<and> (cl_public c \<or> length (cl_redirects c) \<noteq> 0
        \<or> length (cl_logout_redirects c) \<noteq> 0 \<or> cl_events_url c \<noteq> [] \<or> cl_backchannel_url c \<noteq> [])
      then Inl ErrForbidden
      else if serviceClient c \<and> (ScopeOpenID \<in> set (cl_scopes c) \<or> ScopeOfflineAccess \<in> set (cl_scopes c))
      then Inl ErrForbidden
      else Inr ())"

section \<open>Registration and lookup\<close>

fun register_grants :: "bool \<Rightarrow> string list \<Rightarrow> err option" where
  "register_grants public [] = None"
| "register_grants public (g # gs) =
     (if \<not> known_grant g then Some (Failure ''grant not enabled yet'')
      else if public \<and> g = GrantTypeClientCredentials then Some ErrForbidden
      else if \<not> public \<and> g = GrantTypeDeviceCode then Some ErrForbidden
      else if public \<and> g = GrantTypeTokenExchange then Some ErrForbidden
      else register_grants public gs)"

definition registered_urls :: "client \<Rightarrow> string list" where
  "registered_urls c = cl_redirects c @ cl_logout_redirects c
     @ (if cl_backchannel_url c \<noteq> [] then [cl_backchannel_url c] else [])
     @ (if cl_events_url c \<noteq> [] then [cl_events_url c] else [])"

definition default_grants :: "client \<Rightarrow> client" where
  "default_grants c = (if length (cl_grants c) = 0
     then c\<lparr>cl_grants := [GrantTypeCode, GrantTypeRefreshToken]\<rparr> else c)"

definition register_checks :: "url_parser \<Rightarrow> bool \<Rightarrow> client \<Rightarrow> string \<Rightarrow> err + client" where
  "register_checks parse dev c secret =
     (if cl_id c = [] \<or> length (cl_id c) > 128 \<or> cl_name c = [] \<or> length (cl_name c) > 200
      then Inl (Failure ''client ID and name required'')
      else if cl_development c \<and> \<not> dev
      then Inl (Failure ''development client not allowed in production'')
      else if \<not> cl_public c \<and> length secret < 32
      then Inl (Failure ''client secret must contain at least 32 bytes'')
      else if cl_public c \<and> secret \<noteq> [] then Inl (Failure ''public client cannot have a secret'')
      else let c = default_grants c in
      case validateCapabilities c of
        Inl e \<Rightarrow> Inl e
      | Inr _ \<Rightarrow>
          (case register_grants (cl_public c) (cl_grants c) of
            Some e \<Rightarrow> Inl e
          | None \<Rightarrow>
              if GrantTypeCode \<in> set (cl_grants c) \<and> length (cl_redirects c) = 0
              then Inl (Failure ''redirect URI required'')
              else if \<not> list_all (\<lambda>raw. validEndpoint parse raw (cl_development c)) (registered_urls c)
              then Inl (Failure ''invalid registered endpoint'')
              else Inr c))"

definition RegisterClientAs ::
  "url_parser \<Rightarrow> bool \<Rightarrow> time \<Rightarrow> string \<Rightarrow> client \<Rightarrow> string \<Rightarrow> db \<Rightarrow> (err + unit) \<times> db" where
  "RegisterClientAs parse dev now actor c secret db =
     (case register_checks parse dev c secret of
        Inl e \<Rightarrow> (Inl e, db)
      | Inr c \<Rightarrow>
          (case insert_row application_clash
              \<lparr>a_id = cl_id c, a_name = cl_name c, a_secret_hash = Hash secret, a_config = c,
               a_active = True, a_created_at = now, a_previous_secret_hash = None,
               a_previous_secret_expires_at = None\<rparr> (applications db) of
            None \<Rightarrow> (Inl (classify UniqueViolation), db)
          | Some t \<Rightarrow> (Inr (), audit now actor ''application.create'' (cl_id c) (db\<lparr>applications := t\<rparr>))))"

definition RegisterClient ::
  "url_parser \<Rightarrow> bool \<Rightarrow> time \<Rightarrow> client \<Rightarrow> string \<Rightarrow> db \<Rightarrow> (err + unit) \<times> db" where
  "RegisterClient parse dev now c secret db = RegisterClientAs parse dev now ''bootstrap'' c secret db"

definition active_app :: "string \<Rightarrow> application_row \<Rightarrow> bool" where
  "active_app c a = (a_id a = c \<and> a_active a)"

definition Client :: "string \<Rightarrow> db \<Rightarrow> err + client" where
  "Client c db =
     (case first_row (active_app c) (applications db) of
        None \<Rightarrow> Inl (classify NoRows)
      | Some a \<Rightarrow> Inr (a_config a))"

section \<open>Updates\<close>

definition set_config :: "string \<Rightarrow> client \<Rightarrow> db \<Rightarrow> db" where
  "set_config c config db = db\<lparr>applications :=
     update_rows (\<lambda>a. a_id a = c) (\<lambda>a. a\<lparr>a_config := config\<rparr>) (applications db)\<rparr>"

definition UpdateClientCallbacksAs ::
  "url_parser \<Rightarrow> time \<Rightarrow> string \<Rightarrow> string \<Rightarrow> string \<Rightarrow> string \<Rightarrow> db \<Rightarrow> (err + client) \<times> db" where
  "UpdateClientCallbacksAs parse now actor c eventsURL backchannelURL db =
     (case first_row (active_app c) (applications db) of
        None \<Rightarrow> (Inl (classify NoRows), db)
      | Some a \<Rightarrow>
          let client = a_config a in
          if eventsURL \<noteq> [] \<and> \<not> validEndpoint parse eventsURL (cl_development client)
          then (Inl (Failure ''invalid events endpoint''), db)
          else if backchannelURL \<noteq> [] \<and> \<not> validEndpoint parse backchannelURL (cl_development client)
          then (Inl (Failure ''invalid backchannel endpoint''), db)
          else let client = client\<lparr>cl_events_url := eventsURL, cl_backchannel_url := backchannelURL\<rparr> in
          if serviceClient client \<and> (eventsURL \<noteq> [] \<or> backchannelURL \<noteq> []) then (Inl ErrForbidden, db)
          else (Inr client, audit now actor ''application.callbacks.update'' c (set_config c client db)))"

definition UpdateClientCapabilitiesAs ::
  "time \<Rightarrow> string \<Rightarrow> string \<Rightarrow> string list \<Rightarrow> string list \<Rightarrow> string list \<Rightarrow> db \<Rightarrow> (err + client) \<times> db" where
  "UpdateClientCapabilitiesAs now actor c grants scopes resources db =
     (case first_row (active_app c) (applications db) of
        None \<Rightarrow> (Inl (classify NoRows), db)
      | Some a \<Rightarrow>
          let wasService = serviceClient (a_config a);
              client = (a_config a)\<lparr>cl_grants := grants, cl_scopes := scopes, cl_resources := resources\<rparr>
          in if wasService \<noteq> serviceClient client then (Inl ErrForbidden, db)
          else case validateCapabilities client of
            Inl e \<Rightarrow> (Inl e, db)
          | Inr _ \<Rightarrow> (Inr client,
              audit now actor ''application.capabilities.update'' c (set_config c client db)))"

section \<open>Client secrets\<close>

definition AuthorizeClientIDSecret :: "time \<Rightarrow> string \<Rightarrow> string \<Rightarrow> db \<Rightarrow> err + unit" where
  "AuthorizeClientIDSecret now c secret db =
     (if secret = [] then Inl ErrUnauthorized
      else case first_row (\<lambda>a. active_app c a \<and> \<not> cl_public (a_config a)) (applications db) of
        None \<Rightarrow> Inl ErrUnauthorized
      | Some a \<Rightarrow>
          let previous = (if later_than (a_previous_secret_expires_at a) now
                then a_previous_secret_hash a else None);
              currentOK = equalHash secret (a_secret_hash a);
              previousOK = (case previous of None \<Rightarrow> False | Some p \<Rightarrow> equalHash secret p)
          in if \<not> currentOK \<and> \<not> previousOK then Inl ErrUnauthorized else Inr ())"

text \<open>\<open>grace\<close> is in microseconds; the window keeps whole seconds, as \<open>grace/time.Second\<close> does.\<close>

definition set_secret :: "time \<Rightarrow> string \<Rightarrow> time \<Rightarrow> application_row \<Rightarrow> application_row" where
  "set_secret now secret grace a = (let s = grace div seconds 1 in
     a\<lparr>a_secret_hash := Hash secret,
       a_previous_secret_hash := (if s > 0 then Some (a_secret_hash a) else None),
       a_previous_secret_expires_at := (if s > 0 then Some (now + seconds s) else None)\<rparr>)"

definition RotateClientSecretAs ::
  "time \<Rightarrow> string \<Rightarrow> string \<Rightarrow> string \<Rightarrow> time \<Rightarrow> db \<Rightarrow> (err + string) \<times> db" where
  "RotateClientSecretAs now secret actor c grace db =
     (if grace < 0 \<or> grace > hours 1 then (Inl ErrForbidden, db)
      else case first_row (active_app c) (applications db) of
        None \<Rightarrow> (Inl (classify NoRows), db)
      | Some a \<Rightarrow>
          if cl_public (a_config a) then (Inl ErrForbidden, db)
          else (Inr secret, audit now actor ''application.secret.rotate'' c
            (db\<lparr>applications := update_rows (\<lambda>a. a_id a = c) (set_secret now secret grace) (applications db)\<rparr>)))"

section \<open>What the operations keep\<close>

lemmas client_statements [statement_defs] = serviceClient_iff active_app_def set_config_def set_secret_def

lemma RegisterClientAs_schema:
  "schema_ok db \<Longrightarrow> schema_ok (snd (RegisterClientAs parse dev now actor c secret db))"
  by (auto simp: RegisterClientAs_def Let_def clash_defs statement_defs intro!: schema_intros
      split: option.splits sum.splits prod.splits if_splits)

lemma RegisterClientAs_evolves:
  assumes "schema_ok db" 
  shows "evolves D db (snd (RegisterClientAs parse dev now actor c secret db))"
  using assms
  by (auto simp: RegisterClientAs_def Let_def row_orders statement_defs intro!: history_intros
      dest!: first_row_Some  dest: row_unique  split: option.splits sum.splits prod.splits if_splits)

lemma UpdateClientCallbacksAs_schema:
  "schema_ok db \<Longrightarrow> schema_ok (snd (UpdateClientCallbacksAs parse now actor c ev bc db))"
  by (auto simp: UpdateClientCallbacksAs_def Let_def clash_defs statement_defs intro!: schema_intros
      split: option.splits sum.splits prod.splits if_splits)

lemma UpdateClientCallbacksAs_evolves:
  assumes "schema_ok db" 
  shows "evolves D db (snd (UpdateClientCallbacksAs parse now actor c ev bc db))"
  using assms
  by (auto simp: UpdateClientCallbacksAs_def Let_def row_orders statement_defs is_service_def intro!: history_intros
      dest!: first_row_Some row_unique [OF _ assms(1)] dest: row_unique  split: option.splits sum.splits prod.splits if_splits)

lemma UpdateClientCapabilitiesAs_schema:
  "schema_ok db \<Longrightarrow> schema_ok (snd (UpdateClientCapabilitiesAs now actor c grants scopes resources db))"
  by (auto simp: UpdateClientCapabilitiesAs_def Let_def clash_defs statement_defs intro!: schema_intros
      split: option.splits sum.splits prod.splits if_splits)

lemma UpdateClientCapabilitiesAs_evolves:
  assumes "schema_ok db" 
  shows "evolves D db (snd (UpdateClientCapabilitiesAs now actor c grants scopes resources db))"
  using assms
  by (auto simp: UpdateClientCapabilitiesAs_def Let_def row_orders statement_defs intro!: history_intros
      dest!: first_row_Some  dest: row_unique  split: option.splits sum.splits prod.splits if_splits)

lemma RotateClientSecretAs_schema:
  "schema_ok db \<Longrightarrow> schema_ok (snd (RotateClientSecretAs now secret actor c grace db))"
  by (auto simp: RotateClientSecretAs_def Let_def clash_defs statement_defs intro!: schema_intros
      split: option.splits sum.splits prod.splits if_splits)

lemma RotateClientSecretAs_evolves:
  assumes "schema_ok db" 
  shows "evolves D db (snd (RotateClientSecretAs now secret actor c grace db))"
  using assms
  by (auto simp: RotateClientSecretAs_def Let_def row_orders statement_defs intro!: history_intros
      dest!: first_row_Some  dest: row_unique  split: option.splits sum.splits prod.splits if_splits)

lemma RegisterClientAs_touches: "touches {T_applications, T_audit} db (snd (RegisterClientAs parse dev now actor c secret db))"
  by (auto simp: RegisterClientAs_def Let_def  intro!: history_intros
      split: option.splits sum.splits prod.splits)

lemma UpdateClientCallbacksAs_touches: "touches {T_applications, T_audit} db (snd (UpdateClientCallbacksAs parse now actor c ev bc db))"
  by (auto simp: UpdateClientCallbacksAs_def Let_def set_config_def intro!: history_intros
      split: option.splits sum.splits prod.splits)

lemma UpdateClientCapabilitiesAs_touches: "touches {T_applications, T_audit} db (snd (UpdateClientCapabilitiesAs now actor c grants scopes resources db))"
  by (auto simp: UpdateClientCapabilitiesAs_def Let_def set_config_def intro!: history_intros
      split: option.splits sum.splits prod.splits)

lemma RotateClientSecretAs_touches: "touches {T_applications, T_audit} db (snd (RotateClientSecretAs now secret actor c grace db))"
  by (auto simp: RotateClientSecretAs_def Let_def  intro!: history_intros
      split: option.splits sum.splits prod.splits)

end
