(* ===== verification/Revocation.thy ===== *)
theory Revocation
  imports Clients
begin

text \<open>
  The revoking statements, which the whole service shares:
  \<open>UPDATE t SET revoked_at = COALESCE(revoked_at, now()) WHERE ...\<close>. The locale \<open>stamped\<close> is
  their contract: the selected rows are stamped, a row once stamped is never changed again,
  and rows that are not selected stay as they are. Sessions, token families, access tokens,
  authorization requests, consents, credentials and installations interpret it. The
  contracts of the operations that end access, \<open>token_cutoff\<close> and \<open>subject_cutoff\<close> of \<open>Cutoff\<close>, rest
  on it.
\<close>

definition stamp_rows ::
  "('r \<Rightarrow> time option) \<Rightarrow> (time option \<Rightarrow> 'r \<Rightarrow> 'r) \<Rightarrow> time \<Rightarrow> ('r \<Rightarrow> bool) \<Rightarrow> 'r list \<Rightarrow> 'r list" where
  "stamp_rows stamp set_stamp now P t =
     update_rows P (\<lambda>r. set_stamp (Some (coalesce (stamp r) now)) r) t"

locale stamped =
  fixes stamp :: "'r \<Rightarrow> time option"
    and set_stamp :: "time option \<Rightarrow> 'r \<Rightarrow> 'r"
    and kept :: "'r \<Rightarrow> 'k"
  assumes stamp_set: "stamp (set_stamp x r) = x"
    and set_self: "set_stamp (stamp r) r = r"
    and kept_set: "kept (set_stamp x r) = kept r"
begin

abbreviation stamp_where :: "time \<Rightarrow> ('r \<Rightarrow> bool) \<Rightarrow> 'r list \<Rightarrow> 'r list" where
  "stamp_where \<equiv> stamp_rows stamp set_stamp"

lemma set_stamp_where:
  "set (stamp_where now P t) = (\<lambda>r. if P r then set_stamp (Some (coalesce (stamp r) now)) r else r) ` set t"
  by (simp add: stamp_rows_def table_simps)

lemma selected_stamped:
  assumes "r \<in> set (stamp_where now (\<lambda>r. Q (kept r)) t)" "Q (kept r)"
  shows "stamp r \<noteq> None"
  using assms by (auto simp: set_stamp_where stamp_set kept_set split: if_splits)

lemma stamped_unchanged:
  assumes "r \<in> set t" "stamp r \<noteq> None"
  shows "r \<in> set (stamp_where now P t)"
proof -
  obtain u where "stamp r = Some u" using assms(2) by auto
  then have "set_stamp (Some (coalesce (stamp r) now)) r = r" using set_self [of r] by simp
  then show ?thesis using assms(1) by (force simp: set_stamp_where)
qed

lemma unstamped_before:
  assumes "r \<in> set (stamp_where now P t)" "stamp r = None"
  shows "r \<in> set t \<and> \<not> P r"
  using assms by (auto simp: set_stamp_where stamp_set split: if_splits)

lemma origin:
  assumes "r \<in> set (stamp_where now P t)"
  obtains s where "s \<in> set t" "kept s = kept r" "stamp s \<noteq> None \<longrightarrow> r = s"
proof -
  obtain s where s: "s \<in> set t" "r = (if P s then set_stamp (Some (coalesce (stamp s) now)) s else s)"
    using assms by (auto simp: set_stamp_where)
  have "r = s" if "stamp s = Some u" for u
    using s(2) that set_self [of s] by simp
  moreover have "kept s = kept r" using s(2) by (simp add: kept_set)
  ultimately show thesis using s(1) that by blast
qed

lemma kept_map: "map kept (stamp_where now P t) = map kept t"
  by (simp add: stamp_rows_def update_rows_def kept_set)

end

interpretation session_stamp: stamped s_revoked_at "\<lambda>x. s_revoked_at_update (\<lambda>_. x)"
  "\<lambda>s. (s_id s, s_token_hash s, s_identity_id s, s_csrf_hash s)"
  by unfold_locales auto
interpretation family_stamp: stamped f_revoked_at "\<lambda>x. f_revoked_at_update (\<lambda>_. x)"
  "\<lambda>f. (f_id f, f_subject f, f_client_id f, f_session_id f, f_expires_at f)"
  by unfold_locales auto
interpretation access_stamp: stamped t_revoked_at "\<lambda>x. t_revoked_at_update (\<lambda>_. x)"
  "\<lambda>t. (t_id t, t_client_id t, t_subject t, t_family_id t, t_payload t, t_expires_at t)"
  by unfold_locales auto
interpretation request_stamp: stamped r_consumed_at "\<lambda>x. r_consumed_at_update (\<lambda>_. x)"
  "\<lambda>r. (r_id r, r_client_id r, r_payload r, r_code_hash r, r_expires_at r, r_code_expires_at r)"
  by unfold_locales auto
interpretation consent_stamp: stamped y_revoked_at "\<lambda>x. y_revoked_at_update (\<lambda>_. x)"
  "\<lambda>y. (y_subject y, y_caller y, y_target y, y_resource y, y_scope y)"
  by unfold_locales auto
interpretation credential_stamp: stamped c_consumed_at "\<lambda>x. c_consumed_at_update (\<lambda>_. x)"
  "\<lambda>c. (c_token_hash c, c_kind c, c_email c, c_expires_at c)"
  by unfold_locales auto
interpretation installation_stamp: stamped k_revoked_at "\<lambda>x. k_revoked_at_update (\<lambda>_. x)"
  "\<lambda>k. (k_id k, k_client_id k, k_subject k, k_installation_ref k, k_device_token_id k, k_secret_hash k)"
  by unfold_locales auto

section \<open>The statements on the tables\<close>

definition revoke_sessions :: "time \<Rightarrow> (session_row \<Rightarrow> bool) \<Rightarrow> db \<Rightarrow> db" where
  "revoke_sessions now P db =
     db\<lparr>browser_sessions := session_stamp.stamp_where now P (browser_sessions db)\<rparr>"

definition revoke_families :: "time \<Rightarrow> (family_row \<Rightarrow> bool) \<Rightarrow> db \<Rightarrow> db" where
  "revoke_families now P db = db\<lparr>token_families := family_stamp.stamp_where now P (token_families db)\<rparr>"

definition revoke_access :: "time \<Rightarrow> (access_row \<Rightarrow> bool) \<Rightarrow> db \<Rightarrow> db" where
  "revoke_access now P db = db\<lparr>access_tokens := access_stamp.stamp_where now P (access_tokens db)\<rparr>"

definition consume_requests :: "time \<Rightarrow> (auth_request_row \<Rightarrow> bool) \<Rightarrow> db \<Rightarrow> db" where
  "consume_requests now P db = db\<lparr>auth_requests := request_stamp.stamp_where now P (auth_requests db)\<rparr>"

text \<open>\<open>UPDATE device_authorizations SET status='denied' WHERE subject=$1 AND status='approved'\<close>.\<close>

definition deny_devices :: "string \<Rightarrow> db \<Rightarrow> db" where
  "deny_devices subject db = db\<lparr>device_authorizations :=
     update_rows (\<lambda>d. d_subject d = Some subject \<and> d_status d = DeviceApproved)
       (\<lambda>d. d\<lparr>d_status := DeviceDenied\<rparr>) (device_authorizations db)\<rparr>"

text \<open>
  The three statements with which \<open>LogoutAll\<close>, \<open>SetIdentityStatus\<close>, \<open>ChangePassword\<close>,
  \<open>RedeemCredential\<close> and \<open>RedeemMFAReset\<close> end a subject's sessions and tokens, and the two
  more with which the last three void its pending authorizations.
\<close>

definition revoke_subject :: "time \<Rightarrow> string \<Rightarrow> db \<Rightarrow> db" where
  "revoke_subject now subject db =
     revoke_access now (\<lambda>t. t_subject t = subject)
       (revoke_families now (\<lambda>f. f_subject f = subject)
         (revoke_sessions now (\<lambda>s. s_identity_id s = subject) db))"

definition void_authorizations :: "time \<Rightarrow> string \<Rightarrow> db \<Rightarrow> db" where
  "void_authorizations now subject db =
     deny_devices subject
       (consume_requests now (\<lambda>r. az_subject (r_payload r) = subject \<and> r_consumed_at r = None) db)"

lemma revoke_simps [simp]:
  "browser_sessions (revoke_sessions now S db) = session_stamp.stamp_where now S (browser_sessions db)"
  "token_families (revoke_families now F db) = family_stamp.stamp_where now F (token_families db)"
  "access_tokens (revoke_access now A db) = access_stamp.stamp_where now A (access_tokens db)"
  "auth_requests (consume_requests now R db) = request_stamp.stamp_where now R (auth_requests db)"
  by (simp_all add: revoke_sessions_def revoke_families_def revoke_access_def consume_requests_def)

lemma revoke_frame [simp]:
  "identities (revoke_sessions now S db) = identities db"
  "applications (revoke_sessions now S db) = applications db"
  "auth_requests (revoke_sessions now S db) = auth_requests db"
  "token_families (revoke_sessions now S db) = token_families db"
  "refresh_tokens (revoke_sessions now S db) = refresh_tokens db"
  "access_tokens (revoke_sessions now S db) = access_tokens db"
  "link_intents (revoke_sessions now S db) = link_intents db"
  "account_links (revoke_sessions now S db) = account_links db"
  "one_time_credentials (revoke_sessions now S db) = one_time_credentials db"
  "outbox (revoke_sessions now S db) = outbox db"
  "recovery_codes (revoke_sessions now S db) = recovery_codes db"
  "device_authorizations (revoke_sessions now S db) = device_authorizations db"
  "exchange_policies (revoke_sessions now S db) = exchange_policies db"
  "exchange_consents (revoke_sessions now S db) = exchange_consents db"
  "device_installations (revoke_sessions now S db) = device_installations db"
  "identities (revoke_families now F db) = identities db"
  "browser_sessions (revoke_families now F db) = browser_sessions db"
  "applications (revoke_families now F db) = applications db"
  "auth_requests (revoke_families now F db) = auth_requests db"
  "refresh_tokens (revoke_families now F db) = refresh_tokens db"
  "access_tokens (revoke_families now F db) = access_tokens db"
  "link_intents (revoke_families now F db) = link_intents db"
  "account_links (revoke_families now F db) = account_links db"
  "one_time_credentials (revoke_families now F db) = one_time_credentials db"
  "outbox (revoke_families now F db) = outbox db"
  "recovery_codes (revoke_families now F db) = recovery_codes db"
  "device_authorizations (revoke_families now F db) = device_authorizations db"
  "exchange_policies (revoke_families now F db) = exchange_policies db"
  "exchange_consents (revoke_families now F db) = exchange_consents db"
  "device_installations (revoke_families now F db) = device_installations db"
  "identities (revoke_access now A db) = identities db"
  "browser_sessions (revoke_access now A db) = browser_sessions db"
  "applications (revoke_access now A db) = applications db"
  "auth_requests (revoke_access now A db) = auth_requests db"
  "token_families (revoke_access now A db) = token_families db"
  "refresh_tokens (revoke_access now A db) = refresh_tokens db"
  "link_intents (revoke_access now A db) = link_intents db"
  "account_links (revoke_access now A db) = account_links db"
  "one_time_credentials (revoke_access now A db) = one_time_credentials db"
  "outbox (revoke_access now A db) = outbox db"
  "recovery_codes (revoke_access now A db) = recovery_codes db"
  "device_authorizations (revoke_access now A db) = device_authorizations db"
  "exchange_policies (revoke_access now A db) = exchange_policies db"
  "exchange_consents (revoke_access now A db) = exchange_consents db"
  "device_installations (revoke_access now A db) = device_installations db"
  "identities (consume_requests now R db) = identities db"
  "browser_sessions (consume_requests now R db) = browser_sessions db"
  "applications (consume_requests now R db) = applications db"
  "token_families (consume_requests now R db) = token_families db"
  "refresh_tokens (consume_requests now R db) = refresh_tokens db"
  "access_tokens (consume_requests now R db) = access_tokens db"
  "link_intents (consume_requests now R db) = link_intents db"
  "account_links (consume_requests now R db) = account_links db"
  "one_time_credentials (consume_requests now R db) = one_time_credentials db"
  "outbox (consume_requests now R db) = outbox db"
  "recovery_codes (consume_requests now R db) = recovery_codes db"
  "device_authorizations (consume_requests now R db) = device_authorizations db"
  "exchange_policies (consume_requests now R db) = exchange_policies db"
  "exchange_consents (consume_requests now R db) = exchange_consents db"
  "device_installations (consume_requests now R db) = device_installations db"
  "identities (deny_devices subject db) = identities db"
  "browser_sessions (deny_devices subject db) = browser_sessions db"
  "applications (deny_devices subject db) = applications db"
  "auth_requests (deny_devices subject db) = auth_requests db"
  "token_families (deny_devices subject db) = token_families db"
  "refresh_tokens (deny_devices subject db) = refresh_tokens db"
  "access_tokens (deny_devices subject db) = access_tokens db"
  "link_intents (deny_devices subject db) = link_intents db"
  "account_links (deny_devices subject db) = account_links db"
  "one_time_credentials (deny_devices subject db) = one_time_credentials db"
  "outbox (deny_devices subject db) = outbox db"
  "recovery_codes (deny_devices subject db) = recovery_codes db"
  "exchange_policies (deny_devices subject db) = exchange_policies db"
  "exchange_consents (deny_devices subject db) = exchange_consents db"
  "device_installations (deny_devices subject db) = device_installations db"
  by (simp_all add: revoke_sessions_def revoke_families_def revoke_access_def consume_requests_def
      deny_devices_def)

lemma revoke_schema [schema_intros]:
  "schema_ok db \<Longrightarrow> schema_ok (revoke_sessions now S db)"
  "schema_ok db \<Longrightarrow> schema_ok (revoke_families now F db)"
  "schema_ok db \<Longrightarrow> schema_ok (revoke_access now A db)"
  "schema_ok db \<Longrightarrow> schema_ok (consume_requests now R db)"
  "schema_ok db \<Longrightarrow> schema_ok (deny_devices subject db)"
  by (auto simp: revoke_sessions_def revoke_families_def revoke_access_def consume_requests_def
      deny_devices_def stamp_rows_def clash_defs intro!: schema_intros split: if_splits)

lemma revoke_evolves_self:
  "evolves D db (revoke_sessions now S db)"
  "evolves D db (revoke_families now F db)"
  "evolves D db (revoke_access now A db)"
  "evolves D db (consume_requests now R db)"
  "evolves D db (deny_devices subject db)"
  by (auto simp: revoke_sessions_def revoke_families_def revoke_access_def consume_requests_def
      deny_devices_def stamp_rows_def row_orders intro!: history_intros split: if_splits)

lemmas revoke_evolves [history_intros] =
  revoke_evolves_self [THEN evolves_trans [OF _ _ order_refl, rotated]]

lemma revoke_subject_kept [schema_intros, history_intros]:
  "schema_ok db \<Longrightarrow> schema_ok (revoke_subject now subject db)"
  "evolves D a b \<Longrightarrow> evolves D a (revoke_subject now subject b)"
  "schema_ok db \<Longrightarrow> schema_ok (void_authorizations now subject db)"
  "evolves D a b \<Longrightarrow> evolves D a (void_authorizations now subject b)"
  by (auto simp: revoke_subject_def void_authorizations_def intro!: schema_intros history_intros)

lemma revoke_subject_frame [simp]:
  "identities (revoke_subject now subject db) = identities db"
  "applications (revoke_subject now subject db) = applications db"
  "account_links (revoke_subject now subject db) = account_links db"
  "link_intents (revoke_subject now subject db) = link_intents db"
  "outbox (revoke_subject now subject db) = outbox db"
  "identities (void_authorizations now subject db) = identities db"
  "account_links (void_authorizations now subject db) = account_links db"
  "link_intents (void_authorizations now subject db) = link_intents db"
  "outbox (void_authorizations now subject db) = outbox db"
  by (simp_all add: revoke_subject_def void_authorizations_def)

lemma revoke_touches_self:
  "touches {T_sessions} db (revoke_sessions now S db)"
  "touches {T_families} db (revoke_families now F db)"
  "touches {T_access} db (revoke_access now A db)"
  "touches {T_requests} db (consume_requests now R db)"
  "touches {T_devices} db (deny_devices subject db)"
  by (auto simp: revoke_sessions_def revoke_families_def revoke_access_def consume_requests_def
      deny_devices_def intro!: history_intros)

lemma revoke_touches [history_intros]:
  "touches T a b \<Longrightarrow> T_sessions \<in> T \<Longrightarrow> touches T a (revoke_sessions now S b)"
  "touches T a b \<Longrightarrow> T_families \<in> T \<Longrightarrow> touches T a (revoke_families now F b)"
  "touches T a b \<Longrightarrow> T_access \<in> T \<Longrightarrow> touches T a (revoke_access now A b)"
  "touches T a b \<Longrightarrow> T_requests \<in> T \<Longrightarrow> touches T a (consume_requests now R b)"
  "touches T a b \<Longrightarrow> T_devices \<in> T \<Longrightarrow> touches T a (deny_devices subject b)"
  by (auto intro: touches_trans touches_mono [OF revoke_touches_self(1)] touches_mono [OF revoke_touches_self(2)]
      touches_mono [OF revoke_touches_self(3)] touches_mono [OF revoke_touches_self(4)] touches_mono [OF revoke_touches_self(5)])

lemma revoke_subject_touches [history_intros]:
  "touches T a b \<Longrightarrow> T_sessions \<in> T \<Longrightarrow> T_families \<in> T \<Longrightarrow> T_access \<in> T \<Longrightarrow>
    touches T a (revoke_subject now subject b)"
  "touches T a b \<Longrightarrow> T_requests \<in> T \<Longrightarrow> T_devices \<in> T \<Longrightarrow> touches T a (void_authorizations now subject b)"
  by (auto simp: revoke_subject_def void_authorizations_def intro!: history_intros)

end
