(* ===== verification/Tokens.thy ===== *)
theory Tokens
  imports Revocation
begin

text \<open>
  \<open>internal/core/tokens.go\<close>: access tokens, refresh-token families with rotation and replay
  detection, revocation and introspection. \<open>now\<close> is the database clock, \<open>wall\<close> the server's
  (\<open>time.Now()\<close>). Requests come from the OpenID library; the datatype has one constructor
  per Go type the type switch distinguishes, with what the library's getters return.
\<close>

section \<open>Token requests\<close>

record device_state =
  ds_client_id :: string
  ds_subject :: string
  ds_audience :: "string list"
  ds_scopes :: "string list"
  ds_auth_time :: time
  ds_expires :: time
  ds_done :: bool
  ds_denied :: bool

record exchange_request =
  xr_client_id :: string
  xr_subject :: string
  xr_exchange_subject :: string
  xr_subject_token :: string
  xr_subject_token_type :: string
  xr_actor_token :: string
  xr_resources :: "string list"
  xr_audience :: "string list"
  xr_scopes :: "string list"
  xr_requested_type :: string
  xr_auth_time :: time

datatype token_request =
    ServiceRequest token
  | AuthorizationRequest authorization
  | RefreshRequest token
  | DeviceRequestState device_state
  | ExchangeRequest exchange_request
  | OtherRequest string "string list" "string list"

definition GetAudience :: "authorization \<Rightarrow> string list" where
  "GetAudience a = [rq_client_id (az_request a)]"

fun request_subject :: "token_request \<Rightarrow> string" where
  "request_subject (ServiceRequest t) = tk_subject t"
| "request_subject (AuthorizationRequest a) = az_subject a"
| "request_subject (RefreshRequest t) = tk_subject t"
| "request_subject (DeviceRequestState d) = ds_subject d"
| "request_subject (ExchangeRequest x) = xr_subject x"
| "request_subject (OtherRequest s _ _) = s"

fun request_audience :: "token_request \<Rightarrow> string list" where
  "request_audience (ServiceRequest t) = tk_audience t"
| "request_audience (AuthorizationRequest a) = GetAudience a"
| "request_audience (RefreshRequest t) = tk_audience t"
| "request_audience (DeviceRequestState d) = ds_audience d"
| "request_audience (ExchangeRequest x) = xr_audience x"
| "request_audience (OtherRequest _ a _) = a"

fun request_scopes :: "token_request \<Rightarrow> string list" where
  "request_scopes (ServiceRequest t) = tk_scopes t"
| "request_scopes (AuthorizationRequest a) = rq_scopes (az_request a)"
| "request_scopes (RefreshRequest t) = tk_scopes t"
| "request_scopes (DeviceRequestState d) = ds_scopes d"
| "request_scopes (ExchangeRequest x) = xr_scopes x"
| "request_scopes (OtherRequest _ _ s) = s"

text \<open>\<open>zero_time\<close> is Go's zero \<open>time.Time\<close>, year 1.\<close>

definition zero_time :: time where "zero_time = seconds (- 62135596800)"

definition blank_token :: "time \<Rightarrow> string \<Rightarrow> token_request \<Rightarrow> token" where
  "blank_token wall new_id r = \<lparr>tk_id = new_id, tk_client_id = [], tk_subject = request_subject r,
     tk_audience = request_audience r, tk_scopes = request_scopes r, tk_auth_time = zero_time,
     tk_session_id = [], tk_family_id = [], tk_service = False, tk_grant = [], tk_delegated = False,
     tk_source_token_id = [], tk_expires_at = wall + minutes 5\<rparr>"

fun tokenRequest :: "time \<Rightarrow> string \<Rightarrow> token_request \<Rightarrow> err + token" where
  "tokenRequest wall new_id (ServiceRequest v) = Inr ((blank_token wall new_id (ServiceRequest v))
     \<lparr>tk_client_id := tk_client_id v, tk_service := True\<rparr>)"
| "tokenRequest wall new_id (AuthorizationRequest v) =
     Inr ((blank_token wall new_id (AuthorizationRequest v))
     \<lparr>tk_client_id := rq_client_id (az_request v), tk_auth_time := az_auth_time v,
      tk_session_id := az_session_id v\<rparr>)"
| "tokenRequest wall new_id (RefreshRequest v) = Inr ((blank_token wall new_id (RefreshRequest v))
     \<lparr>tk_client_id := tk_client_id v, tk_auth_time := tk_auth_time v,
      tk_session_id := tk_session_id v, tk_service := tk_service v, tk_family_id := tk_family_id v\<rparr>)"
| "tokenRequest wall new_id (DeviceRequestState v) =
     Inr ((blank_token wall new_id (DeviceRequestState v))
     \<lparr>tk_client_id := ds_client_id v, tk_auth_time := ds_auth_time v, tk_grant := ''device_code''\<rparr>)"
| "tokenRequest wall new_id (ExchangeRequest v) = Inr ((blank_token wall new_id (ExchangeRequest v))
     \<lparr>tk_client_id := xr_client_id v, tk_auth_time := xr_auth_time v,
      tk_audience := xr_audience v, tk_delegated := True\<rparr>)"
| "tokenRequest wall new_id (OtherRequest _ _ _) = Inl (Failure ''unsupported token request'')"

lemma tokenRequest_id: "tokenRequest wall new_id r = Inr t \<Longrightarrow> tk_id t = new_id"
  by (cases r) (auto simp: blank_token_def)

section \<open>Active tokens\<close>

definition session_ok :: "time \<Rightarrow> string \<Rightarrow> string \<Rightarrow> db \<Rightarrow> bool" where
  "session_ok now sid subject db =
     some_row (\<lambda>s. s_id s = sid \<and> s_identity_id s = subject \<and> live_session now s) (browser_sessions db)"

definition validateTokenSubject :: "time \<Rightarrow> token \<Rightarrow> db \<Rightarrow> err + unit" where
  "validateTokenSubject now t db =
     (case Client (tk_client_id t) db of
        Inl _ \<Rightarrow> Inl ErrUnauthorized
      | Inr _ \<Rightarrow>
          if tk_service t then Inr ()
          else (case Identity (tk_subject t) db of
            Inl _ \<Rightarrow> Inl ErrUnauthorized
          | Inr _ \<Rightarrow>
              if tk_session_id t \<noteq> [] \<and> \<not> session_ok now (tk_session_id t) (tk_subject t) db
              then Inl ErrUnauthorized
              else Inr ()))"

definition family_live :: "time \<Rightarrow> string \<Rightarrow> db \<Rightarrow> bool" where
  "family_live now fam db =
     some_row (\<lambda>f. f_id f = fam \<and> f_revoked_at f = None \<and> now < f_expires_at f) (token_families db)"

text \<open>The row the query of \<open>ActiveToken\<close> selects.\<close>

definition access_live :: "time \<Rightarrow> db \<Rightarrow> access_row \<Rightarrow> bool" where
  "access_live now db a =
     (some_row (active_app (t_client_id a)) (applications db)
      \<and> t_revoked_at a = None \<and> now < t_expires_at a
      \<and> (case t_family_id a of None \<Rightarrow> True | Some fam \<Rightarrow> family_live now fam db))"

text \<open>
  \<open>ActiveToken\<close> calls itself on the source of a delegated token. The fuel bounds the depth;
  \<open>None\<close> is a recursion that has not come back. \<open>ActiveToken\<close> gives it one call more than
  there are rows, and \<open>StackExhausted\<close> (a \<open>Failure\<close>) stands for the crash of a cyclic chain;
  \<open>active_token_terminates\<close> of \<open>Upkeep\<close> shows that no reachable database has one.
\<close>

fun active_token :: "nat \<Rightarrow> time \<Rightarrow> string \<Rightarrow> db \<Rightarrow> (err + token) option" where
  "active_token 0 now tid db = None"
| "active_token (Suc fuel) now tid db =
     (case first_row (\<lambda>a. t_id a = tid \<and> access_live now db a) (access_tokens db) of
        None \<Rightarrow> Some (Inl ErrUnauthorized)
      | Some a \<Rightarrow>
          let t = t_payload a in
          (case validateTokenSubject now t db of
            Inl e \<Rightarrow> Some (Inl e)
          | Inr _ \<Rightarrow>
              if \<not> tk_delegated t then Some (Inr t)
              else if tk_source_token_id t = [] \<or> tk_source_token_id t = tk_id t
              then Some (Inl ErrUnauthorized)
              else (case active_token fuel now (tk_source_token_id t) db of
                None \<Rightarrow> None
              | Some (Inl _) \<Rightarrow> Some (Inl ErrUnauthorized)
              | Some (Inr parent) \<Rightarrow>
                  if tk_delegated parent \<or> tk_service parent \<or> tk_client_id parent \<noteq> tk_client_id t
                    \<or> tk_subject parent \<noteq> tk_subject t
                  then Some (Inl ErrUnauthorized)
                  else Some (Inr t))))"

definition StackExhausted :: err where "StackExhausted = Failure ''stack overflow''"

definition ActiveToken :: "time \<Rightarrow> string \<Rightarrow> db \<Rightarrow> err + token" where
  "ActiveToken now tid db =
     (case active_token (Suc (length (access_tokens db))) now tid db of
        None \<Rightarrow> Inl StackExhausted
      | Some r \<Rightarrow> r)"

section \<open>Issuing\<close>

definition access_row_of :: "token \<Rightarrow> access_row" where
  "access_row_of t = \<lparr>t_id = tk_id t, t_client_id = tk_client_id t, t_subject = tk_subject t,
     t_family_id = (if tk_family_id t = [] then None else Some (tk_family_id t)), t_payload = t,
     t_expires_at = tk_expires_at t, t_revoked_at = None\<rparr>"

lemma t_id_access_row_of [simp]: "t_id (access_row_of t) = tk_id t"
  by (simp add: access_row_of_def)

definition insertAccess :: "token \<Rightarrow> db \<Rightarrow> db option" where
  "insertAccess t db = map_option (\<lambda>rows. db\<lparr>access_tokens := rows\<rparr>)
     (insert_row access_clash (access_row_of t) (access_tokens db))"

definition exchange_source :: "time \<Rightarrow> token_request \<Rightarrow> token \<Rightarrow> db \<Rightarrow> err + token" where
  "exchange_source now r t db =
     (case r of
        ExchangeRequest x \<Rightarrow>
          (case ActiveToken now (xr_subject_token x) db of
            Inl _ \<Rightarrow> Inl ErrForbidden
          | Inr source \<Rightarrow>
              if tk_client_id source \<noteq> tk_client_id t \<or> tk_subject source \<noteq> tk_subject t
                \<or> tk_delegated source \<or> tk_service source
              then Inl ErrForbidden
              else Inr (t\<lparr>tk_session_id := tk_session_id source,
                tk_source_token_id := tk_id source, tk_auth_time := tk_auth_time source\<rparr>))
      | _ \<Rightarrow> Inr t)"

lemma exchange_source_id: "exchange_source now r t db = Inr t' \<Longrightarrow> tk_id t' = tk_id t"
  by (auto simp: exchange_source_def split: token_request.splits sum.splits if_splits)

definition CreateAccessToken ::
  "time \<Rightarrow> time \<Rightarrow> string \<Rightarrow> token_request \<Rightarrow> db \<Rightarrow> (err + string \<times> time) \<times> db" where
  "CreateAccessToken now wall new_id r db =
     (case tokenRequest wall new_id r of
        Inl e \<Rightarrow> (Inl e, db)
      | Inr t \<Rightarrow> (case validateTokenSubject now t db of
          Inl e \<Rightarrow> (Inl e, db)
        | Inr _ \<Rightarrow> (case exchange_source now r t db of
            Inl e \<Rightarrow> (Inl e, db)
          | Inr t \<Rightarrow> (case insertAccess t db of
              None \<Rightarrow> (Inl UniqueViolation, db)
            | Some db' \<Rightarrow> (Inr (tk_id t, tk_expires_at t), db')))))"

text \<open>Inserting the pair that both branches of \<open>CreateAccessAndRefreshTokens\<close> end with.\<close>

definition insert_pair :: "token \<Rightarrow> string \<Rightarrow> time \<Rightarrow> db \<Rightarrow> db option" where
  "insert_pair t raw expires db =
     (case insert_row refresh_clash
         \<lparr>rt_token_hash = Hash raw, rt_family_id = tk_family_id t, rt_payload = t,
          rt_consumed_at = None, rt_expires_at = expires\<rparr> (refresh_tokens db) of
        None \<Rightarrow> None
      | Some rows \<Rightarrow> insertAccess t (db\<lparr>refresh_tokens := rows\<rparr>))"

definition new_family :: "time \<Rightarrow> string \<Rightarrow> token \<Rightarrow> family_row" where
  "new_family wall fam t = \<lparr>f_id = fam, f_subject = tk_subject t, f_client_id = tk_client_id t,
     f_session_id = tk_session_id t, f_revoked_at = None, f_expires_at = wall + days 7\<rparr>"

text \<open>The row the join of a refresh token with its family gives.\<close>

definition refresh_with_family :: "string \<Rightarrow> db \<Rightarrow> (refresh_row \<times> family_row) option" where
  "refresh_with_family raw db =
     Option.bind (first_row (\<lambda>r. rt_token_hash r = Hash raw) (refresh_tokens db)) (\<lambda>r.
       map_option (Pair r) (first_row (\<lambda>f. f_id f = rt_family_id r) (token_families db)))"

definition consume_refresh :: "time \<Rightarrow> string \<Rightarrow> db \<Rightarrow> db" where
  "consume_refresh now raw db = db\<lparr>refresh_tokens :=
     update_rows (\<lambda>r. rt_token_hash r = Hash raw) (\<lambda>r. r\<lparr>rt_consumed_at := Some now\<rparr>) (refresh_tokens db)\<rparr>"

definition CreateAccessAndRefreshTokens ::
  "time \<Rightarrow> time \<Rightarrow> string \<Rightarrow> string \<Rightarrow> string \<Rightarrow> token_request \<Rightarrow> string \<Rightarrow> db
    \<Rightarrow> (err + string \<times> string \<times> time) \<times> db" where
  "CreateAccessAndRefreshTokens now wall new_id new_fam raw r current db =
     (case tokenRequest wall new_id r of
        Inl e \<Rightarrow> (Inl e, db)
      | Inr t \<Rightarrow>
        if tk_service t then (Inl ErrForbidden, db)
        else (case validateTokenSubject now t db of
          Inl e \<Rightarrow> (Inl e, db)
        | Inr _ \<Rightarrow>
          if current = [] then
            (let t = t\<lparr>tk_family_id := new_fam\<rparr> in
             case insert_row family_clash (new_family wall new_fam t) (token_families db) of
               None \<Rightarrow> (Inl UniqueViolation, db)
             | Some fams \<Rightarrow>
               (case insert_pair t raw (wall + days 7) (db\<lparr>token_families := fams\<rparr>) of
                 None \<Rightarrow> (Inl UniqueViolation, db)
               | Some db' \<Rightarrow> (Inr (tk_id t, raw, tk_expires_at t), db')))
          else (case refresh_with_family current db of
            None \<Rightarrow> (Inl InvalidRefreshToken, db)
          | Some (rt, f) \<Rightarrow>
            if f_subject f \<noteq> tk_subject t \<or> f_client_id f \<noteq> tk_client_id t
            then (Inl InvalidRefreshToken, db)
            else if rt_consumed_at rt \<noteq> None then
              (Inl InvalidRefreshToken, audit now (tk_subject t) ''refresh.replay'' (f_id f)
                 (revoke_families now (\<lambda>g. f_id g = f_id f) db))
            else if f_revoked_at f \<noteq> None \<or> f_expires_at f < wall then (Inl InvalidRefreshToken, db)
            else
              (let t = t\<lparr>tk_family_id := f_id f\<rparr> in
               case insert_pair t raw (f_expires_at f) (consume_refresh now current db) of
                 None \<Rightarrow> (Inl UniqueViolation, db)
               | Some db' \<Rightarrow> (Inr (tk_id t, raw, tk_expires_at t), db')))))"

section \<open>Refresh requests, revocation\<close>

definition TokenRequestByRefreshToken :: "time \<Rightarrow> string \<Rightarrow> db \<Rightarrow> (err + token) \<times> db" where
  "TokenRequestByRefreshToken now raw db =
     (case refresh_with_family raw db of
        None \<Rightarrow> (Inl InvalidRefreshToken, db)
      | Some (rt, f) \<Rightarrow>
        if \<not> (now < rt_expires_at rt \<and> now < f_expires_at f) \<or> f_revoked_at f \<noteq> None
        then (Inl InvalidRefreshToken, db)
        else if rt_consumed_at rt \<noteq> None
        then (Inl InvalidRefreshToken, revoke_families now (\<lambda>g. f_id g = f_id f) db)
        else (case validateTokenSubject now (rt_payload rt) db of
          Inl e \<Rightarrow> (Inl e, db)
        | Inr _ \<Rightarrow> (Inr (rt_payload rt), db)))"

definition GetRefreshTokenInfo :: "string \<Rightarrow> string \<Rightarrow> db \<Rightarrow> err + string \<times> string" where
  "GetRefreshTokenInfo c raw db =
     (case refresh_with_family raw db of
        None \<Rightarrow> Inl InvalidRefreshToken
      | Some (rt, f) \<Rightarrow> if f_client_id f = c then Inr (f_subject f, raw) else Inl InvalidRefreshToken)"

definition RevokeToken :: "time \<Rightarrow> string \<Rightarrow> string \<Rightarrow> db \<Rightarrow> db" where
  "RevokeToken now raw c db =
     revoke_access now (\<lambda>t. t_id t = raw \<and> t_client_id t = c)
       (revoke_families now (\<lambda>f. f_client_id f = c
          \<and> some_row (\<lambda>r. rt_token_hash r = Hash raw \<and> rt_family_id r = f_id f) (refresh_tokens db)) db)"

definition TerminateSession :: "time \<Rightarrow> string \<Rightarrow> string \<Rightarrow> db \<Rightarrow> db" where
  "TerminateSession now subject c db =
     revoke_access now (\<lambda>t. t_subject t = subject \<and> t_client_id t = c)
       (revoke_families now (\<lambda>f. f_subject f = subject \<and> f_client_id f = c) db)"

section \<open>Service tokens\<close>

definition ClientCredentials :: "time \<Rightarrow> string \<Rightarrow> string \<Rightarrow> db \<Rightarrow> err + client" where
  "ClientCredentials now c secret db =
     (case AuthorizeClientIDSecret now c secret db of Inl e \<Rightarrow> Inl e | Inr _ \<Rightarrow> Client c db)"

definition service_token :: "string \<Rightarrow> string list \<Rightarrow> string list \<Rightarrow> token" where
  "service_token c scopes audience = \<lparr>tk_id = [], tk_client_id = c, tk_subject = c,
     tk_audience = audience, tk_scopes = scopes, tk_auth_time = zero_time, tk_session_id = [],
     tk_family_id = [], tk_service = True, tk_grant = [], tk_delegated = False,
     tk_source_token_id = [], tk_expires_at = zero_time\<rparr>"

definition ClientCredentialsTokenRequest :: "string \<Rightarrow> string list \<Rightarrow> db \<Rightarrow> err + token_request" where
  "ClientCredentialsTokenRequest c scopes db =
     (case Client c db of
        Inl e \<Rightarrow> Inl e
      | Inr cl \<Rightarrow>
        if cl_public cl \<or> GrantTypeClientCredentials \<notin> set (cl_grants cl) then Inl ErrForbidden
        else if list_ex (\<lambda>s. s \<notin> set (cl_scopes cl) \<or> s = ScopeOpenID \<or> s = ScopeOfflineAccess) scopes
        then Inl OidcInvalidScope
        else if length (cl_resources cl) = 0 then Inl ErrForbidden
        else Inr (ServiceRequest (service_token c scopes (cl_resources cl))))"

section \<open>User info and introspection\<close>

record user_info =
  ui_subject :: string
  ui_name :: string
  ui_email :: string
  ui_email_verified :: bool
  ui_sid :: "string option"

definition userInfo :: "string \<Rightarrow> string list \<Rightarrow> user_info \<Rightarrow> db \<Rightarrow> err + user_info" where
  "userInfo subject scopes info db =
     (case Identity subject db of
        Inl e \<Rightarrow> Inl e
      | Inr u \<Rightarrow>
          let info = info\<lparr>ui_subject := u_id u\<rparr>;
              info = (if ScopeProfile \<in> set scopes then info\<lparr>ui_name := u_name u\<rparr> else info);
              info = (if ScopeEmail \<in> set scopes
                then info\<lparr>ui_email := u_email u, ui_email_verified := u_email_verified u\<rparr> else info)
          in Inr info)"

definition SetUserinfoFromRequest ::
  "user_info \<Rightarrow> token_request \<Rightarrow> string list \<Rightarrow> db \<Rightarrow> err + user_info" where
  "SetUserinfoFromRequest info r scopes db =
     (case userInfo (request_subject r) scopes info db of
        Inl e \<Rightarrow> Inl e
      | Inr info \<Rightarrow> Inr (case r of
            AuthorizationRequest v \<Rightarrow> info\<lparr>ui_sid := Some (az_session_id v)\<rparr>
          | RefreshRequest v \<Rightarrow> info\<lparr>ui_sid := Some (tk_session_id v)\<rparr>
          | _ \<Rightarrow> info))"

definition SetUserinfoFromToken ::
  "time \<Rightarrow> user_info \<Rightarrow> string \<Rightarrow> string \<Rightarrow> string \<Rightarrow> db \<Rightarrow> err + user_info" where
  "SetUserinfoFromToken now info tid subject origin db =
     (case ActiveToken now tid db of
        Inl e \<Rightarrow> Inl e
      | Inr t \<Rightarrow>
          if tk_subject t \<noteq> subject \<or> tk_service t then Inl ErrForbidden
          else if origin \<noteq> [] then Inl ErrForbidden
          else userInfo (tk_subject t) (tk_scopes t) info db)"

record introspection =
  in_subject :: string
  in_client_id :: string
  in_scope :: "string list"
  in_audience :: "string list"
  in_expiration :: time

definition introspection_policies :: "token \<Rightarrow> string \<Rightarrow> db \<Rightarrow> nat" where
  "introspection_policies t c db =
     count_rows (\<lambda>p. x_caller p = tk_client_id t \<and> x_target p = c \<and> x_resource p \<in> set (tk_audience t)
        \<and> x_scope p \<in> set (tk_scopes t) \<and> x_active p) (exchange_policies db)"

definition SetIntrospectionFromToken ::
  "time \<Rightarrow> string \<Rightarrow> string \<Rightarrow> string \<Rightarrow> db \<Rightarrow> err + introspection" where
  "SetIntrospectionFromToken now tid subject c db =
     (case ActiveToken now tid db of
        Inl e \<Rightarrow> Inl e
      | Inr t \<Rightarrow>
          if tk_subject t \<noteq> subject then Inl ErrForbidden
          else if c \<notin> set (tk_audience t) \<and> tk_client_id t \<noteq> c
            \<and> (\<not> tk_delegated t \<or> introspection_policies t c db \<noteq> length (tk_scopes t))
          then Inl ErrForbidden
          else Inr \<lparr>in_subject = tk_subject t, in_client_id = tk_client_id t, in_scope = tk_scopes t,
            in_audience = tk_audience t, in_expiration = tk_expires_at t\<rparr>)"

record private_claims =
  pc_token_use :: string
  pc_client_id :: string
  pc_scope :: "string list"
  pc_sid :: string
  pc_service :: bool
  pc_act :: "string option"
  pc_delegated :: bool

definition GetPrivateClaimsFromRequest ::
  "time \<Rightarrow> string \<Rightarrow> token_request \<Rightarrow> string list \<Rightarrow> err + private_claims" where
  "GetPrivateClaimsFromRequest wall new_id r scopes =
     (case tokenRequest wall new_id r of
        Inl e \<Rightarrow> Inl e
      | Inr t \<Rightarrow> Inr \<lparr>pc_token_use = ''access'', pc_client_id = tk_client_id t, pc_scope = scopes,
          pc_sid = tk_session_id t, pc_service = tk_service t, pc_act = None, pc_delegated = False\<rparr>)"

section \<open>What the operations keep\<close>

lemmas token_statements [statement_defs] = insertAccess_def

lemma CreateAccessToken_schema:
  "schema_ok db \<Longrightarrow> schema_ok (snd (CreateAccessToken now wall new_id r db))"
  by (auto simp: CreateAccessToken_def Let_def clash_defs statement_defs intro!: schema_intros
      split: option.splits sum.splits prod.splits if_splits)

lemma CreateAccessToken_evolves:
  assumes "schema_ok db" "new_id \<notin> D T_access"
  shows "evolves D db (snd (CreateAccessToken now wall new_id r db))"
  using assms
  by (auto simp: CreateAccessToken_def Let_def row_orders statement_defs intro!: history_intros
      dest!: tokenRequest_id exchange_source_id  split: option.splits sum.splits prod.splits if_splits)

lemma insert_pair_Some:
  assumes "insert_pair t raw expires b = Some b'"
  shows insert_pair_schema: "schema_ok b \<Longrightarrow> schema_ok b'"
    and insert_pair_evolves: "evolves D a b \<Longrightarrow> tk_id t \<notin> D T_access \<Longrightarrow> evolves D a b'"
proof -
  define r where "r = \<lparr>rt_token_hash = Hash raw, rt_family_id = tk_family_id t, rt_payload = t,
          rt_consumed_at = None, rt_expires_at = expires\<rparr>"
  have b': "b' = b\<lparr>refresh_tokens := refresh_tokens b @ [r], access_tokens := access_tokens b @ [access_row_of t]\<rparr>"
    and new: "\<forall>s\<in>set (refresh_tokens b). \<not> refresh_clash r s"
    "\<forall>s\<in>set (access_tokens b). \<not> access_clash (access_row_of t) s"
    using assms by (auto simp: insert_pair_def insertAccess_def insert_row_Some r_def split: option.splits)
  show "schema_ok b \<Longrightarrow> schema_ok b'" using new unfolding b' by (auto intro!: schema_intros)
  assume "evolves D a b" "tk_id t \<notin> D T_access"
  moreover then have "grows refresh_le (refresh_tokens a) (refresh_tokens b)"
    "descends access_le t_id (D T_access) (access_tokens a) (access_tokens b)" by (auto simp: evolves_def)
  ultimately show "evolves D a b'" unfolding b' by (auto intro!: history_intros)
qed

lemma consume_refresh_schema [schema_intros]: "schema_ok db \<Longrightarrow> schema_ok (consume_refresh now raw db)"
  by (auto simp: consume_refresh_def clash_defs intro!: schema_intros split: if_splits)

lemma refresh_with_family_Some:
  assumes "refresh_with_family raw db = Some (rt, f)"
  shows "rt \<in> set (refresh_tokens db)" "rt_token_hash rt = Hash raw" "f \<in> set (token_families db)"
    "f_id f = rt_family_id rt"
  using assms by (auto simp: refresh_with_family_def bind_eq_Some_conv dest!: first_row_Some)

lemma consume_refresh_evolves:
  assumes "schema_ok db" "refresh_with_family raw db = Some (rt, f)" "rt_consumed_at rt = None"
  shows "evolves D db (consume_refresh now raw db)"
proof -
  have "refresh_le r (r\<lparr>rt_consumed_at := Some now\<rparr>)"
    if "r \<in> set (refresh_tokens db)" "rt_token_hash r = Hash raw" for r
  proof -
    have "r = rt" using refresh_with_family_Some [OF assms(2)] that assms(1) row_unique(6) by metis
    with assms(3) show ?thesis by (simp add: refresh_le_def)
  qed
  then show ?thesis by (auto simp: consume_refresh_def intro!: history_intros)
qed

lemma CreateAccessAndRefreshTokens_schema:
  "schema_ok db \<Longrightarrow> schema_ok (snd (CreateAccessAndRefreshTokens now wall new_id new_fam raw r current db))"
  by (auto simp: CreateAccessAndRefreshTokens_def Let_def insert_row_Some intro!: schema_intros
      elim!: insert_pair_schema split: sum.splits option.splits prod.splits)

lemma CreateAccessAndRefreshTokens_evolves:
  assumes "schema_ok db" "new_id \<notin> D T_access"
  shows "evolves D db (snd (CreateAccessAndRefreshTokens now wall new_id new_fam raw r current db))"
  using assms
  by (auto simp: CreateAccessAndRefreshTokens_def Let_def insert_row_Some intro!: history_intros
      consume_refresh_evolves elim!: insert_pair_evolves dest: tokenRequest_id split: sum.splits option.splits prod.splits)

lemma TokenRequestByRefreshToken_schema:
  "schema_ok db \<Longrightarrow> schema_ok (snd (TokenRequestByRefreshToken now raw db))"
  by (auto simp: TokenRequestByRefreshToken_def Let_def clash_defs statement_defs intro!: schema_intros
      split: option.splits sum.splits prod.splits if_splits)

lemma TokenRequestByRefreshToken_evolves:
  assumes "schema_ok db" 
  shows "evolves D db (snd (TokenRequestByRefreshToken now raw db))"
  using assms
  by (auto simp: TokenRequestByRefreshToken_def Let_def row_orders statement_defs intro!: history_intros
      dest!: first_row_Some  dest: row_unique  split: option.splits sum.splits prod.splits if_splits)

lemma RevokeToken_kept: "schema_ok db \<Longrightarrow> schema_ok (RevokeToken now raw c db)" "evolves D db (RevokeToken now raw c db)"
  by (auto simp: RevokeToken_def intro!: schema_intros history_intros)

lemma TerminateSession_kept: "schema_ok db \<Longrightarrow> schema_ok (TerminateSession now s c db)" "evolves D db (TerminateSession now s c db)"
  by (auto simp: TerminateSession_def intro!: schema_intros history_intros)

lemma insert_pair_touches:
  "insert_pair t raw expires b = Some b' \<Longrightarrow> touches T a b \<Longrightarrow> T_refresh \<in> T \<Longrightarrow> T_access \<in> T \<Longrightarrow> touches T a b'"
  by (auto simp: insert_pair_def insertAccess_def split: option.splits intro!: history_intros)

lemma CreateAccessToken_touches: "touches {T_access} db (snd (CreateAccessToken now wall new_id r db))"
  by (auto simp: CreateAccessToken_def Let_def insertAccess_def intro!: history_intros
      split: option.splits sum.splits prod.splits)

lemma CreateAccessAndRefreshTokens_touches: "touches {T_access, T_refresh, T_families, T_audit} db (snd (CreateAccessAndRefreshTokens now wall new_id new_fam raw r current db))"
  by (auto simp: CreateAccessAndRefreshTokens_def Let_def consume_refresh_def intro!: history_intros elim!: insert_pair_touches
      split: option.splits sum.splits prod.splits)

lemma TokenRequestByRefreshToken_touches: "touches {T_families} db (snd (TokenRequestByRefreshToken now raw db))"
  by (auto simp: TokenRequestByRefreshToken_def Let_def  intro!: history_intros
      split: option.splits sum.splits prod.splits)

lemma RevokeToken_touches: "touches {T_families, T_access} db (RevokeToken now raw c db)"
  by (auto simp: RevokeToken_def intro!: history_intros)

lemma TerminateSession_touches: "touches {T_families, T_access} db (TerminateSession now s c db)"
  by (auto simp: TerminateSession_def intro!: history_intros)

section \<open>The stored tokens\<close>

text \<open>
  Every access row stores its token faithfully, and the source of a delegated token, where the row
  still exists, is a direct token of the same client and subject. \<open>D\<close> holds the ids drawn so far.
\<close>

definition source_fits :: "token \<Rightarrow> token \<Rightarrow> bool" where
  "source_fits t s = (\<not> tk_delegated s \<and> \<not> tk_service s \<and> tk_client_id s = tk_client_id t
     \<and> tk_subject s = tk_subject t)"

definition stores_token :: "access_row \<Rightarrow> bool" where
  "stores_token a \<longleftrightarrow> t_id a = tk_id (t_payload a) \<and> t_client_id a = tk_client_id (t_payload a)
     \<and> t_subject a = tk_subject (t_payload a) \<and> t_expires_at a = tk_expires_at (t_payload a)
     \<and> t_family_id a = (if tk_family_id (t_payload a) = [] then None else Some (tk_family_id (t_payload a)))"

definition token_inv :: "string set \<Rightarrow> db \<Rightarrow> bool" where
  "token_inv D db \<longleftrightarrow> (\<forall>a\<in>set (access_tokens db).
     stores_token a \<and> t_id a \<in> D
     \<and> (tk_delegated (t_payload a) \<and> tk_source_token_id (t_payload a) \<noteq> []
          \<longrightarrow> tk_source_token_id (t_payload a) \<in> D \<and> (\<forall>b\<in>set (access_tokens db). t_id b = tk_source_token_id (t_payload a) \<longrightarrow> source_fits (t_payload a) (t_payload b))))"

lemma token_invD:
  assumes "token_inv D db" "a \<in> set (access_tokens db)"
  shows "tk_id (t_payload a) = t_id a" "tk_client_id (t_payload a) = t_client_id a"
    "tk_subject (t_payload a) = t_subject a" "tk_expires_at (t_payload a) = t_expires_at a" "t_id a \<in> D"
  using assms by (auto simp: token_inv_def stores_token_def)

lemma token_inv_mono: "token_inv D db \<Longrightarrow> D \<subseteq> D' \<Longrightarrow> token_inv D' db"
  unfolding token_inv_def by blast

text \<open>An operation that issues no token keeps it.\<close>

lemma token_inv_kept:
  assumes "token_inv D db" "descends access_le t_id UNIV (access_tokens db) (access_tokens db')"
  shows "token_inv D db'"
  unfolding token_inv_def
proof (intro ballI)
  have orig: "\<exists>b\<in>set (access_tokens db). access_le b a" if "a \<in> set (access_tokens db')" for a
    using assms(2) that by (auto simp: descends_def)
  fix a assume "a \<in> set (access_tokens db')"
  then obtain b where b: "b \<in> set (access_tokens db)" "access_le b a" using orig by blast
  then have "t_payload a = t_payload b" by (simp add: access_le_def)
  moreover have "stores_token a"
    using assms(1) b by (auto simp: token_inv_def stores_token_def access_le_def)
  moreover have "source_fits (t_payload b) (t_payload c)" if c: "tk_delegated (t_payload b)"
      "c \<in> set (access_tokens db')" "t_id c = tk_source_token_id (t_payload b)"
      "tk_source_token_id (t_payload b) \<noteq> []" for c
  proof -
    obtain d where "d \<in> set (access_tokens db)" "access_le d c" using orig c(2) by blast
    then show ?thesis using assms(1) b(1) c by (auto simp: token_inv_def access_le_def)
  qed
  ultimately show "stores_token a \<and> t_id a \<in> D
     \<and> (tk_delegated (t_payload a) \<and> tk_source_token_id (t_payload a) \<noteq> []
          \<longrightarrow> tk_source_token_id (t_payload a) \<in> D \<and> (\<forall>b\<in>set (access_tokens db'). t_id b = tk_source_token_id (t_payload a) \<longrightarrow> source_fits (t_payload a) (t_payload b)))"
    using b assms(1) by (auto simp: token_inv_def access_le_def)
qed

lemma token_inv_issue:
  assumes "token_inv D db" "tk_id t \<notin> D" 
    "tk_delegated t \<and> tk_source_token_id t \<noteq> [] \<longrightarrow> (\<exists>b\<in>set (access_tokens db). t_id b = tk_source_token_id t \<and> source_fits t (t_payload b))"
    "schema_ok db" "access_tokens db' = access_tokens db @ [access_row_of t]"
  shows "token_inv (insert (tk_id t) D) db'"
proof -
  have own: "stores_token (access_row_of t)" "t_payload (access_row_of t) = t"
    by (simp_all add: access_row_of_def stores_token_def)
  have "source_fits t (t_payload b)" if "tk_delegated t" "b \<in> set (access_tokens db)"
      "t_id b = tk_source_token_id t" "tk_source_token_id t \<noteq> []" for b
    using assms(3,4) that row_unique(7) by metis
  moreover have "tk_source_token_id t \<in> D" if "tk_delegated t" "tk_source_token_id t \<noteq> []"
    using assms(1,3) that token_invD(5) by metis
  ultimately show ?thesis using assms(1,2) own
    unfolding token_inv_def assms(5) by auto
qed

lemma active_token_row:
  assumes "active_token fuel now tid db = Some (Inr t)"
  shows "\<exists>a\<in>set (access_tokens db). t_id a = tid \<and> access_live now db a \<and> t_payload a = t
    \<and> validateTokenSubject now t db = Inr ()"
  using assms
  by (cases fuel) (auto simp: Let_def split: option.splits sum.splits if_splits dest!: first_row_Some)

lemma ActiveToken_row:
  "ActiveToken now tid db = Inr t \<Longrightarrow> \<exists>a\<in>set (access_tokens db). t_id a = tid \<and> access_live now db a
    \<and> t_payload a = t \<and> validateTokenSubject now t db = Inr ()"
  by (auto simp: ActiveToken_def simp del: active_token.simps split: option.splits dest!: active_token_row)

lemma tokenRequest_direct: "tokenRequest wall new_id r = Inr t \<Longrightarrow> tk_delegated t \<longleftrightarrow> (\<exists>x. r = ExchangeRequest x)"
  by (cases r) (auto simp: blank_token_def)

lemma CreateAccessToken_token_inv:
  assumes "schema_ok db" "token_inv D db" "new_id \<notin> D"
  shows "token_inv (insert new_id D) (snd (CreateAccessToken now wall new_id r db))"
proof -
  have mono: "token_inv (insert new_id D) db" using assms(2) by (rule token_inv_mono) auto
  have source: "tk_delegated t' \<longrightarrow> (\<exists>b\<in>set (access_tokens db). t_id b = tk_source_token_id t' \<and> source_fits t' (t_payload b))"
    if issue: "tokenRequest wall new_id r = Inr t" "exchange_source now r t db = Inr t'" for t t'
  proof (cases "\<exists>x. r = ExchangeRequest x")
    case False
    then have "t' = t" using issue(2) by (auto simp: exchange_source_def split: token_request.splits)
    then show ?thesis using False tokenRequest_direct [OF issue(1)] by simp
  next
    case True
    then obtain x where x: "r = ExchangeRequest x" ..
    with issue(2) obtain s where "ActiveToken now (xr_subject_token x) db = Inr s"
      by (auto simp: exchange_source_def split: sum.splits)
    moreover with issue(2) x have "tk_source_token_id t' = tk_id s" "source_fits t' s"
      by (auto simp: exchange_source_def source_fits_def split: if_splits)
    ultimately have "ActiveToken now (xr_subject_token x) db = Inr s" "tk_source_token_id t' = tk_id s"
      "source_fits t' s" by simp_all
    then show ?thesis using ActiveToken_row token_invD(1) [OF assms(2)] by metis
  qed
  have "token_inv (insert new_id D) (db\<lparr>access_tokens := access_tokens db @ [access_row_of t']\<rparr>)"
    if "tokenRequest wall new_id r = Inr t" "exchange_source now r t db = Inr t'" for t t'
    using token_inv_issue [OF assms(2) _ _ assms(1), of t'] source [OF that] tokenRequest_id [OF that(1)]
      exchange_source_id [OF that(2)] assms(3) by simp
  with mono show ?thesis
    by (auto simp: CreateAccessToken_def insertAccess_def insert_row_Some split: sum.splits option.splits)
qed

lemma insert_pair_access:
  "insert_pair t raw expires b = Some b' \<Longrightarrow> access_tokens b' = access_tokens b @ [access_row_of t]"
  by (auto simp: insert_pair_def insertAccess_def insert_row_Some split: option.splits)

lemma token_inv_cong: "access_tokens a = access_tokens b \<Longrightarrow> token_inv D a = token_inv D b"
  by (simp add: token_inv_def)

lemma tokenRequest_no_source: "tokenRequest wall new_id r = Inr t \<Longrightarrow> tk_source_token_id t = []"
  by (cases r) (auto simp: blank_token_def)

lemma CreateAccessAndRefreshTokens_token_inv:
  assumes "schema_ok db" "token_inv D db" "new_id \<notin> D"
  shows "token_inv (insert new_id D) (snd (CreateAccessAndRefreshTokens now wall new_id new_fam raw r current db))"
proof -
  have mono: "token_inv (insert new_id D) db" using assms(2) by (rule token_inv_mono) auto
  have pair: "token_inv (insert new_id D) b'"
    if "tokenRequest wall new_id r = Inr t" "insert_pair (t\<lparr>tk_family_id := fam\<rparr>) raw e b = Some b'"
      "access_tokens b = access_tokens db" for t fam b b' e
    using token_inv_issue [OF assms(2) _ _ assms(1), of "t\<lparr>tk_family_id := fam\<rparr>" b'] insert_pair_access [OF that(2)]
      tokenRequest_id [OF that(1)] tokenRequest_no_source [OF that(1)] assms(3) that(3) by simp
  have same: "token_inv (insert new_id D) b" if "access_tokens b = access_tokens db" for b
    using mono that by (simp add: token_inv_def)
  show ?thesis
    by (auto simp: CreateAccessAndRefreshTokens_def Let_def consume_refresh_def split: sum.splits option.splits
      intro: same elim: pair)
qed



text \<open>What an active token is, without the recursion.\<close>

definition usable_row :: "time \<Rightarrow> db \<Rightarrow> access_row \<Rightarrow> bool" where
  "usable_row now db a = (access_live now db a \<and> validateTokenSubject now (t_payload a) db = Inr ())"

definition active_row :: "time \<Rightarrow> db \<Rightarrow> access_row \<Rightarrow> bool" where
  "active_row now db a = (usable_row now db a \<and> (tk_delegated (t_payload a) \<longrightarrow>
     tk_source_token_id (t_payload a) \<noteq> [] \<and> tk_source_token_id (t_payload a) \<noteq> t_id a
     \<and> (\<exists>b\<in>set (access_tokens db). t_id b = tk_source_token_id (t_payload a) \<and> usable_row now db b)))"

lemma validate_cases: "validateTokenSubject now t db = Inr () \<or> validateTokenSubject now t db = Inl ErrUnauthorized"
  by (auto simp: validateTokenSubject_def split: sum.splits)

lemma access_lookup:
  assumes "schema_ok db" "a \<in> set (access_tokens db)" "t_id a = tid" "access_live now db a"
  shows "first_row (\<lambda>a. t_id a = tid \<and> access_live now db a) (access_tokens db) = Some a"
proof -
  obtain b where b: "first_row (\<lambda>a. t_id a = tid \<and> access_live now db a) (access_tokens db) = Some b"
    using assms by (cases "first_row (\<lambda>a. t_id a = tid \<and> access_live now db a) (access_tokens db)") (auto dest: first_row_NoneD)
  from first_row_Some [OF this] have "b \<in> set (access_tokens db)" "t_id b = t_id a" using assms(3) by auto
  then have "b = a" using assms(1,2) row_unique(7) by blast
  with b show ?thesis by simp
qed

lemma direct_token_step:
  assumes "schema_ok db" "a \<in> set (access_tokens db)" "\<not> tk_delegated (t_payload a)"
  shows "active_token (Suc n) now (t_id a) db
    = Some (if usable_row now db a then Inr (t_payload a) else Inl ErrUnauthorized)"
proof (cases "access_live now db a")
  case True
  then show ?thesis using assms access_lookup [OF assms(1,2) refl True] validate_cases [of now "t_payload a" db]
    by (auto simp: usable_row_def Let_def split: sum.splits)
next
  case False
  then have "first_row (\<lambda>b. t_id b = t_id a \<and> access_live now db b) (access_tokens db) = None"
    using assms row_unique(7) unfolding first_row_None by metis
  then show ?thesis using False by (simp add: usable_row_def)
qed

lemma delegated_token_step:
  assumes "schema_ok db" "token_inv D db" "a \<in> set (access_tokens db)" "tk_delegated (t_payload a)"
  shows "active_token (Suc (Suc n)) now (t_id a) db
    = Some (if active_row now db a then Inr (t_payload a) else Inl ErrUnauthorized)"
proof (cases "access_live now db a \<and> validateTokenSubject now (t_payload a) db = Inr ()
    \<and> tk_source_token_id (t_payload a) \<noteq> [] \<and> tk_source_token_id (t_payload a) \<noteq> t_id a")
  case True
  let ?src = "tk_source_token_id (t_payload a)"
  have step: "active_token (Suc (Suc n)) now (t_id a) db = (case active_token (Suc n) now ?src db of
       None \<Rightarrow> None | Some (Inl _) \<Rightarrow> Some (Inl ErrUnauthorized)
     | Some (Inr parent) \<Rightarrow> if tk_delegated parent \<or> tk_service parent
         \<or> tk_client_id parent \<noteq> tk_client_id (t_payload a) \<or> tk_subject parent \<noteq> tk_subject (t_payload a)
       then Some (Inl ErrUnauthorized) else Some (Inr (t_payload a)))"
    using True assms(4) access_lookup [OF assms(1,3) refl] token_invD(1) [OF assms(2,3)]
    by (simp add: Let_def del: active_token.simps add: active_token.simps(2) [of "Suc n"])
  show ?thesis
  proof (cases "\<exists>b\<in>set (access_tokens db). t_id b = ?src")
    case False
    then have none: "first_row (\<lambda>b. t_id b = ?src \<and> access_live now db b) (access_tokens db) = None"
      unfolding first_row_None by auto
    have "active_token (Suc n) now ?src db = Some (Inl ErrUnauthorized)" using none by simp
    with step False assms(4) show ?thesis by (auto simp: active_row_def simp del: active_token.simps)
  next
    case True': True
    then obtain b where b: "b \<in> set (access_tokens db)" "t_id b = ?src" by blast
    have uniq: "(\<exists>c\<in>set (access_tokens db). t_id c = ?src \<and> usable_row now db c) \<longleftrightarrow> usable_row now db b"
      using b assms(1) row_unique(7) by metis
    have fits: "source_fits (t_payload a) (t_payload b)"
      using assms(2-4) b True by (auto simp: token_inv_def)
    then have "active_token (Suc n) now ?src db
        = Some (if usable_row now db b then Inr (t_payload b) else Inl ErrUnauthorized)"
      using direct_token_step [OF assms(1) b(1)] b(2) by (simp add: source_fits_def)
    moreover have "active_row now db a \<longleftrightarrow> usable_row now db b"
      using True assms(4) uniq by (simp add: active_row_def) (simp add: usable_row_def)
    ultimately show ?thesis using step fits
      by (cases "usable_row now db b") (simp_all add: source_fits_def del: active_token.simps)
  qed
next
  case False
  show ?thesis
  proof (cases "access_live now db a")
    case True
    with False show ?thesis
      using assms(4) access_lookup [OF assms(1,3) refl True] token_invD(1) [OF assms(2,3)]
        validate_cases [of now "t_payload a" db]
      by (auto simp: Let_def active_row_def usable_row_def del: active_token.simps simp: active_token.simps(2) [of "Suc n"])
  next
    case False: False
    then have "first_row (\<lambda>b. t_id b = t_id a \<and> access_live now db b) (access_tokens db) = None"
      using assms row_unique(7) unfolding first_row_None by metis
    then show ?thesis using False by (simp add: active_row_def usable_row_def active_token.simps(2) [of "Suc n"] del: active_token.simps)
  qed
qed

lemma ActiveToken_spec:
  assumes "schema_ok db" "token_inv D db"
  shows "ActiveToken now tid db = (case first_row (\<lambda>a. t_id a = tid) (access_tokens db) of
      None \<Rightarrow> Inl ErrUnauthorized
    | Some a \<Rightarrow> if active_row now db a then Inr (t_payload a) else Inl ErrUnauthorized)"
proof (cases "first_row (\<lambda>a. t_id a = tid) (access_tokens db)")
  case None
  then have "first_row (\<lambda>a. t_id a = tid \<and> access_live now db a) (access_tokens db) = None"
    by (auto simp: first_row_None)
  then show ?thesis using None by (simp add: ActiveToken_def)
next
  case (Some a)
  then have a: "a \<in> set (access_tokens db)" "t_id a = tid" by (auto dest: first_row_Some)
  then obtain n where n: "length (access_tokens db) = Suc n" by (cases "access_tokens db") auto
  have "active_token (Suc (length (access_tokens db))) now tid db
      = Some (if active_row now db a then Inr (t_payload a) else Inl ErrUnauthorized)"
  proof (cases "tk_delegated (t_payload a)")
    case True
    then show ?thesis using delegated_token_step [OF assms a(1)] a(2) n by simp
  next
    case False
    then show ?thesis using direct_token_step [OF assms(1) a(1)] a(2) by (simp add: active_row_def)
  qed
  with Some show ?thesis by (simp add: ActiveToken_def)
qed

section \<open>Refresh-token families\<close>

definition refresh_fits :: "family_row list \<Rightarrow> refresh_row \<Rightarrow> bool" where
  "refresh_fits families r = (rt_family_id r = tk_family_id (rt_payload r)
     \<and> (\<exists>f\<in>set families. f_id f = rt_family_id r \<and> f_subject f = tk_subject (rt_payload r)
          \<and> f_client_id f = tk_client_id (rt_payload r)))"

definition refresh_inv :: "db \<Rightarrow> bool" where
  "refresh_inv db \<longleftrightarrow> (\<forall>r\<in>set (refresh_tokens db). refresh_fits (token_families db) r)
     \<and> (\<forall>r\<in>set (refresh_tokens db). \<forall>s\<in>set (refresh_tokens db).
          rt_family_id r = rt_family_id s \<and> rt_consumed_at r = None \<and> rt_consumed_at s = None \<longrightarrow> r = s)"

lemma refresh_inv_kept:
  assumes "refresh_inv db" "refresh_tokens db' = refresh_tokens db"
    "grows family_le (token_families db) (token_families db')"
  shows "refresh_inv db'"
proof -
  have "refresh_fits (token_families db') r" if "refresh_fits (token_families db) r" for r
    using that assms(3) unfolding refresh_fits_def grows_def family_le_def by metis
  then show ?thesis using assms(1,2) by (simp add: refresh_inv_def)
qed

lemma refresh_fits_consumed [simp]: "refresh_fits fs (r\<lparr>rt_consumed_at := x\<rparr>) = refresh_fits fs r"
  by (simp add: refresh_fits_def)

lemma insert_pair_refresh:
  assumes "insert_pair t raw e b = Some b'"
  obtains r where "refresh_tokens b' = refresh_tokens b @ [r]" "token_families b' = token_families b"
    "rt_family_id r = tk_family_id t" "rt_payload r = t" "rt_consumed_at r = None"
  using assms that by (auto simp: insert_pair_def insertAccess_def insert_row_Some split: option.splits)

lemma refresh_inv_pair:
  assumes "refresh_inv b" "insert_pair t raw e b = Some b'"
    and "\<exists>f\<in>set (token_families b). f_id f = tk_family_id t \<and> f_subject f = tk_subject t \<and> f_client_id f = tk_client_id t"
    and "\<forall>s\<in>set (refresh_tokens b). rt_family_id s = tk_family_id t \<longrightarrow> rt_consumed_at s \<noteq> None"
  shows "refresh_inv b'"
proof -
  obtain r where r: "refresh_tokens b' = refresh_tokens b @ [r]" "token_families b' = token_families b"
    "rt_family_id r = tk_family_id t" "rt_payload r = t" "rt_consumed_at r = None"
    using assms(2) by (rule insert_pair_refresh)
  then have "refresh_fits (token_families b') r" using assms(3) by (simp add: refresh_fits_def)
  with r assms(1,4) show ?thesis unfolding refresh_inv_def by auto
qed

lemma refresh_inv_rotate:
  assumes "schema_ok db" "refresh_inv db" "refresh_with_family current db = Some (rt, f)" "rt_consumed_at rt = None"
  shows "refresh_inv (consume_refresh now current db)"
    "\<forall>s\<in>set (refresh_tokens (consume_refresh now current db)). rt_family_id s = f_id f \<longrightarrow> rt_consumed_at s \<noteq> None"
proof -
  note rt = refresh_with_family_Some [OF assms(3)]
  have uniq: "s = rt" if "s \<in> set (refresh_tokens db)" "rt_token_hash s = Hash current" for s
    using that rt assms(1) row_unique(6) by metis
  show "refresh_inv (consume_refresh now current db)"
    using assms(2) unfolding refresh_inv_def consume_refresh_def
    by (auto elim!: in_update_rows)
  show "\<forall>s\<in>set (refresh_tokens (consume_refresh now current db)). rt_family_id s = f_id f \<longrightarrow> rt_consumed_at s \<noteq> None"
  proof (intro ballI impI)
    fix s assume "s \<in> set (refresh_tokens (consume_refresh now current db))" "rt_family_id s = f_id f"
    then obtain q where q: "q \<in> set (refresh_tokens db)"
        "s = (if rt_token_hash q = Hash current then q\<lparr>rt_consumed_at := Some now\<rparr> else q)"
      by (auto simp: consume_refresh_def elim: in_update_rows)
    show "rt_consumed_at s \<noteq> None"
    proof
      assume "rt_consumed_at s = None"
      with q have "q = s" "rt_token_hash q \<noteq> Hash current" by (auto split: if_splits)
      moreover then have "q = rt" using assms(2,4) q(1) rt \<open>rt_family_id s = f_id f\<close> \<open>rt_consumed_at s = None\<close>
        unfolding refresh_inv_def by auto
      ultimately show False using rt(2) by simp
    qed
  qed
qed

lemma CreateAccessAndRefreshTokens_refresh_inv:
  assumes "schema_ok db" "refresh_inv db"
  shows "refresh_inv (snd (CreateAccessAndRefreshTokens now wall new_id new_fam raw r current db))"
proof -
  have fresh: "refresh_inv b'"
    if "insert_row family_clash (new_family wall new_fam (t\<lparr>tk_family_id := new_fam\<rparr>)) (token_families db) = Some fams"
      "insert_pair (t\<lparr>tk_family_id := new_fam\<rparr>) raw e (db\<lparr>token_families := fams\<rparr>) = Some b'" for t fams e b'
  proof (rule refresh_inv_pair [OF _ that(2)])
    have fams: "fams = token_families db @ [new_family wall new_fam (t\<lparr>tk_family_id := new_fam\<rparr>)]"
      "\<forall>f\<in>set (token_families db). f_id f \<noteq> new_fam"
      using that(1) by (auto simp: insert_row_Some family_clash_def new_family_def)
    then show "\<exists>f\<in>set (token_families (db\<lparr>token_families := fams\<rparr>)). f_id f = tk_family_id (t\<lparr>tk_family_id := new_fam\<rparr>)
        \<and> f_subject f = tk_subject (t\<lparr>tk_family_id := new_fam\<rparr>) \<and> f_client_id f = tk_client_id (t\<lparr>tk_family_id := new_fam\<rparr>)"
      by (simp add: new_family_def)
    show "refresh_inv (db\<lparr>token_families := fams\<rparr>)"
      by (rule refresh_inv_kept [OF assms(2)]) (simp_all add: fams family_h.grows_append family_h.grows_refl)
    show "\<forall>s\<in>set (refresh_tokens (db\<lparr>token_families := fams\<rparr>)).
        rt_family_id s = tk_family_id (t\<lparr>tk_family_id := new_fam\<rparr>) \<longrightarrow> rt_consumed_at s \<noteq> None"
      using fams(2) assms(2) by (auto simp: refresh_inv_def refresh_fits_def)
  qed
  have rotate: "refresh_inv b'"
    if "refresh_with_family current db = Some (rt, f)" "rt_consumed_at rt = None"
      "insert_pair (t\<lparr>tk_family_id := f_id f\<rparr>) raw e (consume_refresh now current db) = Some b'"
      "f_subject f = tk_subject t" "f_client_id f = tk_client_id t" for rt f t e b'
    using refresh_inv_pair [OF refresh_inv_rotate(1) [OF assms that(1,2)] that(3)]
      refresh_inv_rotate(2) [OF assms that(1,2)] refresh_with_family_Some(3) [OF that(1)] that(4,5)
    by (auto simp: consume_refresh_def)
  have replay: "refresh_inv (audit n x y z (revoke_families now P db))" for n x y z P
    by (rule refresh_inv_kept [OF assms(2)])
      (auto simp: stamp_rows_def family_le_def intro!: family_h.grows_update family_h.grows_refl)
  show ?thesis using assms(2)
    by (auto simp: CreateAccessAndRefreshTokens_def Let_def split: sum.splits option.splits
      intro: fresh rotate replay)
qed

end
