(* ===== verification/Authorization.thy ===== *)
theory Authorization
  imports Tokens
begin

text \<open>
  \<open>internal/core/authorization.go\<close>: authorization requests, their completion by a signed-in
  user, and the one-time authorization codes.
\<close>

definition ResponseTypeCode :: string where "ResponseTypeCode = ''code''"
definition CodeChallengeMethodS256 :: string where "CodeChallengeMethodS256 = ''S256''"
definition PromptNone :: string where "PromptNone = ''none''"
definition PromptLogin :: string where "PromptLogin = ''login''"

definition CreateAuthRequest ::
  "time \<Rightarrow> time \<Rightarrow> string \<Rightarrow> auth_request \<Rightarrow> db \<Rightarrow> (err + authorization) \<times> db" where
  "CreateAuthRequest now wall new_id r db =
     (case Client (rq_client_id r) db of
        Inl e \<Rightarrow> (Inl e, db)
      | Inr c \<Rightarrow>
        if rq_response_type r \<noteq> ResponseTypeCode \<or> rq_redirect_uri r \<notin> set (cl_redirects c)
        then (Inl OidcInvalidRequest, db)
        else if rq_code_challenge_method r \<noteq> CodeChallengeMethodS256 \<or> length (rq_code_challenge r) \<noteq> 43
          \<or> rq_state r = [] \<or> rq_nonce r = []
        then (Inl OidcInvalidRequest, db)
        else if ScopeOpenID \<notin> set (rq_scopes r) then (Inl OidcInvalidScope, db)
        else if list_ex (\<lambda>s. s \<notin> set (cl_scopes c)) (rq_scopes r) then (Inl OidcInvalidScope, db)
        else if PromptNone \<in> set (rq_prompt r) then (Inl OidcLoginRequired, db)
        else let a = \<lparr>az_id = new_id, az_created_at = wall, az_request = r, az_subject = [],
               az_session_id = [], az_auth_time = zero_time, az_authenticated = False\<rparr> in
        (case insert_row auth_request_clash
            \<lparr>r_id = new_id, r_client_id = cl_id c, r_payload = a, r_code_hash = None,
             r_expires_at = now + minutes 5, r_code_expires_at = None, r_consumed_at = None\<rparr>
            (auth_requests db) of
          None \<Rightarrow> (Inl UniqueViolation, db)
        | Some t \<Rightarrow> (Inr a, db\<lparr>auth_requests := t\<rparr>)))"

definition AuthRequestByID :: "time \<Rightarrow> string \<Rightarrow> db \<Rightarrow> err + authorization" where
  "AuthRequestByID now rid db =
     (case first_row (\<lambda>r. r_id r = rid \<and> now < r_expires_at r \<and> r_consumed_at r = None) (auth_requests db) of
        None \<Rightarrow> Inl ErrExpired
      | Some r \<Rightarrow> Inr (r_payload r))"

definition confirm_intents :: "time \<Rightarrow> authorization \<Rightarrow> db \<Rightarrow> db" where
  "confirm_intents now a db = db\<lparr>link_intents :=
     update_rows (\<lambda>i. n_client_id i = rq_client_id (az_request a) \<and> n_nonce i = rq_nonce (az_request a)
        \<and> n_state i = Pending \<and> now < n_expires_at i)
       (\<lambda>i. i\<lparr>n_subject := Some (az_subject a), n_state := Confirmed\<rparr>) (link_intents db)\<rparr>"

definition CompleteAuthorization :: "time \<Rightarrow> string \<Rightarrow> session_view \<Rightarrow> db \<Rightarrow> (err + unit) \<times> db" where
  "CompleteAuthorization now rid session db =
     (case first_row (\<lambda>r. r_id r = rid \<and> now < r_expires_at r \<and> r_consumed_at r = None
          \<and> r_code_hash r = None) (auth_requests db) of
        None \<Rightarrow> (Inl ErrExpired, db)
      | Some r \<Rightarrow>
        if az_authenticated (r_payload r) then (Inl ErrExpired, db)
        else (case Identity (w_identity_id session) db of
          Inl e \<Rightarrow> (Inl e, db)
        | Inr _ \<Rightarrow>
          let a = (r_payload r)\<lparr>az_subject := w_identity_id session, az_session_id := w_id session,
                 az_auth_time := w_authenticated_at session, az_authenticated := True\<rparr>
          in (Inr (), audit now (az_subject a) ''oidc.authorize'' (rq_client_id (az_request a))
               (confirm_intents now a
                 (db\<lparr>auth_requests := update_rows (\<lambda>r. r_id r = rid) (\<lambda>r. r\<lparr>r_payload := a\<rparr>)
                    (auth_requests db)\<rparr>)))))"

definition code_pending :: "time \<Rightarrow> string \<Rightarrow> auth_request_row \<Rightarrow> bool" where
  "code_pending now rid r = (r_id r = rid \<and> r_code_hash r = None \<and> r_consumed_at r = None
     \<and> now < r_expires_at r \<and> az_authenticated (r_payload r))"

text \<open>No row matches: nothing changes, \<open>ErrExpired\<close>. The index on \<open>code_hash\<close> may refuse the update.\<close>

definition SaveAuthCode :: "time \<Rightarrow> string \<Rightarrow> string \<Rightarrow> db \<Rightarrow> (err + unit) \<times> db" where
  "SaveAuthCode now rid code db =
     (if some_row (code_pending now rid) (auth_requests db)
         \<and> some_row (\<lambda>r. r_code_hash r = Some (Hash code)) (auth_requests db)
      then (Inl UniqueViolation, db)
      else (if count_rows (code_pending now rid) (auth_requests db) \<noteq> 1 then Inl ErrExpired else Inr (),
        db\<lparr>auth_requests := update_rows (code_pending now rid)
          (\<lambda>r. r\<lparr>r_code_hash := Some (Hash code), r_code_expires_at := Some (now + seconds 60)\<rparr>)
          (auth_requests db)\<rparr>))"

definition code_usable :: "time \<Rightarrow> string \<Rightarrow> auth_request_row \<Rightarrow> bool" where
  "code_usable now code r = (r_code_hash r = Some (Hash code) \<and> r_consumed_at r = None
     \<and> later_than (r_code_expires_at r) now \<and> now < r_expires_at r)"

definition AuthRequestByCode :: "time \<Rightarrow> string \<Rightarrow> db \<Rightarrow> (err + authorization) \<times> db" where
  "AuthRequestByCode now code db =
     (case first_row (code_usable now code) (auth_requests db) of
        None \<Rightarrow> (Inl OidcInvalidGrant, db)
      | Some r \<Rightarrow>
        (if \<not> az_authenticated (r_payload r) then Inl (Failure ''authorization not completed'')
         else Inr (r_payload r),
         db\<lparr>auth_requests := update_rows (code_usable now code) (\<lambda>r. r\<lparr>r_consumed_at := Some now\<rparr>)
           (auth_requests db)\<rparr>))"

definition DeleteAuthRequest :: "time \<Rightarrow> string \<Rightarrow> db \<Rightarrow> db" where
  "DeleteAuthRequest now rid db = consume_requests now (\<lambda>r. r_id r = rid) db"

section \<open>Lemmas\<close>

lemma code_usable_consumed: "r_consumed_at r \<noteq> None \<Longrightarrow> \<not> code_usable now code r"
  by (simp add: code_usable_def)

lemma AuthRequestByCode_burns:
  assumes "r \<in> set (auth_requests (snd (AuthRequestByCode now code db)))"
  shows "\<not> code_usable now code r"
proof (cases "first_row (code_usable now code) (auth_requests db)")
  case None
  then show ?thesis using assms by (auto simp: AuthRequestByCode_def dest: first_row_NoneD)
next
  case (Some s)
  then show ?thesis using assms
    by (auto simp: AuthRequestByCode_def table_simps code_usable_def split: if_splits)
qed

lemma CompleteAuthorization_success:
  assumes "CompleteAuthorization now rid session db = (Inr (), db')"
  obtains r a where "r \<in> set (auth_requests db)" "r_id r = rid" "now < r_expires_at r"
    "r_consumed_at r = None" "r_code_hash r = None" "\<not> az_authenticated (r_payload r)"
    "Identity (w_identity_id session) db = Inr (view_identity a)"
    "auth_requests db' = update_rows (\<lambda>r. r_id r = rid) (\<lambda>s. s\<lparr>r_payload := (r_payload r)
       \<lparr>az_subject := w_identity_id session, az_session_id := w_id session,
        az_auth_time := w_authenticated_at session, az_authenticated := True\<rparr>\<rparr>) (auth_requests db)"
  using assms
  by (auto simp: CompleteAuthorization_def Let_def confirm_intents_def Identity_Inr
      split: option.splits sum.splits if_splits dest!: first_row_Some)

section \<open>What the operations keep\<close>

lemmas authorization_statements [statement_defs] = code_pending_def code_usable_def confirm_intents_def

lemma CreateAuthRequest_schema:
  "schema_ok db \<Longrightarrow> schema_ok (snd (CreateAuthRequest now wall new_id r db))"
  by (auto simp: CreateAuthRequest_def Let_def clash_defs statement_defs intro!: schema_intros
      split: option.splits sum.splits prod.splits if_splits)

lemma CreateAuthRequest_evolves:
  assumes "schema_ok db" "new_id \<notin> D T_requests"
  shows "evolves D db (snd (CreateAuthRequest now wall new_id r db))"
  using assms
  by (auto simp: CreateAuthRequest_def Let_def row_orders statement_defs intro!: history_intros
      dest!: first_row_Some  dest: row_unique  split: option.splits sum.splits prod.splits if_splits)

lemma CompleteAuthorization_schema:
  "schema_ok db \<Longrightarrow> schema_ok (snd (CompleteAuthorization now rid session db))"
  by (auto simp: CompleteAuthorization_def Let_def clash_defs statement_defs intro!: schema_intros
      split: option.splits sum.splits prod.splits if_splits)

lemma CompleteAuthorization_evolves:
  assumes "schema_ok db" 
  shows "evolves D db (snd (CompleteAuthorization now rid session db))"
  using assms
  by (auto simp: CompleteAuthorization_def Let_def row_orders statement_defs intro!: history_intros
      dest!: first_row_Some  dest: row_unique  split: option.splits sum.splits prod.splits if_splits)

lemma saved_code_indexed:
  assumes "indexed auth_request_clash t"
    "some_row (code_pending now rid) t \<longrightarrow> \<not> some_row (\<lambda>r. r_code_hash r = Some h) t"
  shows "indexed auth_request_clash
    (update_rows (code_pending now rid) (\<lambda>r. r\<lparr>r_code_hash := Some h, r_code_expires_at := e\<rparr>) t)"
  by (rule auth_request_ix.update_rows_indexed_in [OF _ assms(1)])
    (use assms(2) in \<open>auto simp: table_simps auth_request_clash_def code_pending_def
      elim!: same_some.elims split: if_splits\<close>)

lemma SaveAuthCode_schema: "schema_ok db \<Longrightarrow> schema_ok (snd (SaveAuthCode now rid code db))"
  by (auto simp: SaveAuthCode_def intro!: schema_ok_updates saved_code_indexed)

lemma SaveAuthCode_evolves:
  assumes "schema_ok db" 
  shows "evolves D db (snd (SaveAuthCode now rid code db))"
  using assms
  by (auto simp: SaveAuthCode_def Let_def row_orders statement_defs intro!: history_intros
      dest!: first_row_Some  dest: row_unique  split: option.splits sum.splits prod.splits if_splits)

lemma AuthRequestByCode_schema:
  "schema_ok db \<Longrightarrow> schema_ok (snd (AuthRequestByCode now code db))"
  by (auto simp: AuthRequestByCode_def Let_def clash_defs statement_defs intro!: schema_intros
      split: option.splits sum.splits prod.splits if_splits)

lemma AuthRequestByCode_evolves:
  assumes "schema_ok db" 
  shows "evolves D db (snd (AuthRequestByCode now code db))"
  using assms
  by (auto simp: AuthRequestByCode_def Let_def row_orders statement_defs intro!: history_intros
      dest!: first_row_Some  dest: row_unique  split: option.splits sum.splits prod.splits if_splits)

lemma DeleteAuthRequest_kept: "schema_ok db \<Longrightarrow> schema_ok (DeleteAuthRequest now rid db)" "evolves D db (DeleteAuthRequest now rid db)"
  by (auto simp: DeleteAuthRequest_def intro!: schema_intros history_intros)

lemma CreateAuthRequest_touches: "touches {T_requests} db (snd (CreateAuthRequest now wall new_id r db))"
  by (auto simp: CreateAuthRequest_def Let_def  intro!: history_intros
      split: option.splits sum.splits prod.splits)

lemma CompleteAuthorization_touches: "touches {T_requests, T_intents, T_audit} db (snd (CompleteAuthorization now rid session db))"
  by (auto simp: CompleteAuthorization_def Let_def confirm_intents_def intro!: history_intros
      split: option.splits sum.splits prod.splits)

lemma SaveAuthCode_touches: "touches {T_requests} db (snd (SaveAuthCode now rid code db))"
  by (auto simp: SaveAuthCode_def Let_def  intro!: history_intros
      split: option.splits sum.splits prod.splits)

lemma AuthRequestByCode_touches: "touches {T_requests} db (snd (AuthRequestByCode now code db))"
  by (auto simp: AuthRequestByCode_def Let_def  intro!: history_intros
      split: option.splits sum.splits prod.splits)

lemma DeleteAuthRequest_touches: "touches {T_requests} db (DeleteAuthRequest now rid db)"
  by (auto simp: DeleteAuthRequest_def intro!: history_intros)

end
