(* ===== verification/Links.thy ===== *)
theory Links
  imports Authorization
begin

text \<open>
  \<open>internal/core/links.go\<close> and \<open>logout.go\<close>: the binding of a project account to an identity,
  from the intent over preparation and activation to revocation, and the logout notices.
\<close>

record link_intent =
  ni_id :: string
  ni_client_id :: string
  ni_local_ref :: string
  ni_nonce :: string
  ni_state :: link_state
  ni_expires_at :: time

definition view_intent :: "intent_row \<Rightarrow> link_intent" where
  "view_intent n = \<lparr>ni_id = n_id n, ni_client_id = n_client_id n, ni_local_ref = n_local_ref n,
     ni_nonce = n_nonce n, ni_state = n_state n, ni_expires_at = n_expires_at n\<rparr>"

definition view_link :: "link_row \<Rightarrow> account_link" where
  "view_link l = \<lparr>ln_id = l_id l, ln_client_id = l_client_id l, ln_local_ref = l_local_ref l,
     ln_subject = l_subject l, ln_state = l_state l, ln_version = l_version l,
     ln_verified_at = l_verified_at l\<rparr>"

section \<open>Intents\<close>

text \<open>
  The insert is idempotent in \<open>(client, idempotency key)\<close>: on a conflict the stored intent is
  returned, and the digest of the local reference tells whether it is the same request.
\<close>

definition CreateLinkIntent ::
  "time \<Rightarrow> string \<Rightarrow> string \<Rightarrow> string \<Rightarrow> string \<Rightarrow> string \<Rightarrow> db \<Rightarrow> (err + link_intent) \<times> db" where
  "CreateLinkIntent wall new_id nonce c localRef idempotency db =
     (if localRef = [] \<or> length localRef > 256 \<or> length idempotency < 16 \<or> length idempotency > 128
      then (Inl (Failure ''local account and idempotency key required''), db)
      else case Client c db of
        Inl e \<Rightarrow> (Inl e, db)
      | Inr cl \<Rightarrow>
        if cl_public cl then (Inl ErrForbidden, db)
        else let fresh = \<lparr>n_id = new_id, n_client_id = c, n_local_ref = localRef,
               n_idempotency_key = idempotency, n_payload_hash = Hash localRef, n_nonce = nonce,
               n_subject = None, n_state = Pending, n_expires_at = wall + minutes 5\<rparr>;
             returned = (case first_row (\<lambda>n. n_client_id n = c \<and> n_idempotency_key n = idempotency)
                 (link_intents db) of
               Some n \<Rightarrow> Some (n, link_intents db)
             | None \<Rightarrow> map_option (Pair fresh) (insert_row intent_clash fresh (link_intents db)))
        in (case returned of
          None \<Rightarrow> (Inl UniqueViolation, db)
        | Some (n, t) \<Rightarrow>
          (if n_payload_hash n \<noteq> Hash localRef then Inl ErrConflict
           else if n_expires_at n < wall then Inl ErrExpired
           else Inr (view_intent n),
           db\<lparr>link_intents := t\<rparr>)))"

definition IntentForAuthorization :: "time \<Rightarrow> authorization \<Rightarrow> db \<Rightarrow> link_intent option" where
  "IntentForAuthorization now a db = map_option view_intent
     (first_row (\<lambda>n. n_client_id n = rq_client_id (az_request a) \<and> n_nonce n = rq_nonce (az_request a)
        \<and> n_state n = Pending \<and> now < n_expires_at n) (link_intents db))"

section \<open>Links\<close>

definition Link :: "string \<Rightarrow> string \<Rightarrow> db \<Rightarrow> err + account_link" where
  "Link c lid db =
     (case first_row (\<lambda>l. l_id l = lid \<and> l_client_id l = c) (account_links db) of
        None \<Rightarrow> Inl (classify NoRows)
      | Some l \<Rightarrow> Inr (view_link l))"

definition ResolveLink :: "string \<Rightarrow> string \<Rightarrow> db \<Rightarrow> err + account_link" where
  "ResolveLink c subject db =
     (case first_row (\<lambda>l. l_client_id l = c \<and> l_subject l = subject \<and> l_state l = Linked
          \<and> some_row (active_identity (l_subject l)) (identities db)) (account_links db) of
        None \<Rightarrow> Inl (classify NoRows)
      | Some l \<Rightarrow> Link c (l_id l) db)"

definition set_intent_state :: "string \<Rightarrow> link_state \<Rightarrow> db \<Rightarrow> db" where
  "set_intent_state nid state db = db\<lparr>link_intents :=
     update_rows (\<lambda>n. n_id n = nid) (\<lambda>n. n\<lparr>n_state := state\<rparr>) (link_intents db)\<rparr>"

definition PrepareLink ::
  "time \<Rightarrow> time \<Rightarrow> string \<Rightarrow> string \<Rightarrow> string \<Rightarrow> string \<Rightarrow> db \<Rightarrow> (err + account_link) \<times> db" where
  "PrepareLink now wall c lid nonce subject db =
     (case first_row (\<lambda>n. n_id n = lid \<and> n_client_id n = c) (link_intents db) of
        None \<Rightarrow> (Inl ErrForbidden, db)
      | Some n \<Rightarrow>
        let confirmed = coalesce (n_subject n) [] in
        if n_nonce n \<noteq> nonce \<or> confirmed = [] \<or> confirmed \<noteq> subject then (Inl ErrForbidden, db)
        else if n_state n = Prepared \<or> n_state n = Linked then (Link c lid db, db)
        else if n_state n \<noteq> Confirmed \<or> n_expires_at n < wall then (Inl ErrExpired, db)
        else let l = \<lparr>l_id = lid, l_client_id = c, l_local_ref = n_local_ref n, l_subject = subject,
               l_state = Prepared, l_version = 1, l_verified_at = now, l_revoked_at = None\<rparr> in
        (case insert_row link_clash l (account_links db) of
          None \<Rightarrow> (Inl (classify UniqueViolation), db)
        | Some t \<Rightarrow> (Inr (view_link l), audit now subject ''link.prepare'' lid
            (set_intent_state lid Prepared (db\<lparr>account_links := t\<rparr>)))))"

definition activate_row :: "link_row \<Rightarrow> link_row" where
  "activate_row l = l\<lparr>l_state := Linked, l_version := l_version l + 1\<rparr>"

definition ActivateLink :: "time \<Rightarrow> time \<Rightarrow> string \<Rightarrow> string \<Rightarrow> db \<Rightarrow> (err + account_link) \<times> db" where
  "ActivateLink now wall c lid db =
     (case first_row (\<lambda>n. n_id n = lid \<and> n_client_id n = c) (link_intents db) of
        None \<Rightarrow> (Inl ErrForbidden, db)
      | Some n \<Rightarrow>
        if n_state n = Linked then (Link c lid db, db)
        else if n_state n \<noteq> Prepared \<or> n_expires_at n < wall then (Inl ErrExpired, db)
        else (case first_row (\<lambda>l. l_id l = lid \<and> l_client_id l = c \<and> l_state l = Prepared)
            (account_links db) of
          None \<Rightarrow> (Inl ErrConflict, db)
        | Some l \<Rightarrow> (Inr (view_link (activate_row l)), audit now (l_subject l) ''link.activate'' lid
            (set_intent_state lid Linked (db\<lparr>account_links :=
               update_rows (\<lambda>l. l_id l = lid \<and> l_client_id l = c \<and> l_state l = Prepared) activate_row
                 (account_links db)\<rparr>)))))"

definition revoke_row :: "time \<Rightarrow> int \<Rightarrow> link_row \<Rightarrow> link_row" where
  "revoke_row now version l = l\<lparr>l_state := Revoked, l_version := version, l_revoked_at := Some now\<rparr>"

definition outbox_event :: "time \<Rightarrow> string \<Rightarrow> string \<Rightarrow> payload \<Rightarrow> delivery_kind \<Rightarrow> outbox_row" where
  "outbox_event now new_id c p kind = \<lparr>o_id = new_id, o_client_id = c, o_payload = p, o_kind = kind,
     o_created_at = now, o_available_at = now, o_lease_until = None, o_lease_token = None,
     o_delivered_at = None, o_attempts = 0, o_last_status = None, o_dead_at = None\<rparr>"

definition revoke_link_access :: "time \<Rightarrow> string \<Rightarrow> string \<Rightarrow> db \<Rightarrow> db" where
  "revoke_link_access now subject c db =
     revoke_access now (\<lambda>t. t_subject t = subject \<and> tk_delegated (t_payload t)
         \<and> some_row (\<lambda>p. x_caller p = t_client_id t \<and> x_target p = c) (exchange_policies db))
       (revoke_access now (\<lambda>t. t_subject t = subject \<and> t_client_id t = c)
         (revoke_families now (\<lambda>f. f_subject f = subject \<and> f_client_id f = c) db))"

definition RevokeLink ::
  "time \<Rightarrow> string \<Rightarrow> string \<Rightarrow> string \<Rightarrow> int \<Rightarrow> db \<Rightarrow> (err + account_link) \<times> db" where
  "RevokeLink now event_id c lid expected db =
     (case first_row (\<lambda>l. l_id l = lid \<and> l_client_id l = c) (account_links db) of
        None \<Rightarrow> (Inl ErrForbidden, db)
      | Some l \<Rightarrow>
        if l_state l = Revoked then (Inr (view_link l), db)
        else if l_version l \<noteq> expected then (Inl ErrConflict, db)
        else let link = (view_link l)\<lparr>ln_version := l_version l + 1, ln_state := Revoked\<rparr>;
               db1 = revoke_link_access now (l_subject l) c
                 (set_intent_state lid Revoked (db\<lparr>account_links :=
                   update_rows (\<lambda>l. l_id l = lid) (revoke_row now (l_version l + 1)) (account_links db)\<rparr>))
        in (case insert_row outbox_clash (outbox_event now event_id c (LinkRevoked link) EventKind)
              (outbox db1) of
          None \<Rightarrow> (Inl UniqueViolation, db)
        | Some t \<Rightarrow> (Inr link, audit now c ''link.revoke'' lid (db1\<lparr>outbox := t\<rparr>))))"

section \<open>Logout\<close>

text \<open>
  \<open>queueLogout\<close> queues one notice per active application the subject is linked with; \<open>ids\<close>
  gives the random ids in the order of the notices.
\<close>

definition linked_clients :: "string \<Rightarrow> db \<Rightarrow> string list" where
  "linked_clients subject db = remdups (map l_client_id
     (filter (\<lambda>l. l_subject l = subject \<and> l_state l = Linked
        \<and> some_row (active_app (l_client_id l)) (applications db)) (account_links db)))"

definition numbered :: "(nat \<Rightarrow> string) \<Rightarrow> 'a list \<Rightarrow> (string \<times> 'a) list" where
  "numbered ids xs = map (\<lambda>(n, x). (ids n, x)) (enumerate 0 xs)"

lemma numbered_fresh: "i \<in> D \<Longrightarrow> (i, x) \<in> set (numbered ids xs) \<Longrightarrow> \<forall>n. ids n \<notin> D \<Longrightarrow> False"
  by (auto simp: numbered_def)

definition queueLogout :: "time \<Rightarrow> (nat \<Rightarrow> string) \<Rightarrow> string \<Rightarrow> string \<Rightarrow> db \<Rightarrow> db option" where
  "queueLogout now ids subject sid db =
     map_option (\<lambda>t. db\<lparr>outbox := t\<rparr>)
       (insert_rows outbox_clash
         (map (\<lambda>(i, c). outbox_event now i c (LogoutOf subject sid) LogoutKind)
           (numbered ids (linked_clients subject db)))
         (outbox db))"

lemma queueLogout_Some:
  assumes "queueLogout now ids subject sid db = Some db'"
  obtains rs where "db' = db\<lparr>outbox := outbox db @ rs\<rparr>" "admits outbox_clash rs (outbox db)"
    "rs = map (\<lambda>(i, c). outbox_event now i c (LogoutOf subject sid) LogoutKind)
       (numbered ids (linked_clients subject db))"
  using assms that by (auto simp: queueLogout_def insert_rows_Some)

lemma queueLogout_kept:
  assumes "queueLogout now ids subject sid b = Some b'"
  shows queueLogout_schema: "schema_ok b \<Longrightarrow> schema_ok b'"
    and queueLogout_evolves: "evolves D a b \<Longrightarrow> \<forall>n. ids n \<notin> D T_outbox \<Longrightarrow> evolves D a b'"
proof -
  obtain rs where rs: "b' = b\<lparr>outbox := outbox b @ rs\<rparr>" "admits outbox_clash rs (outbox b)"
    "rs = map (\<lambda>(i, c). outbox_event now i c (LogoutOf subject sid) LogoutKind)
       (numbered ids (linked_clients subject b))"
    using assms by (rule queueLogout_Some)
  show "schema_ok b \<Longrightarrow> schema_ok b'" using rs(1,2) by (auto intro!: schema_intros)
  assume "evolves D a b" "\<forall>n. ids n \<notin> D T_outbox"
  moreover then have "\<forall>r\<in>set rs. o_id r \<notin> D T_outbox"
    by (auto simp: rs(3) outbox_event_def numbered_def)
  moreover have "descends outbox_le o_id (D T_outbox) (outbox a) (outbox b)"
    using \<open>evolves D a b\<close> by (simp add: evolves_def)
  ultimately show "evolves D a b'" unfolding rs(1) by (auto intro!: history_intros)
qed

definition LogoutAll :: "time \<Rightarrow> (nat \<Rightarrow> string) \<Rightarrow> string \<Rightarrow> db \<Rightarrow> (err + unit) \<times> db" where
  "LogoutAll now ids subject db =
     (if \<not> some_row (active_identity subject) (identities db) then (Inl ErrUnauthorized, db)
      else case queueLogout now ids subject [] (revoke_subject now subject db) of
        None \<Rightarrow> (Inl UniqueViolation, db)
      | Some db1 \<Rightarrow> (Inr (), audit now subject ''session.logout_all'' subject db1))"

definition LogoutSession ::
  "time \<Rightarrow> (nat \<Rightarrow> string) \<Rightarrow> string \<Rightarrow> string \<Rightarrow> db \<Rightarrow> (err + unit) \<times> db" where
  "LogoutSession now ids subject sid db =
     (case first_row (\<lambda>s. s_id s = sid \<and> s_identity_id s = subject) (browser_sessions db) of
        None \<Rightarrow> (Inl ErrUnauthorized, db)
      | Some s \<Rightarrow>
        if s_revoked_at s \<noteq> None then (Inr (), db)
        else let \<comment> \<open>an empty \<open>sid\<close> is left out of the JSON, so no token matches it\<close>
               db1 = revoke_access now (\<lambda>t. t_subject t = subject \<and> sid \<noteq> []
                 \<and> tk_session_id (t_payload t) = sid)
               (revoke_families now (\<lambda>f. f_subject f = subject \<and> f_session_id f = sid)
                 (db\<lparr>browser_sessions := update_rows (\<lambda>s. s_id s = sid)
                    (\<lambda>s. s\<lparr>s_revoked_at := Some now\<rparr>) (browser_sessions db)\<rparr>))
        in (case queueLogout now ids subject sid db1 of
          None \<Rightarrow> (Inl UniqueViolation, db)
        | Some db2 \<Rightarrow> (Inr (), audit now subject ''session.logout'' sid db2)))"

section \<open>What the operations keep\<close>

lemmas link_statements [statement_defs] = activate_row_def revoke_row_def set_intent_state_def
  outbox_event_def

lemma CreateLinkIntent_schema:
  "schema_ok db \<Longrightarrow> schema_ok (snd (CreateLinkIntent wall new_id nonce c localRef key db))"
  by (auto simp: CreateLinkIntent_def Let_def clash_defs statement_defs intro!: schema_intros
      split: option.splits sum.splits prod.splits if_splits)

lemma CreateLinkIntent_evolves:
  assumes "schema_ok db" 
  shows "evolves D db (snd (CreateLinkIntent wall new_id nonce c localRef key db))"
  using assms
  by (auto simp: CreateLinkIntent_def Let_def row_orders statement_defs intro!: history_intros
      dest!: first_row_Some  dest: row_unique  split: option.splits sum.splits prod.splits if_splits)

lemma PrepareLink_schema:
  "schema_ok db \<Longrightarrow> schema_ok (snd (PrepareLink now wall c lid nonce subject db))"
  by (auto simp: PrepareLink_def Let_def clash_defs statement_defs intro!: schema_intros
      split: option.splits sum.splits prod.splits if_splits)

lemma PrepareLink_evolves:
  assumes "schema_ok db" 
  shows "evolves D db (snd (PrepareLink now wall c lid nonce subject db))"
  using assms
  by (auto simp: PrepareLink_def Let_def row_orders statement_defs intro!: history_intros
      dest!: first_row_Some  dest: row_unique  split: option.splits sum.splits prod.splits if_splits)

lemma ActivateLink_schema:
  "schema_ok db \<Longrightarrow> schema_ok (snd (ActivateLink now wall c lid db))"
  by (auto simp: ActivateLink_def Let_def clash_defs statement_defs intro!: schema_intros
      split: option.splits sum.splits prod.splits if_splits)

lemma ActivateLink_evolves: assumes "schema_ok db"  shows "evolves D db (snd (ActivateLink now wall c lid db))"
proof -
  have same: "n = m" if "n \<in> set (link_intents db)" "m \<in> set (link_intents db)" "n_id n = n_id m" for n m
    using that assms row_unique(8) by blast
  show ?thesis
    by (auto simp: ActivateLink_def row_orders set_intent_state_def activate_row_def less_eq_link_state_def
      intro!: history_intros dest!: first_row_Some dest: same split: option.splits)
qed

lemma RevokeLink_schema: assumes "schema_ok db" shows "schema_ok (snd (RevokeLink now event_id c lid expected db))"
  using assms by (auto simp: RevokeLink_def Let_def insert_row_Some set_intent_state_def revoke_link_access_def clash_defs revoke_row_def
    intro!: schema_intros  split: option.splits if_splits)

lemma RevokeLink_evolves: assumes "schema_ok db" "event_id \<notin> D T_outbox" shows "evolves D db (snd (RevokeLink now event_id c lid expected db))"
proof -
  have same: "n = m" if "n \<in> set (account_links db)" "m \<in> set (account_links db)" "l_id n = l_id m" for n m
    using that assms row_unique(9) by blast
  show ?thesis using assms(2)
    by (auto simp: RevokeLink_def Let_def row_orders set_intent_state_def revoke_row_def outbox_event_def
      revoke_link_access_def insert_row_Some intro!: history_intros dest!: first_row_Some dest: same split: option.splits)
qed

lemma LogoutAll_schema: "schema_ok db \<Longrightarrow> schema_ok (snd (LogoutAll now ids subject db))"
  by (auto simp: LogoutAll_def split: option.splits intro!: schema_intros dest: queueLogout_schema)

lemma LogoutAll_evolves: "\<forall>n. ids n \<notin> D T_outbox \<Longrightarrow> evolves D db (snd (LogoutAll now ids subject db))"
  by (auto simp: LogoutAll_def split: option.splits intro!: history_intros elim!: queueLogout_evolves)

lemma LogoutSession_schema: "schema_ok db \<Longrightarrow> schema_ok (snd (LogoutSession now ids subject sid db))"
  by (auto simp: LogoutSession_def Let_def clash_defs split: option.splits intro!: schema_intros elim!: queueLogout_schema split: if_splits)

lemma LogoutSession_evolves: assumes "schema_ok db" "\<forall>n. ids n \<notin> D T_outbox"
  shows "evolves D db (snd (LogoutSession now ids subject sid db))"
proof -
  have same: "n = m" if "n \<in> set (browser_sessions db)" "m \<in> set (browser_sessions db)" "s_id n = s_id m" for n m
    using that assms row_unique(2) by blast
  show ?thesis using assms(2)
  by (auto simp: LogoutSession_def Let_def row_orders split: option.splits
      intro!: history_intros elim!: queueLogout_evolves dest!: first_row_Some dest: same)
qed

lemma CreateLinkIntent_touches: "touches {T_intents} db (snd (CreateLinkIntent wall new_id nonce c localRef key db))"
  by (auto simp: CreateLinkIntent_def Let_def  intro!: history_intros
      split: option.splits sum.splits prod.splits)

lemma PrepareLink_touches: "touches {T_links, T_intents, T_audit} db (snd (PrepareLink now wall c lid nonce subject db))"
  by (auto simp: PrepareLink_def Let_def set_intent_state_def intro!: history_intros
      split: option.splits sum.splits prod.splits)

lemma ActivateLink_touches: "touches {T_links, T_intents, T_audit} db (snd (ActivateLink now wall c lid db))"
  by (auto simp: ActivateLink_def Let_def set_intent_state_def intro!: history_intros
      split: option.splits sum.splits prod.splits)

lemma RevokeLink_touches: "touches {T_links, T_intents, T_families, T_access, T_outbox, T_audit} db (snd (RevokeLink now event_id c lid expected db))"
  by (auto simp: RevokeLink_def Let_def set_intent_state_def revoke_link_access_def intro!: history_intros
      split: option.splits sum.splits prod.splits)

lemma queueLogout_touches:
  "queueLogout now ids subject sid b = Some b' \<Longrightarrow> touches T a b \<Longrightarrow> T_outbox \<in> T \<Longrightarrow> touches T a b'"
  by (auto simp: queueLogout_def intro!: history_intros)

lemma LogoutAll_touches: "touches {T_sessions, T_families, T_access, T_outbox, T_audit} db (snd (LogoutAll now ids subject db))"
  by (auto simp: LogoutAll_def Let_def  intro!: history_intros elim!: queueLogout_touches
      split: option.splits sum.splits prod.splits)

lemma LogoutSession_touches: "touches {T_sessions, T_families, T_access, T_outbox, T_audit} db (snd (LogoutSession now ids subject sid db))"
  by (auto simp: LogoutSession_def Let_def  intro!: history_intros elim!: queueLogout_touches
      split: option.splits sum.splits prod.splits)

section \<open>The binding of intents and links\<close>

definition link_version :: "link_state \<Rightarrow> int set" where
  "link_version s = (case s of Prepared \<Rightarrow> {1} | Linked \<Rightarrow> {2} | Revoked \<Rightarrow> {2, 3} | _ \<Rightarrow> {})"

definition link_fits :: "intent_row list \<Rightarrow> link_row \<Rightarrow> bool" where
  "link_fits intents l = (l_version l \<in> link_version (l_state l)
     \<and> (\<exists>n\<in>set intents. n_id n = l_id l \<and> n_client_id n = l_client_id l
          \<and> n_local_ref n = l_local_ref l \<and> n_subject n = Some (l_subject l) \<and> n_state n = l_state l))"

definition intent_fits :: "link_row list \<Rightarrow> intent_row \<Rightarrow> bool" where
  "intent_fits links n = ((n_state n = Pending \<longrightarrow> n_subject n = None)
     \<and> (n_state n = Confirmed \<longrightarrow> n_subject n \<noteq> None)
     \<and> (n_state n = Prepared \<or> n_state n = Linked \<longrightarrow> (\<exists>l\<in>set links. l_id l = n_id n)))"

definition link_inv :: "db \<Rightarrow> bool" where
  "link_inv db \<longleftrightarrow> (\<forall>l\<in>set (account_links db). link_fits (link_intents db) l)
     \<and> (\<forall>n\<in>set (link_intents db). intent_fits (account_links db) n)"

lemma link_inv_cong: "link_intents a = link_intents b \<Longrightarrow> account_links a = account_links b \<Longrightarrow> link_inv a = link_inv b"
  by (simp add: link_inv_def)

lemma CreateLinkIntent_link_inv:
  "link_inv db \<Longrightarrow> link_inv (snd (CreateLinkIntent wall new_id nonce c localRef key db))"
  by (auto simp: CreateLinkIntent_def Let_def link_inv_def link_fits_def intent_fits_def insert_row_Some
      split: option.splits sum.splits)

lemma link_version_simps [simp]:
  "link_version Pending = {}" "link_version Confirmed = {}" "link_version Prepared = {1}"
  "link_version Linked = {2}" "link_version Revoked = {2, 3}"
  by (simp_all add: link_version_def)

lemma CompleteAuthorization_link_inv:
  assumes "link_inv db"
  shows "link_inv (snd (CompleteAuthorization now rid session db))"
proof -
  have "link_inv (confirm_intents now a (db\<lparr>auth_requests := t\<rparr>))" for a t
    using assms by (fastforce simp: link_inv_def link_fits_def intent_fits_def confirm_intents_def table_simps)
  moreover have "link_inv (audit n x y z b) = link_inv b" for n x y z b
    by (rule link_inv_cong) simp_all
  ultimately show ?thesis using assms
    by (auto simp: CompleteAuthorization_def Let_def split: option.splits sum.splits)
qed

text \<open>A new state for the intent and the link of one id.\<close>

lemma link_inv_pair:
  assumes "schema_ok db" "link_inv db" "l \<in> set (account_links db)" "l_id l = lid"
    and "\<And>l. l_id (f l) = l_id l \<and> l_client_id (f l) = l_client_id l \<and> l_local_ref (f l) = l_local_ref l
      \<and> l_subject (f l) = l_subject l" "l_state (f l) = s" "l_version (f l) \<in> link_version s"
    "account_links db' = update_rows (\<lambda>k. l_id k = lid) f (account_links db)"
    "link_intents db' = update_rows (\<lambda>n. n_id n = lid) (\<lambda>n. n\<lparr>n_state := s\<rparr>) (link_intents db)"
  shows "link_inv db'"
  unfolding link_inv_def
proof (intro conjI ballI)
  fix k assume "k \<in> set (account_links db')"
  then obtain j where j: "j \<in> set (account_links db)" "k = (if l_id j = lid then f j else j)"
    unfolding assms(8) by (rule in_update_rows)
  then obtain n where n: "n \<in> set (link_intents db)" "n_id n = l_id j" "n_client_id n = l_client_id j"
    "n_local_ref n = l_local_ref j" "n_subject n = Some (l_subject j)" "n_state n = l_state j"
    "l_version j \<in> link_version (l_state j)"
    using assms(2) by (auto simp: link_inv_def link_fits_def)
  have "j = l" if "l_id j = lid" using that j(1) assms(1,3,4) row_unique(9) by blast
  with j n assms(5,6,7) show "link_fits (link_intents db') k"
    by (auto simp: link_fits_def assms(9) update_quantifiers intro!: bexI [of _ n])
next
  fix m assume "m \<in> set (link_intents db')"
  then obtain n where n: "n \<in> set (link_intents db)" "m = (if n_id n = lid then n\<lparr>n_state := s\<rparr> else n)"
    unfolding assms(9) by (rule in_update_rows)
  moreover have "s \<noteq> Pending \<and> s \<noteq> Confirmed" using assms(7) by auto
  moreover have "(\<exists>k\<in>set (account_links db'). l_id k = i) \<longleftrightarrow> (\<exists>k\<in>set (account_links db). l_id k = i)" for i
  proof -
    have "l_id (if l_id k = lid then f k else k) = l_id k" for k using assms(5) by simp
    then show ?thesis unfolding assms(8) bex_update_rows by metis
  qed
  ultimately show "intent_fits (account_links db') m"
    using assms(2-4) by (auto simp: link_inv_def intent_fits_def)
qed

lemma link_inv_audit [simp]: "link_inv (audit n x y z b) = link_inv b"
  by (rule link_inv_cong) simp_all

lemma revoke_link_access_frame [simp]:
  "link_intents (revoke_link_access now subject c db) = link_intents db"
  "account_links (revoke_link_access now subject c db) = account_links db"
  "outbox (revoke_link_access now subject c db) = outbox db"
  by (simp_all add: revoke_link_access_def)

lemma RevokeLink_link_inv:
  assumes "schema_ok db" "link_inv db"
  shows "link_inv (snd (RevokeLink now event_id c lid expected db))"
proof -
  have "link_inv (revoke_link_access now s c (set_intent_state lid Revoked (db\<lparr>account_links :=
      update_rows (\<lambda>l. l_id l = lid) (revoke_row now (l_version l + 1)) (account_links db)\<rparr>))\<lparr>outbox := t\<rparr>)"
    if l: "l \<in> set (account_links db)" "l_id l = lid" "l_state l \<noteq> Revoked" for l s t
  proof (rule link_inv_pair [OF assms l(1,2), where f = "revoke_row now (l_version l + 1)"])
    have "l_version l \<in> link_version (l_state l)" using assms(2) l(1) by (auto simp: link_inv_def link_fits_def)
    then show "l_version (revoke_row now (l_version l + 1) l) \<in> link_version Revoked"
      using l(3) by (cases "l_state l") (auto simp: revoke_row_def)
  qed (auto simp: revoke_row_def set_intent_state_def)
  then show ?thesis using assms(2)
    by (auto simp: RevokeLink_def Let_def split: option.splits dest!: first_row_Some)
qed

lemma ActivateLink_link_inv:
  assumes "schema_ok db" "link_inv db"
  shows "link_inv (snd (ActivateLink now wall c lid db))"
proof -
  have "link_inv (set_intent_state lid Linked (db\<lparr>account_links :=
      update_rows (\<lambda>l. l_id l = lid \<and> l_client_id l = c \<and> l_state l = Prepared) activate_row (account_links db)\<rparr>))"
    if l: "l \<in> set (account_links db)" "l_id l = lid" "l_client_id l = c" "l_state l = Prepared" for l
  proof (rule link_inv_pair [OF assms l(1,2), where f = activate_row])
    have "l_version l \<in> link_version (l_state l)" using assms(2) l(1) by (auto simp: link_inv_def link_fits_def)
    then show "l_version (activate_row l) \<in> link_version Linked" using l(4) by (simp add: activate_row_def)
    have "(l_id k = lid \<and> l_client_id k = c \<and> l_state k = Prepared) = (l_id k = lid)"
      if "k \<in> set (account_links db)" for k
      using that assms(1) l row_unique(9) by blast
    then show "account_links (set_intent_state lid Linked (db\<lparr>account_links :=
      update_rows (\<lambda>l. l_id l = lid \<and> l_client_id l = c \<and> l_state l = Prepared) activate_row (account_links db)\<rparr>))
      = update_rows (\<lambda>k. l_id k = lid) activate_row (account_links db)"
      by (simp add: set_intent_state_def update_rows_def)
  qed (auto simp: activate_row_def set_intent_state_def)
  then show ?thesis using assms(2)
    by (auto simp: ActivateLink_def Let_def split: option.splits dest!: first_row_Some)
qed

lemma PrepareLink_link_inv:
  assumes "schema_ok db" "link_inv db"
  shows "link_inv (snd (PrepareLink now wall c lid nonce subject db))"
proof -
  have prepared: "link_inv (set_intent_state lid Prepared (db\<lparr>account_links := account_links db @ [l]\<rparr>))"
    if n: "n \<in> set (link_intents db)" "n_id n = lid" "n_client_id n = c" "n_subject n = Some subject" 
      and new: "\<forall>k\<in>set (account_links db). lid \<noteq> l_id k" 
      and l: "l = \<lparr>l_id = lid, l_client_id = c, l_local_ref = n_local_ref n, l_subject = subject,
               l_state = Prepared, l_version = 1, l_verified_at = now, l_revoked_at = None\<rparr>" for n l
  proof -
    have "link_fits (update_rows (\<lambda>n. n_id n = lid) (\<lambda>n. n\<lparr>n_state := Prepared\<rparr>) (link_intents db)) k"
      if "k \<in> set (account_links db)" for k
      using assms(2) that new by (fastforce simp: link_inv_def link_fits_def table_simps)
    moreover have "link_fits (update_rows (\<lambda>n. n_id n = lid) (\<lambda>n. n\<lparr>n_state := Prepared\<rparr>) (link_intents db)) l"
      using n by (auto simp: l link_fits_def update_quantifiers intro!: bexI [of _ n])
    moreover have "intent_fits (account_links db @ [l]) m"
      if "m \<in> set (update_rows (\<lambda>n. n_id n = lid) (\<lambda>n. n\<lparr>n_state := Prepared\<rparr>) (link_intents db))" for m
      using that assms(2) by (auto simp: link_inv_def intent_fits_def table_simps l split: if_splits)
    ultimately show ?thesis by (auto simp: link_inv_def set_intent_state_def)
  qed
  show ?thesis
  proof (cases "first_row (\<lambda>n. n_id n = lid \<and> n_client_id n = c) (link_intents db)")
    case None
    then show ?thesis using assms(2) by (simp add: PrepareLink_def)
  next
    case (Some n)
    then show ?thesis using assms(2) prepared [of n "\<lparr>l_id = lid, l_client_id = c, l_local_ref = n_local_ref n,
        l_subject = subject, l_state = Prepared, l_version = 1, l_verified_at = now, l_revoked_at = None\<rparr>"]
        first_row_Some [OF Some]
      by (cases "n_subject n") (auto simp: PrepareLink_def Let_def insert_row_Some link_clash_def split: option.splits)
  qed
qed

section \<open>Queued events\<close>

definition fresh_event :: "outbox_row \<Rightarrow> bool" where
  "fresh_event r = (o_delivered_at r = None \<and> o_dead_at r = None \<and> o_lease_until r = None
     \<and> o_lease_token r = None \<and> o_attempts r = 0)"

definition queued :: "db \<Rightarrow> db \<Rightarrow> bool" where
  "queued a b \<longleftrightarrow> (\<exists>rs. outbox b = outbox a @ rs \<and> list_all fresh_event rs)"

lemma fresh_outbox_event [simp]: "fresh_event (outbox_event now i c p k)"
  by (simp add: fresh_event_def outbox_event_def)

lemma queued_same [simp]: "outbox b = outbox a \<Longrightarrow> queued a b"
  by (simp add: queued_def)

lemma queued_append: "outbox b = outbox a @ rs \<Longrightarrow> list_all fresh_event rs \<Longrightarrow> queued a b"
  by (auto simp: queued_def)

lemma queued_cong: "outbox b = outbox b' \<Longrightarrow> queued a b = queued a b'"
  by (simp add: queued_def)

lemma queueLogout_queued:
  assumes "queueLogout now ids subject sid b = Some b'" "queued a b"
  shows "queued a b'"
proof -
  obtain rs where "b' = b\<lparr>outbox := outbox b @ rs\<rparr>"
    "rs = map (\<lambda>(i, c). outbox_event now i c (LogoutOf subject sid) LogoutKind)
       (numbered ids (linked_clients subject b))"
    using assms(1) by (rule queueLogout_Some)
  with assms(2) show ?thesis by (auto simp: queued_def list_all_iff)
qed

lemma RevokeLink_queued: "queued db (snd (RevokeLink now event_id c lid expected db))"
  by (auto simp: RevokeLink_def Let_def insert_row_Some set_intent_state_def intro: queued_append split: option.splits)

lemma LogoutAll_queued: "queued db (snd (LogoutAll now ids subject db))"
  by (auto simp: LogoutAll_def split: option.splits dest!: queueLogout_queued [where a = db] intro: queued_cong [THEN iffD1, rotated])

lemma LogoutSession_queued: "queued db (snd (LogoutSession now ids subject sid db))"
  by (auto simp: LogoutSession_def Let_def split: option.splits dest!: queueLogout_queued [where a = db] intro: queued_cong [THEN iffD1, rotated])

end
