(* ===== verification/Account_Security.thy ===== *)
theory Account_Security
  imports Links
begin

text \<open>
  \<open>internal/core/account_security.go\<close>: multi-factor enrolment and verification, recovery
  codes, one-time credentials, password change and identity status. \<open>seal\<close> and \<open>unseal\<close> are
  \<open>encrypt\<close> and \<open>decrypt\<close> with the key, the nonce drawn and AES-GCM of the library;
  \<open>totp secret t\<close> is the code \<open>totp.GenerateCodeCustom\<close> gives at the Unix time \<open>t\<close>, \<open>None\<close>
  on an invalid secret; \<open>new_key\<close> is the generated TOTP secret with its provisioning URL.
\<close>

type_synonym totp = "string \<Rightarrow> int \<Rightarrow> string option"

section \<open>Encryption of stored secrets\<close>

text \<open>
  \<open>crypto/cipher\<close>'s GCM over AES with a 32-byte key, nonces of 12 bytes: \<open>Seal\<close> and \<open>Open\<close> of key, nonce, text and
  additional data. \<open>gcm_ok\<close> is what the package documents: what was sealed can be opened with the same data.
  \<open>rand.Read\<close> does not fail in Go 1.26; the bytes it gives are the argument \<open>nonce\<close>.
\<close>

record gcm =
  gc_seal :: "string \<Rightarrow> string \<Rightarrow> string \<Rightarrow> string \<Rightarrow> string"
  gc_open :: "string \<Rightarrow> string \<Rightarrow> string \<Rightarrow> string \<Rightarrow> string option"

definition gcm_ok :: "gcm \<Rightarrow> bool" where
  "gcm_ok g \<longleftrightarrow> (\<forall>key nonce plain label. gc_open g key nonce (gc_seal g key nonce plain label) label = Some plain)"

definition NonceSize :: nat where "NonceSize = 12"

definition encrypt :: "gcm \<Rightarrow> string option \<Rightarrow> string \<Rightarrow> string \<Rightarrow> err + string" where
  "encrypt g key nonce plain =
     (case key of
        None \<Rightarrow> Inl (Failure ''encryption key unavailable'')
      | Some k \<Rightarrow> Inr (nonce @ gc_seal g k nonce plain ''fastcas:mfa:v1''))"

definition decrypt :: "gcm \<Rightarrow> string option \<Rightarrow> string \<Rightarrow> err + string" where
  "decrypt g key encrypted =
     (case key of
        None \<Rightarrow> Inl (Failure ''encryption key unavailable'')
      | Some k \<Rightarrow>
        if length encrypted < NonceSize then Inl ErrUnauthorized
        else (case gc_open g k (take NonceSize encrypted) (drop NonceSize encrypted) ''fastcas:mfa:v1'' of
          None \<Rightarrow> Inl (Failure ''cipher: message authentication failed'')
        | Some plain \<Rightarrow> Inr plain))"

lemma decrypt_encrypt:
  assumes "gcm_ok g" "length nonce = NonceSize" "encrypt g key nonce plain = Inr sealed"
  shows "decrypt g key sealed = Inr plain"
  using assms by (auto simp: encrypt_def decrypt_def gcm_ok_def split: option.splits)

section \<open>Multi-factor authentication\<close>

definition MFAEnabled :: "string \<Rightarrow> db \<Rightarrow> err + bool" where
  "MFAEnabled subject db =
     (case first_row (active_identity subject) (identities db) of
        None \<Rightarrow> Inl (classify NoRows)
      | Some i \<Rightarrow> Inr (i_mfa_secret i \<noteq> None))"

definition BeginMFA ::
  "(string \<Rightarrow> err + string) \<Rightarrow> time \<Rightarrow> string \<times> string \<Rightarrow> string \<Rightarrow> db \<Rightarrow> (err + string) \<times> db" where
  "BeginMFA seal now new_key subject db =
     (case Identity subject db of
        Inl e \<Rightarrow> (Inl e, db)
      | Inr _ \<Rightarrow>
        (case seal (fst new_key) of
          Inl e \<Rightarrow> (Inl e, db)
        | Inr sealed \<Rightarrow>
          if count_rows (\<lambda>i. active_identity subject i \<and> i_mfa_secret i = None) (identities db) \<noteq> 1
          then (Inl ErrConflict, db)
          else (Inr (snd new_key), db\<lparr>identities :=
            update_rows (\<lambda>i. active_identity subject i \<and> i_mfa_secret i = None)
              (\<lambda>i. i\<lparr>i_pending_mfa_secret := Some sealed,
                 i_pending_mfa_expires := Some (now + minutes 5)\<rparr>) (identities db)\<rparr>)))"

text \<open>
  \<open>totpStep\<close> tries the step of the server's clock and its two neighbours; the result is the
  step whose code matches, \<open>-1\<close> for none. The clock is after 1970, so \<open>div\<close> is Go's \<open>/\<close>.
\<close>

definition totp_matches :: "totp \<Rightarrow> string \<Rightarrow> string \<Rightarrow> int \<Rightarrow> bool" where
  "totp_matches totp secret code step =
     (case totp secret (step * 30) of
        None \<Rightarrow> False
      | Some value \<Rightarrow> constant_time_compare value code = 1)"

definition totpStep :: "totp \<Rightarrow> time \<Rightarrow> string \<Rightarrow> string \<Rightarrow> int" where
  "totpStep totp wall secret code =
     (if length code \<noteq> 6 then -1
      else let now = wall div seconds 1 div 30 in
        (case List.find (totp_matches totp secret code) [now + -1, now + 0, now + 1] of
          None \<Rightarrow> -1
        | Some step \<Rightarrow> step))"

definition recovery_row_of :: "string \<Rightarrow> string \<Rightarrow> recovery_row" where
  "recovery_row_of subject code =
     \<lparr>v_identity_id = subject, v_token_hash = Hash code, v_consumed_at = None\<rparr>"

text \<open>\<open>codes\<close> are the eight random recovery codes drawn in the loop.\<close>

definition ConfirmMFA ::
  "(string \<Rightarrow> err + string) \<Rightarrow> totp \<Rightarrow> time \<Rightarrow> time \<Rightarrow> string list \<Rightarrow> string \<Rightarrow> string \<Rightarrow> string \<Rightarrow> db
    \<Rightarrow> (err + string list) \<times> db" where
  "ConfirmMFA unseal totp now wall codes subject sessionID code db =
     (case first_row (\<lambda>i. active_identity subject i \<and> i_mfa_secret i = None
          \<and> later_than (i_pending_mfa_expires i) now) (identities db) of
        None \<Rightarrow> (Inl ErrExpired, db)
      | Some i \<Rightarrow>
        (case unseal (coalesce (i_pending_mfa_secret i) []) of
          Inl e \<Rightarrow> (Inl e, db)
        | Inr secret \<Rightarrow>
          let step = totpStep totp wall secret code in
          if step < 0 then (Inl ErrUnauthorized, db)
          else (case insert_rows recovery_clash (map (recovery_row_of subject) codes) (recovery_codes db) of
            None \<Rightarrow> (Inl UniqueViolation, db)
          | Some t \<Rightarrow> (Inr codes, audit now subject ''mfa.enroll'' subject
              (db\<lparr>identities := update_rows (\<lambda>i. i_id i = subject)
                    (\<lambda>i. i\<lparr>i_mfa_secret := i_pending_mfa_secret i, i_pending_mfa_secret := None,
                       i_pending_mfa_expires := None, i_mfa_last_step := step\<rparr>) (identities db),
                  recovery_codes := t,
                  browser_sessions :=
                    update_rows (\<lambda>s. s_identity_id s = subject \<and> s_id s \<noteq> sessionID \<and> s_revoked_at s = None)
                      (\<lambda>s. s\<lparr>s_revoked_at := Some now\<rparr>)
                      (update_rows (\<lambda>s. s_id s = sessionID \<and> s_identity_id s = subject \<and> s_revoked_at s = None)
                        (\<lambda>s. s\<lparr>s_mfa_at := Some now\<rparr>) (browser_sessions db))\<rparr>)))))"

text \<open>The join of an active identity with its session that rotation and password change lock.\<close>

definition identity_with_session ::
  "string \<Rightarrow> (session_row \<Rightarrow> bool) \<Rightarrow> db \<Rightarrow> identity_row option" where
  "identity_with_session subject P db =
     (if some_row (\<lambda>s. s_identity_id s = subject \<and> P s) (browser_sessions db)
      then first_row (active_identity subject) (identities db) else None)"

definition recent_session :: "time \<Rightarrow> string \<Rightarrow> session_row \<Rightarrow> bool" where
  "recent_session now sid s = (s_id s = sid \<and> live_session now s
     \<and> s_authenticated_at s > now - minutes 5 \<and> later_than (s_mfa_at s) (now - minutes 5))"

definition RotateMFARecoveryCodes ::
  "time \<Rightarrow> string list \<Rightarrow> string \<Rightarrow> string \<Rightarrow> db \<Rightarrow> (err + string list) \<times> db" where
  "RotateMFARecoveryCodes now codes subject sessionID db =
     (case identity_with_session subject (recent_session now sessionID) db of
        None \<Rightarrow> (Inl ErrUnauthorized, db)
      | Some i \<Rightarrow>
        if i_mfa_secret i = None then (Inl ErrUnauthorized, db)
        else (case insert_rows recovery_clash (map (recovery_row_of subject) codes)
            (delete_rows (\<lambda>v. v_identity_id v = subject) (recovery_codes db)) of
          None \<Rightarrow> (Inl UniqueViolation, db)
        | Some t \<Rightarrow> (Inr codes, audit now subject ''mfa.recovery_codes.rotate'' subject
            (db\<lparr>recovery_codes := t\<rparr>))))"

definition usable_recovery :: "string \<Rightarrow> string \<Rightarrow> recovery_row \<Rightarrow> bool" where
  "usable_recovery subject code v =
     (v_identity_id v = subject \<and> v_token_hash v = Hash (trim_space code) \<and> v_consumed_at v = None)"

definition VerifyMFA ::
  "(string \<Rightarrow> err + string) \<Rightarrow> totp \<Rightarrow> time \<Rightarrow> time \<Rightarrow> string \<Rightarrow> string \<Rightarrow> db \<Rightarrow> (err + unit) \<times> db" where
  "VerifyMFA unseal totp now wall subject code db =
     (case Allow now (''mfa:'' @ subject) 10 (minutes 5) db of
        (allowed, db) \<Rightarrow>
        if \<not> allowed then (Inl ErrUnauthorized, db)
        else (case first_row (active_identity subject) (identities db) of
          None \<Rightarrow> (Inl ErrUnauthorized, db)
        | Some i \<Rightarrow>
          if length (coalesce (i_mfa_secret i) []) = 0 then (Inl ErrUnauthorized, db)
          else if length code > 6 then
            (if count_rows (usable_recovery subject code) (recovery_codes db) \<noteq> 1 then (Inl ErrUnauthorized, db)
             else (Inr (), audit now subject ''mfa.recovery_code'' subject
               (db\<lparr>recovery_codes := update_rows (usable_recovery subject code)
                  (\<lambda>v. v\<lparr>v_consumed_at := Some now\<rparr>) (recovery_codes db)\<rparr>)))
          else (case unseal (coalesce (i_mfa_secret i) []) of
            Inl e \<Rightarrow> (Inl e, db)
          | Inr secret \<Rightarrow>
            let step = totpStep totp wall secret code in
            if step < 0 \<or> step \<le> i_mfa_last_step i then (Inl ErrUnauthorized, db)
            else (Inr (), db\<lparr>identities := update_rows (\<lambda>i. i_id i = subject)
                (\<lambda>i. i\<lparr>i_mfa_last_step := step\<rparr>) (identities db)\<rparr>))))"

definition MarkMFA :: "time \<Rightarrow> string \<Rightarrow> string \<Rightarrow> db \<Rightarrow> (err + unit) \<times> db" where
  "MarkMFA now subject sessionID db =
     (let P = (\<lambda>s. s_id s = sessionID \<and> s_identity_id s = subject \<and> live_session now s) in
      (if count_rows P (browser_sessions db) \<noteq> 1 then Inl ErrUnauthorized else Inr (),
       db\<lparr>browser_sessions := update_rows P (\<lambda>s. s\<lparr>s_mfa_at := Some now\<rparr>) (browser_sessions db)\<rparr>))"

definition RequireAdmin :: "time \<Rightarrow> session_view \<Rightarrow> db \<Rightarrow> err + unit" where
  "RequireAdmin now session db =
     (if some_row (\<lambda>i. active_identity (w_identity_id session) i \<and> i_role i = Admin
            \<and> i_mfa_secret i \<noteq> None
            \<and> some_row (\<lambda>s. s_identity_id s = i_id i \<and> s_id s = w_id session
                 \<and> later_than (s_mfa_at s) (now - minutes 5) \<and> live_session now s) (browser_sessions db))
          (identities db)
      then Inr () else Inl ErrForbidden)"

section \<open>One-time credentials\<close>

fun kind_name :: "credential_kind \<Rightarrow> string" where
  "kind_name Invite = ''invite''"
| "kind_name Recovery = ''recovery''"
| "kind_name MfaReset = ''mfa_reset''"

definition parse_kind :: "string \<Rightarrow> credential_kind option" where
  "parse_kind k = (if k = ''invite'' then Some Invite else if k = ''recovery'' then Some Recovery
     else if k = ''mfa_reset'' then Some MfaReset else None)"

lemma parse_kind_name: "parse_kind s = Some k \<longleftrightarrow> s = kind_name k"
  by (cases k) (auto simp: parse_kind_def)

definition IssueCredential ::
  "(string \<Rightarrow> string option) \<Rightarrow> time \<Rightarrow> string \<Rightarrow> string \<Rightarrow> string \<Rightarrow> string \<Rightarrow> db \<Rightarrow> (err + string) \<times> db" where
  "IssueCredential parse now raw actor kind email db =
     (case parse_kind kind of
        None \<Rightarrow> (Inl ErrForbidden, db)
      | Some k \<Rightarrow> (case validEmail parse email of
          Inl e \<Rightarrow> (Inl e, db)
        | Inr email \<Rightarrow>
          if (k = Recovery \<or> k = MfaReset)
            \<and> \<not> some_row (\<lambda>i. i_email i = email \<and> i_status i = Active
                  \<and> (k \<noteq> MfaReset \<or> i_mfa_secret i \<noteq> None)) (identities db)
          then (Inl ErrForbidden, db)
          else (case insert_row credential_clash
              \<lparr>c_token_hash = Hash raw, c_kind = k, c_email = email, c_expires_at = now + hours 1,
               c_consumed_at = None\<rparr>
              (update_rows (\<lambda>c. c_email c = email \<and> c_kind c = k \<and> c_consumed_at c = None)
                (\<lambda>c. c\<lparr>c_consumed_at := Some now\<rparr>) (one_time_credentials db)) of
            None \<Rightarrow> (Inl UniqueViolation, db)
          | Some t \<Rightarrow> (Inr raw, audit now actor (''credential.issue.'' @ kind) email
              (db\<lparr>one_time_credentials := t\<rparr>)))))"

definition usable_credential :: "time \<Rightarrow> string \<Rightarrow> credential_kind \<Rightarrow> credential_row \<Rightarrow> bool" where
  "usable_credential now raw kind c = (c_token_hash c = Hash raw \<and> c_kind c = kind
     \<and> now < c_expires_at c \<and> c_consumed_at c = None)"

definition consume_credential :: "time \<Rightarrow> string \<Rightarrow> credential_kind \<Rightarrow> db \<Rightarrow> db" where
  "consume_credential now raw kind db = db\<lparr>one_time_credentials :=
     update_rows (usable_credential now raw kind) (\<lambda>c. c\<lparr>c_consumed_at := Some now\<rparr>)
       (one_time_credentials db)\<rparr>"

text \<open>What the three credential changes do last: end the subject's access, queue the notices.\<close>

definition end_access ::
  "time \<Rightarrow> (nat \<Rightarrow> string) \<Rightarrow> string \<Rightarrow> string \<Rightarrow> db \<Rightarrow> db option" where
  "end_access now ids action subject db = map_option (audit now subject action subject)
     (queueLogout now ids subject [] (void_authorizations now subject (revoke_subject now subject db)))"

definition RedeemMFAReset ::
  "kdf \<Rightarrow> time \<Rightarrow> (nat \<Rightarrow> string) \<Rightarrow> string \<Rightarrow> string \<Rightarrow> string \<Rightarrow> db \<Rightarrow> (err + unit) \<times> db" where
  "RedeemMFAReset kdf now ids raw password peer db =
     (case first_row (usable_credential now raw MfaReset) (one_time_credentials db) of
        None \<Rightarrow> (Inl ErrExpired, db)
      | Some c \<Rightarrow> (case Authenticate kdf now (c_email c) password peer db of
          (Inl e, db) \<Rightarrow> (Inl e, db)
        | (Inr _, db) \<Rightarrow>
          (case first_row (usable_credential now raw MfaReset) (one_time_credentials db) of
            None \<Rightarrow> (Inl ErrExpired, db)
          | Some c \<Rightarrow> (case first_row (\<lambda>i. i_email i = c_email c \<and> i_status i = Active
                \<and> i_mfa_secret i \<noteq> None) (identities db) of
              None \<Rightarrow> (Inl ErrUnauthorized, db)
            | Some i \<Rightarrow>
              let db1 = (consume_credential now raw MfaReset db)
                \<lparr>identities := update_rows (\<lambda>j. i_id j = i_id i)
                    (\<lambda>j. j\<lparr>i_mfa_secret := None, i_pending_mfa_secret := None,
                       i_pending_mfa_expires := None, i_mfa_last_step := -1\<rparr>) (identities db),
                 recovery_codes := delete_rows (\<lambda>v. v_identity_id v = i_id i) (recovery_codes db)\<rparr>
              in (case end_access now ids ''mfa.reset'' (i_id i) db1 of
                None \<Rightarrow> (Inl UniqueViolation, db)
              | Some db2 \<Rightarrow> (Inr (), db2))))))"

section \<open>Passwords\<close>

definition set_password :: "string \<Rightarrow> string \<Rightarrow> db \<Rightarrow> db" where
  "set_password subject encoded db = db\<lparr>identities :=
     update_rows (\<lambda>i. i_id i = subject) (\<lambda>i. i\<lparr>i_password_hash := encoded\<rparr>) (identities db)\<rparr>"

text \<open>The transaction of \<open>ChangePassword\<close>, after the credentials have been checked once.\<close>

definition commit_password ::
  "kdf \<Rightarrow> time \<Rightarrow> (nat \<Rightarrow> string) \<Rightarrow> string \<Rightarrow> string \<Rightarrow> bool \<Rightarrow> string \<Rightarrow> string \<Rightarrow> db
    \<Rightarrow> (err + unit) \<times> db" where
  "commit_password kdf now ids subject sessionID enabled current encoded db =
     (case identity_with_session subject (\<lambda>s. s_id s = sessionID \<and> live_session now s) db of
        None \<Rightarrow> (Inl ErrUnauthorized, db)
      | Some i \<Rightarrow>
        if (i_mfa_secret i \<noteq> None) \<noteq> enabled \<or> \<not> PasswordMatches kdf current (i_password_hash i)
        then (Inl ErrUnauthorized, db)
        else (case end_access now ids ''password.change'' subject (set_password subject encoded db) of
          None \<Rightarrow> (Inl UniqueViolation, db)
        | Some db1 \<Rightarrow> (Inr (), db1)))"

definition ChangePassword ::
  "kdf \<Rightarrow> (string \<Rightarrow> err + string) \<Rightarrow> totp \<Rightarrow> time \<Rightarrow> time \<Rightarrow> string \<Rightarrow> (nat \<Rightarrow> string) \<Rightarrow> string \<Rightarrow> string
    \<Rightarrow> string \<Rightarrow> string \<Rightarrow> string \<Rightarrow> string \<Rightarrow> db \<Rightarrow> (err + unit) \<times> db" where
  "ChangePassword kdf unseal totp now wall salt ids subject sessionID current new_password code peer db =
     (if current = new_password then (Inl ErrConflict, db)
      else case HashPassword kdf salt new_password of
        Inl _ \<Rightarrow> (Inl ErrForbidden, db)
      | Inr encoded \<Rightarrow> (case Identity subject db of
          Inl e \<Rightarrow> (Inl e, db)
        | Inr u \<Rightarrow> (case Authenticate kdf now (u_email u) current peer db of
            (Inl e, db) \<Rightarrow> (Inl e, db)
          | (Inr _, db) \<Rightarrow> (case MFAEnabled subject db of
              Inl e \<Rightarrow> (Inl e, db)
            | Inr enabled \<Rightarrow>
              (case (if enabled then VerifyMFA unseal totp now wall subject code db else (Inr (), db)) of
                (Inl e, db) \<Rightarrow> (Inl e, db)
              | (Inr _, db) \<Rightarrow>
                commit_password kdf now ids subject sessionID enabled current encoded db)))))"

definition RedeemCredential ::
  "kdf \<Rightarrow> time \<Rightarrow> string \<Rightarrow> string \<Rightarrow> (nat \<Rightarrow> string) \<Rightarrow> string \<Rightarrow> string \<Rightarrow> string \<Rightarrow> string \<Rightarrow> db
    \<Rightarrow> (err + identity_view) \<times> db" where
  "RedeemCredential kdf now salt new_id ids kind raw name password db =
     (if kind \<noteq> ''invite'' \<and> kind \<noteq> ''recovery'' then (Inl ErrForbidden, db)
      else let k = (if kind = ''invite'' then Invite else Recovery) in
      case HashPassword kdf salt password of
        Inl e \<Rightarrow> (Inl e, db)
      | Inr encoded \<Rightarrow> (case first_row (usable_credential now raw k) (one_time_credentials db) of
          None \<Rightarrow> (Inl ErrExpired, db)
        | Some c \<Rightarrow>
          let db1 = consume_credential now raw k db in
          if kind = ''invite'' then
            (let name = trim_space name in
             if name = [] \<or> length name > 200 then (Inl ErrForbidden, db)
             else (case insert_row identity_clash
                 \<lparr>i_id = new_id, i_email = c_email c, i_name = name, i_password_hash = encoded,
                  i_role = Member, i_status = Active, i_email_verified = False, i_mfa_secret = None,
                  i_pending_mfa_secret = None, i_pending_mfa_expires = None, i_mfa_last_step = -1,
                  i_status_version = 1\<rparr> (identities db1) of
               None \<Rightarrow> (Inl (classify UniqueViolation), db)
             | Some t \<Rightarrow>
               let db2 = audit now new_id (''credential.redeem.'' @ kind) new_id (db1\<lparr>identities := t\<rparr>)
               in (Identity new_id db2, db2)))
          else (case first_row (\<lambda>i. i_email i = c_email c \<and> i_status i = Active) (identities db1) of
              None \<Rightarrow> (Inl (classify NoRows), db)
            | Some i \<Rightarrow>
              (case end_access now ids (''credential.redeem.'' @ kind) (i_id i)
                  (set_password (i_id i) encoded db1) of
                None \<Rightarrow> (Inl (classify UniqueViolation), db)
              | Some db2 \<Rightarrow> (Identity (i_id i) db2, db2)))))"

section \<open>Identity status\<close>

definition other_admins :: "string \<Rightarrow> db \<Rightarrow> nat" where
  "other_admins subject db =
     count_rows (\<lambda>i. i_role i = Admin \<and> i_status i = Active \<and> i_id i \<noteq> subject) (identities db)"

definition parse_status :: "string \<Rightarrow> account_status option" where
  "parse_status s =
     (if s = ''active'' then Some Active else if s = ''disabled'' then Some Disabled else None)"

text \<open>The status events are queued before the links are cut; \<open>ids\<close> and \<open>ids'\<close> name the rows.\<close>

definition SetIdentityStatus ::
  "time \<Rightarrow> (nat \<Rightarrow> string) \<Rightarrow> (nat \<Rightarrow> string) \<Rightarrow> string \<Rightarrow> string \<Rightarrow> string \<Rightarrow> db \<Rightarrow> (err + unit) \<times> db" where
  "SetIdentityStatus now ids ids' actor subject status db =
     (case parse_status status of
        None \<Rightarrow> (Inl ErrForbidden, db)
      | Some st \<Rightarrow> (case first_row (\<lambda>i. i_id i = subject) (identities db) of
          None \<Rightarrow> (Inl ErrForbidden, db)
        | Some i \<Rightarrow>
          if i_status i = st then (Inr (), db)
          else if st = Disabled \<and> i_role i = Admin \<and> other_admins subject db = 0
          then (Inl ErrConflict, db)
          else let version = i_status_version i + 1;
                 db1 = db\<lparr>identities := update_rows (\<lambda>i. i_id i = subject)
                   (\<lambda>i. i\<lparr>i_status := st, i_status_version := i_status_version i + 1\<rparr>) (identities db)\<rparr>
          in (case insert_rows outbox_clash
              (map (\<lambda>(n, c). outbox_event now n c (StatusChanged subject status version) EventKind)
                (numbered ids (linked_clients subject db1))) (outbox db1) of
            None \<Rightarrow> (Inl UniqueViolation, db)
          | Some t \<Rightarrow>
            (case (if st = Disabled
                then queueLogout now ids' subject [] (revoke_subject now subject (db1\<lparr>outbox := t\<rparr>))
                else Some (db1\<lparr>outbox := t\<rparr>)) of
              None \<Rightarrow> (Inl UniqueViolation, db)
            | Some db2 \<Rightarrow> (Inr (), audit now actor (''identity.'' @ status) subject db2)))))"

section \<open>What the operations keep\<close>

lemmas account_statements [statement_defs] = usable_recovery_def recovery_row_of_def

lemma BeginMFA_schema:
  "schema_ok db \<Longrightarrow> schema_ok (snd (BeginMFA seal now new_key subject db))"
  by (auto simp: BeginMFA_def Let_def clash_defs statement_defs intro!: schema_intros
      split: option.splits sum.splits prod.splits if_splits)

lemma BeginMFA_evolves:
  assumes "schema_ok db" 
  shows "evolves D db (snd (BeginMFA seal now new_key subject db))"
  using assms
  by (auto simp: BeginMFA_def Let_def row_orders statement_defs intro!: history_intros
      dest!: first_row_Some  dest: row_unique  split: option.splits sum.splits prod.splits if_splits)

lemma ConfirmMFA_schema:
  "schema_ok db \<Longrightarrow> schema_ok (snd (ConfirmMFA unseal totp now wall codes subject sid code db))"
  by (auto simp: ConfirmMFA_def Let_def clash_defs statement_defs intro!: schema_intros
      split: option.splits sum.splits prod.splits if_splits)

lemma ConfirmMFA_evolves:
  assumes "schema_ok db" "\<forall>c\<in>set codes. Hash c \<notin> D T_recovery"
  shows "evolves D db (snd (ConfirmMFA unseal totp now wall codes subject sid code db))"
  using assms
  by (auto simp: ConfirmMFA_def Let_def row_orders statement_defs intro!: history_intros
      dest!: first_row_Some  dest: row_unique  split: option.splits sum.splits prod.splits if_splits)

lemma RotateMFARecoveryCodes_schema:
  "schema_ok db \<Longrightarrow> schema_ok (snd (RotateMFARecoveryCodes now codes subject sid db))"
  by (auto simp: RotateMFARecoveryCodes_def Let_def clash_defs statement_defs intro!: schema_intros
      split: option.splits sum.splits prod.splits if_splits)

lemma RotateMFARecoveryCodes_evolves:
  assumes "schema_ok db" "\<forall>c\<in>set codes. Hash c \<notin> D T_recovery"
  shows "evolves D db (snd (RotateMFARecoveryCodes now codes subject sid db))"
  using assms
  by (auto simp: RotateMFARecoveryCodes_def Let_def row_orders statement_defs intro!: history_intros
      dest!: first_row_Some  dest: row_unique  split: option.splits sum.splits prod.splits if_splits)

lemma VerifyMFA_kept:
  shows VerifyMFA_schema: "schema_ok db \<Longrightarrow> schema_ok (snd (VerifyMFA unseal totp now wall subject code db))"
    and VerifyMFA_evolves: "evolves D db (snd (VerifyMFA unseal totp now wall subject code db))"
  by (auto simp: VerifyMFA_def Let_def Allow_unfold clash_defs split: option.splits sum.splits if_splits
      intro!: schema_intros)
    (auto simp: VerifyMFA_def Let_def Allow_unfold row_orders usable_recovery_def split: option.splits sum.splits
      intro!: history_intros)

lemma MarkMFA_schema:
  "schema_ok db \<Longrightarrow> schema_ok (snd (MarkMFA now subject sid db))"
  by (auto simp: MarkMFA_def Let_def clash_defs statement_defs intro!: schema_intros
      split: option.splits sum.splits prod.splits if_splits)

lemma MarkMFA_evolves:
  assumes "schema_ok db" 
  shows "evolves D db (snd (MarkMFA now subject sid db))"
  using assms
  by (auto simp: MarkMFA_def Let_def row_orders statement_defs intro!: history_intros
      dest!: first_row_Some  dest: row_unique  split: option.splits sum.splits prod.splits if_splits)

lemma IssueCredential_schema:
  "schema_ok db \<Longrightarrow> schema_ok (snd (IssueCredential parse now raw actor kind email db))"
  by (auto simp: IssueCredential_def Let_def clash_defs statement_defs intro!: schema_intros
      split: option.splits sum.splits prod.splits if_splits)

lemma IssueCredential_evolves:
  assumes "schema_ok db" 
  shows "evolves D db (snd (IssueCredential parse now raw actor kind email db))"
  using assms
  by (auto simp: IssueCredential_def Let_def row_orders statement_defs intro!: history_intros
      dest!: first_row_Some  dest: row_unique  split: option.splits sum.splits prod.splits if_splits)

lemma end_access_kept:
  assumes "end_access now ids action subject b = Some b'"
  shows end_access_schema: "schema_ok b \<Longrightarrow> schema_ok b'"
    and end_access_evolves: "evolves D a b \<Longrightarrow> \<forall>n. ids n \<notin> D T_outbox \<Longrightarrow> evolves D a b'"
  using assms by (auto simp: end_access_def intro!: schema_intros history_intros
      elim!: queueLogout_schema queueLogout_evolves)

lemma consume_credential_kept [schema_intros, history_intros]:
  "schema_ok db \<Longrightarrow> schema_ok (consume_credential now raw kind db)"
  by (auto simp: consume_credential_def clash_defs intro!: schema_intros split: if_splits)

lemma consume_credential_evolves:  "evolves D db (consume_credential now raw kind db)"
  by (auto simp: consume_credential_def row_orders usable_credential_def intro!: history_intros)

lemma consume_credential_frame [simp]: "identities (consume_credential now raw kind db) = identities db"
  "recovery_codes (consume_credential now raw kind db) = recovery_codes db"
  by (simp_all add: consume_credential_def)

lemma set_password_kept [schema_intros, history_intros]:
  "schema_ok db \<Longrightarrow> schema_ok (set_password subject encoded db)"
  by (auto simp: set_password_def clash_defs intro!: schema_intros split: if_splits)

lemma set_password_evolves [history_intros]:
  assumes "evolves D a b" shows "evolves D a (set_password subject encoded b)"
proof -
  have "grows identity_le (identities a) (identities b)" using assms by (simp add: evolves_def)
  with assms show ?thesis by (auto simp: set_password_def identity_le_def intro!: history_intros)
qed

lemma RedeemMFAReset_schema:
  assumes "schema_ok db" shows "schema_ok (snd (RedeemMFAReset kdf now ids raw password peer db))"
proof -
  have "schema_ok db'" if "Authenticate kdf now e password peer db = (r, db')" for e r db'
    using Authenticate_schema [OF assms, of kdf now e password peer] that by simp
  with assms show ?thesis
    by (auto simp: RedeemMFAReset_def Let_def clash_defs split: option.splits sum.splits prod.splits if_splits
      intro!: schema_intros elim!: end_access_schema)
qed

lemma RedeemMFAReset_evolves:
  assumes "\<forall>n. ids n \<notin> D T_outbox" shows "evolves D db (snd (RedeemMFAReset kdf now ids raw password peer db))"
proof -
  have auth: "evolves D db db'" if "Authenticate kdf now e password peer db = (r, db')" for e r db'
    using Authenticate_evolves [of D db kdf now e password peer] that by simp
  have reset: "evolves D b (consume_credential now raw MfaReset b
     \<lparr>identities := update_rows P (\<lambda>j. j\<lparr>i_mfa_secret := None, i_pending_mfa_secret := None,
                       i_pending_mfa_expires := None, i_mfa_last_step := -1\<rparr>) (identities b),
      recovery_codes := delete_rows Q (recovery_codes b)\<rparr>)" for b P Q
    by (auto simp: identity_le_def intro!: history_intros consume_credential_evolves)
  show ?thesis using assms
    by (auto simp: RedeemMFAReset_def Let_def split: option.splits sum.splits prod.splits
      elim!: end_access_evolves intro: auth evolves_refl evolves_trans [OF auth reset order_refl])
qed

lemma commit_password_kept:
  shows commit_password_schema: "schema_ok db \<Longrightarrow> schema_ok (snd (commit_password kdf now ids subject sid enabled current encoded db))"
    and commit_password_evolves: "\<forall>n. ids n \<notin> D T_outbox \<Longrightarrow> evolves D db (snd (commit_password kdf now ids subject sid enabled current encoded db))"
  by (auto simp: commit_password_def split: option.splits intro!: schema_intros history_intros elim!: end_access_schema end_access_evolves)

lemma ChangePassword_schema:
  assumes "schema_ok db"
  shows "schema_ok (snd (ChangePassword kdf unseal totp now wall salt ids subject sid current new code peer db))"
proof -
  have auth: "schema_ok b" if "Authenticate kdf now e current peer db = (r, b)" for e r b
    using Authenticate_schema [OF assms, of kdf now e current peer] that by simp
  have mfa: "schema_ok b'" if "VerifyMFA unseal totp now wall subject code b = (r, b')" "schema_ok b" for r b b'
    using VerifyMFA_schema [OF that(2), of unseal totp now wall subject code] that(1) by simp
  show ?thesis
    using assms by (auto simp: ChangePassword_def split: option.splits sum.splits prod.splits if_splits
      intro: auth mfa commit_password_schema)
qed

lemma ChangePassword_evolves:
  assumes "\<forall>n. ids n \<notin> D T_outbox"
  shows "evolves D db (snd (ChangePassword kdf unseal totp now wall salt ids subject sid current new code peer db))"
proof -
  have auth: "evolves D db b" if "Authenticate kdf now e current peer db = (r, b)" for e r b
    using Authenticate_evolves [of D db kdf now e current peer] that by simp
  have mfa: "evolves D db b'" if "VerifyMFA unseal totp now wall subject code b = (r, b')" "evolves D db b" for r b b'
    using evolves_trans [OF that(2) VerifyMFA_evolves order_refl, of unseal totp now wall subject code] that(1) by simp
  have com: "evolves D db (snd (commit_password kdf now ids subject sid e current en b))"
    if "evolves D db b" for b e en
    by (rule evolves_trans [OF that _ order_refl], rule commit_password_evolves, rule assms)
  show ?thesis
    by (auto simp: ChangePassword_def split: option.splits sum.splits prod.splits if_splits
      intro: auth mfa com evolves_refl)
qed

lemma RedeemCredential_schema:
  "schema_ok db \<Longrightarrow> schema_ok (snd (RedeemCredential kdf now salt new_id ids kind raw name pw db))"
  by (auto simp: RedeemCredential_def Let_def insert_row_Some split: option.splits sum.splits prod.splits if_splits
      intro!: schema_intros elim!: end_access_schema)

lemma RedeemCredential_evolves:
  assumes "\<forall>n. ids n \<notin> D T_outbox"
  shows "evolves D db (snd (RedeemCredential kdf now salt new_id ids kind raw name pw db))"
proof -
  have invite: "evolves D db (audit now x y z ((consume_credential now raw k db)\<lparr>identities := identities db @ [i]\<rparr>))"
    for x y z k i by (intro history_intros consume_credential_evolves)
  have recover: "evolves D db (set_password x e (consume_credential now raw k db))" for x e k
    by (intro history_intros consume_credential_evolves)
  show ?thesis using assms
    by (auto simp: RedeemCredential_def Let_def insert_row_Some split: option.splits sum.splits
      intro: invite evolves_refl elim!: end_access_evolves [OF _ recover])
qed

lemma SetIdentityStatus_schema: "schema_ok db \<Longrightarrow> schema_ok (snd (SetIdentityStatus now ids ids' actor subject status db))"
  by (auto simp: SetIdentityStatus_def Let_def insert_rows_Some clash_defs split: option.splits if_splits intro!: schema_intros elim!: queueLogout_schema)

lemma SetIdentityStatus_evolves: assumes "schema_ok db" "\<forall>n. ids n \<notin> D T_outbox" "\<forall>n. ids' n \<notin> D T_outbox" 
 shows "evolves D db (snd (SetIdentityStatus now ids ids' actor subject status db))"
proof -
  have same: "n = m" if "n \<in> set (identities db)" "m \<in> set (identities db)" "i_id n = i_id m" for n m
    using that assms row_unique(1) by blast
  have ids: "\<forall>r\<in>set (map (\<lambda>(n, c). outbox_event now n c (p c) k) (numbered ids xs)). o_id r \<notin> D T_outbox" for p xs k
    using assms(2) by (auto simp: outbox_event_def numbered_def)
  show ?thesis using assms(3) ids
  by (auto simp: SetIdentityStatus_def Let_def row_orders insert_rows_Some split: option.splits if_splits
      intro!: history_intros ids elim!: queueLogout_evolves dest!: first_row_Some dest: same simp del: set_map)
qed

lemma end_access_touches:
  "end_access now ids action subject b = Some b' \<Longrightarrow> touches T a b \<Longrightarrow>
    {T_sessions, T_families, T_access, T_requests, T_devices, T_outbox, T_audit} \<subseteq> T \<Longrightarrow> touches T a b'"
  by (auto simp: end_access_def intro!: history_intros elim!: queueLogout_touches)

lemma BeginMFA_touches: "touches {T_identities} db (snd (BeginMFA seal now new_key subject db))"
  by (auto simp: BeginMFA_def Let_def  intro!: history_intros
      split: option.splits sum.splits prod.splits)

lemma ConfirmMFA_touches: "touches {T_identities, T_recovery, T_sessions, T_audit} db (snd (ConfirmMFA unseal totp now wall codes subject sid code db))"
  by (auto simp: ConfirmMFA_def Let_def  intro!: history_intros
      split: option.splits sum.splits prod.splits)

lemma RotateMFARecoveryCodes_touches: "touches {T_recovery, T_audit} db (snd (RotateMFARecoveryCodes now codes subject sid db))"
  by (auto simp: RotateMFARecoveryCodes_def Let_def  intro!: history_intros
      split: option.splits sum.splits prod.splits)

lemma VerifyMFA_touches: "touches {T_rates, T_recovery, T_identities, T_audit} db (snd (VerifyMFA unseal totp now wall subject code db))"
  by (auto simp: VerifyMFA_def Let_def Allow_unfold intro!: history_intros
      split: option.splits sum.splits prod.splits)

lemma MarkMFA_touches: "touches {T_sessions} db (snd (MarkMFA now subject sid db))"
  by (auto simp: MarkMFA_def Let_def  intro!: history_intros
      split: option.splits sum.splits prod.splits)

lemma IssueCredential_touches: "touches {T_credentials, T_audit} db (snd (IssueCredential parse now raw actor kind email db))"
  by (auto simp: IssueCredential_def Let_def  intro!: history_intros
      split: option.splits sum.splits prod.splits)

lemma RedeemMFAReset_touches:
  "touches {T_rates, T_identities, T_recovery, T_credentials, T_sessions, T_families, T_access,
     T_requests, T_devices, T_outbox, T_audit} db (snd (RedeemMFAReset kdf now ids raw password peer db))"
    (is "touches ?T _ _")
proof -
  have auth: "touches ?T db b" if "Authenticate kdf now e password peer db = (r, b)" for e r b
    using touches_mono [OF Authenticate_touches [of db kdf now e password peer], of ?T] that by simp
  show ?thesis
    by (auto simp: RedeemMFAReset_def Let_def consume_credential_def split: option.splits sum.splits prod.splits
      intro!: history_intros elim!: end_access_touches intro: auth)
qed

lemma commit_password_touches:
  "touches {T_identities, T_sessions, T_families, T_access, T_requests, T_devices, T_outbox, T_audit} db
     (snd (commit_password kdf now ids subject sid enabled current encoded db))"
  by (auto simp: commit_password_def set_password_def split: option.splits intro!: history_intros
      elim!: end_access_touches)

lemma ChangePassword_touches:
  "touches {T_rates, T_recovery, T_identities, T_sessions, T_families, T_access, T_requests, T_devices,
     T_outbox, T_audit} db
     (snd (ChangePassword kdf unseal totp now wall salt ids subject sid current new code peer db))"
    (is "touches ?T _ _")
proof -
  have auth: "touches ?T db b" if "Authenticate kdf now e current peer db = (r, b)" for e r b
    using touches_mono [OF Authenticate_touches [of db kdf now e current peer], of ?T] that by simp
  have mfa: "touches ?T db b'"
    if "VerifyMFA unseal totp now wall subject code b = (r, b')" "touches ?T db b" for r b b'
    using touches_trans [OF that(2) touches_mono [OF VerifyMFA_touches [of b unseal totp now wall subject code], of ?T]]
      that(1) by simp
  have com: "touches ?T db (snd (commit_password kdf now ids subject sid e current en b))"
    if "touches ?T db b" for b e en
    by (rule touches_trans [OF that], rule touches_mono, rule commit_password_touches) simp
  show ?thesis
    by (auto simp: ChangePassword_def split: option.splits sum.splits prod.splits if_splits
      intro: auth mfa com touches_refl)
qed

lemma RedeemCredential_touches:
  "touches {T_credentials, T_identities, T_sessions, T_families, T_access, T_requests, T_devices, T_outbox,
     T_audit} db (snd (RedeemCredential kdf now salt new_id ids kind raw name pw db))"
    (is "touches ?T _ _")
proof -
  have invite: "touches ?T db (audit now x y z ((consume_credential now raw k db)\<lparr>identities := identities db @ [i]\<rparr>))"
    for x y z k i by (auto simp: consume_credential_def intro!: history_intros)
  have recover: "touches ?T db (set_password x e (consume_credential now raw k db))" for x e k
    by (auto simp: consume_credential_def set_password_def intro!: history_intros)
  show ?thesis
    by (auto simp: RedeemCredential_def Let_def insert_row_Some split: option.splits sum.splits
      intro: invite touches_refl elim!: end_access_touches [OF _ recover])
qed

lemma SetIdentityStatus_touches: "touches {T_identities, T_sessions, T_families, T_access, T_outbox, T_audit} db (snd (SetIdentityStatus now ids ids' actor subject status db))"
  by (auto simp: SetIdentityStatus_def Let_def  intro!: history_intros elim!: queueLogout_touches
      split: option.splits sum.splits prod.splits)

section \<open>Queued events\<close>

lemma end_access_queued: "end_access now ids action subject b = Some b' \<Longrightarrow> queued a b \<Longrightarrow> queued a b'"
  by (auto simp: end_access_def dest!: queueLogout_queued [where a = a] intro: queued_cong [THEN iffD1, rotated])

lemma Authenticate_outbox: "Authenticate kdf now e pw peer db = (r, b) \<Longrightarrow> outbox b = outbox db"
  using untouched(12) [OF Authenticate_touches [of db kdf now e pw peer]] by simp

lemma VerifyMFA_outbox: "VerifyMFA unseal totp now wall subject code db = (r, b) \<Longrightarrow> outbox b = outbox db"
  using untouched(12) [OF VerifyMFA_touches [of db unseal totp now wall subject code]] by simp

lemma RedeemMFAReset_queued: "queued db (snd (RedeemMFAReset kdf now ids raw password peer db))"
  by (auto simp: RedeemMFAReset_def Let_def consume_credential_def split: option.splits sum.splits prod.splits
      dest: Authenticate_outbox elim!: end_access_queued)

lemma ChangePassword_queued:
  "queued db (snd (ChangePassword kdf unseal totp now wall salt ids subject sid current new code peer db))"
proof -
  have com: "queued db (snd (commit_password kdf now ids subject sid e current en b))"
    if "outbox b = outbox db" for b e en
    using that by (auto simp: commit_password_def set_password_def split: option.splits elim!: end_access_queued)
  show ?thesis
    by (auto simp: ChangePassword_def split: option.splits sum.splits prod.splits if_splits
      dest!: Authenticate_outbox VerifyMFA_outbox intro!: com)
qed

lemma RedeemCredential_queued:
  "queued db (snd (RedeemCredential kdf now salt new_id ids kind raw name pw db))"
  by (auto simp: RedeemCredential_def Let_def consume_credential_def set_password_def split: option.splits sum.splits
      elim!: end_access_queued)

lemma SetIdentityStatus_queued:
  "queued db (snd (SetIdentityStatus now ids ids' actor subject status db))"
proof -
  have ev: "queued db (b\<lparr>outbox := t\<rparr>)" if "insert_rows outbox_clash (map (\<lambda>(n, c). outbox_event now n c (p c) k) xs) (outbox db) = Some t"
    for t xs p k b
    using that by (auto simp: insert_rows_Some queued_def list_all_iff)
  show ?thesis
    by (auto simp: SetIdentityStatus_def Let_def split: option.splits
      dest!: queueLogout_queued [where a = db] intro: queued_cong [THEN iffD1, rotated] ev dest: ev)
qed

section \<open>Administrators\<close>

lemma BeginMFA_standing: "same_standing db (snd (BeginMFA seal now new_key subject db))"
  by (auto simp: BeginMFA_def split: sum.splits)

lemma ConfirmMFA_standing: "same_standing db (snd (ConfirmMFA unseal totp now wall codes subject sid code db))"
  by (auto simp: ConfirmMFA_def Let_def split: sum.splits option.splits)

lemma VerifyMFA_standing: "same_standing db (snd (VerifyMFA unseal totp now wall subject code db))"
  by (auto simp: VerifyMFA_def Allow_unfold Let_def split: sum.splits option.splits)

lemma end_access_identities: "end_access now ids action subject b = Some b' \<Longrightarrow> identities b' = identities b"
  by (auto simp: end_access_def queueLogout_def)

lemma Authenticate_identities: "Authenticate kdf now e pw peer db = (r, b) \<Longrightarrow> identities b = identities db"
  using untouched(1) [OF Authenticate_touches [of db kdf now e pw peer]] by simp

lemma RedeemMFAReset_standing: "same_standing db (snd (RedeemMFAReset kdf now ids raw password peer db))"
  by (auto simp: RedeemMFAReset_def Let_def split: sum.splits option.splits prod.splits
    dest!: end_access_identities Authenticate_identities)

lemma RedeemCredential_standing: "same_standing db (snd (RedeemCredential kdf now salt new_id ids kind raw name pw db))"
  by (auto simp: RedeemCredential_def Let_def insert_row_Some same_standing_def set_password_def
      split: sum.splits option.splits dest!: end_access_identities)

lemma ChangePassword_standing:
  "same_standing db (snd (ChangePassword kdf unseal totp now wall salt ids subject sid current new code peer db))"
proof -
  have mfa: "standing (identities b') = standing (identities b)" if "VerifyMFA unseal totp now wall subject code b = (r, b')" for r b b'
  proof -
    have "standing (identities (snd (VerifyMFA unseal totp now wall subject code b))) = standing (identities b)"
      by (auto simp: VerifyMFA_def Allow_unfold Let_def split: sum.splits option.splits)
    with that show ?thesis by simp
  qed
  have com: "standing (identities (snd (commit_password kdf now ids subject sid e current en b))) = standing (identities b)" for b e en
    by (auto simp: commit_password_def set_password_def split: option.splits dest!: end_access_identities)
  show ?thesis
    by (auto simp: ChangePassword_def com split: option.splits sum.splits prod.splits if_splits
      dest!: Authenticate_identities mfa)
qed

lemma count_rows_pos: "count_rows P t \<noteq> 0 \<longleftrightarrow> (\<exists>r\<in>set t. P r)"
  by (auto simp: count_rows_0)

lemma SetIdentityStatus_admin:
  assumes "schema_ok db" "has_admin db"
  shows "has_admin (snd (SetIdentityStatus now ids ids' actor subject status db))"
proof -
  have logout: "identities b = identities a" if "queueLogout now ids' s sid a = Some b" for a b s sid
    using that by (auto simp: queueLogout_def)
  have keep: "has_admin b"
    if b: "identities b = update_rows (\<lambda>i. i_id i = subject) (\<lambda>i. i\<lparr>i_status := st, i_status_version := i_status_version i + 1\<rparr>) (identities db)"
      and i: "i \<in> set (identities db)" "i_id i = subject" "\<not> (st = Disabled \<and> i_role i = Admin \<and> other_admins subject db = 0)" for b i st
  proof -
    obtain a where a: "a \<in> set (identities db)" "i_role a = Admin" "i_status a = Active" using assms(2) by (auto simp: has_admin_def)
    have ai: "a = i" if "i_id a = subject" using row_unique(1) [OF _ assms(1) a(1) i(1)] i(2) that by simp
    show ?thesis
    proof (cases "i_id a = subject \<and> st = Disabled")
      case False
      then have "i_status (if i_id a = subject then a\<lparr>i_status := st, i_status_version := i_status_version a + 1\<rparr> else a) = Active"
        using a(3) by (cases st) auto
      with a show ?thesis unfolding has_admin_def b bex_update_rows by (intro bexI [of _ a]) auto
    next
      case True
      with i a ai have "other_admins subject db \<noteq> 0" by simp
      then obtain c where "c \<in> set (identities db)" "i_role c = Admin" "i_status c = Active" "i_id c \<noteq> subject"
        unfolding other_admins_def count_rows_pos by blast
      then show ?thesis unfolding has_admin_def b bex_update_rows by (intro bexI [of _ c]) auto
    qed
  qed
  show ?thesis
  proof (cases "\<exists>st i. parse_status status = Some st \<and> first_row (\<lambda>i. i_id i = subject) (identities db) = Some i")
    case True
    then obtain st i where st: "parse_status status = Some st"
      and i: "first_row (\<lambda>i. i_id i = subject) (identities db) = Some i" by blast
    let ?db' = "snd (SetIdentityStatus now ids ids' actor subject status db)"
    have "?db' = db \<or> (\<not> (st = Disabled \<and> i_role i = Admin \<and> other_admins subject db = 0)
        \<and> identities ?db' = update_rows (\<lambda>i. i_id i = subject)
            (\<lambda>i. i\<lparr>i_status := st, i_status_version := i_status_version i + 1\<rparr>) (identities db))"
      using st i by (auto simp: SetIdentityStatus_def Let_def split: option.splits dest!: logout)
    then show ?thesis
    proof
      assume "?db' = db"
      then show ?thesis using assms(2) by simp
    next
      assume "\<not> (st = Disabled \<and> i_role i = Admin \<and> other_admins subject db = 0)
        \<and> identities ?db' = update_rows (\<lambda>i. i_id i = subject)
            (\<lambda>i. i\<lparr>i_status := st, i_status_version := i_status_version i + 1\<rparr>) (identities db)"
      then show ?thesis using keep [of ?db' st i] first_row_Some [OF i] by blast
    qed
  qed (use assms(2) in \<open>auto simp: SetIdentityStatus_def split: option.splits\<close>)
qed

section \<open>One-time credentials\<close>

definition credential_inv :: "db \<Rightarrow> bool" where
  "credential_inv db = (\<forall>c\<in>set (one_time_credentials db). \<forall>d\<in>set (one_time_credentials db).
     c_email c = c_email d \<and> c_kind c = c_kind d \<and> c_consumed_at c = None \<and> c_consumed_at d = None \<longrightarrow> c = d)"

lemma credential_inv_update:
  assumes "credential_inv a" "one_time_credentials b = update_rows P f (one_time_credentials a)"
    "\<And>c. c_consumed_at (f c) \<noteq> None"
  shows "credential_inv b"
  unfolding credential_inv_def assms(2)
proof (intro ballI impI; elim conjE)
  fix c d assume "c \<in> set (update_rows P f (one_time_credentials a))" "c_consumed_at c = None"
    "d \<in> set (update_rows P f (one_time_credentials a))" "c_consumed_at d = None"
    and cd: "c_email c = c_email d" "c_kind c = c_kind d"
  then have "c \<in> set (one_time_credentials a)" "d \<in> set (one_time_credentials a)"
    using assms(3) by (metis in_update_rows)+
  with cd assms(1) \<open>c_consumed_at c = None\<close> \<open>c_consumed_at d = None\<close> show "c = d"
    unfolding credential_inv_def by blast
qed

lemma credential_inv_insert:
  assumes "credential_inv a" "one_time_credentials b = one_time_credentials a @ [r]"
    "\<forall>c\<in>set (one_time_credentials a). \<not> (c_email c = c_email r \<and> c_kind c = c_kind r \<and> c_consumed_at c = None)"
  shows "credential_inv b"
  unfolding credential_inv_def assms(2) set_append
proof (intro ballI impI)
  fix c d
  assume c: "c \<in> set (one_time_credentials a) \<union> set [r]" and d: "d \<in> set (one_time_credentials a) \<union> set [r]"
    and same: "c_email c = c_email d \<and> c_kind c = c_kind d \<and> c_consumed_at c = None \<and> c_consumed_at d = None"
  show "c = d"
  proof (cases "c = r \<or> d = r")
    case True
    then show ?thesis using c d same assms(3) by (elim disjE) auto
  next
    case False
    then have "c \<in> set (one_time_credentials a)" "d \<in> set (one_time_credentials a)" using c d by auto
    then show ?thesis using same assms(1) unfolding credential_inv_def by blast
  qed
qed

lemma IssueCredential_credential_inv:
  assumes "credential_inv db"
  shows "credential_inv (snd (IssueCredential parse now raw actor kind email db))"
proof -
  have issued: "credential_inv b" if b: "one_time_credentials b =
     update_rows (\<lambda>c. c_email c = e \<and> c_kind c = k \<and> c_consumed_at c = None) (\<lambda>c. c\<lparr>c_consumed_at := Some now\<rparr>)
       (one_time_credentials db) @ [r]" and r: "c_email r = e" "c_kind r = k" for e k r b
  proof -
    let ?t = "update_rows (\<lambda>c. c_email c = e \<and> c_kind c = k \<and> c_consumed_at c = None) (\<lambda>c. c\<lparr>c_consumed_at := Some now\<rparr>)
       (one_time_credentials db)"
    have inv: "credential_inv (db\<lparr>one_time_credentials := ?t\<rparr>)"
      by (rule credential_inv_update [OF assms]) auto
    have "\<not> (c_email c = e \<and> c_kind c = k \<and> c_consumed_at c = None)" if "c \<in> set ?t" for c
      using that by (elim in_update_rows) (auto split: if_splits)
    then show ?thesis using credential_inv_insert [OF inv, of b r] b r by simp
  qed
  show ?thesis
  proof (cases "parse_kind kind")
    case None
    then show ?thesis using assms by (simp add: IssueCredential_def)
  next
    case k: (Some k)
    show ?thesis
    proof (cases "validEmail parse email")
      case (Inl e)
      then show ?thesis using assms k by (simp add: IssueCredential_def)
    next
      case (Inr e)
      let ?db' = "snd (IssueCredential parse now raw actor kind email db)"
      let ?r = "\<lparr>c_token_hash = Hash raw, c_kind = k, c_email = e, c_expires_at = now + hours 1, c_consumed_at = None\<rparr>"
      have "?db' = db \<or> one_time_credentials ?db' =
          update_rows (\<lambda>c. c_email c = e \<and> c_kind c = k \<and> c_consumed_at c = None) (\<lambda>c. c\<lparr>c_consumed_at := Some now\<rparr>)
            (one_time_credentials db) @ [?r]"
        using k Inr by (auto simp: IssueCredential_def insert_row_Some split: option.splits)
      then show ?thesis using issued [of ?db' e k ?r] assms by auto
    qed
  qed
qed

end
