(* ===== verification/Devices.thy ===== *)
theory Devices
  imports Account_Security
begin

text \<open>
  \<open>internal/core/device.go\<close> and \<open>installations.go\<close>: the device authorization grant with its
  polling discipline, and the installations registered with a device token.
\<close>

section \<open>Device authorizations\<close>

definition StoreDeviceAuthorization ::
  "time \<Rightarrow> string \<Rightarrow> string \<Rightarrow> string \<Rightarrow> time \<Rightarrow> string list \<Rightarrow> db \<Rightarrow> (err + unit) \<times> db" where
  "StoreDeviceAuthorization now clientID deviceCode userCode expires scopes db =
     (case Client clientID db of
        Inl _ \<Rightarrow> (Inl ErrForbidden, db)
      | Inr c \<Rightarrow>
        if GrantTypeDeviceCode \<notin> set (cl_grants c) \<or> \<not> cl_public c then (Inl ErrForbidden, db)
        else if length scopes = 0 \<or> ScopeOpenID \<notin> set scopes \<or> ScopeOfflineAccess \<in> set scopes
        then (Inl OidcInvalidScope, db)
        else if list_ex (\<lambda>s. s \<notin> set (cl_scopes c)) scopes then (Inl OidcInvalidScope, db)
        else (case Allow now (''device-start:'' @ clientID) 30 (minutes 1) db of
          (allowed, db) \<Rightarrow>
          if \<not> allowed then (Inl ErrForbidden, db)
          else let db = db\<lparr>device_authorizations :=
                 delete_rows (\<lambda>d. d_expires_at d < now - hours 1) (device_authorizations db)\<rparr> in
          (case insert_row device_clash
              \<lparr>d_device_code_hash = Hash deviceCode, d_user_code = userCode, d_client_id = clientID,
               d_scopes = scopes, d_expires_at = expires, d_status = DevicePending, d_subject = None,
               d_auth_time = None, d_next_poll_at = now, d_poll_interval_seconds = 5\<rparr>
              (device_authorizations db) of
            None \<Rightarrow> (Inl (classify UniqueViolation), db)
          | Some t \<Rightarrow> (Inr (), db\<lparr>device_authorizations := t\<rparr>))))"

definition update_device :: "string \<Rightarrow> (device_row \<Rightarrow> device_row) \<Rightarrow> db \<Rightarrow> db" where
  "update_device deviceCode f db = db\<lparr>device_authorizations :=
     update_rows (\<lambda>d. d_device_code_hash d = Hash deviceCode) f (device_authorizations db)\<rparr>"

definition poll_state :: "device_row \<Rightarrow> device_state" where
  "poll_state d = \<lparr>ds_client_id = d_client_id d, ds_subject = [], ds_audience = [],
     ds_scopes = d_scopes d, ds_auth_time = zero_time, ds_expires = d_expires_at d, ds_done = False,
     ds_denied = False\<rparr>"

text \<open>
  One poll of the device. \<open>DeadlineExceeded\<close> is \<open>context.DeadlineExceeded\<close>, which the OAuth
  library turns into \<open>slow_down\<close>; that branch commits the longer interval.
\<close>

definition GetDeviceAuthorizatonState ::
  "time \<Rightarrow> time \<Rightarrow> string \<Rightarrow> string \<Rightarrow> db \<Rightarrow> (err + device_state) \<times> db" where
  "GetDeviceAuthorizatonState now wall clientID deviceCode db =
     (case first_row (\<lambda>d. d_device_code_hash d = Hash deviceCode \<and> d_client_id d = clientID)
         (device_authorizations db) of
        None \<Rightarrow> (Inl ErrUnauthorized, db)
      | Some d \<Rightarrow>
        if d_expires_at d < wall then (Inr ((poll_state d)\<lparr>ds_expires := wall - seconds 1\<rparr>), db)
        else if d_status d = DeviceDenied then (Inr ((poll_state d)\<lparr>ds_denied := True\<rparr>), db)
        else if d_status d = DeviceConsumed then (Inl ErrUnauthorized, db)
        else if wall < d_next_poll_at d then
          (let interval = min (d_poll_interval_seconds d + 5) 30 in
           (Inl DeadlineExceeded, update_device deviceCode
              (\<lambda>d. d\<lparr>d_poll_interval_seconds := interval, d_next_poll_at := now + seconds interval\<rparr>) db))
        else if d_status d = DeviceApproved then
          (if \<not> some_row (active_identity (coalesce (d_subject d) [])) (identities db)
           then (Inl ErrUnauthorized, db)
           else (Inr ((poll_state d)\<lparr>ds_done := True, ds_subject := coalesce (d_subject d) [],
                   ds_auth_time := coalesce (d_auth_time d) zero_time\<rparr>),
                 update_device deviceCode (\<lambda>d. d\<lparr>d_status := DeviceConsumed\<rparr>) db))
        else (Inr (poll_state d), update_device deviceCode
          (\<lambda>d. d\<lparr>d_next_poll_at := now + seconds (d_poll_interval_seconds d)\<rparr>) db))"

definition device_open :: "time \<Rightarrow> string \<Rightarrow> db \<Rightarrow> device_row \<Rightarrow> bool" where
  "device_open now userCode db d = (d_user_code d = userCode \<and> d_status d = DevicePending
     \<and> now < d_expires_at d \<and> some_row (active_app (d_client_id d)) (applications db))"

record device_request =
  dq_client_name :: string
  dq_scopes :: "string list"
  dq_expires_at :: time

definition app_name :: "string \<Rightarrow> db \<Rightarrow> string" where
  "app_name c db = (case first_row (\<lambda>a. a_id a = c) (applications db) of None \<Rightarrow> [] | Some a \<Rightarrow> a_name a)"

definition DeviceRequest :: "time \<Rightarrow> string \<Rightarrow> db \<Rightarrow> err + device_request" where
  "DeviceRequest now userCode db =
     (case first_row (device_open now (to_upper (trim_space userCode)) db) (device_authorizations db) of
        None \<Rightarrow> Inl ErrExpired
      | Some d \<Rightarrow> Inr \<lparr>dq_client_name = app_name (d_client_id d) db, dq_scopes = d_scopes d,
          dq_expires_at = d_expires_at d\<rparr>)"

definition ConfirmDevice :: "time \<Rightarrow> string \<Rightarrow> string \<Rightarrow> bool \<Rightarrow> db \<Rightarrow> (err + unit) \<times> db" where
  "ConfirmDevice now userCode subject approve db =
     (case first_row (device_open now (to_upper (trim_space userCode)) db) (device_authorizations db) of
        None \<Rightarrow> (Inl ErrExpired, db)
      | Some d \<Rightarrow>
        if \<not> some_row (active_identity subject) (identities db) then (Inl ErrUnauthorized, db)
        else (Inr (), audit now subject (if approve then ''device.approved'' else ''device.denied'')
            (d_client_id d)
            (db\<lparr>device_authorizations :=
               update_rows (\<lambda>e. d_device_code_hash e = d_device_code_hash d)
                 (\<lambda>e. e\<lparr>d_status := (if approve then DeviceApproved else DeviceDenied),
                    d_subject := Some subject, d_auth_time := Some now\<rparr>)
                 (device_authorizations db)\<rparr>)))"

section \<open>Installations\<close>

text \<open>The pattern \<open>^[0-9a-f]{8}-[0-9a-f]{4}-[0-9a-f]{4}-[0-9a-f]{4}-[0-9a-f]{12}$\<close>.\<close>

definition lower_hex :: "string \<Rightarrow> bool" where
  "lower_hex s = list_all (\<lambda>c. c \<in> set ''0123456789abcdef'') s"

definition installationRefPattern :: "string \<Rightarrow> bool" where
  "installationRefPattern s =
     (case split_on CHR ''-'' s of
        [a, b, c, d, e] \<Rightarrow> map length [a, b, c, d, e] = [8, 4, 4, 4, 12] \<and> list_all lower_hex [a, b, c, d, e]
      | _ \<Rightarrow> False)"

record device_installation =
  di_id :: string
  di_client_id :: string
  di_client_name :: string
  di_installation_ref :: string
  di_created_at :: time
  di_revoked_at :: "time option"

definition view_installation :: "db \<Rightarrow> installation_row \<Rightarrow> device_installation" where
  "view_installation db k = \<lparr>di_id = k_id k, di_client_id = k_client_id k,
     di_client_name = app_name (k_client_id k) db, di_installation_ref = k_installation_ref k,
     di_created_at = k_created_at k, di_revoked_at = k_revoked_at k\<rparr>"

text \<open>
  A bearer token as the JWT library sees it: \<open>None\<close> if it does not parse, is not signed by a
  key of the key set with the header's key id, or fails the issuer and time checks.
\<close>

record access_claims =
  ac_jti :: string
  ac_subject :: string
  ac_audience :: "string list"
  ac_token_use :: string
  ac_client_id :: string

definition DeviceAccessToken ::
  "(string \<Rightarrow> access_claims option) \<Rightarrow> time \<Rightarrow> string \<Rightarrow> db \<Rightarrow> err + token" where
  "DeviceAccessToken verify now raw db =
     (if length raw < 100 \<or> length raw > 16 * 1024 then Inl ErrUnauthorized
      else case verify raw of
        None \<Rightarrow> Inl ErrUnauthorized
      | Some cl \<Rightarrow>
        if ac_jti cl = [] \<or> ac_token_use cl \<noteq> ''access'' then Inl ErrUnauthorized
        else (case ActiveToken now (ac_jti cl) db of
          Inl _ \<Rightarrow> Inl ErrUnauthorized
        | Inr t \<Rightarrow>
          if tk_grant t \<noteq> ''device_code'' \<or> tk_client_id t \<noteq> ac_client_id cl
            \<or> tk_subject t \<noteq> ac_subject cl \<or> length (ac_audience cl) \<noteq> 1
            \<or> ac_audience cl ! 0 \<noteq> tk_client_id t
          then Inl ErrUnauthorized else Inr t))"

definition RegisterDeviceInstallation ::
  "time \<Rightarrow> string \<Rightarrow> string \<Rightarrow> token \<Rightarrow> string \<Rightarrow> db \<Rightarrow> (err + device_installation \<times> string) \<times> db" where
  "RegisterDeviceInstallation now secret new_id t installationRef db =
     (if tk_grant t \<noteq> ''device_code'' \<or> tk_service t \<or> tk_delegated t \<or> tk_session_id t \<noteq> []
        \<or> \<not> installationRefPattern installationRef
      then (Inl ErrForbidden, db)
      else case ActiveToken now (tk_id t) db of
        Inl _ \<Rightarrow> (Inl ErrUnauthorized, db)
      | Inr active \<Rightarrow>
        if tk_client_id active \<noteq> tk_client_id t \<or> tk_subject active \<noteq> tk_subject t
          \<or> tk_grant active \<noteq> ''device_code''
        then (Inl ErrUnauthorized, db)
        else (case Client (tk_client_id t) db of
          Inl _ \<Rightarrow> (Inl ErrForbidden, db)
        | Inr c \<Rightarrow>
          if \<not> cl_public c \<or> GrantTypeDeviceCode \<notin> set (cl_grants c) then (Inl ErrForbidden, db)
          else (case insert_row installation_clash
              \<lparr>k_id = new_id, k_client_id = tk_client_id t, k_subject = tk_subject t,
               k_installation_ref = installationRef, k_device_token_id = tk_id t,
               k_secret_hash = Hash secret, k_created_at = now, k_revoked_at = None\<rparr>
              (device_installations db) of
            None \<Rightarrow> (Inl (classify UniqueViolation), db)
          | Some rows \<Rightarrow>
            (Inr (\<lparr>di_id = new_id, di_client_id = tk_client_id t, di_client_name = cl_name c,
               di_installation_ref = installationRef, di_created_at = now, di_revoked_at = None\<rparr>, secret),
             db\<lparr>device_installations := rows\<rparr>))))"

definition DeviceInstallationBySecret :: "string \<Rightarrow> string \<Rightarrow> db \<Rightarrow> err + device_installation" where
  "DeviceInstallationBySecret kid secret db =
     (if length secret < 32 then Inl ErrUnauthorized
      else case first_row (\<lambda>k. k_id k = kid \<and> k_secret_hash k = Hash secret) (device_installations db) of
        None \<Rightarrow> Inl ErrUnauthorized
      | Some k \<Rightarrow> Inr (view_installation db k))"

definition revokeDeviceInstallation ::
  "time \<Rightarrow> string \<Rightarrow> (installation_row \<Rightarrow> bool) \<Rightarrow> string \<Rightarrow> db \<Rightarrow> (err + unit) \<times> db" where
  "revokeDeviceInstallation now kid condition actor db =
     (case first_row (\<lambda>k. k_id k = kid \<and> condition k) (device_installations db) of
        None \<Rightarrow> (Inl ErrForbidden, db)
      | Some k \<Rightarrow>
        let db1 = revoke_access now (\<lambda>t. t_id t = k_device_token_id k) db in
        if k_revoked_at k \<noteq> None then (Inr (), db1)
        else (Inr (), audit now actor ''device_installation.revoke'' kid
          (db1\<lparr>device_installations := update_rows (\<lambda>k. k_id k = kid)
             (\<lambda>k. k\<lparr>k_revoked_at := Some now\<rparr>) (device_installations db)\<rparr>)))"

definition RevokeDeviceInstallation :: "time \<Rightarrow> string \<Rightarrow> string \<Rightarrow> db \<Rightarrow> (err + unit) \<times> db" where
  "RevokeDeviceInstallation now kid subject db =
     revokeDeviceInstallation now kid (\<lambda>k. k_subject k = subject) subject db"

definition RevokeDeviceInstallationWithSecret ::
  "time \<Rightarrow> string \<Rightarrow> string \<Rightarrow> db \<Rightarrow> (err + unit) \<times> db" where
  "RevokeDeviceInstallationWithSecret now kid secret db =
     (if length secret < 32 then (Inl ErrUnauthorized, db)
      else revokeDeviceInstallation now kid (\<lambda>k. k_secret_hash k = Hash secret) (''device:'' @ kid) db)"

text \<open>
  \<open>DeviceInstallations\<close>: at most 50 rows of the subject, newest first, after the cursor; one row
  more is read to tell whether there is a next page.
\<close>

definition newer :: "installation_row \<Rightarrow> installation_row \<Rightarrow> bool" where
  "newer a b = (k_created_at b < k_created_at a \<or> k_created_at a = k_created_at b \<and> k_id b < k_id a)"

fun insort_newest :: "installation_row \<Rightarrow> installation_row list \<Rightarrow> installation_row list" where
  "insort_newest k [] = [k]"
| "insort_newest k (x # xs) = (if newer x k then x # insort_newest k xs else k # x # xs)"

definition newest_first :: "installation_row list \<Rightarrow> installation_row list" where
  "newest_first t = foldr insort_newest t []"

definition deviceInstallationPageSize :: nat where "deviceInstallationPageSize = 50"

definition installation_page ::
  "string \<Rightarrow> (installation_row \<Rightarrow> bool) \<Rightarrow> db \<Rightarrow> device_installation list \<times> string" where
  "installation_page subject after db =
     (let rows = take (deviceInstallationPageSize + 1)
            (newest_first (filter (\<lambda>k. k_subject k = subject \<and> after k) (device_installations db)));
          items = map (view_installation db) rows
      in if length items > deviceInstallationPageSize
         then (let items = take deviceInstallationPageSize items in (items, di_id (last items)))
         else (items, []))"

definition DeviceInstallations ::
  "string \<Rightarrow> string \<Rightarrow> db \<Rightarrow> err + device_installation list \<times> string" where
  "DeviceInstallations subject before db =
     (if before = [] then Inr (installation_page subject (\<lambda>_. True) db)
      else case first_row (\<lambda>k. k_id k = before \<and> k_subject k = subject) (device_installations db) of
        None \<Rightarrow> Inl ErrForbidden
      | Some cursor \<Rightarrow> Inr (installation_page subject
          (\<lambda>k. k_created_at k < k_created_at cursor
             \<or> k_created_at k = k_created_at cursor \<and> k_id k < before) db))"

section \<open>What the operations keep\<close>

lemmas device_statements [statement_defs] = update_device_def device_open_def revokeDeviceInstallation_def

lemma StoreDeviceAuthorization_schema:
  "schema_ok db \<Longrightarrow> schema_ok (snd (StoreDeviceAuthorization now c dc uc expires scopes db))"
  by (auto simp: StoreDeviceAuthorization_def Let_def clash_defs statement_defs intro!: schema_intros
      split: option.splits sum.splits prod.splits if_splits)

lemma StoreDeviceAuthorization_evolves:
  assumes "schema_ok db" "Hash dc \<notin> D T_devices"
  shows "evolves D db (snd (StoreDeviceAuthorization now c dc uc expires scopes db))"
  using assms
  by (auto simp: StoreDeviceAuthorization_def Let_def row_orders statement_defs intro!: history_intros
      dest!: first_row_Some  dest: row_unique  split: option.splits sum.splits prod.splits if_splits)

lemma GetDeviceAuthorizatonState_schema:
  "schema_ok db \<Longrightarrow> schema_ok (snd (GetDeviceAuthorizatonState now wall c dc db))"
  by (auto simp: GetDeviceAuthorizatonState_def Let_def clash_defs statement_defs intro!: schema_intros
      split: option.splits sum.splits prod.splits if_splits)

lemma GetDeviceAuthorizatonState_evolves: assumes "schema_ok db"  shows "evolves D db (snd (GetDeviceAuthorizatonState now wall c dc db))"
proof -
  have same: "n = m" if "n \<in> set (device_authorizations db)" "m \<in> set (device_authorizations db)" "d_device_code_hash n = d_device_code_hash m" for n m
    using that assms row_unique(12) by blast
  show ?thesis
    by (auto simp: GetDeviceAuthorizatonState_def Let_def row_orders update_device_def intro!: history_intros dest!: first_row_Some dest: same split: option.splits)
qed

lemma ConfirmDevice_schema:
  "schema_ok db \<Longrightarrow> schema_ok (snd (ConfirmDevice now uc subject approve db))"
  by (auto simp: ConfirmDevice_def Let_def clash_defs statement_defs intro!: schema_intros
      split: option.splits sum.splits prod.splits if_splits)

lemma ConfirmDevice_evolves:
  assumes "schema_ok db" 
  shows "evolves D db (snd (ConfirmDevice now uc subject approve db))"
  using assms
  by (auto simp: ConfirmDevice_def Let_def row_orders statement_defs intro!: history_intros
      dest!: first_row_Some  dest: row_unique  split: option.splits sum.splits prod.splits if_splits)

lemma RegisterDeviceInstallation_schema:
  "schema_ok db \<Longrightarrow> schema_ok (snd (RegisterDeviceInstallation now secret new_id t ref db))"
  by (auto simp: RegisterDeviceInstallation_def Let_def clash_defs statement_defs intro!: schema_intros
      split: option.splits sum.splits prod.splits if_splits)

lemma RegisterDeviceInstallation_evolves:
  assumes "schema_ok db" 
  shows "evolves D db (snd (RegisterDeviceInstallation now secret new_id t ref db))"
  using assms
  by (auto simp: RegisterDeviceInstallation_def Let_def row_orders statement_defs intro!: history_intros
      dest!: first_row_Some  dest: row_unique  split: option.splits sum.splits prod.splits if_splits)

lemma RevokeDeviceInstallation_schema:
  "schema_ok db \<Longrightarrow> schema_ok (snd (RevokeDeviceInstallation now kid subject db))"
  by (auto simp: RevokeDeviceInstallation_def Let_def clash_defs statement_defs intro!: schema_intros
      split: option.splits sum.splits prod.splits if_splits)

lemma RevokeDeviceInstallation_evolves:
  assumes "schema_ok db" 
  shows "evolves D db (snd (RevokeDeviceInstallation now kid subject db))"
  using assms
  by (auto simp: RevokeDeviceInstallation_def Let_def row_orders statement_defs intro!: history_intros
      dest!: first_row_Some  dest: row_unique  split: option.splits sum.splits prod.splits if_splits)

lemma RevokeDeviceInstallationWithSecret_schema:
  "schema_ok db \<Longrightarrow> schema_ok (snd (RevokeDeviceInstallationWithSecret now kid secret db))"
  by (auto simp: RevokeDeviceInstallationWithSecret_def Let_def clash_defs statement_defs intro!: schema_intros
      split: option.splits sum.splits prod.splits if_splits)

lemma RevokeDeviceInstallationWithSecret_evolves:
  assumes "schema_ok db" 
  shows "evolves D db (snd (RevokeDeviceInstallationWithSecret now kid secret db))"
  using assms
  by (auto simp: RevokeDeviceInstallationWithSecret_def Let_def row_orders statement_defs intro!: history_intros
      dest!: first_row_Some  dest: row_unique  split: option.splits sum.splits prod.splits if_splits)

lemma StoreDeviceAuthorization_touches: "touches {T_rates, T_devices} db (snd (StoreDeviceAuthorization now c dc uc expires scopes db))"
  by (auto simp: StoreDeviceAuthorization_def Let_def Allow_unfold intro!: history_intros
      split: option.splits sum.splits prod.splits)

lemma GetDeviceAuthorizatonState_touches: "touches {T_devices} db (snd (GetDeviceAuthorizatonState now wall c dc db))"
  by (auto simp: GetDeviceAuthorizatonState_def Let_def update_device_def intro!: history_intros
      split: option.splits sum.splits prod.splits)

lemma ConfirmDevice_touches: "touches {T_devices, T_audit} db (snd (ConfirmDevice now uc subject approve db))"
  by (auto simp: ConfirmDevice_def Let_def  intro!: history_intros
      split: option.splits sum.splits prod.splits)

lemma RegisterDeviceInstallation_touches: "touches {T_installations} db (snd (RegisterDeviceInstallation now secret new_id t ref db))"
  by (auto simp: RegisterDeviceInstallation_def Let_def  intro!: history_intros
      split: option.splits sum.splits prod.splits)

lemma RevokeDeviceInstallation_touches: "touches {T_installations, T_access, T_audit} db (snd (RevokeDeviceInstallation now kid subject db))"
  by (auto simp: RevokeDeviceInstallation_def Let_def revokeDeviceInstallation_def intro!: history_intros
      split: option.splits sum.splits prod.splits)

lemma RevokeDeviceInstallationWithSecret_touches: "touches {T_installations, T_access, T_audit} db (snd (RevokeDeviceInstallationWithSecret now kid secret db))"
  by (auto simp: RevokeDeviceInstallationWithSecret_def Let_def revokeDeviceInstallation_def intro!: history_intros
      split: option.splits sum.splits prod.splits)

section \<open>The state of a device authorization\<close>

definition device_row_ok :: "device_row \<Rightarrow> bool" where
  "device_row_ok d = (5 \<le> d_poll_interval_seconds d \<and> d_poll_interval_seconds d \<le> 30
     \<and> (d_status d = DevicePending \<longrightarrow> d_subject d = None)
     \<and> (d_status d = DeviceApproved \<or> d_status d = DeviceConsumed \<longrightarrow> d_subject d \<noteq> None \<and> d_auth_time d \<noteq> None))"

definition device_inv :: "db \<Rightarrow> bool" where
  "device_inv db = (\<forall>d\<in>set (device_authorizations db). device_row_ok d)"

lemma StoreDeviceAuthorization_device_inv:
  "device_inv db \<Longrightarrow> device_inv (snd (StoreDeviceAuthorization now c dc uc expires scopes db))"
  by (auto simp: StoreDeviceAuthorization_def Allow_unfold Let_def insert_row_Some device_inv_def device_row_ok_def set_delete_rows
      split: option.splits sum.splits)

lemma update_device_inv:
  assumes "schema_ok db" "device_inv db" "d \<in> set (device_authorizations db)" "d_device_code_hash d = Hash dc"
    "device_row_ok (f d)"
  shows "device_inv (update_device dc f db)"
proof -
  have "device_row_ok (if d_device_code_hash e = Hash dc then f e else e)" if "e \<in> set (device_authorizations db)" for e
    using that assms row_unique(12) [OF _ assms(1) that assms(3)] by (auto simp: device_inv_def)
  then show ?thesis by (simp add: device_inv_def update_device_def ball_update_rows)
qed

lemma GetDeviceAuthorizatonState_device_inv:
  assumes "schema_ok db" "device_inv db"
  shows "device_inv (snd (GetDeviceAuthorizatonState now wall c dc db))"
proof -
  have "device_row_ok d" if "d \<in> set (device_authorizations db)" for d using assms(2) that by (simp add: device_inv_def)
  note row = this [unfolded device_row_ok_def]
  show ?thesis using assms(2)
    by (auto simp: GetDeviceAuthorizatonState_def Let_def split: option.splits dest!: first_row_Some
      intro!: update_device_inv [OF assms] simp: device_row_ok_def dest: row)
qed

lemma ConfirmDevice_device_inv: "device_inv db \<Longrightarrow> device_inv (snd (ConfirmDevice now uc subject approve db))"
  by (auto simp: ConfirmDevice_def device_inv_def device_row_ok_def elim!: in_update_rows split: option.splits if_splits)

lemma deny_devices_device_inv: "device_inv db \<Longrightarrow> device_inv (deny_devices subject db)"
  by (auto simp: deny_devices_def device_inv_def device_row_ok_def elim!: in_update_rows)

end
