(* ===== verification/Exchange.thy ===== *)
theory Exchange
  imports Devices
begin

text \<open>
  \<open>internal/core/exchange.go\<close>: token exchange under administrator policies and user consents.
  The token types are those of \<open>zitadel/oidc\<close>.
\<close>

definition AccessTokenType :: string where
  "AccessTokenType = ''urn:ietf:params:oauth:token-type:access_token''"

definition linked :: "string \<Rightarrow> string \<Rightarrow> db \<Rightarrow> bool" where
  "linked c subject db =
     some_row (\<lambda>l. l_client_id l = c \<and> l_subject l = subject \<and> l_state l = Linked) (account_links db)"

text \<open>
  The rows of the join of \<open>exchange_policies\<close> with \<open>exchange_consents\<close> that the request
  counts.
\<close>

definition policy_usable :: "string \<Rightarrow> string \<Rightarrow> string \<Rightarrow> string list \<Rightarrow> db \<Rightarrow> policy_row \<Rightarrow> bool" where
  "policy_usable caller resource subject scopes db p =
     (x_caller p = caller \<and> x_resource p = resource \<and> x_active p
      \<and> some_row (active_app (x_target p)) (applications db)
      \<and> linked (x_caller p) subject db \<and> linked (x_target p) subject db
      \<and> x_scope p \<in> set scopes)"

definition consent_for :: "string \<Rightarrow> policy_row \<Rightarrow> consent_row \<Rightarrow> bool" where
  "consent_for subject p c = (y_caller c = x_caller p \<and> y_target c = x_target p
     \<and> y_resource c = x_resource p \<and> y_scope c = x_scope p \<and> y_subject c = subject
     \<and> y_revoked_at c = None)"

definition allowed_count :: "string \<Rightarrow> string \<Rightarrow> string \<Rightarrow> string list \<Rightarrow> db \<Rightarrow> nat" where
  "allowed_count caller resource subject scopes db =
     sum_list (map (\<lambda>p. count_rows (consent_for subject p) (exchange_consents db))
       (filter (policy_usable caller resource subject scopes db) (exchange_policies db)))"

definition scope_refused :: "client \<Rightarrow> token \<Rightarrow> string \<Rightarrow> bool" where
  "scope_refused caller source s = (s = [] \<or> contains_any s blanks \<or> s = ScopeOpenID
     \<or> s = ScopeOfflineAccess \<or> s \<notin> set (cl_scopes caller) \<or> s \<notin> set (tk_scopes source))"

definition ValidateTokenExchangeRequest :: "time \<Rightarrow> exchange_request \<Rightarrow> db \<Rightarrow> err + exchange_request" where
  "ValidateTokenExchangeRequest now r db =
     (if xr_subject_token_type r \<noteq> AccessTokenType \<or> xr_actor_token r \<noteq> []
        \<or> length (xr_resources r) \<noteq> 1 \<or> length (xr_audience r) \<noteq> 1
        \<or> xr_audience r ! 0 \<noteq> xr_resources r ! 0 \<or> length (xr_scopes r) = 0
        \<or> xr_requested_type r \<noteq> [] \<and> xr_requested_type r \<noteq> AccessTokenType
      then Inl OidcInvalidRequest
      else let r = r\<lparr>xr_requested_type := AccessTokenType\<rparr> in
      case Client (xr_client_id r) db of
        Inl _ \<Rightarrow> Inl OidcUnauthorizedClient
      | Inr caller \<Rightarrow>
        if cl_public caller \<or> GrantTypeTokenExchange \<notin> set (cl_grants caller)
          \<or> xr_resources r ! 0 \<notin> set (cl_resources caller)
        then Inl OidcUnauthorizedClient
        else (case ActiveToken now (xr_subject_token r) db of
          Inl _ \<Rightarrow> Inl OidcInvalidGrant
        | Inr source \<Rightarrow>
          if tk_subject source \<noteq> xr_exchange_subject r \<or> tk_subject source \<noteq> xr_subject r
            \<or> tk_client_id source \<noteq> cl_id caller \<or> tk_service source \<or> tk_delegated source
          then Inl OidcInvalidGrant
          else if list_ex (scope_refused caller source) (xr_scopes r) then Inl OidcInvalidScope
          else if allowed_count (cl_id caller) (xr_resources r ! 0) (tk_subject source) (xr_scopes r) db
              \<noteq> length (xr_scopes r)
          then Inl OidcAccessDenied
          else Inr r))"

definition CreateTokenExchangeRequest :: "time \<Rightarrow> exchange_request \<Rightarrow> db \<Rightarrow> db" where
  "CreateTokenExchangeRequest now r db =
     audit now (xr_subject r) ''token.exchange'' (xr_client_id r @ '':'' @ xr_resources r ! 0) db"

definition GetPrivateClaimsFromTokenExchangeRequest ::
  "time \<Rightarrow> exchange_request \<Rightarrow> db \<Rightarrow> err + private_claims" where
  "GetPrivateClaimsFromTokenExchangeRequest now r db =
     (case ActiveToken now (xr_subject_token r) db of
        Inl _ \<Rightarrow> Inl ErrForbidden
      | Inr source \<Rightarrow>
        if tk_client_id source \<noteq> xr_client_id r \<or> tk_subject source \<noteq> xr_subject r then Inl ErrForbidden
        else Inr \<lparr>pc_token_use = ''access'', pc_client_id = xr_client_id r, pc_scope = xr_scopes r,
          pc_sid = tk_session_id source, pc_service = False, pc_act = Some (xr_client_id r),
          pc_delegated = True\<rparr>)"

section \<open>Policies and consents\<close>

definition policy_target :: "string \<Rightarrow> string \<Rightarrow> string \<Rightarrow> string \<Rightarrow> string" where
  "policy_target caller target resource scope =
     caller @ '':'' @ target @ '':'' @ resource @ '':'' @ scope"

definition policy_at :: "string \<Rightarrow> string \<Rightarrow> string \<Rightarrow> string \<Rightarrow> policy_row \<Rightarrow> bool" where
  "policy_at caller target resource scope p =
     (x_caller p = caller \<and> x_target p = target \<and> x_resource p = resource \<and> x_scope p = scope)"

definition policy_clients_ok :: "string \<Rightarrow> string \<Rightarrow> string \<Rightarrow> string \<Rightarrow> db \<Rightarrow> bool" where
  "policy_clients_ok caller target resource scope db =
     (case Client caller db of
        Inl _ \<Rightarrow> False
      | Inr c \<Rightarrow> \<not> cl_public c \<and> GrantTypeTokenExchange \<in> set (cl_grants c)
          \<and> resource \<in> set (cl_resources c) \<and> scope \<in> set (cl_scopes c)
          \<and> (case Client target db of Inl _ \<Rightarrow> False | Inr t \<Rightarrow> scope \<in> set (cl_scopes t)))"

text \<open>
  The UPSERT on the primary key; a new row may violate \<open>UNIQUE(caller, resource, scope)\<close>, or
  the foreign keys on the two clients.
\<close>

definition upsert_policy ::
  "string \<Rightarrow> string \<Rightarrow> string \<Rightarrow> string \<Rightarrow> bool \<Rightarrow> db \<Rightarrow> err + policy_row list" where
  "upsert_policy caller target resource scope active db =
     (if some_row (policy_at caller target resource scope) (exchange_policies db)
      then Inr (update_rows (policy_at caller target resource scope) (\<lambda>p. p\<lparr>x_active := active\<rparr>)
        (exchange_policies db))
      else case insert_row policy_clash
          \<lparr>x_caller = caller, x_target = target, x_resource = resource, x_scope = scope, x_active = active\<rparr>
          (exchange_policies db) of
        None \<Rightarrow> Inl UniqueViolation
      | Some t \<Rightarrow>
        if \<not> some_row (\<lambda>a. a_id a = caller) (applications db)
          \<or> \<not> some_row (\<lambda>a. a_id a = target) (applications db)
        then Inl ForeignKeyViolation else Inr t)"

definition SetExchangePolicy ::
  "time \<Rightarrow> string \<Rightarrow> string \<Rightarrow> string \<Rightarrow> string \<Rightarrow> string \<Rightarrow> bool \<Rightarrow> db \<Rightarrow> (err + unit) \<times> db" where
  "SetExchangePolicy now actor caller target resource scope active db =
     (if caller = [] \<or> target = [] \<or> caller = target \<or> resource = [] \<or> scope = []
        \<or> contains_any scope blanks
      then (Inl ErrForbidden, db)
      else if active \<and> \<not> policy_clients_ok caller target resource scope db then (Inl ErrForbidden, db)
      else case upsert_policy caller target resource scope active db of
        Inl e \<Rightarrow> (Inl e, db)
      | Inr t \<Rightarrow>
        let db1 = db\<lparr>exchange_policies := t\<rparr>;
            db2 = (if active then db1
              else revoke_access now (\<lambda>a. t_client_id a = caller \<and> tk_delegated (t_payload a)
                \<and> resource \<in> set (tk_audience (t_payload a))) db1)
        in (Inr (), audit now actor ''exchange.policy'' (policy_target caller target resource scope) db2))"

definition consent_at ::
  "string \<Rightarrow> string \<Rightarrow> string \<Rightarrow> string \<Rightarrow> string \<Rightarrow> consent_row \<Rightarrow> bool" where
  "consent_at subject caller target resource scope c = (y_subject c = subject \<and> y_caller c = caller
     \<and> y_target c = target \<and> y_resource c = resource \<and> y_scope c = scope)"

definition upsert_consent ::
  "time \<Rightarrow> string \<Rightarrow> string \<Rightarrow> string \<Rightarrow> string \<Rightarrow> string \<Rightarrow> consent_row list \<Rightarrow> consent_row list" where
  "upsert_consent now subject caller target resource scope t =
     (if some_row (consent_at subject caller target resource scope) t
      then update_rows (consent_at subject caller target resource scope)
        (\<lambda>c. c\<lparr>y_revoked_at := None, y_granted_at := now\<rparr>) t
      else t @ [\<lparr>y_subject = subject, y_caller = caller, y_target = target, y_resource = resource,
        y_scope = scope, y_granted_at = now, y_revoked_at = None\<rparr>])"

definition SetExchangeConsent ::
  "time \<Rightarrow> string \<Rightarrow> string \<Rightarrow> string \<Rightarrow> string \<Rightarrow> string \<Rightarrow> bool \<Rightarrow> db \<Rightarrow> (err + unit) \<times> db" where
  "SetExchangeConsent now subject caller target resource scope active db =
     (let valid = some_row (\<lambda>p. policy_at caller target resource scope p \<and> x_active p) (exchange_policies db)
            \<and> linked caller subject db \<and> linked target subject db
      in if active \<and> \<not> valid then (Inl ErrForbidden, db)
      else let db1 = (if active
          then db\<lparr>exchange_consents :=
            upsert_consent now subject caller target resource scope (exchange_consents db)\<rparr>
          else revoke_access now (\<lambda>a. t_subject a = subject \<and> t_client_id a = caller
              \<and> tk_delegated (t_payload a) \<and> resource \<in> set (tk_audience (t_payload a)))
            (db\<lparr>exchange_consents := update_rows (consent_at subject caller target resource scope)
              (\<lambda>c. c\<lparr>y_revoked_at := Some now\<rparr>) (exchange_consents db)\<rparr>))
      in (Inr (), audit now subject ''exchange.consent'' (policy_target caller target resource scope) db1))"

section \<open>Listings\<close>

record exchange_option =
  eo_caller :: string
  eo_target :: string
  eo_resource :: string
  eo_scope :: string
  eo_active :: bool
  eo_consented :: bool

definition policy_key :: "policy_row \<Rightarrow> string list" where
  "policy_key p = [x_caller p, x_target p, x_resource p, x_scope p]"

definition option_of :: "policy_row \<Rightarrow> bool \<Rightarrow> exchange_option" where
  "option_of p consented = \<lparr>eo_caller = x_caller p, eo_target = x_target p, eo_resource = x_resource p,
     eo_scope = x_scope p, eo_active = x_active p, eo_consented = consented\<rparr>"

definition ExchangePolicies :: "db \<Rightarrow> exchange_option list" where
  "ExchangePolicies db =
     map (\<lambda>p. option_of p False) (take 500 (sort_key policy_key (exchange_policies db)))"

definition ExchangeOptionsFor :: "string \<Rightarrow> db \<Rightarrow> exchange_option list" where
  "ExchangeOptionsFor subject db =
     map (\<lambda>p. option_of p (some_row (consent_for subject p) (exchange_consents db)))
       (take 500 (sort_key policy_key
         (filter (\<lambda>p. x_active p \<and> linked (x_caller p) subject db \<and> linked (x_target p) subject db)
           (exchange_policies db))))"

section \<open>What the operations keep\<close>

lemmas exchange_statements [statement_defs] = consent_at_def policy_at_def upsert_policy_def
  upsert_consent_def linked_def

lemma SetExchangePolicy_schema:
  "schema_ok db \<Longrightarrow> schema_ok (snd (SetExchangePolicy now actor caller target resource scope active db))"
  by (auto simp: SetExchangePolicy_def Let_def clash_defs statement_defs intro!: schema_intros
      split: option.splits sum.splits prod.splits if_splits)

lemma SetExchangePolicy_evolves:
  assumes "schema_ok db" 
  shows "evolves D db (snd (SetExchangePolicy now actor caller target resource scope active db))"
  using assms
  by (auto simp: SetExchangePolicy_def Let_def row_orders statement_defs intro!: history_intros
      dest!: first_row_Some  dest: row_unique  split: option.splits sum.splits prod.splits if_splits)

lemma SetExchangeConsent_schema:
  "schema_ok db \<Longrightarrow> schema_ok (snd (SetExchangeConsent now subject caller target resource scope active db))"
  by (auto simp: SetExchangeConsent_def Let_def clash_defs statement_defs intro!: schema_intros
      split: option.splits sum.splits prod.splits if_splits)

lemma SetExchangeConsent_evolves:
  assumes "schema_ok db" 
  shows "evolves D db (snd (SetExchangeConsent now subject caller target resource scope active db))"
  using assms
  by (auto simp: SetExchangeConsent_def Let_def row_orders statement_defs intro!: history_intros
      dest!: first_row_Some  dest: row_unique  split: option.splits sum.splits prod.splits if_splits)

lemma SetExchangePolicy_touches: "touches {T_policies, T_access, T_audit} db (snd (SetExchangePolicy now actor caller target resource scope active db))"
  by (auto simp: SetExchangePolicy_def Let_def  intro!: history_intros
      split: option.splits sum.splits prod.splits)

lemma SetExchangeConsent_touches: "touches {T_consents, T_access, T_audit} db (snd (SetExchangeConsent now subject caller target resource scope active db))"
  by (auto simp: SetExchangeConsent_def Let_def  intro!: history_intros
      split: option.splits sum.splits prod.splits)

end
