(* ===== verification/Outbox.thy ===== *)
theory Outbox
  imports Exchange Net_Library
begin

text \<open>
  \<open>internal/core/events.go\<close>, \<open>outbox_admin.go\<close> and \<open>outbox_telemetry.go\<close>: claiming a durable
  event under a lease, one delivery, the fenced completion with its back-off, the manual retry
  of a dead event, and the figures for alerts. \<open>sign\<close> is the JWT library's signing of the
  claims, \<open>post\<close> the HTTP exchange: the status code, or \<open>None\<close> on a transport error.
\<close>

section \<open>Claiming\<close>

definition claimable :: "time \<Rightarrow> outbox_row \<Rightarrow> bool" where
  "claimable now r = (o_delivered_at r = None \<and> o_dead_at r = None \<and> o_available_at r \<le> now
     \<and> (o_lease_until r = None \<or> earlier_than (o_lease_until r) now))"

definition due_before :: "outbox_row \<Rightarrow> outbox_row \<Rightarrow> bool" where
  "due_before a b = (o_available_at a < o_available_at b
     \<or> o_available_at a = o_available_at b \<and> o_id a < o_id b)"

fun earliest :: "outbox_row list \<Rightarrow> outbox_row option" where
  "earliest [] = None"
| "earliest (r # rs) =
     (case earliest rs of None \<Rightarrow> Some r | Some s \<Rightarrow> if due_before s r then Some s else Some r)"

definition lease_row :: "time \<Rightarrow> string \<Rightarrow> outbox_row \<Rightarrow> outbox_row" where
  "lease_row now lease r = r\<lparr>o_lease_token := Some lease, o_lease_until := Some (now + seconds 30),
     o_attempts := o_attempts r + 1\<rparr>"

definition claim_event :: "time \<Rightarrow> string \<Rightarrow> db \<Rightarrow> outbox_row option \<times> db" where
  "claim_event now lease db =
     (case earliest (filter (claimable now) (outbox db)) of
        None \<Rightarrow> (None, db)
      | Some e \<Rightarrow> (Some (lease_row now lease e),
          db\<lparr>outbox := update_rows (\<lambda>r. o_id r = o_id e) (lease_row now lease) (outbox db)\<rparr>))"

section \<open>Delivering\<close>

record event_claims =
  ev_type :: string
  ev_issuer :: string
  ev_audience :: string
  ev_jti :: string
  ev_issued_at :: time
  ev_expires_at :: time
  ev_subject :: string
  ev_sid :: string
  ev_event :: "payload option"
  ev_events :: "string list"

definition event_endpoint :: "client \<Rightarrow> delivery_kind \<Rightarrow> string" where
  "event_endpoint c kind = (case kind of LogoutKind \<Rightarrow> cl_backchannel_url c | EventKind \<Rightarrow> cl_events_url c)"

text \<open>\<open>None\<close> is the error of a logout notice without a subject.\<close>

definition event_token :: "string \<Rightarrow> time \<Rightarrow> outbox_row \<Rightarrow> event_claims option" where
  "event_token issuer wall e =
     (let base = \<lparr>ev_type = (if o_kind e = LogoutKind then ''logout+jwt'' else ''fastcas-event+jwt''),
            ev_issuer = issuer, ev_audience = o_client_id e, ev_jti = o_id e, ev_issued_at = wall,
            ev_expires_at = wall + minutes 5, ev_subject = [], ev_sid = [], ev_event = None,
            ev_events = (if o_kind e = LogoutKind
              then [''http://schemas.openid.net/event/backchannel-logout''] else [])\<rparr>
      in case o_kind e of
        EventKind \<Rightarrow> Some (base\<lparr>ev_event := Some (o_payload e)\<rparr>)
      | LogoutKind \<Rightarrow> (case o_payload e of
            LogoutOf subject sid \<Rightarrow>
              if subject = [] then None else Some (base\<lparr>ev_subject := subject, ev_sid := sid\<rparr>)
          | StatusChanged subject _ _ \<Rightarrow>
              if subject = [] then None else Some (base\<lparr>ev_subject := subject\<rparr>)
          | LinkRevoked _ \<Rightarrow> None))"

text \<open>The body that is posted: the token, or a form with it.\<close>

definition delivery_body :: "delivery_kind \<Rightarrow> string \<Rightarrow> string" where
  "delivery_body kind raw = (case kind of LogoutKind \<Rightarrow> ''logout_token='' @ query_escape raw | EventKind \<Rightarrow> raw)"

definition attempt_delivery ::
  "(event_claims \<Rightarrow> string option) \<Rightarrow> (string \<Rightarrow> string \<Rightarrow> string \<Rightarrow> int option)
    \<Rightarrow> string \<Rightarrow> time \<Rightarrow> outbox_row \<Rightarrow> db \<Rightarrow> int \<times> outcome" where
  "attempt_delivery sign post issuer wall e db =
     (case Client (o_client_id e) db of
        Inl _ \<Rightarrow> (0, ConfigurationError)
      | Inr c \<Rightarrow>
        if event_endpoint c (o_kind e) = [] then (0, ConfigurationError)
        else (case Option.bind (event_token issuer wall e) sign of
          None \<Rightarrow> (0, SigningError)
        | Some token \<Rightarrow>
          (case post (event_endpoint c (o_kind e))
              (if o_kind e = LogoutKind then ''application/x-www-form-urlencoded'' else ''application/jwt'')
              (delivery_body (o_kind e) token) of
            None \<Rightarrow> (0, TransportError)
          | Some status \<Rightarrow> (status, if 200 \<le> status \<and> status < 300 then Delivered else HttpError))))"

section \<open>Completing\<close>

definition retry_delay :: "int \<Rightarrow> time" where
  "retry_delay attempts = seconds (2 ^ nat (min attempts 12))"

definition complete_row :: "time \<Rightarrow> int \<Rightarrow> int \<Rightarrow> outbox_row \<Rightarrow> outbox_row" where
  "complete_row now status attempts r = (let ok = (200 \<le> status \<and> status < 300) in
     r\<lparr>o_lease_until := None, o_lease_token := None, o_last_status := Some status,
       o_delivered_at := (if ok then Some now else None),
       o_dead_at := (if \<not> ok \<and> o_attempts r \<ge> 12 then Some now else None),
       o_available_at := now + retry_delay attempts\<rparr>)"

definition complete_event ::
  "time \<Rightarrow> string \<Rightarrow> string \<Rightarrow> int \<Rightarrow> int \<Rightarrow> outcome \<Rightarrow> int \<Rightarrow> db \<Rightarrow> db" where
  "complete_event now eid lease status attempts outcome elapsed db =
     (let mine = (\<lambda>r. o_id r = eid \<and> o_lease_token r = Some lease) in
      if \<not> some_row mine (outbox db) then db
      else db\<lparr>outbox := update_rows mine (complete_row now status attempts) (outbox db),
        outbox_attempts := outbox_attempts db @ [\<lparr>p_event_id = eid, p_attempt = attempts,
          p_outcome = outcome, p_http_status = (if status \<noteq> 0 then Some status else None),
          p_duration_ms = max 0 elapsed, p_finished_at = now\<rparr>]\<rparr>)"

text \<open>The worker's step when nothing runs between its claim and its completion.\<close>

definition DeliverEvent ::
  "(event_claims \<Rightarrow> string option) \<Rightarrow> (string \<Rightarrow> string \<Rightarrow> string \<Rightarrow> int option) \<Rightarrow> string
    \<Rightarrow> time \<Rightarrow> time \<Rightarrow> time \<Rightarrow> int \<Rightarrow> string \<Rightarrow> db \<Rightarrow> bool \<times> db" where
  "DeliverEvent sign post issuer now wall finish elapsed lease db =
     (case claim_event now lease db of
        (None, db) \<Rightarrow> (False, db)
      | (Some e, db) \<Rightarrow> (case attempt_delivery sign post issuer wall e db of
          (status, outcome) \<Rightarrow>
            (True, complete_event finish (o_id e) lease status (o_attempts e) outcome elapsed db)))"

section \<open>Administration\<close>

definition retryable :: "time \<Rightarrow> string \<Rightarrow> outbox_row \<Rightarrow> bool" where
  "retryable now eid r = (o_id r = eid \<and> o_dead_at r \<noteq> None \<and> o_delivered_at r = None
     \<and> (o_lease_until r = None \<or> earlier_than (o_lease_until r) now))"

definition RetryDeadEvent :: "time \<Rightarrow> string \<Rightarrow> string \<Rightarrow> db \<Rightarrow> (err + unit) \<times> db" where
  "RetryDeadEvent now actor eid db =
     (if count_rows (retryable now eid) (outbox db) \<noteq> 1 then (Inl ErrConflict, db)
      else (Inr (), audit now actor ''outbox.retry'' eid
        (db\<lparr>outbox := update_rows (retryable now eid)
           (\<lambda>r. r\<lparr>o_dead_at := None, o_attempts := 0, o_last_status := None, o_available_at := now,
              o_lease_until := None, o_lease_token := None\<rparr>) (outbox db)\<rparr>)))"

text \<open>\<open>OutboxAttempts\<close>: ids are serial, so the newest attempts are the last rows.\<close>

definition OutboxAttempts :: "string \<Rightarrow> db \<Rightarrow> attempt_row list" where
  "OutboxAttempts eid db = take 100 (rev (filter (\<lambda>p. p_event_id p = eid) (outbox_attempts db)))"

text \<open>What an administrator sees of an event: neither its payload nor its lease.\<close>

record outbox_status =
  ou_id :: string
  ou_client_id :: string
  ou_kind :: delivery_kind
  ou_attempts :: int
  ou_last_status :: "int option"
  ou_created_at :: time
  ou_available_at :: time
  ou_dead_at :: "time option"
  ou_delivered_at :: "time option"

definition view_status :: "outbox_row \<Rightarrow> outbox_status" where
  "view_status r = \<lparr>ou_id = o_id r, ou_client_id = o_client_id r, ou_kind = o_kind r, ou_attempts = o_attempts r,
     ou_last_status = o_last_status r, ou_created_at = o_created_at r, ou_available_at = o_available_at r,
     ou_dead_at = o_dead_at r, ou_delivered_at = o_delivered_at r\<rparr>"

definition OutboxStatuses :: "string \<Rightarrow> bool \<Rightarrow> db \<Rightarrow> outbox_status list" where
  "OutboxStatuses before deadOnly db = map view_status (take 100 (rev (sort_key o_id
     (filter (\<lambda>r. (before = [] \<or> o_id r < before) \<and> (\<not> deadOnly \<or> o_dead_at r \<noteq> None)) (outbox db)))))"

section \<open>Telemetry\<close>

text \<open>
  Ages in microseconds. The 95th percentile interpolates between two neighbours of the sorted
  latencies; it is kept in twentieths of a microsecond, so that it is an integer.
\<close>

record telemetry =
  tm_pending :: nat
  tm_due :: nat
  tm_dead :: nat
  tm_oldest_pending_age :: int
  tm_oldest_due_age :: int
  tm_recent_delivered :: nat
  tm_p95_twentieths :: int

definition pending :: "outbox_row \<Rightarrow> bool" where
  "pending r = (o_delivered_at r = None \<and> o_dead_at r = None)"

fun max_age :: "int list \<Rightarrow> int option" where
  "max_age [] = None"
| "max_age (x # xs) = (case max_age xs of None \<Rightarrow> Some x | Some y \<Rightarrow> Some (max x y))"

definition percentile95 :: "int list \<Rightarrow> int" where
  "percentile95 xs =
     (if xs = [] then 0
      else let s = sort xs; n = length s - 1; k = 19 * n div 20; r = 19 * n mod 20;
               lo = s ! k; hi = s ! min (k + 1) n
           in 20 * lo + int r * (hi - lo))"

definition recent_latencies :: "time \<Rightarrow> time \<Rightarrow> outbox_row list \<Rightarrow> int list" where
  "recent_latencies now window t =
     concat (map (\<lambda>r. case o_delivered_at r of None \<Rightarrow> []
       | Some d \<Rightarrow> if d \<ge> now - window then [d - o_created_at r] else []) t)"

definition OutboxTelemetry :: "time \<Rightarrow> time \<Rightarrow> db \<Rightarrow> telemetry" where
  "OutboxTelemetry now window db =
     (let t = outbox db;
          due = (\<lambda>r. pending r \<and> o_available_at r \<le> now);
          latencies = recent_latencies now window t
      in \<lparr>tm_pending = count_rows pending t, tm_due = count_rows due t,
          tm_dead = count_rows (\<lambda>r. o_dead_at r \<noteq> None \<and> o_delivered_at r = None) t,
          tm_oldest_pending_age = coalesce (max_age (map (\<lambda>r. now - o_created_at r) (filter pending t))) 0,
          tm_oldest_due_age = coalesce (max_age (map (\<lambda>r. now - o_available_at r) (filter due t))) 0,
          tm_recent_delivered = length latencies,
          tm_p95_twentieths = percentile95 latencies\<rparr>)"

text \<open>
  The thresholds of \<open>fastcas check-outbox\<close> (\<open>cmd/fastcas/main.go\<close>): \<open>None\<close> refuses the
  arguments, \<open>Some b\<close> tells whether the report exceeds them.
\<close>

definition check_outbox :: "time \<Rightarrow> time \<Rightarrow> int \<Rightarrow> time \<Rightarrow> time \<Rightarrow> db \<Rightarrow> bool option" where
  "check_outbox maxPendingAge maxP95Delivery maxDead window now db =
     (if maxPendingAge \<le> 0 \<or> maxP95Delivery \<le> 0 \<or> maxDead < 0 \<or> window \<le> 0 then None
      else let report = OutboxTelemetry now window db in
        Some (int (tm_dead report) > maxDead \<or> tm_oldest_pending_age report > maxPendingAge
          \<or> tm_p95_twentieths report > 20 * maxP95Delivery))"

section \<open>What the operations keep\<close>

text \<open>
  A delivered event is not dead, a settled event holds no lease, and a lease has both its token
  and its deadline.
\<close>

definition outbox_row_ok :: "outbox_row \<Rightarrow> bool" where
  "outbox_row_ok r \<longleftrightarrow> (o_delivered_at r \<noteq> None \<longrightarrow> o_dead_at r = None)
     \<and> (o_delivered_at r \<noteq> None \<or> o_dead_at r \<noteq> None \<longrightarrow> o_lease_token r = None)
     \<and> (o_lease_until r = None \<longleftrightarrow> o_lease_token r = None)"

definition outbox_ok :: "db \<Rightarrow> bool" where
  "outbox_ok db = (\<forall>r\<in>set (outbox db). outbox_row_ok r)"

lemma earliest_in: "earliest t = Some r \<Longrightarrow> r \<in> set t"
  by (induction t arbitrary: r) (auto split: option.splits if_splits)

lemma claim_event_schema: "schema_ok db \<Longrightarrow> schema_ok (snd (claim_event now lease db))"
  by (auto simp: claim_event_def lease_row_def clash_defs split: option.splits if_splits intro!: schema_intros)

lemma claim_event_evolves:
  assumes "schema_ok db" shows "evolves D db (snd (claim_event now lease db))"
proof -
  have same: "n = m" if "n \<in> set (outbox db)" "m \<in> set (outbox db)" "o_id n = o_id m" for n m
    using that assms row_unique(11) by blast
  show ?thesis
    by (auto simp: claim_event_def lease_row_def row_orders claimable_def split: option.splits intro!: history_intros dest!: earliest_in dest: same)
qed

lemma complete_event_schema: "schema_ok db \<Longrightarrow> schema_ok (complete_event now eid lease status attempts oc elapsed db)"
  by (auto simp: complete_event_def complete_row_def Let_def clash_defs split: if_splits intro!: schema_intros)

lemma complete_event_evolves: "outbox_ok db \<Longrightarrow> evolves D db (complete_event now eid lease status attempts oc elapsed db)"
  by (auto simp: complete_event_def complete_row_def Let_def row_orders outbox_ok_def outbox_row_ok_def  intro!: history_intros)

lemmas outbox_statements [statement_defs] = retryable_def

lemma RetryDeadEvent_schema:
  "schema_ok db \<Longrightarrow> schema_ok (snd (RetryDeadEvent now actor eid db))"
  by (auto simp: RetryDeadEvent_def Let_def clash_defs statement_defs intro!: schema_intros
      split: option.splits sum.splits prod.splits if_splits)

lemma RetryDeadEvent_evolves:
  assumes "schema_ok db" 
  shows "evolves D db (snd (RetryDeadEvent now actor eid db))"
  using assms
  by (auto simp: RetryDeadEvent_def Let_def row_orders statement_defs intro!: history_intros
      dest!: first_row_Some  dest: row_unique  split: option.splits sum.splits prod.splits if_splits)

lemma RetryDeadEvent_touches: "touches {T_outbox, T_audit} db (snd (RetryDeadEvent now actor eid db))"
  by (auto simp: RetryDeadEvent_def Let_def  intro!: history_intros
      split: option.splits sum.splits prod.splits)

lemma claim_event_touches: "touches {T_outbox} db (snd (claim_event now lease db))"
  by (auto simp: claim_event_def Let_def  intro!: history_intros
      split: option.splits sum.splits prod.splits)

lemma complete_event_touches:
  "touches {T_outbox, T_attempts} db (complete_event now eid lease status attempts oc elapsed db)"
  by (auto simp: complete_event_def Let_def intro!: history_intros)

section \<open>The delivery state of an event\<close>

lemma outbox_ok_queued: "outbox_ok a \<Longrightarrow> queued a b \<Longrightarrow> outbox_ok b"
  by (auto simp: outbox_ok_def outbox_row_ok_def queued_def list_all_iff fresh_event_def)

lemma claim_event_outbox_ok:
  assumes "schema_ok db" "outbox_ok db"
  shows "outbox_ok (snd (claim_event now lease db))"
proof -
  have "outbox_row_ok (lease_row now lease r)" if "claimable now e" "e \<in> set (outbox db)" "r \<in> set (outbox db)"
    "o_id r = o_id e" for e r
    using that row_unique(11) [OF that(4) assms(1) that(3,2)]
    by (simp add: outbox_row_ok_def lease_row_def claimable_def)
  then show ?thesis using assms(2)
    by (auto simp: claim_event_def outbox_ok_def split: option.splits dest!: earliest_in elim!: in_update_rows)
qed

lemma complete_event_outbox_ok: "outbox_ok db \<Longrightarrow> outbox_ok (complete_event now eid lease status attempts oc elapsed db)"
  by (auto simp: complete_event_def outbox_ok_def outbox_row_ok_def complete_row_def Let_def elim!: in_update_rows)

lemma RetryDeadEvent_outbox_ok: "outbox_ok db \<Longrightarrow> outbox_ok (snd (RetryDeadEvent now actor eid db))"
  by (auto simp: RetryDeadEvent_def outbox_ok_def outbox_row_ok_def retryable_def elim!: in_update_rows)

end
