(* ===== verification/Lifecycle.thy ===== *)
theory Lifecycle
  imports Outbox
begin

text \<open>
  The operations over the whole database: \<open>maintenance.go\<close>, \<open>recovery.go\<close>, and the service
  accounts of \<open>service_accounts.go\<close>, whose deactivation revokes across tables.
\<close>

section \<open>Maintenance\<close>

definition intent_abandoned :: "time \<Rightarrow> intent_row \<Rightarrow> bool" where
  "intent_abandoned now n =
     ((n_state n = Pending \<or> n_state n = Confirmed \<or> n_state n = Prepared) \<and> n_expires_at n < now)"

definition release_links :: "time \<Rightarrow> db \<Rightarrow> db" where
  "release_links now db = db\<lparr>account_links :=
     update_rows (\<lambda>l. l_state l = Prepared
         \<and> some_row (\<lambda>n. n_id n = l_id l \<and> n_expires_at n < now) (link_intents db))
       (\<lambda>l. revoke_row now (l_version l + 1) l) (account_links db)\<rparr>"

definition release_intents :: "time \<Rightarrow> db \<Rightarrow> db" where
  "release_intents now db = db\<lparr>link_intents :=
     update_rows (intent_abandoned now) (\<lambda>n. n\<lparr>n_state := Revoked\<rparr>) (link_intents db)\<rparr>"

text \<open>\<open>ORDER BY delivered_at, id LIMIT 1000\<close>; \<open>sort_key\<close> is stable.\<close>

definition expired_deliveries :: "time \<Rightarrow> outbox_row list \<Rightarrow> string list" where
  "expired_deliveries now t = map o_id (take 1000
     (sort_key (\<lambda>r. coalesce (o_delivered_at r) 0) (sort_key o_id
       (filter (\<lambda>r. earlier_than (o_delivered_at r) (now - days 90)) t))))"

definition Maintenance :: "time \<Rightarrow> db \<Rightarrow> db" where
  "Maintenance now db =
     (let db1 = release_intents now (release_links now db);
          gone = expired_deliveries now (outbox db1)
      in db1\<lparr>auth_requests := delete_rows (\<lambda>r. r_expires_at r < now - days 1) (auth_requests db1),
          access_tokens := delete_rows (\<lambda>t. t_expires_at t < now - days 1) (access_tokens db1),
          rate_limits := delete_rows (\<lambda>q. q_expires_at q < now - days 1) (rate_limits db1),
          identities := update_rows (\<lambda>i. earlier_than (i_pending_mfa_expires i) now)
            (\<lambda>i. i\<lparr>i_pending_mfa_secret := None, i_pending_mfa_expires := None\<rparr>) (identities db1),
          outbox := delete_rows (\<lambda>r. o_id r \<in> set gone) (outbox db1),
          outbox_attempts := delete_rows (\<lambda>p. p_event_id p \<in> set gone) (outbox_attempts db1)\<rparr>)"

section \<open>Fencing a restored snapshot\<close>

text \<open>
  The statements of \<open>FenceRestoredState\<close> in their order. \<open>ids1\<close> and \<open>ids2\<close> are the random ids
  of the logout notices and of the revocation events.
\<close>

definition kill_deliveries :: "time \<Rightarrow> db \<Rightarrow> db" where
  "kill_deliveries now db = db\<lparr>outbox := update_rows pending
     (\<lambda>r. r\<lparr>o_dead_at := Some now, o_lease_until := None, o_lease_token := None\<rparr>) (outbox db)\<rparr>"

definition fence_notices :: "time \<Rightarrow> (nat \<Rightarrow> string) \<Rightarrow> db \<Rightarrow> outbox_row list" where
  "fence_notices now ids db =
     map (\<lambda>(i, c, subject). outbox_event now i c (LogoutOf subject []) LogoutKind)
       (numbered ids (filter (\<lambda>(c, subject). some_row (active_app c) (applications db))
         (remdups (map (\<lambda>l. (l_client_id l, l_subject l)) (account_links db)))))"

definition fence_stamps :: "time \<Rightarrow> db \<Rightarrow> db" where
  "fence_stamps now db =
     (let db1 = consume_requests now (\<lambda>r. r_consumed_at r = None)
            (db\<lparr>device_installations := installation_stamp.stamp_where now (\<lambda>k. k_revoked_at k = None)
                (device_installations db)\<rparr>);
          db2 = revoke_access now (\<lambda>t. t_revoked_at t = None)
            (revoke_families now (\<lambda>f. f_revoked_at f = None)
              (revoke_sessions now (\<lambda>s. s_revoked_at s = None) db1))
      in db2\<lparr>device_authorizations := update_rows
           (\<lambda>d. d_status d = DevicePending \<or> d_status d = DeviceApproved)
           (\<lambda>d. d\<lparr>d_status := DeviceDenied\<rparr>) (device_authorizations db2),
         exchange_consents := consent_stamp.stamp_where now (\<lambda>y. y_revoked_at y = None)
           (exchange_consents db2),
         one_time_credentials := credential_stamp.stamp_where now (\<lambda>c. c_consumed_at c = None)
           (one_time_credentials db2)\<rparr>)"

definition fence_link_event :: "link_row \<Rightarrow> account_link" where
  "fence_link_event l = (view_link l)\<lparr>ln_state := Revoked,
     ln_version := (if l_state l = Revoked then l_version l else l_version l + 1)\<rparr>"

definition fence_events :: "time \<Rightarrow> (nat \<Rightarrow> string) \<Rightarrow> db \<Rightarrow> outbox_row list" where
  "fence_events now ids db =
     map (\<lambda>(i, l). outbox_event now i (l_client_id l) (LinkRevoked (fence_link_event l)) EventKind)
       (numbered ids (filter (\<lambda>l. some_row (active_app (l_client_id l)) (applications db))
         (account_links db)))"

definition fence_links :: "time \<Rightarrow> db \<Rightarrow> db" where
  "fence_links now db = db\<lparr>
     account_links := update_rows (\<lambda>l. l_state l \<noteq> Revoked)
       (\<lambda>l. revoke_row now (l_version l + 1) l) (account_links db),
     link_intents := update_rows (\<lambda>n. n_state n \<noteq> Revoked)
       (\<lambda>n. n\<lparr>n_state := Revoked\<rparr>) (link_intents db)\<rparr>"

definition FenceRestoredState ::
  "time \<Rightarrow> (nat \<Rightarrow> string) \<Rightarrow> (nat \<Rightarrow> string) \<Rightarrow> db \<Rightarrow> (err + unit) \<times> db" where
  "FenceRestoredState now ids1 ids2 db =
     (let db1 = kill_deliveries now db in
      case insert_rows outbox_clash (fence_notices now ids1 db1) (outbox db1) of
        None \<Rightarrow> (Inl UniqueViolation, db)
      | Some t \<Rightarrow>
        let db2 = fence_stamps now (db1\<lparr>outbox := t\<rparr>) in
        (case insert_rows outbox_clash (fence_events now ids2 db2) (outbox db2) of
          None \<Rightarrow> (Inl UniqueViolation, db)
        | Some t \<Rightarrow> (Inr (), audit now ''system'' ''recovery.fence'' ''all''
            (fence_links now (db2\<lparr>outbox := t\<rparr>)))))"

section \<open>Service accounts\<close>

record service_account =
  sa_client :: client
  sa_active :: bool
  sa_created_at :: time

definition ServiceAccounts :: "string \<Rightarrow> db \<Rightarrow> service_account list" where
  "ServiceAccounts after db =
     map (\<lambda>a. \<lparr>sa_client = a_config a, sa_active = a_active a, sa_created_at = a_created_at a\<rparr>)
       (take 100 (sort_key a_id (filter (\<lambda>a. after < a_id a
          \<and> cl_grants (a_config a) = [GrantTypeClientCredentials]) (applications db))))"

definition service_client_of :: "string \<Rightarrow> string \<Rightarrow> string list \<Rightarrow> string list \<Rightarrow> bool \<Rightarrow> client" where
  "service_client_of c name scopes resources development =
     \<lparr>cl_id = c, cl_name = name, cl_redirects = [], cl_logout_redirects = [], cl_scopes = scopes,
      cl_resources = resources, cl_grants = [GrantTypeClientCredentials], cl_public = False,
      cl_development = development, cl_backchannel_url = [], cl_events_url = []\<rparr>"

definition CreateServiceAccountAs ::
  "url_parser \<Rightarrow> bool \<Rightarrow> time \<Rightarrow> string \<Rightarrow> string \<Rightarrow> string \<Rightarrow> string \<Rightarrow> string list \<Rightarrow> string list
    \<Rightarrow> bool \<Rightarrow> db \<Rightarrow> (err + string) \<times> db" where
  "CreateServiceAccountAs parse dev now secret actor c name scopes resources development db =
     (case RegisterClientAs parse dev now actor (service_client_of c name scopes resources development)
          secret db of
        (Inl e, db) \<Rightarrow> (Inl e, db)
      | (Inr _, db) \<Rightarrow> (Inr secret, db))"

definition SetServiceAccountActiveAs ::
  "time \<Rightarrow> string \<Rightarrow> string \<Rightarrow> string \<Rightarrow> bool \<Rightarrow> db \<Rightarrow> (err + string) \<times> db" where
  "SetServiceAccountActiveAs now secret actor c active db =
     (case first_row (\<lambda>a. a_id a = c) (applications db) of
        None \<Rightarrow> (Inl (classify NoRows), db)
      | Some a \<Rightarrow>
        if \<not> serviceClient (a_config a) then (Inl ErrForbidden, db)
        else if a_active a = active then (Inr [], db)
        else let db1 = db\<lparr>applications := update_rows (\<lambda>a. a_id a = c)
                 (\<lambda>a. a\<lparr>a_active := active, a_secret_hash := Hash secret,
                    a_previous_secret_hash := None, a_previous_secret_expires_at := None\<rparr>)
                 (applications db)\<rparr>;
               db2 = (if active then db1
                 else revoke_families now (\<lambda>f. f_client_id f = c \<and> f_revoked_at f = None)
                   (revoke_access now (\<lambda>t. t_client_id t = c \<and> t_revoked_at t = None) db1))
        in (Inr (if active then secret else []),
            audit now actor (if active then ''service_account.enable'' else ''service_account.disable'')
              c db2))"

definition RotateServiceAccountSecretAs ::
  "time \<Rightarrow> string \<Rightarrow> string \<Rightarrow> string \<Rightarrow> time \<Rightarrow> db \<Rightarrow> (err + string) \<times> db" where
  "RotateServiceAccountSecretAs now secret actor c grace db =
     (case first_row (active_app c) (applications db) of
        None \<Rightarrow> (Inl (classify NoRows), db)
      | Some a \<Rightarrow>
        if \<not> serviceClient (a_config a) then (Inl ErrForbidden, db)
        else RotateClientSecretAs now secret actor c grace db)"

section \<open>What the operations keep\<close>

lemma Maintenance_schema: "schema_ok db \<Longrightarrow> schema_ok (Maintenance now db)"
  by (auto simp: Maintenance_def release_links_def release_intents_def revoke_row_def Let_def clash_defs split: if_splits intro!: schema_intros)

lemma Maintenance_evolves: "evolves D db (Maintenance now db)"
  by (auto simp: Maintenance_def release_links_def release_intents_def revoke_row_def Let_def row_orders intent_abandoned_def intro!: history_intros)

lemma kill_deliveries_kept:
  shows kill_deliveries_schema: "schema_ok db \<Longrightarrow> schema_ok (kill_deliveries now db)"
    and kill_deliveries_evolves: "evolves D db (kill_deliveries now db)"
  by (auto simp: kill_deliveries_def clash_defs row_orders pending_def split: if_splits intro!: schema_intros history_intros)

lemma fence_stamps_schema: "schema_ok db \<Longrightarrow> schema_ok (fence_stamps now db)"
  by (auto simp: fence_stamps_def Let_def clash_defs stamp_rows_def split: if_splits intro!: schema_intros)

lemma fence_stamps_evolves: "evolves D db (fence_stamps now db)"
proof -
  have "evolves D db (db\<lparr>device_installations := installation_stamp.stamp_where now P (device_installations db)\<rparr>)" for P
    by (auto simp: stamp_rows_def row_orders intro!: history_intros)
  then show ?thesis
   by (auto simp: fence_stamps_def Let_def row_orders stamp_rows_def intro!: history_intros)
qed

lemma fence_links_kept:
  shows fence_links_schema: "schema_ok db \<Longrightarrow> schema_ok (fence_links now db)"
    and fence_links_evolves: "evolves D db (fence_links now db)"
  by (auto simp: fence_links_def clash_defs row_orders revoke_row_def split: if_splits intro!: schema_intros history_intros)

lemma appended_kept:
  assumes "insert_rows outbox_clash rs (outbox b) = Some t"
  shows appended_schema: "schema_ok b \<Longrightarrow> schema_ok (b\<lparr>outbox := t\<rparr>)"
    and appended_evolves: "\<forall>r\<in>set rs. o_id r \<notin> D T_outbox \<Longrightarrow> evolves D b (b\<lparr>outbox := t\<rparr>)"
  using assms by (auto simp: insert_rows_Some intro!: schema_intros history_intros)

lemma FenceRestoredState_schema: "schema_ok db \<Longrightarrow> schema_ok (snd (FenceRestoredState now ids1 ids2 db))"
  by (auto simp: FenceRestoredState_def Let_def split: option.splits
      intro!: schema_ok_audit fence_links_schema fence_stamps_schema kill_deliveries_schema elim!: appended_schema)

lemma FenceRestoredState_evolves:
  assumes "\<forall>n. ids1 n \<notin> D T_outbox" "\<forall>n. ids2 n \<notin> D T_outbox"
  shows "evolves D db (snd (FenceRestoredState now ids1 ids2 db))"
proof -
  have news: "r \<in> set (fence_notices now ids1 b) \<Longrightarrow> o_id r \<notin> D T_outbox"
    "r \<in> set (fence_events now ids2 b) \<Longrightarrow> o_id r \<notin> D T_outbox" for r b
    using assms by (auto simp: fence_notices_def fence_events_def outbox_event_def numbered_def)
  note trans = evolves_trans [OF _ _ order_refl, rotated]
  show ?thesis
    by (auto simp: FenceRestoredState_def Let_def split: option.splits
      intro!: evolves_refl evolves_audit trans [OF fence_links_evolves] trans [OF fence_stamps_evolves]
        trans [OF kill_deliveries_evolves] trans [OF appended_evolves] dest: news)
qed

lemma CreateServiceAccountAs_db:
  "snd (CreateServiceAccountAs parse dev now secret actor c name scopes resources development db)
   = snd (RegisterClientAs parse dev now actor (service_client_of c name scopes resources development) secret db)"
  by (auto simp: CreateServiceAccountAs_def split: prod.splits sum.splits)

lemma RotateServiceAccountSecretAs_db:
  "snd (RotateServiceAccountSecretAs now secret actor c grace db) = db
   \<or> snd (RotateServiceAccountSecretAs now secret actor c grace db) = snd (RotateClientSecretAs now secret actor c grace db)"
  by (auto simp: RotateServiceAccountSecretAs_def split: option.splits)

lemma SetServiceAccountActiveAs_schema:
  "schema_ok db \<Longrightarrow> schema_ok (snd (SetServiceAccountActiveAs now secret actor c active db))"
  by (auto simp: SetServiceAccountActiveAs_def Let_def clash_defs statement_defs intro!: schema_intros
      split: option.splits sum.splits prod.splits if_splits)

lemma SetServiceAccountActiveAs_evolves:
  assumes "schema_ok db" 
  shows "evolves D db (snd (SetServiceAccountActiveAs now secret actor c active db))"
  using assms
  by (auto simp: SetServiceAccountActiveAs_def Let_def row_orders statement_defs intro!: history_intros
      dest!: first_row_Some  dest: row_unique  split: option.splits sum.splits prod.splits if_splits)

lemma Maintenance_touches:
  "touches {T_links, T_intents, T_requests, T_access, T_rates, T_identities, T_outbox, T_attempts} db (Maintenance now db)"
  by (auto simp: Maintenance_def release_links_def release_intents_def Let_def intro!: history_intros)

lemma FenceRestoredState_touches:
  "touches {T_outbox, T_sessions, T_families, T_access, T_installations, T_requests, T_devices, T_consents,
     T_credentials, T_links, T_intents, T_audit} db (snd (FenceRestoredState now ids1 ids2 db))"
  by (auto simp: FenceRestoredState_def kill_deliveries_def fence_stamps_def fence_links_def Let_def
      split: option.splits intro!: history_intros)

lemma SetServiceAccountActiveAs_touches: "touches {T_applications, T_families, T_access, T_audit} db (snd (SetServiceAccountActiveAs now secret actor c active db))"
  by (auto simp: SetServiceAccountActiveAs_def Let_def  intro!: history_intros
      split: option.splits sum.splits prod.splits)

section \<open>The binding of intents and links\<close>

lemma Maintenance_link_inv:
  assumes "schema_ok db" "link_inv db"
  shows "link_inv (Maintenance now db)"
proof -
  let ?I = "update_rows (intent_abandoned now) (\<lambda>n. n\<lparr>n_state := Revoked\<rparr>) (link_intents db)"
  let ?old = "\<lambda>l. l_state l = Prepared \<and> some_row (\<lambda>n. n_id n = l_id l \<and> n_expires_at n < now) (link_intents db)"
  let ?L = "update_rows ?old (\<lambda>l. revoke_row now (l_version l + 1) l) (account_links db)"
  have uniq: "n = m" if "n \<in> set (link_intents db)" "m \<in> set (link_intents db)" "n_id n = n_id m" for n m
    using that assms(1) row_unique(8) by blast
  have "link_fits ?I k" if k: "k \<in> set ?L" for k
  proof -
    obtain l where l: "l \<in> set (account_links db)" "k = (if ?old l then revoke_row now (l_version l + 1) l else l)"
      using k by (rule in_update_rows)
    then obtain n where n: "n \<in> set (link_intents db)" "n_id n = l_id l" "n_client_id n = l_client_id l"
        "n_local_ref n = l_local_ref l" "n_subject n = Some (l_subject l)" "n_state n = l_state l"
        "l_version l \<in> link_version (l_state l)"
      using assms(2) by (auto simp: link_inv_def link_fits_def)
    have "?old l \<longleftrightarrow> intent_abandoned now n"
      using n(1,2,6,7) by (auto simp: intent_abandoned_def some_row_iff dest: uniq [OF _ n(1)])
    then show ?thesis using l n
      by (auto simp: link_fits_def update_quantifiers revoke_row_def intent_abandoned_def intro!: bexI [of _ n])
  qed
  moreover have "intent_fits ?L m" if m: "m \<in> set ?I" for m
    using m assms(2)
    by (elim in_update_rows) (auto simp: link_inv_def intent_fits_def update_quantifiers intent_abandoned_def revoke_row_def)
  ultimately show ?thesis
    by (simp add: link_inv_def Maintenance_def Let_def release_links_def release_intents_def)
qed

lemma fence_links_link_inv:
  assumes "link_inv db"
  shows "link_inv (fence_links now db)"
  unfolding link_inv_def
proof (intro conjI ballI)
  fix k assume "k \<in> set (account_links (fence_links now db))"
  then obtain l where l: "l \<in> set (account_links db)"
      "k = (if l_state l \<noteq> Revoked then revoke_row now (l_version l + 1) l else l)"
    by (auto simp: fence_links_def elim: in_update_rows)
  then obtain n where n: "n \<in> set (link_intents db)" "n_id n = l_id l" "n_client_id n = l_client_id l"
      "n_local_ref n = l_local_ref l" "n_subject n = Some (l_subject l)" "n_state n = l_state l"
      "l_version l \<in> link_version (l_state l)"
    using assms by (auto simp: link_inv_def link_fits_def)
  then show "link_fits (link_intents (fence_links now db)) k" using l
    by (cases "l_state l")
      (auto simp: link_fits_def fence_links_def update_quantifiers revoke_row_def intro!: bexI [of _ n])
next
  fix m assume "m \<in> set (link_intents (fence_links now db))"
  then show "intent_fits (account_links (fence_links now db)) m" using assms
    by (auto simp: fence_links_def link_inv_def intent_fits_def elim!: in_update_rows)
qed



lemma FenceRestoredState_link_inv:
  "link_inv db \<Longrightarrow> link_inv (snd (FenceRestoredState now ids1 ids2 db))"
proof -
  assume "link_inv db"
  then have "link_inv ((fence_stamps now ((kill_deliveries now db)\<lparr>outbox := t\<rparr>))\<lparr>outbox := t'\<rparr>)" for t t'
    by (simp add: link_inv_def fence_stamps_def kill_deliveries_def Let_def)
  then show ?thesis using \<open>link_inv db\<close>
    by (auto simp: FenceRestoredState_def Let_def split: option.splits intro!: fence_links_link_inv)
qed

section \<open>The delivery state of an event\<close>

lemma Maintenance_outbox_ok: "outbox_ok db \<Longrightarrow> outbox_ok (Maintenance now db)"
  by (auto simp: Maintenance_def Let_def outbox_ok_def table_simps release_links_def release_intents_def)

lemma fence_frame [simp]: "outbox (fence_stamps now b) = outbox b" "outbox (fence_links now b) = outbox b"
  by (simp_all add: fence_stamps_def fence_links_def Let_def)

lemma kill_deliveries_outbox_ok:
  assumes "outbox_ok db"
  shows "outbox_ok (kill_deliveries now db)"
proof -
  have "outbox_row_ok (if pending r then r\<lparr>o_dead_at := Some now, o_lease_until := None, o_lease_token := None\<rparr> else r)"
    if "r \<in> set (outbox db)" for r
    using assms that by (auto simp: outbox_ok_def outbox_row_ok_def pending_def)
  then show ?thesis by (auto simp: kill_deliveries_def outbox_ok_def ball_update_rows)
qed

lemma FenceRestoredState_outbox_ok:
  assumes "outbox_ok db"
  shows "outbox_ok (snd (FenceRestoredState now ids1 ids2 db))"
proof -
  have fresh: "list_all fresh_event (fence_notices now ids1 b @ fence_events now ids2 c)" for b c
    by (auto simp: fence_notices_def fence_events_def list_all_iff)
  have "snd (FenceRestoredState now ids1 ids2 db) = db
    \<or> queued (kill_deliveries now db) (snd (FenceRestoredState now ids1 ids2 db))"
    by (auto simp: FenceRestoredState_def Let_def insert_rows_Some split: option.splits intro: queued_append [OF _ fresh])
  then show ?thesis using outbox_ok_queued [OF kill_deliveries_outbox_ok [OF assms]] assms by metis
qed

section \<open>Administrators\<close>

lemma Maintenance_standing: "same_standing db (Maintenance now db)"
  by (auto simp: Maintenance_def Let_def release_links_def release_intents_def)

end
