(* ===== verification/System.thy ===== *)
theory System
  imports Lifecycle
begin

text \<open>
  The service as a transition system: every operation of \<open>internal/core\<close> that writes is one step on
  the database, in any order and with any arguments, clocks and answers of the libraries. Each
  operation runs in one transaction, so a run is an interleaving of whole operations; the delivery
  worker's claim and completion are separate steps, as other transactions run between them.

  \<open>operation X db db'\<close> is one step that draws the keys \<open>X t\<close> for new rows of the table \<open>t\<close>;
  \<open>reach D db\<close> says that \<open>db\<close> is reached from the empty database when no drawn key repeats, \<open>D\<close>
  being the keys drawn on the way. Only tables from which rows are deleted need their keys
  tracked, as the primary keys of the others forbid a repetition.
\<close>

section \<open>Steps\<close>

type_synonym drawn = "table \<Rightarrow> string set"

definition none :: drawn where "none = (\<lambda>_. {})"

definition draws :: "table \<Rightarrow> string set \<Rightarrow> drawn" where "draws t S = none(t := S)"

inductive operation :: "drawn \<Rightarrow> db \<Rightarrow> db \<Rightarrow> bool" where
  create_identity: "operation none db (snd (CreateIdentity parse kdf salt new_id email name password role db))"
| allow: "operation none db (snd (Allow now key limit window db))"
| authenticate: "operation none db (snd (Authenticate kdf now email password peer db))"
| new_session: "operation none db (snd (NewSession now token csrf new_id subject db))"
| renew_session: "operation none db (renew_session now sid db)"
| register_client: "operation none db (snd (RegisterClientAs parse_url dev now actor c secret db))"
| update_callbacks: "operation none db (snd (UpdateClientCallbacksAs parse_url now actor cid ev bc db))"
| update_capabilities: "operation none db (snd (UpdateClientCapabilitiesAs now actor cid grants scopes resources db))"
| rotate_secret: "operation none db (snd (RotateClientSecretAs now secret actor cid grace db))"
| create_service: "operation none db (snd (CreateServiceAccountAs parse_url dev now secret actor cid name scopes resources development db))"
| set_service: "operation none db (snd (SetServiceAccountActiveAs now secret actor cid active db))"
| rotate_service: "operation none db (snd (RotateServiceAccountSecretAs now secret actor cid grace db))"
| access_token: "operation (draws T_access {new_id}) db (snd (CreateAccessToken now wall new_id r db))"
| token_pair: "operation (draws T_access {new_id}) db (snd (CreateAccessAndRefreshTokens now wall new_id fam raw r current db))"
| refresh_request: "operation none db (snd (TokenRequestByRefreshToken now raw db))"
| revoke_token: "operation none db (RevokeToken now raw cid db)"
| terminate_session: "operation none db (TerminateSession now subject cid db)"
| auth_request: "operation (draws T_requests {new_id}) db (snd (CreateAuthRequest now wall new_id rq db))"
| complete_authorization: "operation none db (snd (CompleteAuthorization now rid session db))"
| save_code: "operation none db (snd (SaveAuthCode now rid code db))"
| use_code: "operation none db (snd (AuthRequestByCode now code db))"
| delete_request: "operation none db (DeleteAuthRequest now rid db)"
| create_intent: "operation none db (snd (CreateLinkIntent wall new_id nonce cid localRef key db))"
| prepare_link: "operation none db (snd (PrepareLink now wall cid lid nonce subject db))"
| activate_link: "operation none db (snd (ActivateLink now wall cid lid db))"
| revoke_link: "operation (draws T_outbox {new_id}) db (snd (RevokeLink now new_id cid lid expected db))"
| logout_all: "operation (draws T_outbox (range ids)) db (snd (LogoutAll now ids subject db))"
| logout_session: "operation (draws T_outbox (range ids)) db (snd (LogoutSession now ids subject sid db))"
| begin_mfa: "operation none db (snd (BeginMFA seal now new_key subject db))"
| confirm_mfa: "operation (draws T_recovery (Hash ` set codes)) db (snd (ConfirmMFA unseal totp now wall codes subject sid code db))"
| rotate_codes: "operation (draws T_recovery (Hash ` set codes)) db (snd (RotateMFARecoveryCodes now codes subject sid db))"
| verify_mfa: "operation none db (snd (VerifyMFA unseal totp now wall subject code db))"
| mark_mfa: "operation none db (snd (MarkMFA now subject sid db))"
| issue_credential: "operation none db (snd (IssueCredential parse now raw actor kind email db))"
| redeem_mfa_reset: "operation (draws T_outbox (range ids)) db (snd (RedeemMFAReset kdf now ids raw password peer db))"
| change_password: "operation (draws T_outbox (range ids)) db (snd (ChangePassword kdf unseal totp now wall salt ids subject sid current new_password code peer db))"
| redeem_credential: "operation (draws T_outbox (range ids)) db (snd (RedeemCredential kdf now salt new_id ids kind raw name password db))"
| set_status: "operation (draws T_outbox (range ids \<union> range ids')) db (snd (SetIdentityStatus now ids ids' actor subject status db))"
| store_device: "operation (draws T_devices {Hash dc}) db (snd (StoreDeviceAuthorization now cid dc uc expires scopes db))"
| poll_device: "operation none db (snd (GetDeviceAuthorizatonState now wall cid dc db))"
| confirm_device: "operation none db (snd (ConfirmDevice now uc subject approve db))"
| register_installation: "operation none db (snd (RegisterDeviceInstallation now secret new_id t ref db))"
| revoke_installation: "operation none db (snd (RevokeDeviceInstallation now kid subject db))"
| revoke_installation_secret: "operation none db (snd (RevokeDeviceInstallationWithSecret now kid secret db))"
| exchange_request: "operation none db (CreateTokenExchangeRequest now xr db)"
| set_policy: "operation none db (snd (SetExchangePolicy now actor caller target resource scope active db))"
| set_consent: "operation none db (snd (SetExchangeConsent now subject caller target resource scope active db))"
| claim: "operation none db (snd (claim_event now lease db))"
| complete: "operation none db (complete_event now eid lease status attempts oc elapsed db)"
| retry_event: "operation none db (snd (RetryDeadEvent now actor eid db))"
| maintain: "operation none db (Maintenance now db)"
| fence: "operation (draws T_outbox (range ids \<union> range ids')) db (snd (FenceRestoredState now ids ids' db))"

text \<open>A step from the drawn keys and the database; runs and the reachable databases.\<close>

inductive step :: "drawn \<Rightarrow> db \<Rightarrow> drawn \<Rightarrow> db \<Rightarrow> bool" where
  "operation X db db' \<Longrightarrow> (\<And>t. X t \<inter> D t = {}) \<Longrightarrow> step D db (\<lambda>t. D t \<union> X t) db'"

inductive run :: "drawn \<Rightarrow> db \<Rightarrow> drawn \<Rightarrow> db \<Rightarrow> bool" where
  stop: "run D db D db"
| further: "run D db D' db' \<Longrightarrow> step D' db' D'' db'' \<Longrightarrow> run D db D'' db''"

definition reach :: "drawn \<Rightarrow> db \<Rightarrow> bool" where
  "reach D db = run none empty_db D db"

inductive_cases stepE: "step D db D' db'"

section \<open>What every operation keeps\<close>

lemma none_simps [simp]: "none t = {}" "draws t S t' = (if t' = t then S else {})"
  by (simp_all add: none_def draws_def)

lemma service_account_kept:
  assumes "schema_ok db"
  shows CreateServiceAccountAs_schema: "schema_ok (snd (CreateServiceAccountAs parse dev now secret actor c name scopes resources development db))"
    and CreateServiceAccountAs_evolves: "evolves D db (snd (CreateServiceAccountAs parse dev now secret actor c name scopes resources development db))"
    and RotateServiceAccountSecretAs_schema: "schema_ok (snd (RotateServiceAccountSecretAs now secret actor c grace db))"
    and RotateServiceAccountSecretAs_evolves: "evolves D db (snd (RotateServiceAccountSecretAs now secret actor c grace db))"
  unfolding CreateServiceAccountAs_db
  using RegisterClientAs_schema [OF assms] RegisterClientAs_evolves [OF assms]
    RotateServiceAccountSecretAs_db [of now secret actor c grace db] RotateClientSecretAs_schema [OF assms]
    RotateClientSecretAs_evolves [OF assms] assms
  by (metis evolves_refl)+

lemma service_account_touches:
  shows CreateServiceAccountAs_touches: "touches {T_applications, T_audit} db (snd (CreateServiceAccountAs parse dev now secret actor c name scopes resources development db))"
    and RotateServiceAccountSecretAs_touches: "touches {T_applications, T_audit} db (snd (RotateServiceAccountSecretAs now secret actor c grace db))"
  unfolding CreateServiceAccountAs_db
  using RegisterClientAs_touches RotateServiceAccountSecretAs_db [of now secret actor c grace db]
    RotateClientSecretAs_touches by (metis touches_refl)+

lemma CreateTokenExchangeRequest_kept:
  shows CreateTokenExchangeRequest_schema: "schema_ok db \<Longrightarrow> schema_ok (CreateTokenExchangeRequest now r db)"
    and CreateTokenExchangeRequest_evolves: "evolves D db (CreateTokenExchangeRequest now r db)"
    and CreateTokenExchangeRequest_touches: "touches {T_audit} db (CreateTokenExchangeRequest now r db)"
  by (auto simp: CreateTokenExchangeRequest_def intro!: schema_intros history_intros)

lemmas operation_schema = CreateIdentity_schema Allow_schema Authenticate_schema NewSession_schema
  renew_session_schema RegisterClientAs_schema UpdateClientCallbacksAs_schema UpdateClientCapabilitiesAs_schema
  RotateClientSecretAs_schema CreateServiceAccountAs_schema SetServiceAccountActiveAs_schema
  RotateServiceAccountSecretAs_schema CreateAccessToken_schema CreateAccessAndRefreshTokens_schema
  TokenRequestByRefreshToken_schema RevokeToken_kept(1) TerminateSession_kept(1)
  CreateAuthRequest_schema CompleteAuthorization_schema SaveAuthCode_schema
  AuthRequestByCode_schema DeleteAuthRequest_kept(1) CreateLinkIntent_schema PrepareLink_schema
  ActivateLink_schema RevokeLink_schema LogoutAll_schema LogoutSession_schema BeginMFA_schema
  ConfirmMFA_schema RotateMFARecoveryCodes_schema VerifyMFA_schema MarkMFA_schema
  IssueCredential_schema RedeemMFAReset_schema ChangePassword_schema RedeemCredential_schema
  SetIdentityStatus_schema StoreDeviceAuthorization_schema GetDeviceAuthorizatonState_schema
  ConfirmDevice_schema RegisterDeviceInstallation_schema RevokeDeviceInstallation_schema
  RevokeDeviceInstallationWithSecret_schema CreateTokenExchangeRequest_schema
  SetExchangePolicy_schema SetExchangeConsent_schema claim_event_schema complete_event_schema
  RetryDeadEvent_schema Maintenance_schema FenceRestoredState_schema

lemmas operation_evolves = CreateIdentity_evolves Allow_evolves Authenticate_evolves
  NewSession_evolves renew_session_evolves RegisterClientAs_evolves UpdateClientCallbacksAs_evolves
  UpdateClientCapabilitiesAs_evolves RotateClientSecretAs_evolves CreateServiceAccountAs_evolves
  SetServiceAccountActiveAs_evolves RotateServiceAccountSecretAs_evolves CreateAccessToken_evolves
  CreateAccessAndRefreshTokens_evolves TokenRequestByRefreshToken_evolves RevokeToken_kept(2)
  TerminateSession_kept(2) CreateAuthRequest_evolves CompleteAuthorization_evolves
  SaveAuthCode_evolves AuthRequestByCode_evolves DeleteAuthRequest_kept(2)
  CreateLinkIntent_evolves PrepareLink_evolves ActivateLink_evolves RevokeLink_evolves
  LogoutAll_evolves LogoutSession_evolves BeginMFA_evolves ConfirmMFA_evolves
  RotateMFARecoveryCodes_evolves VerifyMFA_evolves MarkMFA_evolves IssueCredential_evolves
  RedeemMFAReset_evolves ChangePassword_evolves RedeemCredential_evolves SetIdentityStatus_evolves
  StoreDeviceAuthorization_evolves GetDeviceAuthorizatonState_evolves ConfirmDevice_evolves
  RegisterDeviceInstallation_evolves RevokeDeviceInstallation_evolves
  RevokeDeviceInstallationWithSecret_evolves CreateTokenExchangeRequest_evolves
  SetExchangePolicy_evolves SetExchangeConsent_evolves claim_event_evolves complete_event_evolves
  RetryDeadEvent_evolves Maintenance_evolves FenceRestoredState_evolves

lemmas operation_touches = CreateIdentity_touches Allow_touches Authenticate_touches
  NewSession_touches renew_session_touches RegisterClientAs_touches UpdateClientCallbacksAs_touches
  UpdateClientCapabilitiesAs_touches RotateClientSecretAs_touches CreateServiceAccountAs_touches
  SetServiceAccountActiveAs_touches RotateServiceAccountSecretAs_touches CreateAccessToken_touches
  CreateAccessAndRefreshTokens_touches TokenRequestByRefreshToken_touches RevokeToken_touches
  TerminateSession_touches CreateAuthRequest_touches CompleteAuthorization_touches
  SaveAuthCode_touches AuthRequestByCode_touches DeleteAuthRequest_touches
  CreateLinkIntent_touches PrepareLink_touches ActivateLink_touches RevokeLink_touches
  LogoutAll_touches LogoutSession_touches BeginMFA_touches ConfirmMFA_touches
  RotateMFARecoveryCodes_touches VerifyMFA_touches MarkMFA_touches IssueCredential_touches
  RedeemMFAReset_touches ChangePassword_touches RedeemCredential_touches SetIdentityStatus_touches
  StoreDeviceAuthorization_touches GetDeviceAuthorizatonState_touches ConfirmDevice_touches
  RegisterDeviceInstallation_touches RevokeDeviceInstallation_touches
  RevokeDeviceInstallationWithSecret_touches CreateTokenExchangeRequest_touches
  SetExchangePolicy_touches SetExchangeConsent_touches claim_event_touches complete_event_touches
  RetryDeadEvent_touches Maintenance_touches FenceRestoredState_touches

lemma operation_keeps_schema:
  assumes "operation X db db'" "schema_ok db"
  shows "schema_ok db'"
  using assms(1) by (cases rule: operation.cases) (simp_all add: operation_schema assms(2))

lemma operation_evolves_drawn:
  assumes "operation X db db'" "schema_ok db" "outbox_ok db"
  shows "evolves (\<lambda>t. - X t) db db'"
  using assms(1) by (cases rule: operation.cases) (auto intro!: operation_evolves assms(2,3))


section \<open>The invariants\<close>

text \<open>The touched tables of an operation decide which invariants it can change.\<close>

lemma link_inv_untouched:
  "touches T db db' \<Longrightarrow> T_intents \<notin> T \<Longrightarrow> T_links \<notin> T \<Longrightarrow> link_inv db' = link_inv db"
  by (rule link_inv_cong) (simp_all add: untouched)

lemma outbox_ok_untouched: "touches T db db' \<Longrightarrow> T_outbox \<notin> T \<Longrightarrow> outbox_ok db' = outbox_ok db"
  by (simp add: outbox_ok_def untouched)

lemma credential_inv_untouched:
  "touches T db db' \<Longrightarrow> T_credentials \<notin> T \<Longrightarrow> credential_inv db' = credential_inv db"
  by (simp add: credential_inv_def untouched)

lemma device_inv_untouched: "touches T db db' \<Longrightarrow> T_devices \<notin> T \<Longrightarrow> device_inv db' = device_inv db"
  by (simp add: device_inv_def untouched)

lemmas links_untouched = operation_touches [THEN link_inv_untouched]
lemmas outbox_untouched = operation_touches [THEN outbox_ok_untouched]
lemmas credentials_untouched = operation_touches [THEN credential_inv_untouched]
lemmas devices_untouched = operation_touches [THEN device_inv_untouched]
lemmas refresh_untouched = operation_touches [THEN untouched(6)]

lemma operation_link_inv:
  assumes "operation X db db'" "schema_ok db" "link_inv db"
  shows "link_inv db'"
  using assms(1) by (cases rule: operation.cases) (simp_all add: links_untouched assms(2,3)
    CreateLinkIntent_link_inv CompleteAuthorization_link_inv PrepareLink_link_inv ActivateLink_link_inv
    RevokeLink_link_inv Maintenance_link_inv FenceRestoredState_link_inv)

lemmas queued_outbox = RevokeLink_queued LogoutAll_queued LogoutSession_queued RedeemMFAReset_queued
  ChangePassword_queued RedeemCredential_queued SetIdentityStatus_queued

lemma operation_outbox_ok:
  assumes "operation X db db'" "schema_ok db" "outbox_ok db"
  shows "outbox_ok db'"
  using assms(1) by (cases rule: operation.cases) (simp_all add: outbox_untouched assms(2,3)
    queued_outbox [THEN outbox_ok_queued [rotated]] claim_event_outbox_ok complete_event_outbox_ok
    RetryDeadEvent_outbox_ok Maintenance_outbox_ok FenceRestoredState_outbox_ok)

lemma operation_token_inv:
  assumes "operation X db db'" "schema_ok db" "outbox_ok db" "token_inv (D T_access) db"
    "X T_access \<inter> D T_access = {}"
  shows "token_inv (D T_access \<union> X T_access) db'"
proof (cases "X T_access = {}")
  case True
  then have "descends access_le t_id UNIV (access_tokens db) (access_tokens db')"
    using operation_evolves_drawn [OF assms(1-3)] by (simp add: evolves_def)
  with assms(4) True show ?thesis by (simp add: token_inv_kept)
next
  case False
  with assms(1) show ?thesis
    using assms(2,4,5) by (cases rule: operation.cases) (simp_all add: CreateAccessToken_token_inv
      CreateAccessAndRefreshTokens_token_inv)
qed

lemma operation_refresh_inv:
  assumes "operation X db db'" "schema_ok db" "outbox_ok db" "refresh_inv db"
  shows "refresh_inv db'"
proof (cases "refresh_tokens db' = refresh_tokens db")
  case True
  then show ?thesis
    using refresh_inv_kept [OF assms(4)] operation_evolves_drawn [OF assms(1-3)] by (simp add: evolves_def)
next
  case False
  with assms(1) show ?thesis
    using CreateAccessAndRefreshTokens_refresh_inv [OF assms(2,4)]
    by (cases rule: operation.cases) (simp_all add: refresh_untouched)
qed

lemma access_frame [simp]:
  "one_time_credentials (revoke_subject now subject db) = one_time_credentials db"
  "device_authorizations (revoke_subject now subject db) = device_authorizations db"
  "one_time_credentials (void_authorizations now subject db) = one_time_credentials db"
  "device_authorizations (void_authorizations now subject db) = device_authorizations (deny_devices subject db)"
  by (simp_all add: revoke_subject_def void_authorizations_def deny_devices_def)

lemma end_access_device_inv:
  assumes "end_access now ids action subject b = Some b'" "device_inv b"
  shows "device_inv b'"
proof -
  have "device_authorizations b' = device_authorizations (deny_devices subject b)"
    using assms(1) by (auto simp: end_access_def queueLogout_def deny_devices_def)
  then show ?thesis using deny_devices_device_inv [OF assms(2)] by (simp add: device_inv_def)
qed

lemma end_access_credentials:
  "end_access now ids action subject b = Some b' \<Longrightarrow> one_time_credentials b' = one_time_credentials b"
  by (auto simp: end_access_def queueLogout_def)

lemma Authenticate_keeps:
  assumes "Authenticate kdf now e pw peer db = (r, b)"
  shows "device_authorizations b = device_authorizations db" "one_time_credentials b = one_time_credentials db"
  using untouched(10,16) [OF Authenticate_touches [of db kdf now e pw peer]] assms by simp_all

lemma VerifyMFA_keeps:
  "VerifyMFA unseal totp now wall subject code db = (r, b) \<Longrightarrow> device_authorizations b = device_authorizations db"
  using untouched(16) [OF VerifyMFA_touches [of db unseal totp now wall subject code]] by simp

lemma RedeemMFAReset_device_inv:
  "device_inv db \<Longrightarrow> device_inv (snd (RedeemMFAReset kdf now ids raw password peer db))"
  by (auto simp: RedeemMFAReset_def Let_def consume_credential_def device_inv_def
    split: option.splits sum.splits prod.splits dest: Authenticate_keeps
    dest!: end_access_device_inv [unfolded device_inv_def])

lemma commit_password_device_inv:
  assumes "device_inv b"
  shows "device_inv (snd (commit_password kdf now ids subject sid e current en b))"
  using assms by (auto simp: commit_password_def set_password_def device_inv_def split: option.splits
    dest!: end_access_device_inv [unfolded device_inv_def])

lemma ChangePassword_device_inv:
  assumes "device_inv db"
  shows "device_inv (snd (ChangePassword kdf unseal totp now wall salt ids subject sid current new code peer db))"
proof -
  have keep: "device_inv b" if "device_authorizations b = device_authorizations db" for b
    using that assms by (simp add: device_inv_def)
  then have com: "device_inv (snd (commit_password kdf now ids subject sid e current en b))"
    if "device_authorizations b = device_authorizations db" for b e en
    using that by (simp add: commit_password_device_inv)
  show ?thesis
    by (auto simp: ChangePassword_def split: option.splits sum.splits prod.splits if_splits
      dest!: Authenticate_keeps(1) VerifyMFA_keeps intro!: com intro: keep)
qed

lemma RedeemCredential_device_inv:
  assumes "device_inv db"
  shows "device_inv (snd (RedeemCredential kdf now salt new_id ids kind raw name pw db))"
proof -
  have keep: "device_inv b" if "device_authorizations b = device_authorizations db" for b
    using that assms by (simp add: device_inv_def)
  show ?thesis
    by (auto simp: RedeemCredential_def Let_def consume_credential_def set_password_def
      split: option.splits sum.splits intro: keep elim!: end_access_device_inv)
qed

lemma fence_devices:
  "device_inv db \<Longrightarrow> device_inv (fence_stamps now db)"
  by (auto simp: fence_stamps_def Let_def device_inv_def device_row_ok_def elim!: in_update_rows)

lemma FenceRestoredState_device_inv:
  assumes "device_inv db"
  shows "device_inv (snd (FenceRestoredState now ids1 ids2 db))"
  using assms fence_devices [of "(kill_deliveries now db)\<lparr>outbox := t\<rparr>" now for t]
  by (auto simp: FenceRestoredState_def Let_def fence_links_def kill_deliveries_def device_inv_def split: option.splits)

text \<open>An update that only consumes credentials.\<close>

lemma credential_inv_consumed:
  assumes "credential_inv a" "one_time_credentials b = one_time_credentials a
    \<or> (\<exists>P f. one_time_credentials b = update_rows P f (one_time_credentials a) \<and> (\<forall>c. c_consumed_at (f c) \<noteq> None))"
  shows "credential_inv b"
  using assms(2)
proof
  assume "one_time_credentials b = one_time_credentials a"
  with assms(1) show ?thesis by (simp add: credential_inv_def)
next
  assume "\<exists>P f. one_time_credentials b = update_rows P f (one_time_credentials a) \<and> (\<forall>c. c_consumed_at (f c) \<noteq> None)"
  with assms(1) show ?thesis by (elim exE conjE) (rule credential_inv_update, auto)
qed

lemma consume_credential_consumes:
  "one_time_credentials b = one_time_credentials (consume_credential now raw k a) \<Longrightarrow>
   credential_inv a \<Longrightarrow> credential_inv b"
  by (erule credential_inv_consumed) (auto simp: consume_credential_def intro!: exI)

lemma RedeemMFAReset_credential_inv:
  assumes "credential_inv db"
  shows "credential_inv (snd (RedeemMFAReset kdf now ids raw password peer db))"
proof -
  let ?db = "snd (RedeemMFAReset kdf now ids raw password peer db)"
  have "one_time_credentials ?db = one_time_credentials db
    \<or> one_time_credentials ?db = one_time_credentials (consume_credential now raw MfaReset db)"
    by (auto simp: RedeemMFAReset_def Let_def consume_credential_def
      split: option.splits sum.splits prod.splits dest!: end_access_credentials Authenticate_keeps(2))
  with assms show ?thesis by (auto simp: credential_inv_def [of ?db] credential_inv_def [of db] dest: consume_credential_consumes [unfolded credential_inv_def])
qed

lemma RedeemCredential_credential_inv:
  assumes "credential_inv db"
  shows "credential_inv (snd (RedeemCredential kdf now salt new_id ids kind raw name pw db))"
proof -
  let ?db = "snd (RedeemCredential kdf now salt new_id ids kind raw name pw db)"
  have "one_time_credentials ?db = one_time_credentials db
    \<or> (\<exists>k. one_time_credentials ?db = one_time_credentials (consume_credential now raw k db))"
    by (auto simp: RedeemCredential_def Let_def set_password_def
      split: option.splits sum.splits prod.splits dest!: end_access_credentials)
  with assms show ?thesis by (auto simp: credential_inv_def [of ?db] credential_inv_def [of db] dest: consume_credential_consumes [unfolded credential_inv_def])
qed

lemma FenceRestoredState_credential_inv:
  assumes "credential_inv db"
  shows "credential_inv (snd (FenceRestoredState now ids1 ids2 db))"
proof (rule credential_inv_consumed [OF assms])
  have "one_time_credentials (fence_stamps now b) = update_rows (\<lambda>c. c_consumed_at c = None)
      (\<lambda>c. c\<lparr>c_consumed_at := Some (coalesce (c_consumed_at c) now)\<rparr>) (one_time_credentials b)" for b
    by (simp add: fence_stamps_def Let_def stamp_rows_def)
  then show "one_time_credentials (snd (FenceRestoredState now ids1 ids2 db)) = one_time_credentials db \<or>
    (\<exists>P f. one_time_credentials (snd (FenceRestoredState now ids1 ids2 db)) = update_rows P f (one_time_credentials db)
      \<and> (\<forall>c. c_consumed_at (f c) \<noteq> None))"
    by (auto simp: FenceRestoredState_def Let_def fence_links_def kill_deliveries_def split: option.splits intro!: exI)
qed

lemma operation_credential_inv:
  assumes "operation X db db'" "credential_inv db"
  shows "credential_inv db'"
  using assms(1) by (cases rule: operation.cases) (simp_all add: credentials_untouched assms(2)
    IssueCredential_credential_inv RedeemMFAReset_credential_inv RedeemCredential_credential_inv
    FenceRestoredState_credential_inv)

lemma operation_device_inv:
  assumes "operation X db db'" "schema_ok db" "device_inv db"
  shows "device_inv db'"
  using assms(1) by (cases rule: operation.cases) (simp_all add: devices_untouched assms(2,3)
    StoreDeviceAuthorization_device_inv GetDeviceAuthorizatonState_device_inv ConfirmDevice_device_inv
    RedeemMFAReset_device_inv ChangePassword_device_inv RedeemCredential_device_inv FenceRestoredState_device_inv)


text \<open>
  What holds of every reachable database: the indexes, the invariants of the components, and that
  the keys of the tables that lose rows were drawn.
\<close>

definition keys_drawn :: "drawn \<Rightarrow> db \<Rightarrow> bool" where
  "keys_drawn D db \<longleftrightarrow> r_id ` set (auth_requests db) \<subseteq> D T_requests \<and> t_id ` set (access_tokens db) \<subseteq> D T_access
     \<and> o_id ` set (outbox db) \<subseteq> D T_outbox \<and> v_token_hash ` set (recovery_codes db) \<subseteq> D T_recovery
     \<and> d_device_code_hash ` set (device_authorizations db) \<subseteq> D T_devices"

definition sound :: "drawn \<Rightarrow> db \<Rightarrow> bool" where
  "sound D db \<longleftrightarrow> schema_ok db \<and> outbox_ok db \<and> link_inv db \<and> token_inv (D T_access) db \<and> refresh_inv db
     \<and> credential_inv db \<and> device_inv db \<and> keys_drawn D db"

lemma soundD:
  assumes "sound D db"
  shows "schema_ok db" "outbox_ok db" "link_inv db" "token_inv (D T_access) db" "refresh_inv db"
    "credential_inv db" "device_inv db" "keys_drawn D db"
  using assms by (simp_all add: sound_def)

lemma keys_drawn_evolves:
  assumes "evolves (\<lambda>t. - X t) db db'" "keys_drawn D db"
  shows "keys_drawn (\<lambda>t. D t \<union> X t) db'"
proof -
  have new: "key ` set u \<subseteq> K \<union> Y"
    if "row_history le key" "descends le key (- Y) t u" "key ` set t \<subseteq> K" for le :: "'r \<Rightarrow> 'r \<Rightarrow> bool" and key and K Y :: "string set" and t u
  proof
    fix x assume "x \<in> key ` set u"
    then obtain s where s: "s \<in> set u" "x = key s" by auto
    with that(2) consider r where "r \<in> set t" "le r s" | "key s \<in> Y" by (auto simp: descends_def)
    then show "x \<in> K \<union> Y"
      by cases (use that(1,3) s in \<open>auto simp: row_history_def\<close>)
  qed
  show ?thesis
    using assms unfolding keys_drawn_def evolves_def
    by (elim conjE) (intro conjI new [OF request_h.row_history_axioms] new [OF access_h.row_history_axioms]
      new [OF outbox_h.row_history_axioms] new [OF recovery_h.row_history_axioms]
      new [OF device_h.row_history_axioms]; assumption)
qed

lemma sound_empty: "sound none empty_db"
  by (simp add: sound_def schema_ok_empty)
    (simp add: empty_db_def outbox_ok_def link_inv_def token_inv_def refresh_inv_def credential_inv_def
      device_inv_def keys_drawn_def)

lemma step_sound:
  assumes "step D db D' db'" "sound D db"
  shows "sound D' db'"
  using assms(1)
proof (rule stepE)
  fix X assume 1: "D' = (\<lambda>t. D t \<union> X t)" "operation X db db'" "\<And>t. X t \<inter> D t = {}"
  note kept = soundD [OF assms(2)]
  show "sound D' db'"
    unfolding sound_def 1(1)
    using operation_keeps_schema [OF 1(2) kept(1)] operation_outbox_ok [OF 1(2) kept(1,2)]
      operation_link_inv [OF 1(2) kept(1,3)] operation_token_inv [where D = D, OF 1(2) kept(1,2,4) 1(3) [of T_access]]
      operation_refresh_inv [OF 1(2) kept(1,2,5)] operation_credential_inv [OF 1(2) kept(6)]
      operation_device_inv [OF 1(2) kept(1,7)]
      keys_drawn_evolves [OF operation_evolves_drawn [OF 1(2) kept(1,2)] kept(8)]
    by simp
qed

lemma run_sound: "run D db D' db' \<Longrightarrow> sound D db \<Longrightarrow> sound D' db'"
  by (induction rule: run.induct) (auto intro: step_sound)

lemma reach_sound: "reach D db \<Longrightarrow> sound D db"
  unfolding reach_def using run_sound sound_empty by blast

lemma step_evolves:
  assumes "step D db D' db'" "sound D db"
  shows "evolves D db db'" "D \<le> D'"
proof -
  obtain X where X: "operation X db db'" "\<And>t. X t \<inter> D t = {}" "D' = (\<lambda>t. D t \<union> X t)"
    using assms(1) by (cases rule: stepE) auto
  then have "evolves D db db" "evolves (\<lambda>t. - X t) db db'"
    using operation_evolves_drawn [OF X(1)] assms(2) by (simp_all add: soundD evolves_refl)
  then show "evolves D db db'"
    by (rule evolves_trans) (use X(2) in \<open>auto simp: le_fun_def\<close>)
  show "D \<le> D'" by (auto simp: X(3) le_fun_def)
qed

lemma run_evolves:
  assumes "run D db D' db'" "sound D db"
  shows "evolves D db db' \<and> D \<le> D'"
  using assms
proof (induction rule: run.induct)
  case (further D db D' db' D'' db'')
  then have "sound D' db'" by (blast intro: run_sound)
  with further show ?case using step_evolves [OF further(2)] by (blast intro: evolves_trans order_trans)
qed (simp add: evolves_refl)

lemma step_quiet: "operation none db db' \<Longrightarrow> step D db D db'"
  using step.intros [of none db db' D] by (simp add: none_def)

lemma reach_invariant:
  assumes "reach D db" "Q empty_db" "\<And>X a b. operation X a b \<Longrightarrow> schema_ok a \<Longrightarrow> Q a \<Longrightarrow> Q b"
  shows "Q db"
proof -
  have "run E e D db \<Longrightarrow> sound E e \<Longrightarrow> Q e \<Longrightarrow> Q db" for E e
  proof (induction rule: run.induct)
    case (further D db D' db' D'' db'')
    then have "schema_ok db'" "Q db'" using run_sound by (auto simp: sound_def)
    with further(2) show ?case by (auto elim!: stepE intro: assms(3))
  qed
  then show ?thesis using assms(1,2) sound_empty by (auto simp: reach_def)
qed

end
