(* ===== verification/Test_Vectors.thy ===== *)
theory Test_Vectors
  imports Security
begin

text \<open>
  Known answers of the hash under which every secret is stored: the model's SHA-256 is the
  standard's on these messages, so it can stand for \<open>crypto/sha256\<close>.
\<close>

lemma digest_abc: "Hash ''abc'' = ''ba7816bf8f01cfea414140de5dae2223b00361a396177a9cb410ff61f20015ad''"
  by code_simp

lemma digest_def: "Hash ''def'' = ''cb8379ac2098aa165029e3938a51da0bcecfc008fd6795f401178647f96c5b34''"
  by code_simp

text \<open>The digests of two known messages, in lower-case hexadecimal: the SHA-256 of the model
  agrees with FIPS 180-4, and distinct messages need not be assumed to have distinct digests.\<close>

theorem Hash_test_vectors:
  "Hash ''abc'' = ''ba7816bf8f01cfea414140de5dae2223b00361a396177a9cb410ff61f20015ad''
   \<and> Hash ''def'' = ''cb8379ac2098aa165029e3938a51da0bcecfc008fd6795f401178647f96c5b34''"
  using digest_abc digest_def by simp

end
