(* ===== verification/Scenario.thy ===== *)
theory Scenario
  imports System Test_Vectors
begin

text \<open>
  A run of the service, with the database evaluated after every step: Ann registers three
  applications, signs in, links her account at two of them, exchanges a token, approves a device
  and registers an installation. The witnesses of the properties evaluate them on its databases.
\<close>

lemma reach_none: "reach none empty_db"
  by (simp add: reach_def run.stop)

lemma reach_drawing:
  assumes "reach D db" "operation X db db'" "\<And>t. X t \<inter> D t = {}" "D' = (\<lambda>t. D t \<union> X t)"
  shows "reach D' db'"
  using assms unfolding reach_def by (auto intro: run.further step.intros)

lemma reach_quiet: "reach D db \<Longrightarrow> operation none db db' \<Longrightarrow> reach D db'"
  by (rule reach_drawing) (auto simp: none_def)

lemma draws_eq: "draws t S = none(t := S)"
  by (simp add: draws_def)

lemma empty_tables:
  "identities empty_db = []" "browser_sessions empty_db = []" "applications empty_db = []"
  "auth_requests empty_db = []" "token_families empty_db = []" "refresh_tokens empty_db = []"
  "access_tokens empty_db = []" "link_intents empty_db = []" "account_links empty_db = []"
  "one_time_credentials empty_db = []" "outbox empty_db = []" "recovery_codes empty_db = []"
  "device_authorizations empty_db = []" "exchange_policies empty_db = []" "exchange_consents empty_db = []"
  "device_installations empty_db = []" "rate_limits empty_db = []" "outbox_attempts empty_db = []"
  by (simp_all add: empty_db_def)

section \<open>The parties\<close>

lemma hashes_differ [simp]: "Hash ''abc'' \<noteq> Hash ''def''" "Hash ''def'' \<noteq> Hash ''abc''"
  by (simp_all add: digest_abc digest_def)

definition salt :: string where "salt = replicate 16 CHR ''s''"

definition https_only :: url_parser where
  "https_only raw = Some \<lparr>url_scheme = ''https'', url_host = raw, url_hostname = raw, url_user = False,
     url_path = [], url_raw_query = [], url_fragment = []\<rparr>"

definition ann_hash :: string where
  "ann_hash = ''$argon2id$v=19$m=65536,t=3,p=2$'' @ base64_encode std_alphabet salt @ ''$''
     @ base64_encode std_alphabet (kdf_example ''correct horse'' salt 3 65536 2 32)"

definition ann :: identity_row where
  "ann = \<lparr>i_id = ''ann'', i_email = ''a@x.y'', i_name = ''Ann'', i_password_hash = ann_hash, i_role = Admin,
     i_status = Active, i_email_verified = False, i_mfa_secret = None, i_pending_mfa_secret = None,
     i_pending_mfa_expires = None, i_mfa_last_step = -1, i_status_version = 1\<rparr>"

definition shop :: client where
  "shop = \<lparr>cl_id = ''shop'', cl_name = ''Shop'', cl_redirects = [''https://shop''], cl_logout_redirects = [],
     cl_scopes = [''openid'', ''offline_access'', ''read''], cl_resources = [''files''],
     cl_grants = [GrantTypeCode, GrantTypeRefreshToken, GrantTypeTokenExchange], cl_public = False,
     cl_development = False, cl_backchannel_url = ''https://shop/bc'', cl_events_url = ''https://shop/ev''\<rparr>"

definition vault :: client where
  "vault = \<lparr>cl_id = ''vault'', cl_name = ''Vault'', cl_redirects = [''https://vault''], cl_logout_redirects = [],
     cl_scopes = [''openid'', ''read''], cl_resources = [], cl_grants = [GrantTypeCode], cl_public = False,
     cl_development = False, cl_backchannel_url = [], cl_events_url = []\<rparr>"

definition tv :: client where
  "tv = \<lparr>cl_id = ''tv'', cl_name = ''TV'', cl_redirects = [], cl_logout_redirects = [],
     cl_scopes = [''openid''], cl_resources = [], cl_grants = [GrantTypeDeviceCode], cl_public = True,
     cl_development = False, cl_backchannel_url = [], cl_events_url = []\<rparr>"

definition shop_secret :: string where "shop_secret = replicate 32 CHR ''k''"

definition app_row :: "client \<Rightarrow> string \<Rightarrow> application_row" where
  "app_row c secret = \<lparr>a_id = cl_id c, a_name = cl_name c, a_secret_hash = Hash secret, a_config = c,
     a_active = True, a_created_at = 0, a_previous_secret_hash = None, a_previous_secret_expires_at = None\<rparr>"

definition ann_session :: session_row where
  "ann_session = \<lparr>s_id = ''s1'', s_token_hash = Hash ''abc'', s_identity_id = ''ann'', s_csrf_hash = Hash ''csrf'',
     s_authenticated_at = 0, s_expires_at = hours 8, s_revoked_at = None, s_mfa_at = None\<rparr>"

definition ask :: "client \<Rightarrow> string \<Rightarrow> auth_request" where
  "ask c nonce = \<lparr>rq_client_id = cl_id c, rq_redirect_uri = hd (cl_redirects c), rq_response_type = ResponseTypeCode,
     rq_scopes = [''openid'', ''read''], rq_state = ''xyz'', rq_nonce = nonce, rq_code_challenge = replicate 43 CHR ''c'',
     rq_code_challenge_method = CodeChallengeMethodS256, rq_prompt = [], rq_max_age = None\<rparr>"

definition asked :: "string \<Rightarrow> client \<Rightarrow> string \<Rightarrow> authorization" where
  "asked rid c nonce = \<lparr>az_id = rid, az_created_at = 0, az_request = ask c nonce, az_subject = [], az_session_id = [],
     az_auth_time = zero_time, az_authenticated = False\<rparr>"

definition granted :: "string \<Rightarrow> client \<Rightarrow> string \<Rightarrow> authorization" where
  "granted rid c nonce = (asked rid c nonce)\<lparr>az_subject := ''ann'', az_session_id := ''s1'', az_auth_time := 0,
     az_authenticated := True\<rparr>"

definition request_row :: "string \<Rightarrow> client \<Rightarrow> string \<Rightarrow> auth_request_row" where
  "request_row rid c nonce = \<lparr>r_id = rid, r_client_id = cl_id c, r_payload = asked rid c nonce, r_code_hash = None,
     r_expires_at = minutes 5, r_code_expires_at = None, r_consumed_at = None\<rparr>"

definition request1 :: auth_request_row where
  "request1 = (request_row ''r1'' shop ''n1'')\<lparr>r_payload := granted ''r1'' shop ''n1''\<rparr>"

definition request1_coded :: auth_request_row where
  "request1_coded = request1\<lparr>r_code_hash := Some (Hash ''code''), r_code_expires_at := Some (seconds 60)\<rparr>"

definition request1_used :: auth_request_row where
  "request1_used = request1_coded\<lparr>r_consumed_at := Some (seconds 1)\<rparr>"

definition request2 :: auth_request_row where
  "request2 = (request_row ''r2'' vault ''n2'')\<lparr>r_payload := granted ''r2'' vault ''n2''\<rparr>"

definition intent1 :: intent_row where
  "intent1 = \<lparr>n_id = ''i1'', n_client_id = ''shop'', n_local_ref = ''u7'', n_idempotency_key = replicate 16 CHR ''a'',
     n_payload_hash = Hash ''u7'', n_nonce = ''n1'', n_subject = None, n_state = Pending, n_expires_at = minutes 5\<rparr>"

definition intent2 :: intent_row where
  "intent2 = \<lparr>n_id = ''i2'', n_client_id = ''vault'', n_local_ref = ''v3'', n_idempotency_key = replicate 16 CHR ''b'',
     n_payload_hash = Hash ''v3'', n_nonce = ''n2'', n_subject = None, n_state = Pending, n_expires_at = minutes 5\<rparr>"

definition at_state :: "link_state \<Rightarrow> intent_row \<Rightarrow> intent_row" where
  "at_state s n = n\<lparr>n_subject := Some ''ann'', n_state := s\<rparr>"

definition link1 :: link_row where
  "link1 = \<lparr>l_id = ''i1'', l_client_id = ''shop'', l_local_ref = ''u7'', l_subject = ''ann'', l_state = Prepared,
     l_version = 1, l_verified_at = 0, l_revoked_at = None\<rparr>"

definition link2 :: link_row where
  "link2 = link1\<lparr>l_id := ''i2'', l_client_id := ''vault'', l_local_ref := ''v3''\<rparr>"

definition family1 :: family_row where
  "family1 = \<lparr>f_id = ''f1'', f_subject = ''ann'', f_client_id = ''shop'', f_session_id = ''s1'', f_revoked_at = None,
     f_expires_at = days 7\<rparr>"

definition token1 :: token where
  "token1 = \<lparr>tk_id = ''t1'', tk_client_id = ''shop'', tk_subject = ''ann'', tk_audience = [''shop''],
     tk_scopes = [''openid'', ''read''], tk_auth_time = 0, tk_session_id = ''s1'', tk_family_id = ''f1'',
     tk_service = False, tk_grant = [], tk_delegated = False, tk_source_token_id = [], tk_expires_at = minutes 5\<rparr>"

definition refresh1 :: refresh_row where
  "refresh1 = \<lparr>rt_token_hash = Hash ''abc'', rt_family_id = ''f1'', rt_payload = token1, rt_consumed_at = None,
     rt_expires_at = days 7\<rparr>"

definition swap :: exchange_request where
  "swap = \<lparr>xr_client_id = ''shop'', xr_subject = ''ann'', xr_exchange_subject = ''ann'', xr_subject_token = ''t1'',
     xr_subject_token_type = AccessTokenType, xr_actor_token = [], xr_resources = [''files''], xr_audience = [''files''],
     xr_scopes = [''read''], xr_requested_type = [], xr_auth_time = 0\<rparr>"

definition token2 :: token where
  "token2 = \<lparr>tk_id = ''t2'', tk_client_id = ''shop'', tk_subject = ''ann'', tk_audience = [''files''],
     tk_scopes = [''read''], tk_auth_time = 0, tk_session_id = ''s1'', tk_family_id = [],
     tk_service = False, tk_grant = [], tk_delegated = True, tk_source_token_id = ''t1'', tk_expires_at = minutes 5\<rparr>"

definition policy1 :: policy_row where
  "policy1 = \<lparr>x_caller = ''shop'', x_target = ''vault'', x_resource = ''files'', x_scope = ''read'', x_active = True\<rparr>"

definition consent1 :: consent_row where
  "consent1 = \<lparr>y_subject = ''ann'', y_caller = ''shop'', y_target = ''vault'', y_resource = ''files'', y_scope = ''read'',
     y_granted_at = 0, y_revoked_at = None\<rparr>"

definition device1 :: device_row where
  "device1 = \<lparr>d_device_code_hash = Hash ''dc'', d_user_code = ''WXZZ-BCDF'', d_client_id = ''tv'', d_scopes = [''openid''],
     d_expires_at = minutes 10, d_status = DevicePending, d_subject = None, d_auth_time = None, d_next_poll_at = 0,
     d_poll_interval_seconds = 5\<rparr>"

definition device1_approved :: device_row where
  "device1_approved = device1\<lparr>d_status := DeviceApproved, d_subject := Some ''ann'', d_auth_time := Some 0\<rparr>"

definition device_done :: device_state where
  "device_done = \<lparr>ds_client_id = ''tv'', ds_subject = ''ann'', ds_audience = [], ds_scopes = [''openid''],
     ds_auth_time = 0, ds_expires = minutes 10, ds_done = True, ds_denied = False\<rparr>"

definition token3 :: token where
  "token3 = \<lparr>tk_id = ''t3'', tk_client_id = ''tv'', tk_subject = ''ann'', tk_audience = [],
     tk_scopes = [''openid''], tk_auth_time = 0, tk_session_id = [], tk_family_id = [], tk_service = False,
     tk_grant = ''device_code'', tk_delegated = False, tk_source_token_id = [], tk_expires_at = minutes 5\<rparr>"

definition token4 :: token where
  "token4 = token1\<lparr>tk_id := ''t4''\<rparr>"

definition refresh2 :: refresh_row where
  "refresh2 = \<lparr>rt_token_hash = Hash ''def'', rt_family_id = ''f1'', rt_payload = token4, rt_consumed_at = None,
     rt_expires_at = days 7\<rparr>"

definition notices :: "nat \<Rightarrow> string" where "notices n = CHR ''o'' # replicate n CHR ''x''"

definition notice :: "nat \<Rightarrow> string \<Rightarrow> outbox_row" where
  "notice n c = outbox_event (seconds 9) (notices n) c (LogoutOf ''ann'' ''s1'') LogoutKind"

definition notice_sent :: outbox_row where
  "notice_sent = (notice 0 ''shop'')\<lparr>o_attempts := 1, o_last_status := Some 200, o_delivered_at := Some (seconds 11),
     o_available_at := seconds 13\<rparr>"

definition sent_attempt :: attempt_row where
  "sent_attempt = \<lparr>p_event_id = ''o'', p_attempt = 1, p_outcome = Delivered, p_http_status = Some 200, p_duration_ms = 5,
     p_finished_at = seconds 11\<rparr>"

definition invitation :: credential_row where
  "invitation = \<lparr>c_token_hash = Hash ''inv'', c_kind = Invite, c_email = ''b@x.y'', c_expires_at = hours 1,
     c_consumed_at = None\<rparr>"

definition bob :: identity_row where
  "bob = ann\<lparr>i_id := ''bob'', i_email := ''b@x.y'', i_name := ''Bob'', i_role := Member\<rparr>"

definition bob_session :: session_row where
  "bob_session = \<lparr>s_id = ''s2'', s_token_hash = Hash ''def'', s_identity_id = ''bob'', s_csrf_hash = Hash ''csrf'',
     s_authenticated_at = 2, s_expires_at = 2 + hours 8, s_revoked_at = None, s_mfa_at = None\<rparr>"

definition token5 :: token where
  "token5 = token3\<lparr>tk_id := ''t5'', tk_subject := ''bob'', tk_expires_at := 2 + minutes 5\<rparr>"

text \<open>Encryption that leaves the text as it is.\<close>

definition gcm_example :: gcm where
  "gcm_example = \<lparr>gc_seal = (\<lambda>key nonce plain label. plain), gc_open = (\<lambda>key nonce sealed label. Some sealed)\<rparr>"

definition totp_example :: totp where
  "totp_example secret t = Some (if t div 30 mod 2 = 0 then ''000000'' else ''111111'')"

definition bob_enrolling :: identity_row where
  "bob_enrolling = bob\<lparr>i_pending_mfa_secret := Some ''seed'', i_pending_mfa_expires := Some (minutes 5)\<rparr>"

definition bob_enrolled :: identity_row where
  "bob_enrolled = bob\<lparr>i_mfa_secret := Some ''seed'', i_mfa_last_step := 0\<rparr>"

definition rate1 :: rate_row where
  "rate1 = \<lparr>q_key = Hash ''device-start:tv'', q_count = 1, q_expires_at = minutes 1\<rparr>"

definition the_ref :: string where "the_ref = ''01234567-89ab-cdef-0123-456789abcdef''"

definition installation1 :: installation_row where
  "installation1 = \<lparr>k_id = ''k1'', k_client_id = ''tv'', k_subject = ''ann'', k_installation_ref = the_ref,
     k_device_token_id = ''t3'', k_secret_hash = Hash ''mgmt'', k_created_at = 0, k_revoked_at = None\<rparr>"

lemma the_ref_ok [simp]: "installationRefPattern the_ref"
  by (simp add: installationRefPattern_def the_ref_def lower_hex_def)

lemma typed_code [simp]: "to_upper (trim_space ''wxzz-bcdf'') = ''WXZZ-BCDF''"
  by code_simp

lemma ann_encoded [simp]: "HashPassword kdf_example salt ''correct horse'' = Inr ann_hash"
  by (simp add: HashPassword_def ann_hash_def salt_def Let_def)

lemma emails_ok [simp]: "validEmail Some ''a@x.y'' = Inr ''a@x.y''" "validEmail Some ''b@x.y'' = Inr ''b@x.y''"
  by (simp_all add: validEmail_def Let_def to_lower_def lower_char_def trim_space_def is_space_def)

lemma https_ok [simp]: "validEndpoint https_only raw d \<longleftrightarrow> raw \<noteq> [] \<and> \<not> contains_any raw host_breakers"
  by (simp add: validEndpoint_def https_only_def)

lemmas scenario_rows = ann_def ann_session_def app_row_def asked_def granted_def request_row_def
  request1_def request1_coded_def request1_used_def request2_def intent1_def intent2_def at_state_def
  link1_def link2_def family1_def token1_def refresh1_def token2_def policy1_def consent1_def device1_def
  device1_approved_def device_done_def token3_def installation1_def
  token4_def refresh2_def notice_sent_def notice_def invitation_def bob_def bob_session_def token5_def
  bob_enrolling_def bob_enrolled_def

lemmas scenario_simps = scenario_rows insert_row_def some_row_def first_row_def count_rows_def Let_def

lemma clients_ok [simp]:
  "register_checks https_only False shop shop_secret = Inr shop"
  "register_checks https_only False vault shop_secret = Inr vault"
  "register_checks https_only False tv [] = Inr tv"
  by (simp_all add: register_checks_def default_grants_def validateCapabilities_def shop_def vault_def tv_def
    serviceClient_def known_grant_def registered_urls_def shop_secret_def contains_any_def host_breakers_def
    GrantTypeCode_def GrantTypeRefreshToken_def GrantTypeClientCredentials_def GrantTypeDeviceCode_def
    GrantTypeTokenExchange_def ScopeOpenID_def ScopeOfflineAccess_def Let_def)

lemma clients_simps [simp]:
  "cl_id shop = ''shop''" "cl_name shop = ''Shop''" "cl_redirects shop = [''https://shop'']"
  "cl_scopes shop = [''openid'', ''offline_access'', ''read'']" "cl_resources shop = [''files'']"
  "cl_grants shop = [GrantTypeCode, GrantTypeRefreshToken, GrantTypeTokenExchange]" "cl_public shop = False"
  "cl_backchannel_url shop = ''https://shop/bc''" "cl_events_url shop = ''https://shop/ev''"
  "cl_id vault = ''vault''" "cl_name vault = ''Vault''" "cl_redirects vault = [''https://vault'']"
  "cl_scopes vault = [''openid'', ''read'']" "cl_resources vault = []" "cl_grants vault = [GrantTypeCode]"
  "cl_public vault = False" "cl_backchannel_url vault = []" "cl_events_url vault = []"
  "cl_id tv = ''tv''" "cl_name tv = ''TV''" "cl_redirects tv = []" "cl_scopes tv = [''openid'']"
  "cl_resources tv = []" "cl_grants tv = [GrantTypeDeviceCode]" "cl_public tv = True"
  by (simp_all add: shop_def vault_def tv_def)

section \<open>The run\<close>

definition db1 :: db where
  "db1 = snd (CreateIdentity Some kdf_example salt ''ann'' ''a@x.y'' ''Ann'' ''correct horse'' ''admin'' empty_db)"

lemma db1_eval: "db1 = empty_db\<lparr>identities := [ann]\<rparr>"
  by (simp add: db1_def empty_tables scenario_simps CreateIdentity_def trim_space_def is_space_def)

lemma db1_tables:
  shows "identities db1 = [ann]"
    "browser_sessions db1 = []"
    "applications db1 = []"
    "auth_requests db1 = []"
    "token_families db1 = []"
    "refresh_tokens db1 = []"
    "access_tokens db1 = []"
    "link_intents db1 = []"
    "account_links db1 = []"
    "one_time_credentials db1 = []"
    "outbox db1 = []"
    "recovery_codes db1 = []"
    "device_authorizations db1 = []"
    "exchange_policies db1 = []"
    "exchange_consents db1 = []"
    "device_installations db1 = []"
    "rate_limits db1 = []"
    "outbox_attempts db1 = []"
  by (simp_all add: db1_eval empty_tables)

lemma db1_reach: "reach none db1"
  unfolding db1_def by (rule reach_quiet [OF reach_none create_identity])

definition db2 :: db where
  "db2 = snd (RegisterClientAs https_only False 0 ''ann'' shop shop_secret db1)"

lemma db2_eval: "db2 = audit 0 ''ann'' ''application.create'' ''shop'' (db1\<lparr>applications := [app_row shop shop_secret]\<rparr>)"
  by (simp add: db2_def db1_tables scenario_simps RegisterClientAs_def application_clash_def)

lemma db2_tables:
  shows "identities db2 = [ann]"
    "browser_sessions db2 = []"
    "applications db2 = [app_row shop shop_secret]"
    "auth_requests db2 = []"
    "token_families db2 = []"
    "refresh_tokens db2 = []"
    "access_tokens db2 = []"
    "link_intents db2 = []"
    "account_links db2 = []"
    "one_time_credentials db2 = []"
    "outbox db2 = []"
    "recovery_codes db2 = []"
    "device_authorizations db2 = []"
    "exchange_policies db2 = []"
    "exchange_consents db2 = []"
    "device_installations db2 = []"
    "rate_limits db2 = []"
    "outbox_attempts db2 = []"
  by (simp_all add: db2_eval db1_tables)

lemma db2_reach: "reach none db2"
  unfolding db2_def by (rule reach_quiet [OF db1_reach register_client])

definition db3 :: db where
  "db3 = snd (RegisterClientAs https_only False 0 ''ann'' vault shop_secret db2)"

lemma db3_eval: "db3 = audit 0 ''ann'' ''application.create'' ''vault'' (db2\<lparr>applications := [app_row shop shop_secret, app_row vault shop_secret]\<rparr>)"
  by (simp add: db3_def db2_tables scenario_simps RegisterClientAs_def application_clash_def)

lemma db3_tables:
  shows "identities db3 = [ann]"
    "browser_sessions db3 = []"
    "applications db3 = [app_row shop shop_secret, app_row vault shop_secret]"
    "auth_requests db3 = []"
    "token_families db3 = []"
    "refresh_tokens db3 = []"
    "access_tokens db3 = []"
    "link_intents db3 = []"
    "account_links db3 = []"
    "one_time_credentials db3 = []"
    "outbox db3 = []"
    "recovery_codes db3 = []"
    "device_authorizations db3 = []"
    "exchange_policies db3 = []"
    "exchange_consents db3 = []"
    "device_installations db3 = []"
    "rate_limits db3 = []"
    "outbox_attempts db3 = []"
  by (simp_all add: db3_eval db2_tables)

lemma db3_reach: "reach none db3"
  unfolding db3_def by (rule reach_quiet [OF db2_reach register_client])

definition db4 :: db where
  "db4 = snd (RegisterClientAs https_only False 0 ''ann'' tv [] db3)"

lemma db4_eval: "db4 = audit 0 ''ann'' ''application.create'' ''tv'' (db3\<lparr>applications := [app_row shop shop_secret, app_row vault shop_secret, app_row tv []]\<rparr>)"
  by (simp add: db4_def db3_tables scenario_simps RegisterClientAs_def application_clash_def)

lemma db4_tables:
  shows "identities db4 = [ann]"
    "browser_sessions db4 = []"
    "applications db4 = [app_row shop shop_secret, app_row vault shop_secret, app_row tv []]"
    "auth_requests db4 = []"
    "token_families db4 = []"
    "refresh_tokens db4 = []"
    "access_tokens db4 = []"
    "link_intents db4 = []"
    "account_links db4 = []"
    "one_time_credentials db4 = []"
    "outbox db4 = []"
    "recovery_codes db4 = []"
    "device_authorizations db4 = []"
    "exchange_policies db4 = []"
    "exchange_consents db4 = []"
    "device_installations db4 = []"
    "rate_limits db4 = []"
    "outbox_attempts db4 = []"
  by (simp_all add: db4_eval db3_tables)

lemma db4_reach: "reach none db4"
  unfolding db4_def by (rule reach_quiet [OF db3_reach register_client])

definition db5 :: db where
  "db5 = snd (NewSession 0 ''abc'' ''csrf'' ''s1'' ''ann'' db4)"

lemma db5_eval: "db5 = db4\<lparr>browser_sessions := [ann_session]\<rparr>"
  by (simp add: db5_def db4_tables scenario_simps NewSession_def active_identity_def)

lemma db5_tables:
  shows "identities db5 = [ann]"
    "browser_sessions db5 = [ann_session]"
    "applications db5 = [app_row shop shop_secret, app_row vault shop_secret, app_row tv []]"
    "auth_requests db5 = []"
    "token_families db5 = []"
    "refresh_tokens db5 = []"
    "access_tokens db5 = []"
    "link_intents db5 = []"
    "account_links db5 = []"
    "one_time_credentials db5 = []"
    "outbox db5 = []"
    "recovery_codes db5 = []"
    "device_authorizations db5 = []"
    "exchange_policies db5 = []"
    "exchange_consents db5 = []"
    "device_installations db5 = []"
    "rate_limits db5 = []"
    "outbox_attempts db5 = []"
  by (simp_all add: db5_eval db4_tables)

lemma db5_reach: "reach none db5"
  unfolding db5_def by (rule reach_quiet [OF db4_reach new_session])

definition db6 :: db where
  "db6 = snd (CreateLinkIntent 0 ''i1'' ''n1'' ''shop'' ''u7'' (replicate 16 CHR ''a'') db5)"

lemma db6_eval: "db6 = db5\<lparr>link_intents := [intent1]\<rparr>"
  by (simp add: db6_def db5_tables scenario_simps CreateLinkIntent_def active_app_def Client_def)

lemma db6_tables:
  shows "identities db6 = [ann]"
    "browser_sessions db6 = [ann_session]"
    "applications db6 = [app_row shop shop_secret, app_row vault shop_secret, app_row tv []]"
    "auth_requests db6 = []"
    "token_families db6 = []"
    "refresh_tokens db6 = []"
    "access_tokens db6 = []"
    "link_intents db6 = [intent1]"
    "account_links db6 = []"
    "one_time_credentials db6 = []"
    "outbox db6 = []"
    "recovery_codes db6 = []"
    "device_authorizations db6 = []"
    "exchange_policies db6 = []"
    "exchange_consents db6 = []"
    "device_installations db6 = []"
    "rate_limits db6 = []"
    "outbox_attempts db6 = []"
  by (simp_all add: db6_eval db5_tables)

lemma db6_reach: "reach none db6"
  unfolding db6_def by (rule reach_quiet [OF db5_reach create_intent])

definition db7 :: db where
  "db7 = snd (CreateAuthRequest 0 0 ''r1'' (ask shop ''n1'') db6)"

lemma db7_eval: "db7 = db6\<lparr>auth_requests := [request_row ''r1'' shop ''n1'']\<rparr>"
  by (simp add: db7_def db6_tables scenario_simps CreateAuthRequest_def ask_def PromptNone_def ScopeOpenID_def active_app_def Client_def)

lemma db7_tables:
  shows "identities db7 = [ann]"
    "browser_sessions db7 = [ann_session]"
    "applications db7 = [app_row shop shop_secret, app_row vault shop_secret, app_row tv []]"
    "auth_requests db7 = [request_row ''r1'' shop ''n1'']"
    "token_families db7 = []"
    "refresh_tokens db7 = []"
    "access_tokens db7 = []"
    "link_intents db7 = [intent1]"
    "account_links db7 = []"
    "one_time_credentials db7 = []"
    "outbox db7 = []"
    "recovery_codes db7 = []"
    "device_authorizations db7 = []"
    "exchange_policies db7 = []"
    "exchange_consents db7 = []"
    "device_installations db7 = []"
    "rate_limits db7 = []"
    "outbox_attempts db7 = []"
  by (simp_all add: db7_eval db6_tables)

definition D_db7 :: drawn where
  "D_db7 = none(T_requests := {''r1''})"

lemma db7_reach: "reach D_db7 db7"
  unfolding db7_def by (rule reach_drawing [OF db6_reach auth_request]) (auto simp: D_db7_def none_def fun_eq_iff notices_def)

definition db8 :: db where
  "db8 = snd (CompleteAuthorization 0 ''r1'' (view_session ann_session) db7)"

lemma db8_eval: "db8 = audit 0 ''ann'' ''oidc.authorize'' ''shop'' (db7\<lparr>auth_requests := [request1], link_intents := [at_state Confirmed intent1]\<rparr>)"
  by (simp add: db8_def db7_tables scenario_simps CompleteAuthorization_def ask_def Identity_def view_session_def active_identity_def confirm_intents_def)

lemma db8_tables:
  shows "identities db8 = [ann]"
    "browser_sessions db8 = [ann_session]"
    "applications db8 = [app_row shop shop_secret, app_row vault shop_secret, app_row tv []]"
    "auth_requests db8 = [request1]"
    "token_families db8 = []"
    "refresh_tokens db8 = []"
    "access_tokens db8 = []"
    "link_intents db8 = [at_state Confirmed intent1]"
    "account_links db8 = []"
    "one_time_credentials db8 = []"
    "outbox db8 = []"
    "recovery_codes db8 = []"
    "device_authorizations db8 = []"
    "exchange_policies db8 = []"
    "exchange_consents db8 = []"
    "device_installations db8 = []"
    "rate_limits db8 = []"
    "outbox_attempts db8 = []"
  by (simp_all add: db8_eval db7_tables)

lemma db8_reach: "reach D_db7 db8"
  unfolding db8_def by (rule reach_quiet [OF db7_reach complete_authorization])

definition db9 :: db where
  "db9 = snd (SaveAuthCode 0 ''r1'' ''code'' db8)"

lemma db9_eval: "db9 = db8\<lparr>auth_requests := [request1_coded]\<rparr>"
  by (simp add: db9_def db8_tables scenario_simps SaveAuthCode_def code_pending_def)

lemma db9_tables:
  shows "identities db9 = [ann]"
    "browser_sessions db9 = [ann_session]"
    "applications db9 = [app_row shop shop_secret, app_row vault shop_secret, app_row tv []]"
    "auth_requests db9 = [request1_coded]"
    "token_families db9 = []"
    "refresh_tokens db9 = []"
    "access_tokens db9 = []"
    "link_intents db9 = [at_state Confirmed intent1]"
    "account_links db9 = []"
    "one_time_credentials db9 = []"
    "outbox db9 = []"
    "recovery_codes db9 = []"
    "device_authorizations db9 = []"
    "exchange_policies db9 = []"
    "exchange_consents db9 = []"
    "device_installations db9 = []"
    "rate_limits db9 = []"
    "outbox_attempts db9 = []"
  by (simp_all add: db9_eval db8_tables)

lemma db9_reach: "reach D_db7 db9"
  unfolding db9_def by (rule reach_quiet [OF db8_reach save_code])

definition db10 :: db where
  "db10 = snd (AuthRequestByCode (seconds 1) ''code'' db9)"

lemma db10_eval: "db10 = db9\<lparr>auth_requests := [request1_used]\<rparr>"
  by (simp add: db10_def db9_tables scenario_simps AuthRequestByCode_def code_usable_def)

lemma db10_tables:
  shows "identities db10 = [ann]"
    "browser_sessions db10 = [ann_session]"
    "applications db10 = [app_row shop shop_secret, app_row vault shop_secret, app_row tv []]"
    "auth_requests db10 = [request1_used]"
    "token_families db10 = []"
    "refresh_tokens db10 = []"
    "access_tokens db10 = []"
    "link_intents db10 = [at_state Confirmed intent1]"
    "account_links db10 = []"
    "one_time_credentials db10 = []"
    "outbox db10 = []"
    "recovery_codes db10 = []"
    "device_authorizations db10 = []"
    "exchange_policies db10 = []"
    "exchange_consents db10 = []"
    "device_installations db10 = []"
    "rate_limits db10 = []"
    "outbox_attempts db10 = []"
  by (simp_all add: db10_eval db9_tables)

lemma db10_reach: "reach D_db7 db10"
  unfolding db10_def by (rule reach_quiet [OF db9_reach use_code])

definition db11 :: db where
  "db11 = snd (CreateAccessAndRefreshTokens 0 0 ''t1'' ''f1'' ''abc'' (AuthorizationRequest (granted ''r1'' shop ''n1'')) [] db10)"

lemma db11_eval: "db11 = db10\<lparr>token_families := [family1], refresh_tokens := [refresh1], access_tokens := [access_row_of token1]\<rparr>"
  by (simp add: db11_def db10_tables scenario_simps CreateAccessAndRefreshTokens_def insert_pair_def new_family_def validateTokenSubject_def session_ok_def live_session_def Identity_def active_identity_def insertAccess_def access_row_of_def blank_token_def GetAudience_def ask_def active_app_def Client_def)

lemma db11_tables:
  shows "identities db11 = [ann]"
    "browser_sessions db11 = [ann_session]"
    "applications db11 = [app_row shop shop_secret, app_row vault shop_secret, app_row tv []]"
    "auth_requests db11 = [request1_used]"
    "token_families db11 = [family1]"
    "refresh_tokens db11 = [refresh1]"
    "access_tokens db11 = [access_row_of token1]"
    "link_intents db11 = [at_state Confirmed intent1]"
    "account_links db11 = []"
    "one_time_credentials db11 = []"
    "outbox db11 = []"
    "recovery_codes db11 = []"
    "device_authorizations db11 = []"
    "exchange_policies db11 = []"
    "exchange_consents db11 = []"
    "device_installations db11 = []"
    "rate_limits db11 = []"
    "outbox_attempts db11 = []"
  by (simp_all add: db11_eval db10_tables)

definition D_db11 :: drawn where
  "D_db11 = none(T_requests := {''r1''}, T_access := {''t1''})"

lemma db11_reach: "reach D_db11 db11"
  unfolding db11_def by (rule reach_drawing [OF db10_reach token_pair]) (auto simp: D_db11_def D_db7_def none_def fun_eq_iff notices_def)

definition db12 :: db where
  "db12 = snd (PrepareLink 0 0 ''shop'' ''i1'' ''n1'' ''ann'' db11)"

lemma db12_eval: "db12 = audit 0 ''ann'' ''link.prepare'' ''i1'' (db11\<lparr>account_links := [link1], link_intents := [at_state Prepared intent1]\<rparr>)"
  by (simp add: db12_def db11_tables scenario_simps PrepareLink_def set_intent_state_def)

lemma db12_tables:
  shows "identities db12 = [ann]"
    "browser_sessions db12 = [ann_session]"
    "applications db12 = [app_row shop shop_secret, app_row vault shop_secret, app_row tv []]"
    "auth_requests db12 = [request1_used]"
    "token_families db12 = [family1]"
    "refresh_tokens db12 = [refresh1]"
    "access_tokens db12 = [access_row_of token1]"
    "link_intents db12 = [at_state Prepared intent1]"
    "account_links db12 = [link1]"
    "one_time_credentials db12 = []"
    "outbox db12 = []"
    "recovery_codes db12 = []"
    "device_authorizations db12 = []"
    "exchange_policies db12 = []"
    "exchange_consents db12 = []"
    "device_installations db12 = []"
    "rate_limits db12 = []"
    "outbox_attempts db12 = []"
  by (simp_all add: db12_eval db11_tables)

lemma db12_reach: "reach D_db11 db12"
  unfolding db12_def by (rule reach_quiet [OF db11_reach prepare_link])

definition db13 :: db where
  "db13 = snd (ActivateLink 0 0 ''shop'' ''i1'' db12)"

lemma db13_eval: "db13 = audit 0 ''ann'' ''link.activate'' ''i1'' (db12\<lparr>account_links := [activate_row link1], link_intents := [at_state Linked intent1]\<rparr>)"
  by (simp add: db13_def db12_tables scenario_simps ActivateLink_def set_intent_state_def activate_row_def)

lemma db13_tables:
  shows "identities db13 = [ann]"
    "browser_sessions db13 = [ann_session]"
    "applications db13 = [app_row shop shop_secret, app_row vault shop_secret, app_row tv []]"
    "auth_requests db13 = [request1_used]"
    "token_families db13 = [family1]"
    "refresh_tokens db13 = [refresh1]"
    "access_tokens db13 = [access_row_of token1]"
    "link_intents db13 = [at_state Linked intent1]"
    "account_links db13 = [activate_row link1]"
    "one_time_credentials db13 = []"
    "outbox db13 = []"
    "recovery_codes db13 = []"
    "device_authorizations db13 = []"
    "exchange_policies db13 = []"
    "exchange_consents db13 = []"
    "device_installations db13 = []"
    "rate_limits db13 = []"
    "outbox_attempts db13 = []"
  by (simp_all add: db13_eval db12_tables)

lemma db13_reach: "reach D_db11 db13"
  unfolding db13_def by (rule reach_quiet [OF db12_reach activate_link])

definition db14 :: db where
  "db14 = snd (CreateLinkIntent 0 ''i2'' ''n2'' ''vault'' ''v3'' (replicate 16 CHR ''b'') db13)"

lemma db14_eval: "db14 = db13\<lparr>link_intents := [at_state Linked intent1, intent2]\<rparr>"
  by (simp add: db14_def db13_tables scenario_simps CreateLinkIntent_def intent_clash_def active_app_def Client_def)

lemma db14_tables:
  shows "identities db14 = [ann]"
    "browser_sessions db14 = [ann_session]"
    "applications db14 = [app_row shop shop_secret, app_row vault shop_secret, app_row tv []]"
    "auth_requests db14 = [request1_used]"
    "token_families db14 = [family1]"
    "refresh_tokens db14 = [refresh1]"
    "access_tokens db14 = [access_row_of token1]"
    "link_intents db14 = [at_state Linked intent1, intent2]"
    "account_links db14 = [activate_row link1]"
    "one_time_credentials db14 = []"
    "outbox db14 = []"
    "recovery_codes db14 = []"
    "device_authorizations db14 = []"
    "exchange_policies db14 = []"
    "exchange_consents db14 = []"
    "device_installations db14 = []"
    "rate_limits db14 = []"
    "outbox_attempts db14 = []"
  by (simp_all add: db14_eval db13_tables)

lemma db14_reach: "reach D_db11 db14"
  unfolding db14_def by (rule reach_quiet [OF db13_reach create_intent])

definition db15 :: db where
  "db15 = snd (CreateAuthRequest 0 0 ''r2'' (ask vault ''n2'') db14)"

lemma db15_eval: "db15 = db14\<lparr>auth_requests := [request1_used, request_row ''r2'' vault ''n2'']\<rparr>"
  by (simp add: db15_def db14_tables scenario_simps CreateAuthRequest_def ask_def PromptNone_def ScopeOpenID_def auth_request_clash_def active_app_def Client_def)

lemma db15_tables:
  shows "identities db15 = [ann]"
    "browser_sessions db15 = [ann_session]"
    "applications db15 = [app_row shop shop_secret, app_row vault shop_secret, app_row tv []]"
    "auth_requests db15 = [request1_used, request_row ''r2'' vault ''n2'']"
    "token_families db15 = [family1]"
    "refresh_tokens db15 = [refresh1]"
    "access_tokens db15 = [access_row_of token1]"
    "link_intents db15 = [at_state Linked intent1, intent2]"
    "account_links db15 = [activate_row link1]"
    "one_time_credentials db15 = []"
    "outbox db15 = []"
    "recovery_codes db15 = []"
    "device_authorizations db15 = []"
    "exchange_policies db15 = []"
    "exchange_consents db15 = []"
    "device_installations db15 = []"
    "rate_limits db15 = []"
    "outbox_attempts db15 = []"
  by (simp_all add: db15_eval db14_tables)

definition D_db15 :: drawn where
  "D_db15 = none(T_requests := {''r1''} \<union> {''r2''}, T_access := {''t1''})"

lemma db15_reach: "reach D_db15 db15"
  unfolding db15_def by (rule reach_drawing [OF db14_reach auth_request]) (auto simp: D_db15_def D_db11_def none_def fun_eq_iff notices_def)

definition db16 :: db where
  "db16 = snd (CompleteAuthorization 0 ''r2'' (view_session ann_session) db15)"

lemma db16_eval: "db16 = audit 0 ''ann'' ''oidc.authorize'' ''vault'' (db15\<lparr>auth_requests := [request1_used, request2], link_intents := [at_state Linked intent1, at_state Confirmed intent2]\<rparr>)"
  by (simp add: db16_def db15_tables scenario_simps CompleteAuthorization_def ask_def Identity_def view_session_def active_identity_def confirm_intents_def)

lemma db16_tables:
  shows "identities db16 = [ann]"
    "browser_sessions db16 = [ann_session]"
    "applications db16 = [app_row shop shop_secret, app_row vault shop_secret, app_row tv []]"
    "auth_requests db16 = [request1_used, request2]"
    "token_families db16 = [family1]"
    "refresh_tokens db16 = [refresh1]"
    "access_tokens db16 = [access_row_of token1]"
    "link_intents db16 = [at_state Linked intent1, at_state Confirmed intent2]"
    "account_links db16 = [activate_row link1]"
    "one_time_credentials db16 = []"
    "outbox db16 = []"
    "recovery_codes db16 = []"
    "device_authorizations db16 = []"
    "exchange_policies db16 = []"
    "exchange_consents db16 = []"
    "device_installations db16 = []"
    "rate_limits db16 = []"
    "outbox_attempts db16 = []"
  by (simp_all add: db16_eval db15_tables)

lemma db16_reach: "reach D_db15 db16"
  unfolding db16_def by (rule reach_quiet [OF db15_reach complete_authorization])

definition db17 :: db where
  "db17 = snd (PrepareLink 0 0 ''vault'' ''i2'' ''n2'' ''ann'' db16)"

lemma db17_eval: "db17 = audit 0 ''ann'' ''link.prepare'' ''i2'' (db16\<lparr>account_links := [activate_row link1, link2], link_intents := [at_state Linked intent1, at_state Prepared intent2]\<rparr>)"
  by (simp add: db17_def db16_tables scenario_simps PrepareLink_def set_intent_state_def link_clash_def activate_row_def)

lemma db17_tables:
  shows "identities db17 = [ann]"
    "browser_sessions db17 = [ann_session]"
    "applications db17 = [app_row shop shop_secret, app_row vault shop_secret, app_row tv []]"
    "auth_requests db17 = [request1_used, request2]"
    "token_families db17 = [family1]"
    "refresh_tokens db17 = [refresh1]"
    "access_tokens db17 = [access_row_of token1]"
    "link_intents db17 = [at_state Linked intent1, at_state Prepared intent2]"
    "account_links db17 = [activate_row link1, link2]"
    "one_time_credentials db17 = []"
    "outbox db17 = []"
    "recovery_codes db17 = []"
    "device_authorizations db17 = []"
    "exchange_policies db17 = []"
    "exchange_consents db17 = []"
    "device_installations db17 = []"
    "rate_limits db17 = []"
    "outbox_attempts db17 = []"
  by (simp_all add: db17_eval db16_tables)

lemma db17_reach: "reach D_db15 db17"
  unfolding db17_def by (rule reach_quiet [OF db16_reach prepare_link])

definition db18 :: db where
  "db18 = snd (ActivateLink 0 0 ''vault'' ''i2'' db17)"

lemma db18_eval: "db18 = audit 0 ''ann'' ''link.activate'' ''i2'' (db17\<lparr>account_links := [activate_row link1, activate_row link2], link_intents := [at_state Linked intent1, at_state Linked intent2]\<rparr>)"
  by (simp add: db18_def db17_tables scenario_simps ActivateLink_def set_intent_state_def activate_row_def)

lemma db18_tables:
  shows "identities db18 = [ann]"
    "browser_sessions db18 = [ann_session]"
    "applications db18 = [app_row shop shop_secret, app_row vault shop_secret, app_row tv []]"
    "auth_requests db18 = [request1_used, request2]"
    "token_families db18 = [family1]"
    "refresh_tokens db18 = [refresh1]"
    "access_tokens db18 = [access_row_of token1]"
    "link_intents db18 = [at_state Linked intent1, at_state Linked intent2]"
    "account_links db18 = [activate_row link1, activate_row link2]"
    "one_time_credentials db18 = []"
    "outbox db18 = []"
    "recovery_codes db18 = []"
    "device_authorizations db18 = []"
    "exchange_policies db18 = []"
    "exchange_consents db18 = []"
    "device_installations db18 = []"
    "rate_limits db18 = []"
    "outbox_attempts db18 = []"
  by (simp_all add: db18_eval db17_tables)

lemma db18_reach: "reach D_db15 db18"
  unfolding db18_def by (rule reach_quiet [OF db17_reach activate_link])

definition db19 :: db where
  "db19 = snd (SetExchangePolicy 0 ''ann'' ''shop'' ''vault'' ''files'' ''read'' True db18)"

lemma db19_eval: "db19 = audit 0 ''ann'' ''exchange.policy'' ''shop:vault:files:read'' (db18\<lparr>exchange_policies := [policy1]\<rparr>)"
  by (simp add: db19_def db18_tables scenario_simps SetExchangePolicy_def policy_clients_ok_def upsert_policy_def policy_target_def contains_any_def active_app_def Client_def)

lemma db19_tables:
  shows "identities db19 = [ann]"
    "browser_sessions db19 = [ann_session]"
    "applications db19 = [app_row shop shop_secret, app_row vault shop_secret, app_row tv []]"
    "auth_requests db19 = [request1_used, request2]"
    "token_families db19 = [family1]"
    "refresh_tokens db19 = [refresh1]"
    "access_tokens db19 = [access_row_of token1]"
    "link_intents db19 = [at_state Linked intent1, at_state Linked intent2]"
    "account_links db19 = [activate_row link1, activate_row link2]"
    "one_time_credentials db19 = []"
    "outbox db19 = []"
    "recovery_codes db19 = []"
    "device_authorizations db19 = []"
    "exchange_policies db19 = [policy1]"
    "exchange_consents db19 = []"
    "device_installations db19 = []"
    "rate_limits db19 = []"
    "outbox_attempts db19 = []"
  by (simp_all add: db19_eval db18_tables)

lemma db19_reach: "reach D_db15 db19"
  unfolding db19_def by (rule reach_quiet [OF db18_reach set_policy])

definition db20 :: db where
  "db20 = snd (SetExchangeConsent 0 ''ann'' ''shop'' ''vault'' ''files'' ''read'' True db19)"

lemma db20_eval: "db20 = audit 0 ''ann'' ''exchange.consent'' ''shop:vault:files:read'' (db19\<lparr>exchange_consents := [consent1]\<rparr>)"
  by (simp add: db20_def db19_tables scenario_simps SetExchangeConsent_def upsert_consent_def policy_at_def linked_def policy_target_def activate_row_def)

lemma db20_tables:
  shows "identities db20 = [ann]"
    "browser_sessions db20 = [ann_session]"
    "applications db20 = [app_row shop shop_secret, app_row vault shop_secret, app_row tv []]"
    "auth_requests db20 = [request1_used, request2]"
    "token_families db20 = [family1]"
    "refresh_tokens db20 = [refresh1]"
    "access_tokens db20 = [access_row_of token1]"
    "link_intents db20 = [at_state Linked intent1, at_state Linked intent2]"
    "account_links db20 = [activate_row link1, activate_row link2]"
    "one_time_credentials db20 = []"
    "outbox db20 = []"
    "recovery_codes db20 = []"
    "device_authorizations db20 = []"
    "exchange_policies db20 = [policy1]"
    "exchange_consents db20 = [consent1]"
    "device_installations db20 = []"
    "rate_limits db20 = []"
    "outbox_attempts db20 = []"
  by (simp_all add: db20_eval db19_tables)

lemma db20_reach: "reach D_db15 db20"
  unfolding db20_def by (rule reach_quiet [OF db19_reach set_consent])

definition db21 :: db where
  "db21 = snd (CreateAccessToken 0 0 ''t2'' (ExchangeRequest swap) db20)"

lemma db21_eval: "db21 = db20\<lparr>access_tokens := [access_row_of token1, access_row_of token2]\<rparr>"
  by (simp add: db21_def db20_tables scenario_simps CreateAccessToken_def exchange_source_def ActiveToken_def active_token.simps access_live_def family_live_def access_clash_def swap_def validateTokenSubject_def session_ok_def live_session_def Identity_def active_identity_def insertAccess_def access_row_of_def blank_token_def GetAudience_def ask_def active_app_def Client_def)

lemma db21_tables:
  shows "identities db21 = [ann]"
    "browser_sessions db21 = [ann_session]"
    "applications db21 = [app_row shop shop_secret, app_row vault shop_secret, app_row tv []]"
    "auth_requests db21 = [request1_used, request2]"
    "token_families db21 = [family1]"
    "refresh_tokens db21 = [refresh1]"
    "access_tokens db21 = [access_row_of token1, access_row_of token2]"
    "link_intents db21 = [at_state Linked intent1, at_state Linked intent2]"
    "account_links db21 = [activate_row link1, activate_row link2]"
    "one_time_credentials db21 = []"
    "outbox db21 = []"
    "recovery_codes db21 = []"
    "device_authorizations db21 = []"
    "exchange_policies db21 = [policy1]"
    "exchange_consents db21 = [consent1]"
    "device_installations db21 = []"
    "rate_limits db21 = []"
    "outbox_attempts db21 = []"
  by (simp_all add: db21_eval db20_tables)

definition D_db21 :: drawn where
  "D_db21 = none(T_requests := {''r1''} \<union> {''r2''}, T_access := {''t1''} \<union> {''t2''})"

lemma db21_reach: "reach D_db21 db21"
  unfolding db21_def by (rule reach_drawing [OF db20_reach access_token]) (auto simp: D_db21_def D_db15_def none_def fun_eq_iff notices_def)

definition db22 :: db where
  "db22 = snd (StoreDeviceAuthorization 0 ''tv'' ''dc'' ''WXZZ-BCDF'' (minutes 10) [''openid''] db21)"

lemma db22_eval: "db22 = db21\<lparr>rate_limits := [rate1], device_authorizations := [device1]\<rparr>"
  by (simp add: db22_def db21_tables scenario_simps StoreDeviceAuthorization_def rate1_def Allow_def upsert_rate_def ScopeOpenID_def ScopeOfflineAccess_def active_app_def Client_def)

lemma db22_tables:
  shows "identities db22 = [ann]"
    "browser_sessions db22 = [ann_session]"
    "applications db22 = [app_row shop shop_secret, app_row vault shop_secret, app_row tv []]"
    "auth_requests db22 = [request1_used, request2]"
    "token_families db22 = [family1]"
    "refresh_tokens db22 = [refresh1]"
    "access_tokens db22 = [access_row_of token1, access_row_of token2]"
    "link_intents db22 = [at_state Linked intent1, at_state Linked intent2]"
    "account_links db22 = [activate_row link1, activate_row link2]"
    "one_time_credentials db22 = []"
    "outbox db22 = []"
    "recovery_codes db22 = []"
    "device_authorizations db22 = [device1]"
    "exchange_policies db22 = [policy1]"
    "exchange_consents db22 = [consent1]"
    "device_installations db22 = []"
    "rate_limits db22 = [rate1]"
    "outbox_attempts db22 = []"
  by (simp_all add: db22_eval db21_tables)

definition D_db22 :: drawn where
  "D_db22 = none(T_requests := {''r1''} \<union> {''r2''}, T_access := {''t1''} \<union> {''t2''}, T_devices := {Hash ''dc''})"

lemma db22_reach: "reach D_db22 db22"
  unfolding db22_def by (rule reach_drawing [OF db21_reach store_device]) (auto simp: D_db22_def D_db21_def none_def fun_eq_iff notices_def)

definition db23 :: db where
  "db23 = snd (ConfirmDevice 0 ''wxzz-bcdf'' ''ann'' True db22)"

lemma db23_eval: "db23 = audit 0 ''ann'' ''device.approved'' ''tv'' (db22\<lparr>device_authorizations := [device1_approved]\<rparr>)"
  by (simp add: db23_def db22_tables scenario_simps ConfirmDevice_def device_open_def active_app_def active_identity_def)

lemma db23_tables:
  shows "identities db23 = [ann]"
    "browser_sessions db23 = [ann_session]"
    "applications db23 = [app_row shop shop_secret, app_row vault shop_secret, app_row tv []]"
    "auth_requests db23 = [request1_used, request2]"
    "token_families db23 = [family1]"
    "refresh_tokens db23 = [refresh1]"
    "access_tokens db23 = [access_row_of token1, access_row_of token2]"
    "link_intents db23 = [at_state Linked intent1, at_state Linked intent2]"
    "account_links db23 = [activate_row link1, activate_row link2]"
    "one_time_credentials db23 = []"
    "outbox db23 = []"
    "recovery_codes db23 = []"
    "device_authorizations db23 = [device1_approved]"
    "exchange_policies db23 = [policy1]"
    "exchange_consents db23 = [consent1]"
    "device_installations db23 = []"
    "rate_limits db23 = [rate1]"
    "outbox_attempts db23 = []"
  by (simp_all add: db23_eval db22_tables)

lemma db23_reach: "reach D_db22 db23"
  unfolding db23_def by (rule reach_quiet [OF db22_reach confirm_device])

definition db24 :: db where
  "db24 = snd (GetDeviceAuthorizatonState 0 0 ''tv'' ''dc'' db23)"

lemma db24_eval: "db24 = db23\<lparr>device_authorizations := [device1_approved\<lparr>d_status := DeviceConsumed\<rparr>]\<rparr>"
  by (simp add: db24_def db23_tables scenario_simps GetDeviceAuthorizatonState_def update_device_def active_identity_def)

lemma db24_tables:
  shows "identities db24 = [ann]"
    "browser_sessions db24 = [ann_session]"
    "applications db24 = [app_row shop shop_secret, app_row vault shop_secret, app_row tv []]"
    "auth_requests db24 = [request1_used, request2]"
    "token_families db24 = [family1]"
    "refresh_tokens db24 = [refresh1]"
    "access_tokens db24 = [access_row_of token1, access_row_of token2]"
    "link_intents db24 = [at_state Linked intent1, at_state Linked intent2]"
    "account_links db24 = [activate_row link1, activate_row link2]"
    "one_time_credentials db24 = []"
    "outbox db24 = []"
    "recovery_codes db24 = []"
    "device_authorizations db24 = [device1_approved\<lparr>d_status := DeviceConsumed\<rparr>]"
    "exchange_policies db24 = [policy1]"
    "exchange_consents db24 = [consent1]"
    "device_installations db24 = []"
    "rate_limits db24 = [rate1]"
    "outbox_attempts db24 = []"
  by (simp_all add: db24_eval db23_tables)

lemma db24_reach: "reach D_db22 db24"
  unfolding db24_def by (rule reach_quiet [OF db23_reach poll_device])

definition db25 :: db where
  "db25 = snd (CreateAccessToken 0 0 ''t3'' (DeviceRequestState device_done) db24)"

lemma db25_eval: "db25 = db24\<lparr>access_tokens := [access_row_of token1, access_row_of token2, access_row_of token3]\<rparr>"
  by (simp add: db25_def db24_tables scenario_simps CreateAccessToken_def exchange_source_def access_clash_def validateTokenSubject_def session_ok_def live_session_def Identity_def active_identity_def insertAccess_def access_row_of_def blank_token_def GetAudience_def ask_def active_app_def Client_def)

lemma db25_tables:
  shows "identities db25 = [ann]"
    "browser_sessions db25 = [ann_session]"
    "applications db25 = [app_row shop shop_secret, app_row vault shop_secret, app_row tv []]"
    "auth_requests db25 = [request1_used, request2]"
    "token_families db25 = [family1]"
    "refresh_tokens db25 = [refresh1]"
    "access_tokens db25 = [access_row_of token1, access_row_of token2, access_row_of token3]"
    "link_intents db25 = [at_state Linked intent1, at_state Linked intent2]"
    "account_links db25 = [activate_row link1, activate_row link2]"
    "one_time_credentials db25 = []"
    "outbox db25 = []"
    "recovery_codes db25 = []"
    "device_authorizations db25 = [device1_approved\<lparr>d_status := DeviceConsumed\<rparr>]"
    "exchange_policies db25 = [policy1]"
    "exchange_consents db25 = [consent1]"
    "device_installations db25 = []"
    "rate_limits db25 = [rate1]"
    "outbox_attempts db25 = []"
  by (simp_all add: db25_eval db24_tables)

definition D_db25 :: drawn where
  "D_db25 = none(T_requests := {''r1''} \<union> {''r2''}, T_access := {''t1''} \<union> {''t2''} \<union> {''t3''}, T_devices := {Hash ''dc''})"

lemma db25_reach: "reach D_db25 db25"
  unfolding db25_def by (rule reach_drawing [OF db24_reach access_token]) (auto simp: D_db25_def D_db22_def none_def fun_eq_iff notices_def)

definition db26 :: db where
  "db26 = snd (RegisterDeviceInstallation 0 ''mgmt'' ''k1'' token3 the_ref db25)"

lemma db26_eval: "db26 = db25\<lparr>device_installations := [installation1]\<rparr>"
  by (simp add: db26_def db25_tables scenario_simps RegisterDeviceInstallation_def ActiveToken_def active_token.simps access_live_def validateTokenSubject_def session_ok_def live_session_def Identity_def active_identity_def insertAccess_def access_row_of_def blank_token_def GetAudience_def ask_def active_app_def Client_def)

lemma db26_tables:
  shows "identities db26 = [ann]"
    "browser_sessions db26 = [ann_session]"
    "applications db26 = [app_row shop shop_secret, app_row vault shop_secret, app_row tv []]"
    "auth_requests db26 = [request1_used, request2]"
    "token_families db26 = [family1]"
    "refresh_tokens db26 = [refresh1]"
    "access_tokens db26 = [access_row_of token1, access_row_of token2, access_row_of token3]"
    "link_intents db26 = [at_state Linked intent1, at_state Linked intent2]"
    "account_links db26 = [activate_row link1, activate_row link2]"
    "one_time_credentials db26 = []"
    "outbox db26 = []"
    "recovery_codes db26 = []"
    "device_authorizations db26 = [device1_approved\<lparr>d_status := DeviceConsumed\<rparr>]"
    "exchange_policies db26 = [policy1]"
    "exchange_consents db26 = [consent1]"
    "device_installations db26 = [installation1]"
    "rate_limits db26 = [rate1]"
    "outbox_attempts db26 = []"
  by (simp_all add: db26_eval db25_tables)

lemma db26_reach: "reach D_db25 db26"
  unfolding db26_def by (rule reach_quiet [OF db25_reach register_installation])

definition db27 :: db where
  "db27 = snd (CreateAccessAndRefreshTokens 0 0 ''t4'' ''f0'' ''def'' (RefreshRequest token1) ''abc'' db26)"

lemma db27_eval: "db27 = db26\<lparr>refresh_tokens := [refresh1\<lparr>rt_consumed_at := Some 0\<rparr>, refresh2], access_tokens := [access_row_of token1, access_row_of token2, access_row_of token3, access_row_of token4]\<rparr>"
  by (simp add: db27_def db26_tables scenario_simps CreateAccessAndRefreshTokens_def insert_pair_def refresh_with_family_def consume_refresh_def refresh_clash_def access_clash_def validateTokenSubject_def session_ok_def live_session_def Identity_def active_identity_def insertAccess_def access_row_of_def blank_token_def GetAudience_def ask_def active_app_def Client_def)

lemma db27_tables:
  shows "identities db27 = [ann]"
    "browser_sessions db27 = [ann_session]"
    "applications db27 = [app_row shop shop_secret, app_row vault shop_secret, app_row tv []]"
    "auth_requests db27 = [request1_used, request2]"
    "token_families db27 = [family1]"
    "refresh_tokens db27 = [refresh1\<lparr>rt_consumed_at := Some 0\<rparr>, refresh2]"
    "access_tokens db27 = [access_row_of token1, access_row_of token2, access_row_of token3, access_row_of token4]"
    "link_intents db27 = [at_state Linked intent1, at_state Linked intent2]"
    "account_links db27 = [activate_row link1, activate_row link2]"
    "one_time_credentials db27 = []"
    "outbox db27 = []"
    "recovery_codes db27 = []"
    "device_authorizations db27 = [device1_approved\<lparr>d_status := DeviceConsumed\<rparr>]"
    "exchange_policies db27 = [policy1]"
    "exchange_consents db27 = [consent1]"
    "device_installations db27 = [installation1]"
    "rate_limits db27 = [rate1]"
    "outbox_attempts db27 = []"
  by (simp_all add: db27_eval db26_tables)

definition D_db27 :: drawn where
  "D_db27 = none(T_requests := {''r1''} \<union> {''r2''}, T_access := {''t1''} \<union> {''t2''} \<union> {''t3''} \<union> {''t4''}, T_devices := {Hash ''dc''})"

lemma db27_reach: "reach D_db27 db27"
  unfolding db27_def by (rule reach_drawing [OF db26_reach token_pair]) (auto simp: D_db27_def D_db25_def none_def fun_eq_iff notices_def)

definition db28 :: db where
  "db28 = snd (LogoutSession (seconds 9) notices ''ann'' ''s1'' db27)"

lemma db28_eval: "db28 = audit (seconds 9) ''ann'' ''session.logout'' ''s1'' (db27\<lparr>browser_sessions := [ann_session\<lparr>s_revoked_at := Some (seconds 9)\<rparr>], token_families := [family1\<lparr>f_revoked_at := Some (seconds 9)\<rparr>], access_tokens := [(access_row_of token1)\<lparr>t_revoked_at := Some (seconds 9)\<rparr>, (access_row_of token2)\<lparr>t_revoked_at := Some (seconds 9)\<rparr>, access_row_of token3, (access_row_of token4)\<lparr>t_revoked_at := Some (seconds 9)\<rparr>], outbox := [notice 0 ''shop'', notice 1 ''vault'']\<rparr>)"
  by (simp add: db28_def db27_tables scenario_simps LogoutSession_def revoke_access_def revoke_families_def stamp_rows_def queueLogout_def linked_clients_def numbered_def outbox_event_def outbox_clash_def notices_def activate_row_def access_row_of_def active_app_def)

lemma db28_tables:
  shows "identities db28 = [ann]"
    "browser_sessions db28 = [ann_session\<lparr>s_revoked_at := Some (seconds 9)\<rparr>]"
    "applications db28 = [app_row shop shop_secret, app_row vault shop_secret, app_row tv []]"
    "auth_requests db28 = [request1_used, request2]"
    "token_families db28 = [family1\<lparr>f_revoked_at := Some (seconds 9)\<rparr>]"
    "refresh_tokens db28 = [refresh1\<lparr>rt_consumed_at := Some 0\<rparr>, refresh2]"
    "access_tokens db28 = [(access_row_of token1)\<lparr>t_revoked_at := Some (seconds 9)\<rparr>, (access_row_of token2)\<lparr>t_revoked_at := Some (seconds 9)\<rparr>, access_row_of token3, (access_row_of token4)\<lparr>t_revoked_at := Some (seconds 9)\<rparr>]"
    "link_intents db28 = [at_state Linked intent1, at_state Linked intent2]"
    "account_links db28 = [activate_row link1, activate_row link2]"
    "one_time_credentials db28 = []"
    "outbox db28 = [notice 0 ''shop'', notice 1 ''vault'']"
    "recovery_codes db28 = []"
    "device_authorizations db28 = [device1_approved\<lparr>d_status := DeviceConsumed\<rparr>]"
    "exchange_policies db28 = [policy1]"
    "exchange_consents db28 = [consent1]"
    "device_installations db28 = [installation1]"
    "rate_limits db28 = [rate1]"
    "outbox_attempts db28 = []"
  by (simp_all add: db28_eval db27_tables)

definition D_db28 :: drawn where
  "D_db28 = none(T_requests := {''r1''} \<union> {''r2''}, T_access := {''t1''} \<union> {''t2''} \<union> {''t3''} \<union> {''t4''}, T_devices := {Hash ''dc''}, T_outbox := range notices)"

lemma db28_reach: "reach D_db28 db28"
  unfolding db28_def by (rule reach_drawing [OF db27_reach logout_session]) (auto simp: D_db28_def D_db27_def none_def fun_eq_iff notices_def)

definition db29 :: db where
  "db29 = snd (claim_event (seconds 10) ''L'' db28)"

lemma db29_eval: "db29 = db28\<lparr>outbox := [lease_row (seconds 10) ''L'' (notice 0 ''shop''), notice 1 ''vault'']\<rparr>"
  by (simp add: db29_def db28_tables scenario_simps claim_event_def claimable_def outbox_event_def due_before_def notices_def lease_row_def)

lemma db29_tables:
  shows "identities db29 = [ann]"
    "browser_sessions db29 = [ann_session\<lparr>s_revoked_at := Some (seconds 9)\<rparr>]"
    "applications db29 = [app_row shop shop_secret, app_row vault shop_secret, app_row tv []]"
    "auth_requests db29 = [request1_used, request2]"
    "token_families db29 = [family1\<lparr>f_revoked_at := Some (seconds 9)\<rparr>]"
    "refresh_tokens db29 = [refresh1\<lparr>rt_consumed_at := Some 0\<rparr>, refresh2]"
    "access_tokens db29 = [(access_row_of token1)\<lparr>t_revoked_at := Some (seconds 9)\<rparr>, (access_row_of token2)\<lparr>t_revoked_at := Some (seconds 9)\<rparr>, access_row_of token3, (access_row_of token4)\<lparr>t_revoked_at := Some (seconds 9)\<rparr>]"
    "link_intents db29 = [at_state Linked intent1, at_state Linked intent2]"
    "account_links db29 = [activate_row link1, activate_row link2]"
    "one_time_credentials db29 = []"
    "outbox db29 = [lease_row (seconds 10) ''L'' (notice 0 ''shop''), notice 1 ''vault'']"
    "recovery_codes db29 = []"
    "device_authorizations db29 = [device1_approved\<lparr>d_status := DeviceConsumed\<rparr>]"
    "exchange_policies db29 = [policy1]"
    "exchange_consents db29 = [consent1]"
    "device_installations db29 = [installation1]"
    "rate_limits db29 = [rate1]"
    "outbox_attempts db29 = []"
  by (simp_all add: db29_eval db28_tables)

lemma db29_reach: "reach D_db28 db29"
  unfolding db29_def by (rule reach_quiet [OF db28_reach claim])

definition db30 :: db where
  "db30 = (complete_event (seconds 11) ''o'' ''L'' 200 1 Delivered 5 db29)"

lemma db30_eval: "db30 = db29\<lparr>outbox := [notice_sent, notice 1 ''vault''], outbox_attempts := [sent_attempt]\<rparr>"
  by (simp add: db30_def db29_tables scenario_simps complete_event_def complete_row_def lease_row_def outbox_event_def notices_def retry_delay_def sent_attempt_def)

lemma db30_tables:
  shows "identities db30 = [ann]"
    "browser_sessions db30 = [ann_session\<lparr>s_revoked_at := Some (seconds 9)\<rparr>]"
    "applications db30 = [app_row shop shop_secret, app_row vault shop_secret, app_row tv []]"
    "auth_requests db30 = [request1_used, request2]"
    "token_families db30 = [family1\<lparr>f_revoked_at := Some (seconds 9)\<rparr>]"
    "refresh_tokens db30 = [refresh1\<lparr>rt_consumed_at := Some 0\<rparr>, refresh2]"
    "access_tokens db30 = [(access_row_of token1)\<lparr>t_revoked_at := Some (seconds 9)\<rparr>, (access_row_of token2)\<lparr>t_revoked_at := Some (seconds 9)\<rparr>, access_row_of token3, (access_row_of token4)\<lparr>t_revoked_at := Some (seconds 9)\<rparr>]"
    "link_intents db30 = [at_state Linked intent1, at_state Linked intent2]"
    "account_links db30 = [activate_row link1, activate_row link2]"
    "one_time_credentials db30 = []"
    "outbox db30 = [notice_sent, notice 1 ''vault'']"
    "recovery_codes db30 = []"
    "device_authorizations db30 = [device1_approved\<lparr>d_status := DeviceConsumed\<rparr>]"
    "exchange_policies db30 = [policy1]"
    "exchange_consents db30 = [consent1]"
    "device_installations db30 = [installation1]"
    "rate_limits db30 = [rate1]"
    "outbox_attempts db30 = [sent_attempt]"
  by (simp_all add: db30_eval db29_tables)

lemma db30_reach: "reach D_db28 db30"
  unfolding db30_def by (rule reach_quiet [OF db29_reach complete])

definition db31 :: db where
  "db31 = snd (IssueCredential Some 0 ''inv'' ''ann'' ''invite'' ''b@x.y'' db30)"

lemma db31_eval: "db31 = audit 0 ''ann'' ''credential.issue.invite'' ''b@x.y'' (db30\<lparr>one_time_credentials := [invitation]\<rparr>)"
  by (simp add: db31_def db30_tables scenario_simps IssueCredential_def parse_kind_def)

lemma db31_tables:
  shows "identities db31 = [ann]"
    "browser_sessions db31 = [ann_session\<lparr>s_revoked_at := Some (seconds 9)\<rparr>]"
    "applications db31 = [app_row shop shop_secret, app_row vault shop_secret, app_row tv []]"
    "auth_requests db31 = [request1_used, request2]"
    "token_families db31 = [family1\<lparr>f_revoked_at := Some (seconds 9)\<rparr>]"
    "refresh_tokens db31 = [refresh1\<lparr>rt_consumed_at := Some 0\<rparr>, refresh2]"
    "access_tokens db31 = [(access_row_of token1)\<lparr>t_revoked_at := Some (seconds 9)\<rparr>, (access_row_of token2)\<lparr>t_revoked_at := Some (seconds 9)\<rparr>, access_row_of token3, (access_row_of token4)\<lparr>t_revoked_at := Some (seconds 9)\<rparr>]"
    "link_intents db31 = [at_state Linked intent1, at_state Linked intent2]"
    "account_links db31 = [activate_row link1, activate_row link2]"
    "one_time_credentials db31 = [invitation]"
    "outbox db31 = [notice_sent, notice 1 ''vault'']"
    "recovery_codes db31 = []"
    "device_authorizations db31 = [device1_approved\<lparr>d_status := DeviceConsumed\<rparr>]"
    "exchange_policies db31 = [policy1]"
    "exchange_consents db31 = [consent1]"
    "device_installations db31 = [installation1]"
    "rate_limits db31 = [rate1]"
    "outbox_attempts db31 = [sent_attempt]"
  by (simp_all add: db31_eval db30_tables)

lemma db31_reach: "reach D_db28 db31"
  unfolding db31_def by (rule reach_quiet [OF db30_reach issue_credential])

definition db32 :: db where
  "db32 = snd (RedeemCredential kdf_example 1 salt ''bob'' (\<lambda>n. ''q'' @ replicate n CHR ''q'') ''invite'' ''inv'' ''Bob'' ''correct horse'' db31)"

lemma db32_eval: "db32 = audit 1 ''bob'' ''credential.redeem.invite'' ''bob'' (db31\<lparr>one_time_credentials := [invitation\<lparr>c_consumed_at := Some 1\<rparr>], identities := [ann, bob]\<rparr>)"
  by (simp add: db32_def db31_tables scenario_simps RedeemCredential_def usable_credential_def consume_credential_def identity_clash_def trim_space_def is_space_def)

lemma db32_tables:
  shows "identities db32 = [ann, bob]"
    "browser_sessions db32 = [ann_session\<lparr>s_revoked_at := Some (seconds 9)\<rparr>]"
    "applications db32 = [app_row shop shop_secret, app_row vault shop_secret, app_row tv []]"
    "auth_requests db32 = [request1_used, request2]"
    "token_families db32 = [family1\<lparr>f_revoked_at := Some (seconds 9)\<rparr>]"
    "refresh_tokens db32 = [refresh1\<lparr>rt_consumed_at := Some 0\<rparr>, refresh2]"
    "access_tokens db32 = [(access_row_of token1)\<lparr>t_revoked_at := Some (seconds 9)\<rparr>, (access_row_of token2)\<lparr>t_revoked_at := Some (seconds 9)\<rparr>, access_row_of token3, (access_row_of token4)\<lparr>t_revoked_at := Some (seconds 9)\<rparr>]"
    "link_intents db32 = [at_state Linked intent1, at_state Linked intent2]"
    "account_links db32 = [activate_row link1, activate_row link2]"
    "one_time_credentials db32 = [invitation\<lparr>c_consumed_at := Some 1\<rparr>]"
    "outbox db32 = [notice_sent, notice 1 ''vault'']"
    "recovery_codes db32 = []"
    "device_authorizations db32 = [device1_approved\<lparr>d_status := DeviceConsumed\<rparr>]"
    "exchange_policies db32 = [policy1]"
    "exchange_consents db32 = [consent1]"
    "device_installations db32 = [installation1]"
    "rate_limits db32 = [rate1]"
    "outbox_attempts db32 = [sent_attempt]"
  by (simp_all add: db32_eval db31_tables)

definition D_db32 :: drawn where
  "D_db32 = none(T_requests := {''r1''} \<union> {''r2''}, T_access := {''t1''} \<union> {''t2''} \<union> {''t3''} \<union> {''t4''}, T_devices := {Hash ''dc''}, T_outbox := range notices \<union> range (\<lambda>n. ''q'' @ replicate n CHR ''q''))"

lemma db32_reach: "reach D_db32 db32"
  unfolding db32_def by (rule reach_drawing [OF db31_reach redeem_credential]) (auto simp: D_db32_def D_db28_def none_def fun_eq_iff notices_def)

definition db33 :: db where
  "db33 = snd (NewSession 2 ''def'' ''csrf'' ''s2'' ''bob'' db32)"

lemma db33_eval: "db33 = db32\<lparr>browser_sessions := [ann_session\<lparr>s_revoked_at := Some (seconds 9)\<rparr>, bob_session]\<rparr>"
  by (simp add: db33_def db32_tables scenario_simps NewSession_def active_identity_def session_clash_def)

lemma db33_tables:
  shows "identities db33 = [ann, bob]"
    "browser_sessions db33 = [ann_session\<lparr>s_revoked_at := Some (seconds 9)\<rparr>, bob_session]"
    "applications db33 = [app_row shop shop_secret, app_row vault shop_secret, app_row tv []]"
    "auth_requests db33 = [request1_used, request2]"
    "token_families db33 = [family1\<lparr>f_revoked_at := Some (seconds 9)\<rparr>]"
    "refresh_tokens db33 = [refresh1\<lparr>rt_consumed_at := Some 0\<rparr>, refresh2]"
    "access_tokens db33 = [(access_row_of token1)\<lparr>t_revoked_at := Some (seconds 9)\<rparr>, (access_row_of token2)\<lparr>t_revoked_at := Some (seconds 9)\<rparr>, access_row_of token3, (access_row_of token4)\<lparr>t_revoked_at := Some (seconds 9)\<rparr>]"
    "link_intents db33 = [at_state Linked intent1, at_state Linked intent2]"
    "account_links db33 = [activate_row link1, activate_row link2]"
    "one_time_credentials db33 = [invitation\<lparr>c_consumed_at := Some 1\<rparr>]"
    "outbox db33 = [notice_sent, notice 1 ''vault'']"
    "recovery_codes db33 = []"
    "device_authorizations db33 = [device1_approved\<lparr>d_status := DeviceConsumed\<rparr>]"
    "exchange_policies db33 = [policy1]"
    "exchange_consents db33 = [consent1]"
    "device_installations db33 = [installation1]"
    "rate_limits db33 = [rate1]"
    "outbox_attempts db33 = [sent_attempt]"
  by (simp_all add: db33_eval db32_tables)

lemma db33_reach: "reach D_db32 db33"
  unfolding db33_def by (rule reach_quiet [OF db32_reach new_session])

definition db34 :: db where
  "db34 = snd (CreateAccessToken 2 2 ''t5'' (DeviceRequestState (device_done\<lparr>ds_subject := ''bob''\<rparr>)) db33)"

lemma db34_eval: "db34 = db33\<lparr>access_tokens := [(access_row_of token1)\<lparr>t_revoked_at := Some (seconds 9)\<rparr>, (access_row_of token2)\<lparr>t_revoked_at := Some (seconds 9)\<rparr>, access_row_of token3, (access_row_of token4)\<lparr>t_revoked_at := Some (seconds 9)\<rparr>, access_row_of token5]\<rparr>"
  by (simp add: db34_def db33_tables scenario_simps CreateAccessToken_def exchange_source_def access_clash_def validateTokenSubject_def session_ok_def live_session_def Identity_def active_identity_def insertAccess_def access_row_of_def blank_token_def GetAudience_def ask_def active_app_def Client_def)

lemma db34_tables:
  shows "identities db34 = [ann, bob]"
    "browser_sessions db34 = [ann_session\<lparr>s_revoked_at := Some (seconds 9)\<rparr>, bob_session]"
    "applications db34 = [app_row shop shop_secret, app_row vault shop_secret, app_row tv []]"
    "auth_requests db34 = [request1_used, request2]"
    "token_families db34 = [family1\<lparr>f_revoked_at := Some (seconds 9)\<rparr>]"
    "refresh_tokens db34 = [refresh1\<lparr>rt_consumed_at := Some 0\<rparr>, refresh2]"
    "access_tokens db34 = [(access_row_of token1)\<lparr>t_revoked_at := Some (seconds 9)\<rparr>, (access_row_of token2)\<lparr>t_revoked_at := Some (seconds 9)\<rparr>, access_row_of token3, (access_row_of token4)\<lparr>t_revoked_at := Some (seconds 9)\<rparr>, access_row_of token5]"
    "link_intents db34 = [at_state Linked intent1, at_state Linked intent2]"
    "account_links db34 = [activate_row link1, activate_row link2]"
    "one_time_credentials db34 = [invitation\<lparr>c_consumed_at := Some 1\<rparr>]"
    "outbox db34 = [notice_sent, notice 1 ''vault'']"
    "recovery_codes db34 = []"
    "device_authorizations db34 = [device1_approved\<lparr>d_status := DeviceConsumed\<rparr>]"
    "exchange_policies db34 = [policy1]"
    "exchange_consents db34 = [consent1]"
    "device_installations db34 = [installation1]"
    "rate_limits db34 = [rate1]"
    "outbox_attempts db34 = [sent_attempt]"
  by (simp_all add: db34_eval db33_tables)

definition D_db34 :: drawn where
  "D_db34 = none(T_requests := {''r1''} \<union> {''r2''}, T_access := {''t1''} \<union> {''t2''} \<union> {''t3''} \<union> {''t4''} \<union> {''t5''}, T_devices := {Hash ''dc''}, T_outbox := range notices \<union> range (\<lambda>n. ''q'' @ replicate n CHR ''q''))"

lemma db34_reach: "reach D_db34 db34"
  unfolding db34_def by (rule reach_drawing [OF db33_reach access_token]) (auto simp: D_db34_def D_db32_def none_def fun_eq_iff notices_def)

definition db35 :: db where
  "db35 = snd (BeginMFA Inr 0 (''seed'', ''url'') ''bob'' db34)"

lemma db35_eval: "db35 = db34\<lparr>identities := [ann, bob_enrolling]\<rparr>"
  by (simp add: db35_def db34_tables scenario_simps BeginMFA_def Identity_def active_identity_def)

lemma db35_tables:
  shows "identities db35 = [ann, bob_enrolling]"
    "browser_sessions db35 = [ann_session\<lparr>s_revoked_at := Some (seconds 9)\<rparr>, bob_session]"
    "applications db35 = [app_row shop shop_secret, app_row vault shop_secret, app_row tv []]"
    "auth_requests db35 = [request1_used, request2]"
    "token_families db35 = [family1\<lparr>f_revoked_at := Some (seconds 9)\<rparr>]"
    "refresh_tokens db35 = [refresh1\<lparr>rt_consumed_at := Some 0\<rparr>, refresh2]"
    "access_tokens db35 = [(access_row_of token1)\<lparr>t_revoked_at := Some (seconds 9)\<rparr>, (access_row_of token2)\<lparr>t_revoked_at := Some (seconds 9)\<rparr>, access_row_of token3, (access_row_of token4)\<lparr>t_revoked_at := Some (seconds 9)\<rparr>, access_row_of token5]"
    "link_intents db35 = [at_state Linked intent1, at_state Linked intent2]"
    "account_links db35 = [activate_row link1, activate_row link2]"
    "one_time_credentials db35 = [invitation\<lparr>c_consumed_at := Some 1\<rparr>]"
    "outbox db35 = [notice_sent, notice 1 ''vault'']"
    "recovery_codes db35 = []"
    "device_authorizations db35 = [device1_approved\<lparr>d_status := DeviceConsumed\<rparr>]"
    "exchange_policies db35 = [policy1]"
    "exchange_consents db35 = [consent1]"
    "device_installations db35 = [installation1]"
    "rate_limits db35 = [rate1]"
    "outbox_attempts db35 = [sent_attempt]"
  by (simp_all add: db35_eval db34_tables)

lemma db35_reach: "reach D_db34 db35"
  unfolding db35_def by (rule reach_quiet [OF db34_reach begin_mfa])

definition db36 :: db where
  "db36 = snd (ConfirmMFA Inr totp_example 0 0 [''recovery-code''] ''bob'' ''s2'' ''000000'' db35)"

lemma db36_eval: "db36 = audit 0 ''bob'' ''mfa.enroll'' ''bob'' (db35\<lparr>identities := [ann, bob_enrolled], recovery_codes := [recovery_row_of ''bob'' ''recovery-code''], browser_sessions := [ann_session\<lparr>s_revoked_at := Some (seconds 9)\<rparr>, bob_session\<lparr>s_mfa_at := Some 0\<rparr>]\<rparr>)"
  by (simp add: db36_def db35_tables scenario_simps ConfirmMFA_def active_identity_def totpStep_def totp_matches_def totp_example_def recovery_row_of_def constant_time_compare_eq)

lemma db36_tables:
  shows "identities db36 = [ann, bob_enrolled]"
    "browser_sessions db36 = [ann_session\<lparr>s_revoked_at := Some (seconds 9)\<rparr>, bob_session\<lparr>s_mfa_at := Some 0\<rparr>]"
    "applications db36 = [app_row shop shop_secret, app_row vault shop_secret, app_row tv []]"
    "auth_requests db36 = [request1_used, request2]"
    "token_families db36 = [family1\<lparr>f_revoked_at := Some (seconds 9)\<rparr>]"
    "refresh_tokens db36 = [refresh1\<lparr>rt_consumed_at := Some 0\<rparr>, refresh2]"
    "access_tokens db36 = [(access_row_of token1)\<lparr>t_revoked_at := Some (seconds 9)\<rparr>, (access_row_of token2)\<lparr>t_revoked_at := Some (seconds 9)\<rparr>, access_row_of token3, (access_row_of token4)\<lparr>t_revoked_at := Some (seconds 9)\<rparr>, access_row_of token5]"
    "link_intents db36 = [at_state Linked intent1, at_state Linked intent2]"
    "account_links db36 = [activate_row link1, activate_row link2]"
    "one_time_credentials db36 = [invitation\<lparr>c_consumed_at := Some 1\<rparr>]"
    "outbox db36 = [notice_sent, notice 1 ''vault'']"
    "recovery_codes db36 = [recovery_row_of ''bob'' ''recovery-code'']"
    "device_authorizations db36 = [device1_approved\<lparr>d_status := DeviceConsumed\<rparr>]"
    "exchange_policies db36 = [policy1]"
    "exchange_consents db36 = [consent1]"
    "device_installations db36 = [installation1]"
    "rate_limits db36 = [rate1]"
    "outbox_attempts db36 = [sent_attempt]"
  by (simp_all add: db36_eval db35_tables)

definition D_db36 :: drawn where
  "D_db36 = none(T_requests := {''r1''} \<union> {''r2''}, T_access := {''t1''} \<union> {''t2''} \<union> {''t3''} \<union> {''t4''} \<union> {''t5''}, T_devices := {Hash ''dc''}, T_outbox := range notices \<union> range (\<lambda>n. ''q'' @ replicate n CHR ''q''), T_recovery := Hash ` set [''recovery-code''])"

lemma db36_reach: "reach D_db36 db36"
  unfolding db36_def by (rule reach_drawing [OF db35_reach confirm_mfa]) (auto simp: D_db36_def D_db34_def none_def fun_eq_iff notices_def)

end
