(* ===== verification/Guarantees.thy ===== *)
theory Guarantees
  imports Scenario
begin

text \<open>What the operations guarantee over a whole run: rows found at the start of a run are found again at its end, further
along their histories (run_rows, run_later), so what was revoked, consumed or delivered stays so. Each theorem is applied
to the states of Scenario by the theorem with the suffix witness.\<close>

section \<open>Rows along a run\<close>

lemma run_kept:
  assumes "reach D db" "run D db D' db'"
  shows "sound D db" "sound D' db'" "evolves D db db'"
  using reach_sound [OF assms(1)] run_sound [OF assms(2)] run_evolves [OF assms(2)] by blast+

lemma run_schema:
  assumes "reach D db" "run D db D' db'"
  shows "schema_ok db" "schema_ok db'"
  using run_kept [OF assms] by (simp_all add: soundD)

text \<open>A row of a table that loses none is still there, further along its history.\<close>

lemma run_rows:
  assumes "reach D db" "run D db D' db'"
  shows "i \<in> set (identities db) \<Longrightarrow> \<exists>j\<in>set (identities db'). identity_le i j"
    and "s \<in> set (browser_sessions db) \<Longrightarrow> \<exists>s'\<in>set (browser_sessions db'). session_le s s'"
    and "f \<in> set (token_families db) \<Longrightarrow> \<exists>f'\<in>set (token_families db'). family_le f f'"
    and "r \<in> set (refresh_tokens db) \<Longrightarrow> \<exists>r'\<in>set (refresh_tokens db'). refresh_le r r'"
    and "n \<in> set (link_intents db) \<Longrightarrow> \<exists>n'\<in>set (link_intents db'). intent_le n n'"
    and "l \<in> set (account_links db) \<Longrightarrow> \<exists>l'\<in>set (account_links db'). link_le l l'"
    and "c \<in> set (one_time_credentials db) \<Longrightarrow> \<exists>c'\<in>set (one_time_credentials db'). credential_le c c'"
    and "k \<in> set (device_installations db) \<Longrightarrow> \<exists>k'\<in>set (device_installations db'). installation_le k k'"
  using run_kept(3) [OF assms] by (simp_all add: evolves_def grows_def)

text \<open>In a table that loses rows, a row whose key was drawn is the old row, further along.\<close>

lemma run_later:
  assumes "reach D db" "run D db D' db'"
  shows "a \<in> set (access_tokens db) \<Longrightarrow> b \<in> set (access_tokens db') \<Longrightarrow> t_id b = t_id a \<Longrightarrow> access_le a b"
    and "r \<in> set (auth_requests db) \<Longrightarrow> q \<in> set (auth_requests db') \<Longrightarrow> r_id q = r_id r \<Longrightarrow> request_le r q"
    and "e \<in> set (outbox db) \<Longrightarrow> e' \<in> set (outbox db') \<Longrightarrow> o_id e' = o_id e \<Longrightarrow> outbox_le e e'"
    and "d \<in> set (device_authorizations db) \<Longrightarrow> x \<in> set (device_authorizations db') \<Longrightarrow>
      d_device_code_hash x = d_device_code_hash d \<Longrightarrow> device_le d x"
proof -
  note ev = run_kept(3) [OF assms, unfolded evolves_def]
  have ok: "schema_ok db" and keys: "keys_drawn D db" using run_kept(1) [OF assms] by (simp_all add: soundD)
  show "a \<in> set (access_tokens db) \<Longrightarrow> b \<in> set (access_tokens db') \<Longrightarrow> t_id b = t_id a \<Longrightarrow> access_le a b"
    using access_h.descends_later [of "D T_access"] ev ok keys access_ix.keys_distinct by (auto simp: keys_drawn_def)
  show "r \<in> set (auth_requests db) \<Longrightarrow> q \<in> set (auth_requests db') \<Longrightarrow> r_id q = r_id r \<Longrightarrow> request_le r q"
    using request_h.descends_later [of "D T_requests"] ev ok keys auth_request_ix.keys_distinct by (auto simp: keys_drawn_def)
  show "e \<in> set (outbox db) \<Longrightarrow> e' \<in> set (outbox db') \<Longrightarrow> o_id e' = o_id e \<Longrightarrow> outbox_le e e'"
    using outbox_h.descends_later [of "D T_outbox"] ev ok keys outbox_ix.keys_distinct by (auto simp: keys_drawn_def)
  show "d \<in> set (device_authorizations db) \<Longrightarrow> x \<in> set (device_authorizations db') \<Longrightarrow>
      d_device_code_hash x = d_device_code_hash d \<Longrightarrow> device_le d x"
    using device_h.descends_later [of "D T_devices"] ev ok keys device_ix.keys_distinct by (auto simp: keys_drawn_def)
qed

lemma reach_run: "reach D db \<Longrightarrow> run D db D' db' \<Longrightarrow> reach D' db'"
proof -
  have "run D db D' db' \<Longrightarrow> run E e D db \<Longrightarrow> run E e D' db'" for E e
    by (induction rule: run.induct) (auto intro: run.further)
  then show "reach D db \<Longrightarrow> run D db D' db' \<Longrightarrow> reach D' db'" by (simp add: reach_def)
qed

section \<open>What can no longer be used\<close>

text \<open>Why an access token is dead: it, its family or its session was revoked.\<close>

definition ended :: "db \<Rightarrow> access_row \<Rightarrow> bool" where
  "ended db a = (t_revoked_at a \<noteq> None
     \<or> (\<exists>f\<in>set (token_families db). t_family_id a = Some (f_id f) \<and> f_revoked_at f \<noteq> None)
     \<or> (\<exists>s\<in>set (browser_sessions db). \<not> tk_service (t_payload a) \<and> s_id s \<noteq> []
          \<and> tk_session_id (t_payload a) = s_id s \<and> s_revoked_at s \<noteq> None))"

lemma ended_unusable:
  assumes "schema_ok db" "ended db a"
  shows "\<not> usable_row now db a"
proof
  assume use: "usable_row now db a"
  consider "t_revoked_at a \<noteq> None"
    | f where "f \<in> set (token_families db)" "t_family_id a = Some (f_id f)" "f_revoked_at f \<noteq> None"
    | s where "s \<in> set (browser_sessions db)" "\<not> tk_service (t_payload a)" "s_id s \<noteq> []"
        "tk_session_id (t_payload a) = s_id s" "s_revoked_at s \<noteq> None"
    using assms(2) unfolding ended_def by blast
  then show False
  proof cases
    case 1
    then show ?thesis using use by (simp add: usable_row_def access_live_def)
  next
    case 2
    then have "family_live now (f_id f) db" using use by (simp add: usable_row_def access_live_def)
    then obtain g where g: "g \<in> set (token_families db)" "f_id g = f_id f" "f_revoked_at g = None"
      unfolding family_live_def some_row_iff by blast
    with 2(3) row_unique(5) [OF g(2) assms(1) g(1) 2(1)] show ?thesis by simp
  next
    case 3
    have "validateTokenSubject now (t_payload a) db = Inr ()" using use by (simp add: usable_row_def)
    with 3 have "session_ok now (s_id s) (tk_subject (t_payload a)) db"
      by (simp add: validateTokenSubject_def split: sum.splits if_splits)
    then obtain u where u: "u \<in> set (browser_sessions db)" "s_id u = s_id s" "s_revoked_at u = None"
      unfolding session_ok_def some_row_iff live_session_def by blast
    with 3(5) row_unique(2) [OF u(2) assms(1) u(1) 3(1)] show ?thesis by simp
  qed
qed

lemma ended_run:
  assumes "reach D db" "run D db D' db'" "a \<in> set (access_tokens db)" "ended db a"
    "b \<in> set (access_tokens db')" "t_id b = t_id a"
  shows "ended db' b"
proof -
  have le: "access_le a b" using run_later(1) [OF assms(1,2,3,5,6)] .
  consider "t_revoked_at a \<noteq> None"
    | f where "f \<in> set (token_families db)" "t_family_id a = Some (f_id f)" "f_revoked_at f \<noteq> None"
    | s where "s \<in> set (browser_sessions db)" "\<not> tk_service (t_payload a)" "s_id s \<noteq> []"
        "tk_session_id (t_payload a) = s_id s" "s_revoked_at s \<noteq> None"
    using assms(4) unfolding ended_def by blast
  then show ?thesis
  proof cases
    case 1
    then show ?thesis using le by (auto simp: ended_def access_le_def stays_def)
  next
    case 2
    then obtain f' where f': "f' \<in> set (token_families db')" "family_le f f'" using run_rows(3) [OF assms(1,2)] by blast
    then have "t_family_id b = Some (f_id f')" "f_revoked_at f' \<noteq> None"
      using 2 le by (auto simp: access_le_def family_le_def stays_def)
    with f'(1) show ?thesis unfolding ended_def by blast
  next
    case 3
    then obtain s' where s': "s' \<in> set (browser_sessions db')" "session_le s s'" using run_rows(2) [OF assms(1,2)] by blast
    then have "tk_session_id (t_payload b) = s_id s'" "s_id s' \<noteq> []" "\<not> tk_service (t_payload b)" "s_revoked_at s' \<noteq> None"
      using 3 le by (auto simp: access_le_def session_le_def stays_def)
    with s'(1) show ?thesis unfolding ended_def by blast
  qed
qed

lemma unusable_rejected:
  assumes "sound D db" "\<And>b. b \<in> set (access_tokens db) \<Longrightarrow> t_id b = tid \<Longrightarrow> \<not> usable_row now db b"
  shows "ActiveToken now tid db = Inl ErrUnauthorized"
proof -
  have "\<not> active_row now db b" if "first_row (\<lambda>a. t_id a = tid) (access_tokens db) = Some b" for b
    using first_row_Some [OF that] assms(2) by (auto simp: active_row_def)
  then show ?thesis
    using ActiveToken_spec [OF soundD(1,4) [OF assms(1)]] by (auto split: option.splits)
qed

text \<open>C1: Once an access token is revoked, or its refresh family or browser session is, no later sequence of operations makes
introspection or the user-info endpoint accept it again: ActiveToken answers ErrUnauthorized for ever.\<close>

theorem ended_token_stays_dead:
  assumes "reach D db" "run D db D' db'" "a \<in> set (access_tokens db)" "ended db a"
  shows "ActiveToken now (t_id a) db' = Inl ErrUnauthorized"
proof (rule unusable_rejected [OF run_kept(2) [OF assms(1,2)]])
  fix b assume "b \<in> set (access_tokens db')" "t_id b = t_id a"
  then have "ended db' b" by (rule ended_run [OF assms])
  then show "\<not> usable_row now db' b" by (rule ended_unusable [OF run_schema(2) [OF assms(1,2)]])
qed

text \<open>C21: A token obtained by exchange is active only while the token it was exchanged for is: the source is active, was not
itself obtained by exchange, is not a service token, and belongs to the same client and subject.\<close>

theorem delegated_token_needs_source:
  assumes "reach D db" "ActiveToken now tid db = Inr t" "tk_delegated t"
  shows "\<exists>source. ActiveToken now (tk_source_token_id t) db = Inr source
    \<and> \<not> tk_delegated source \<and> \<not> tk_service source
    \<and> tk_client_id source = tk_client_id t \<and> tk_subject source = tk_subject t"
proof -
  have sound: "sound D db" by (rule reach_sound [OF assms(1)])
  note spec = ActiveToken_spec [OF soundD(1,4) [OF sound]]
  obtain a where a: "a \<in> set (access_tokens db)" "t_id a = tid" "active_row now db a" "t_payload a = t"
    using assms(2) spec [of now tid] by (auto split: option.splits if_splits dest: first_row_Some)
  then obtain b where b: "b \<in> set (access_tokens db)" "t_id b = tk_source_token_id t" "usable_row now db b"
    using assms(3) by (auto simp: active_row_def)
  have fits: "source_fits t (t_payload b)"
    using a b assms(3) soundD(4) [OF sound] by (auto simp: token_inv_def active_row_def)
  have "first_row (\<lambda>x. t_id x = tk_source_token_id t) (access_tokens db) = Some b"
    using access_ix.lookup_iff b soundD(1) [OF sound] by auto
  moreover have "active_row now db b" using b(3) fits by (simp add: active_row_def source_fits_def)
  ultimately show ?thesis using spec [of now "tk_source_token_id t"] fits by (simp add: source_fits_def)
qed

text \<open>A revoked browser session is never revived: after any sequence of operations its cookie neither authenticates a
request nor passes the CSRF check, and the row still carries the time at which it was revoked.\<close>

theorem revoked_session_stays_closed:
  assumes "reach D db" "run D db D' db'" "s \<in> set (browser_sessions db)" "s_revoked_at s = Some u"
    "s_token_hash s = Hash token"
  shows "Session now token db' = Inl ErrUnauthorized \<and> CheckCSRF now token csrf db' = Inl ErrForbidden
    \<and> (\<exists>s'\<in>set (browser_sessions db'). s_id s' = s_id s \<and> s_revoked_at s' = Some u)"
proof -
  obtain s' where s': "s' \<in> set (browser_sessions db')" "session_le s s'"
    using run_rows(2) [OF assms(1,2,3)] by blast
  then have rev: "s_id s' = s_id s" "s_revoked_at s' = Some u" "s_token_hash s' = Hash token"
    using assms(4,5) by (auto simp: session_le_def stays_def)
  have only: "x = s'" if "x \<in> set (browser_sessions db')" "s_token_hash x = Hash token" for x
    using that s'(1) rev(3) schema_ok_tables(2) [OF run_schema(2) [OF assms(1,2)]] session_ix.no_clash
    by (metis session_clash_def)
  then have "first_row (\<lambda>x. s_token_hash x = Hash token \<and> live_session now x \<and> P x) (browser_sessions db') = None" for P
    using rev(2) by (auto simp: first_row_None live_session_def)
  note none = this this [of "\<lambda>_. True"]
  show ?thesis using none s'(1) rev by (auto simp: Session_def CheckCSRF_def)
qed


section \<open>Refresh-token families\<close>

lemma revoked_family_refuses:
  assumes "schema_ok db" "f \<in> set (token_families db)" "f_revoked_at f \<noteq> None"
    and "r \<in> set (refresh_tokens db)" "rt_family_id r = f_id f" "rt_token_hash r = Hash raw"
  shows "fst (TokenRequestByRefreshToken now raw db) = Inl InvalidRefreshToken"
    and "raw \<noteq> [] \<Longrightarrow> \<exists>e. CreateAccessAndRefreshTokens now wall new_id fam raw' req raw db = (Inl e, snd (CreateAccessAndRefreshTokens now wall new_id fam raw' req raw db))"
proof -
  have "first_row (\<lambda>r. rt_token_hash r = Hash raw) (refresh_tokens db) = Some r"
    using refresh_ix.lookup_iff assms(1,4,6) by auto
  moreover have "first_row (\<lambda>g. f_id g = f_id f) (token_families db) = Some f"
    using family_ix.lookup_iff assms(1,2) by auto
  ultimately have look: "refresh_with_family raw db = Some (r, f)"
    using assms(5) by (simp add: refresh_with_family_def)
  show "fst (TokenRequestByRefreshToken now raw db) = Inl InvalidRefreshToken"
    using look assms(3) by (simp add: TokenRequestByRefreshToken_def)
  show "\<exists>e. CreateAccessAndRefreshTokens now wall new_id fam raw' req raw db = (Inl e, snd (CreateAccessAndRefreshTokens now wall new_id fam raw' req raw db))"
    if "raw \<noteq> []"
    using look assms(3) that by (auto simp: CreateAccessAndRefreshTokens_def split: sum.splits)
qed

text \<open>No refresh token of a revoked family can be exchanged, then or after any later operations: reading the request
behind it fails with an invalid refresh token, and rotating it fails as well.\<close>

theorem revoked_family_never_refreshes:
  assumes "reach D db" "run D db D' db'" "f \<in> set (token_families db)" "f_revoked_at f \<noteq> None"
    and "r \<in> set (refresh_tokens db')" "rt_family_id r = f_id f" "rt_token_hash r = Hash raw" "raw \<noteq> []"
  shows "fst (TokenRequestByRefreshToken now raw db') = Inl InvalidRefreshToken
    \<and> (\<exists>e. fst (CreateAccessAndRefreshTokens now wall new_id fam raw' req raw db') = Inl e)"
proof -
  obtain f' where f': "f' \<in> set (token_families db')" "family_le f f'"
    using run_rows(3) [OF assms(1-3)] by blast
  then have "f_revoked_at f' \<noteq> None" "rt_family_id r = f_id f'"
    using assms(4,6) by (auto simp: family_le_def stays_def)
  note refuse = revoked_family_refuses [OF run_schema(2) [OF assms(1,2)] f'(1) this(1) assms(5) this(2) assms(7)]
  show ?thesis using refuse(1) refuse(2) [OF assms(8)] by (metis fst_conv)
qed

text \<open>C2: Presenting a refresh token that was already consumed is refused and ends its family: every access token of the
family is rejected from then on.\<close>

theorem refresh_replay_ends_family:
  assumes "reach D db" "r \<in> set (refresh_tokens db)" "rt_consumed_at r \<noteq> None" "rt_token_hash r = Hash raw"
    and "f \<in> set (token_families db)" "f_id f = rt_family_id r" "f_revoked_at f = None"
    and "now < rt_expires_at r" "now < f_expires_at f"
    and "TokenRequestByRefreshToken now raw db = (res, mid)"
    and "run D mid D' db'" "a \<in> set (access_tokens db)" "t_family_id a = Some (f_id f)"
  shows "res = Inl InvalidRefreshToken \<and> ActiveToken later (t_id a) db' = Inl ErrUnauthorized"
proof -
  have ok: "schema_ok db" using reach_sound [OF assms(1)] by (rule soundD)
  have "first_row (\<lambda>r. rt_token_hash r = Hash raw) (refresh_tokens db) = Some r"
    using refresh_ix.lookup_iff ok assms(2,4) by auto
  moreover have "first_row (\<lambda>g. f_id g = rt_family_id r) (token_families db) = Some f"
    using family_ix.lookup_iff ok assms(5,6) by auto
  ultimately have look: "refresh_with_family raw db = Some (r, f)" by (simp add: refresh_with_family_def)
  then have res: "res = Inl InvalidRefreshToken" "mid = revoke_families now (\<lambda>g. f_id g = f_id f) db"
    using assms(3,7-10) by (auto simp: TokenRequestByRefreshToken_def)
  have "f\<lparr>f_revoked_at := Some now\<rparr> \<in> set (token_families mid)"
    using assms(5,7) by (force simp: res(2) stamp_rows_def table_simps)
  then have "ended mid a"
    using assms(13) unfolding ended_def by (intro disjI2 disjI1 bexI) auto
  moreover have "reach D mid"
    using reach_quiet [OF assms(1) refresh_request [of db now raw]] assms(10) by simp
  moreover have "a \<in> set (access_tokens mid)" using assms(12) by (simp add: res(2))
  ultimately have "ActiveToken later (t_id a) db' = Inl ErrUnauthorized"
    using ended_run [OF _ assms(11)] run_kept(2) [OF _ assms(11)] run_schema(2) [OF _ assms(11)]
    by (blast intro: unusable_rejected dest: ended_unusable)
  with res(1) show ?thesis by simp
qed

text \<open>A successful rotation consumes the presented token, which was unconsumed, unexpired and of an unrevoked family, and
adds exactly one successor in the same family with the same expiry; the family rows are left alone.\<close>

theorem refresh_rotation:
  assumes "current \<noteq> []"
    and "CreateAccessAndRefreshTokens now wall new_id fam raw req current db = (Inr (tid, raw', expires), db')"
  shows "\<exists>old new f. old \<in> set (refresh_tokens db) \<and> rt_token_hash old = Hash current \<and> rt_consumed_at old = None
    \<and> f \<in> set (token_families db) \<and> f_id f = rt_family_id old \<and> f_revoked_at f = None \<and> wall \<le> f_expires_at f
    \<and> refresh_tokens db' = refresh_tokens (consume_refresh now current db) @ [new]
    \<and> rt_token_hash new = Hash raw \<and> rt_consumed_at new = None
    \<and> rt_family_id new = f_id f \<and> rt_expires_at new = f_expires_at f
    \<and> request_subject req = f_subject f \<and> token_families db' = token_families db"
proof -
  obtain t where t: "tokenRequest wall new_id req = Inr t" "\<not> tk_service t" "validateTokenSubject now t db = Inr ()"
    using assms(2) by (auto simp: CreateAccessAndRefreshTokens_def split: sum.splits if_splits)
  then obtain old f where look: "refresh_with_family current db = Some (old, f)"
    using assms(1,2) by (cases "refresh_with_family current db") (auto simp: CreateAccessAndRefreshTokens_def)
  have subject: "tk_subject t = request_subject req"
    using t(1) by (cases req) (auto simp: blank_token_def)
  have fits: "f_subject f = tk_subject t" "f_client_id f = tk_client_id t" "rt_consumed_at old = None"
      "f_revoked_at f = None" "wall \<le> f_expires_at f"
      "insert_pair (t\<lparr>tk_family_id := f_id f\<rparr>) raw (f_expires_at f) (consume_refresh now current db) = Some db'"
    using assms(1,2) t look by (auto simp: CreateAccessAndRefreshTokens_def Let_def split: if_splits option.splits)
  from fits(6) have "refresh_tokens db' = refresh_tokens (consume_refresh now current db)
      @ [\<lparr>rt_token_hash = Hash raw, rt_family_id = f_id f, rt_payload = t\<lparr>tk_family_id := f_id f\<rparr>,
          rt_consumed_at = None, rt_expires_at = f_expires_at f\<rparr>]"
      "token_families db' = token_families db"
    by (auto simp: insert_pair_def insertAccess_def insert_row_Some consume_refresh_def split: option.splits)
  with fits refresh_with_family_Some [OF look] subject show ?thesis
    by (intro exI conjI) (assumption | simp)+
qed

section \<open>One-time secrets\<close>

lemma spent_credential:
  assumes "reach D db" "run D db D' db'" "c \<in> set (one_time_credentials db)" "c_consumed_at c \<noteq> None"
    "c_token_hash c = Hash raw"
  shows "first_row (usable_credential now raw k) (one_time_credentials db') = None"
proof -
  obtain c' where c': "c' \<in> set (one_time_credentials db')" "credential_le c c'"
    using run_rows(7) [OF assms(1-3)] by blast
  have "\<not> usable_credential now raw k x" if "x \<in> set (one_time_credentials db')" for x
  proof
    assume use: "usable_credential now raw k x"
    then have "c_token_hash x = c_token_hash c'" using c'(2) assms(5) by (simp add: usable_credential_def credential_le_def)
    then have "x = c'" using row_unique(10) [OF _ run_schema(2) [OF assms(1,2)] that c'(1)] by simp
    with use c'(2) assms(4) show False by (auto simp: usable_credential_def credential_le_def stays_def)
  qed
  then show ?thesis by (simp add: first_row_None)
qed

lemma RedeemCredential_spends:
  assumes "RedeemCredential kdf now salt new_id ids kind raw name pw db = (Inr u, db')"
  shows "\<exists>c\<in>set (one_time_credentials db'). c_consumed_at c \<noteq> None \<and> c_token_hash c = Hash raw"
proof -
  obtain k where k: "one_time_credentials db' = one_time_credentials (consume_credential now raw k db)"
      "first_row (usable_credential now raw k) (one_time_credentials db) \<noteq> None"
    using assms by (auto simp: RedeemCredential_def Let_def set_password_def
      split: option.splits sum.splits if_splits dest!: end_access_credentials)
  then obtain c where c: "c \<in> set (one_time_credentials db)" "usable_credential now raw k c"
    by (auto dest: first_row_Some)
  then have "c\<lparr>c_consumed_at := Some now\<rparr> \<in> set (one_time_credentials db')"
    by (auto simp: k(1) consume_credential_def table_simps image_iff intro!: bexI [of _ c])
  moreover have "c_token_hash c = Hash raw" using c(2) by (simp add: usable_credential_def)
  ultimately show ?thesis by (intro bexI [of _ "c\<lparr>c_consumed_at := Some now\<rparr>"]) simp_all
qed

text \<open>An invitation or reset link works once: after a successful redemption every further attempt, with any password, by
either redeeming operation and after any other operations, fails and leaves the database as it was.\<close>

theorem credential_redeemed_once:
  assumes "reach D db" "step D db D1 mid" "RedeemCredential kdf now salt new_id ids kind raw name pw db = (Inr u, mid)"
    and "run D1 mid D2 fin"
  shows "(\<exists>e. RedeemCredential kdf now' salt' new_id' ids' kind' raw name' pw' fin = (Inl e, fin))
    \<and> RedeemMFAReset kdf now' ids' raw pw' peer fin = (Inl ErrExpired, fin)"
proof -
  have r1: "reach D1 mid" using reach_run [OF assms(1)] assms(2) run.intros by blast
  obtain c where c: "c \<in> set (one_time_credentials mid)" "c_consumed_at c \<noteq> None" "c_token_hash c = Hash raw"
    using RedeemCredential_spends [OF assms(3)] by blast
  note none = spent_credential [OF r1 assms(4) c]
  show ?thesis using none by (auto simp: RedeemCredential_def RedeemMFAReset_def Let_def split: sum.splits)
qed

text \<open>C4: An authorization code is exchanged at most once: the first use returns an authenticated request and consumes it, and
every later use of the same code is an invalid grant that changes nothing.\<close>

theorem code_exchanged_once:
  assumes "reach D db" "AuthRequestByCode now code db = (Inr a, mid)" "run D mid D2 fin"
    and "r \<in> set (auth_requests db)" "r_code_hash r = Some (Hash code)"
    and "\<forall>q\<in>set (auth_requests fin). r_code_hash q = Some (Hash code) \<longrightarrow> r_id q = r_id r"
  shows "a = r_payload r \<and> az_authenticated a \<and> r_consumed_at r = None
    \<and> AuthRequestByCode now' code fin = (Inl OidcInvalidGrant, fin)"
proof -
  have ok: "schema_ok db" using reach_sound [OF assms(1)] by (rule soundD)
  have only: "q = r" if "q \<in> set (auth_requests db)" "code_usable now code q" for q
    using that assms(4,5) ok auth_request_ix.no_clash [OF schema_ok_tables(4) [OF ok] that(1) assms(4)]
    by (simp add: auth_request_clash_def code_usable_def)
  obtain q where q: "first_row (code_usable now code) (auth_requests db) = Some q"
    using assms(2) by (auto simp: AuthRequestByCode_def split: option.splits)
  then have qr: "q = r" "code_usable now code r" using only first_row_Some by metis+
  have a: "a = r_payload r" "az_authenticated a"
    using assms(2) q qr by (auto simp: AuthRequestByCode_def split: if_splits)
  have mid: "mid = db\<lparr>auth_requests := update_rows (code_usable now code) (\<lambda>r. r\<lparr>r_consumed_at := Some now\<rparr>) (auth_requests db)\<rparr>"
    using assms(2) q by (auto simp: AuthRequestByCode_def)
  have r1: "reach D mid" using reach_quiet [OF assms(1) use_code [of db now code]] assms(2) by simp
  have "r\<lparr>r_consumed_at := Some now\<rparr> \<in> set (auth_requests mid)"
    using assms(4) qr(2) by (auto simp: mid table_simps image_iff intro!: bexI [of _ r])
  note later = run_later(2) [OF r1 assms(3) this]
  have "\<not> code_usable now' code x" if "x \<in> set (auth_requests fin)" for x
    using later [OF that] assms(6) that by (auto simp: code_usable_def request_le_def stays_def)
  then have "first_row (code_usable now' code) (auth_requests fin) = None" by (simp add: first_row_None)
  with a qr(2) show ?thesis by (simp add: AuthRequestByCode_def code_usable_def)
qed

lemma GetDevice_approved:
  assumes "GetDeviceAuthorizatonState now wall c dc db = (Inr st, db')" "ds_done st"
  shows "\<exists>d\<in>set (device_authorizations db). d_device_code_hash d = Hash dc \<and> d_status d = DeviceApproved
    \<and> db' = update_device dc (\<lambda>d. d\<lparr>d_status := DeviceConsumed\<rparr>) db"
proof -
  obtain d where d: "first_row (\<lambda>d. d_device_code_hash d = Hash dc \<and> d_client_id d = c) (device_authorizations db) = Some d"
    using assms(1) by (auto simp: GetDeviceAuthorizatonState_def split: option.splits)
  from assms d have "d_status d = DeviceApproved" "db' = update_device dc (\<lambda>d. d\<lparr>d_status := DeviceConsumed\<rparr>) db"
    by (auto simp: GetDeviceAuthorizatonState_def poll_state_def Let_def split: if_splits)
  with first_row_Some [OF d] show ?thesis by blast
qed

lemma GetDevice_done:
  assumes "GetDeviceAuthorizatonState now wall c dc db = (Inr st, db')" "ds_done st"
  shows "\<exists>d\<in>set (device_authorizations db'). d_device_code_hash d = Hash dc \<and> d_status d = DeviceConsumed"
proof -
  obtain d where d: "d \<in> set (device_authorizations db)" "d_device_code_hash d = Hash dc"
      "db' = update_device dc (\<lambda>d. d\<lparr>d_status := DeviceConsumed\<rparr>) db"
    using GetDevice_approved [OF assms] by blast
  then have "d\<lparr>d_status := DeviceConsumed\<rparr> \<in> set (device_authorizations db')"
    by (auto simp: update_device_def table_simps image_iff intro!: bexI [of _ d])
  with d(2) show ?thesis by (intro bexI [of _ "d\<lparr>d_status := DeviceConsumed\<rparr>"]) simp_all
qed

text \<open>C22: A device code yields tokens once: after the poll that reports the authorization as done, no later poll does.\<close>

theorem device_code_consumed_once:
  assumes "reach D db" "GetDeviceAuthorizatonState now wall c dc db = (Inr st, mid)" "ds_done st"
    and "run D mid D2 fin" "GetDeviceAuthorizatonState now' wall' c' dc fin = (Inr st', aft)"
  shows "\<not> ds_done st'"
proof
  assume fin: "ds_done st'"
  have r1: "reach D mid" using reach_quiet [OF assms(1) poll_device [of db now wall c dc]] assms(2) by simp
  obtain d where d: "d \<in> set (device_authorizations mid)" "d_device_code_hash d = Hash dc" "d_status d = DeviceConsumed"
    using GetDevice_done [OF assms(2,3)] by blast
  obtain x where x: "x \<in> set (device_authorizations fin)" "d_device_code_hash x = Hash dc" "d_status x = DeviceApproved"
    using GetDevice_approved [OF assms(5) fin] by blast
  have "device_le d x" using run_later(4) [OF r1 assms(4) d(1) x(1)] d(2) x(2) by simp
  with d(3) x(3) show False by (simp add: device_le_def)
qed


section \<open>Deliveries\<close>

lemma claim_event_row:
  assumes "claim_event now lease db = (Some e, db')"
  shows "\<exists>r\<in>set (outbox db). claimable now r \<and> e = lease_row now lease r
    \<and> db' = db\<lparr>outbox := update_rows (\<lambda>q. o_id q = o_id r) (lease_row now lease) (outbox db)\<rparr>"
proof -
  have "r \<in> set rs" if "earliest rs = Some r" for r rs
    using that by (induction rs arbitrary: r) (auto split: option.splits if_splits)
  with assms show ?thesis by (fastforce simp: claim_event_def split: option.splits)
qed

text \<open>A delivered logout notice is final: its row never changes again, an administrator cannot retry it, and no worker
claims it.\<close>

theorem delivered_event_is_final:
  assumes "reach D db" "run D db D' db'" "e \<in> set (outbox db)" "o_delivered_at e \<noteq> None"
  shows "(\<forall>r\<in>set (outbox db'). o_id r = o_id e \<longrightarrow> r = e)
    \<and> RetryDeadEvent now actor (o_id e) db' = (Inl ErrConflict, db')
    \<and> (claim_event now lease db' = (Some c, db'') \<longrightarrow> o_id c \<noteq> o_id e)"
proof -
  have same: "r = e" if "r \<in> set (outbox db')" "o_id r = o_id e" for r
    using run_later(3) [OF assms(1-3) that] assms(4) by (simp add: outbox_le_def)
  have "\<not> retryable now (o_id e) r" if "r \<in> set (outbox db')" for r
    using same [OF that] assms(4) by (auto simp: retryable_def)
  then have "count_rows (retryable now (o_id e)) (outbox db') = 0" by (simp add: count_rows_0)
  then have retry: "RetryDeadEvent now actor (o_id e) db' = (Inl ErrConflict, db')" by (simp add: RetryDeadEvent_def)
  have "o_id c \<noteq> o_id e" if cl: "claim_event now lease db' = (Some c, db'')"
  proof
    assume id: "o_id c = o_id e"
    obtain r where r: "r \<in> set (outbox db')" "claimable now r" "c = lease_row now lease r"
      using claim_event_row [OF cl] by blast
    then have "r = e" using same id by (simp add: lease_row_def)
    with r(2) assms(4) show False by (simp add: claimable_def)
  qed
  with retry same show ?thesis by blast
qed



section \<open>The audit trail and the administrators\<close>

text \<open>No operation rewrites or removes an audit event: the trail after a run extends the trail before it.\<close>

theorem audit_is_append_only:
  assumes "reach D db" "run D db D' db'"
  shows "\<exists>es. audit_events db' = audit_events db @ es"
  using run_kept(3) [OF assms] by (simp add: evolves_def)

lemmas operation_standing = CreateIdentity_standing BeginMFA_standing ConfirmMFA_standing VerifyMFA_standing
  RedeemMFAReset_standing ChangePassword_standing RedeemCredential_standing Maintenance_standing

lemma has_admin_cong: "identities a = identities b \<Longrightarrow> has_admin a = has_admin b"
  by (simp add: has_admin_def)

lemma operation_admin:
  assumes "operation X db db'" "schema_ok db" "has_admin db"
  shows "has_admin db'"
proof (cases "identities db' = identities db")
  case False
  with assms(1) show ?thesis
    by (cases rule: operation.cases) (simp_all add: operation_touches [THEN untouched(1)] SetIdentityStatus_admin
      has_admin_kept [OF assms(3)] operation_standing assms(2,3))
qed (use assms(3) in \<open>simp add: has_admin_def\<close>)

lemma has_admin_run:
  assumes "reach D db" "run D db D' db'" "has_admin db"
  shows "has_admin db'"
proof -
  have "run D db D' db' \<Longrightarrow> sound D db \<Longrightarrow> has_admin db \<Longrightarrow> has_admin db'"
  proof (induction rule: run.induct)
    case (further D db D' db' D'' db'')
    then have "schema_ok db'" "has_admin db'" using run_sound by (auto simp: sound_def)
    with further(2) show ?case by (auto elim!: stepE intro: operation_admin)
  qed
  then show ?thesis using assms reach_sound by blast
qed

text \<open>C24: Once there is an active administrator, every reachable state has one: no operation disables or demotes the last.\<close>

theorem administrator_remains:
  assumes "reach D db" "run D db D' db'" "has_admin db"
  shows "has_admin db'"
  using assms by (rule has_admin_run)


section \<open>Witnesses\<close>

lemma run_quiet: "run D db D' db' \<Longrightarrow> operation none db' db'' \<Longrightarrow> run D db D' db''"
  by (erule run.further) (rule step_quiet)

lemma delivery_run: "run D db28 D db30"
  unfolding db30_def db29_def by (rule run_quiet [OF run_quiet [OF run.stop claim] complete])

lemma ann_is_admin: "has_admin db28"
  by (simp add: has_admin_def db28_tables ann_def)

lemma token2_active: "ActiveToken 0 ''t2'' db21 = Inr token2"
  by (simp add: ActiveToken_def active_token.simps access_live_def family_live_def db21_tables scenario_simps
    validateTokenSubject_def session_ok_def live_session_def Identity_def active_identity_def access_row_of_def active_app_def Client_def)

theorem ended_token_stays_dead_witness: "ActiveToken (seconds 12) ''t1'' db30 = Inl ErrUnauthorized"
  using ended_token_stays_dead [OF db28_reach delivery_run, of "(access_row_of token1)\<lparr>t_revoked_at := Some (seconds 9)\<rparr>" "seconds 12"]
  by (simp add: db28_tables ended_def token1_def)

theorem delegated_token_needs_source_witness:
  "\<exists>source. ActiveToken 0 ''t1'' db21 = Inr source \<and> tk_client_id source = ''shop'' \<and> \<not> tk_delegated source"
  using delegated_token_needs_source [OF db21_reach token2_active] by (auto simp: token2_def)

theorem revoked_session_stays_closed_witness:
  "Session (seconds 12) ''abc'' db30 = Inl ErrUnauthorized \<and> CheckCSRF (seconds 12) ''abc'' ''csrf'' db30 = Inl ErrForbidden"
  using revoked_session_stays_closed [OF db28_reach delivery_run, of "ann_session\<lparr>s_revoked_at := Some (seconds 9)\<rparr>" "seconds 9" "''abc''"]
  by (simp add: db28_tables ann_session_def)

theorem revoked_family_never_refreshes_witness:
  "fst (TokenRequestByRefreshToken (seconds 12) ''def'' db30) = Inl InvalidRefreshToken"
  using revoked_family_never_refreshes [OF db28_reach delivery_run, of "family1\<lparr>f_revoked_at := Some (seconds 9)\<rparr>" refresh2 "''def''"]
  by (simp add: db28_tables db30_tables family1_def refresh2_def)

theorem refresh_replay_ends_family_witness:
  "fst (TokenRequestByRefreshToken 1 ''abc'' db27) = Inl InvalidRefreshToken
   \<and> ActiveToken 2 ''t4'' (snd (TokenRequestByRefreshToken 1 ''abc'' db27)) = Inl ErrUnauthorized"
proof -
  define seen where "seen = TokenRequestByRefreshToken 1 ''abc'' db27"
  have split: "TokenRequestByRefreshToken 1 ''abc'' db27 = (fst seen, snd seen)" by (simp add: seen_def)
  have "fst seen = Inl InvalidRefreshToken \<and> ActiveToken 2 (t_id (access_row_of token4)) (snd seen) = Inl ErrUnauthorized"
    by (rule refresh_replay_ends_family [OF db27_reach _ _ _ _ _ _ _ _ split run.stop,
        where r = "refresh1\<lparr>rt_consumed_at := Some 0\<rparr>" and f = family1])
      (simp_all add: db27_tables refresh1_def family1_def token1_def token4_def access_row_of_def)
  then show ?thesis by (simp add: seen_def token4_def access_row_of_def)
qed

lemma rotated: "CreateAccessAndRefreshTokens 0 0 ''t4'' ''f0'' ''def'' (RefreshRequest token1) ''abc'' db26
    = (Inr (''t4'', ''def'', minutes 5), db27)"
proof -
  have "fst (CreateAccessAndRefreshTokens 0 0 ''t4'' ''f0'' ''def'' (RefreshRequest token1) ''abc'' db26)
    = Inr (''t4'', ''def'', minutes 5)"
    by (simp add: CreateAccessAndRefreshTokens_def db26_tables scenario_simps insert_pair_def refresh_with_family_def
      consume_refresh_def refresh_clash_def access_clash_def validateTokenSubject_def session_ok_def live_session_def
      Identity_def active_identity_def insertAccess_def access_row_of_def blank_token_def active_app_def Client_def)
  then show ?thesis unfolding db27_def by (metis prod.collapse)
qed

theorem refresh_rotation_witness:
  "\<exists>old new f. old \<in> set (refresh_tokens db26) \<and> rt_token_hash old = Hash ''abc'' \<and> rt_consumed_at old = None
    \<and> f \<in> set (token_families db26) \<and> f_id f = rt_family_id old \<and> f_revoked_at f = None \<and> 0 \<le> f_expires_at f
    \<and> refresh_tokens db27 = refresh_tokens (consume_refresh 0 ''abc'' db26) @ [new]
    \<and> rt_token_hash new = Hash ''def'' \<and> rt_consumed_at new = None
    \<and> rt_family_id new = f_id f \<and> rt_expires_at new = f_expires_at f
    \<and> request_subject (RefreshRequest token1) = f_subject f \<and> token_families db27 = token_families db26"
  by (rule refresh_rotation [OF _ rotated]) simp

theorem credential_redeemed_once_witness:
  "\<exists>e. RedeemCredential kdf_example 2 salt ''eve'' notices ''invite'' ''inv'' ''Eve'' ''correct horse'' db32 = (Inl e, db32)"
proof -
  have "fst (RedeemCredential kdf_example 1 salt ''bob'' (\<lambda>n. ''q'' @ replicate n CHR ''q'') ''invite'' ''inv'' ''Bob'' ''correct horse'' db31)
      = Inr (view_identity bob)"
    by (simp add: RedeemCredential_def usable_credential_def consume_credential_def identity_clash_def trim_space_def is_space_def
      db31_tables scenario_simps Identity_def active_identity_def)
  then have redeemed: "RedeemCredential kdf_example 1 salt ''bob'' (\<lambda>n. ''q'' @ replicate n CHR ''q'') ''invite'' ''inv'' ''Bob'' ''correct horse'' db31
      = (Inr (view_identity bob), db32)"
    unfolding db32_def by (metis prod.collapse)
  have step: "step D_db28 db31 (\<lambda>t. D_db28 t \<union> draws T_outbox (range (\<lambda>n. ''q'' @ replicate n CHR ''q'')) t) db32"
    unfolding db32_def by (rule step.intros [OF redeem_credential]) (auto simp: D_db28_def none_def notices_def)
  show ?thesis using credential_redeemed_once [OF db31_reach step redeemed run.stop] by blast
qed

lemma code_used: "AuthRequestByCode (seconds 1) ''code'' db9 = (Inr (granted ''r1'' shop ''n1''), db10)"
proof -
  have "fst (AuthRequestByCode (seconds 1) ''code'' db9) = Inr (granted ''r1'' shop ''n1'')"
    by (simp add: AuthRequestByCode_def code_usable_def db9_tables scenario_simps)
  then show ?thesis unfolding db10_def by (metis prod.collapse)
qed

theorem code_exchanged_once_witness: "AuthRequestByCode (seconds 2) ''code'' db10 = (Inl OidcInvalidGrant, db10)"
  using code_exchanged_once [OF db9_reach code_used run.stop, of request1_coded]
  by (simp add: db9_tables db10_tables scenario_rows)

theorem device_code_consumed_once_witness:
  "\<exists>st aft. GetDeviceAuthorizatonState 1 (minutes 11) ''tv'' ''dc'' db24 = (Inr st, aft) \<and> \<not> ds_done st"
proof -
  have "fst (GetDeviceAuthorizatonState 0 0 ''tv'' ''dc'' db23) = Inr device_done"
    by (simp add: GetDeviceAuthorizatonState_def db23_tables scenario_simps poll_state_def active_identity_def)
  then have first: "GetDeviceAuthorizatonState 0 0 ''tv'' ''dc'' db23 = (Inr device_done, db24)"
    unfolding db24_def by (metis prod.collapse)
  have second: "\<exists>st. fst (GetDeviceAuthorizatonState 1 (minutes 11) ''tv'' ''dc'' db24) = Inr st"
    by (simp add: GetDeviceAuthorizatonState_def db24_tables scenario_simps)
  then obtain st aft where "GetDeviceAuthorizatonState 1 (minutes 11) ''tv'' ''dc'' db24 = (Inr st, aft)"
    by (metis prod.collapse)
  with device_code_consumed_once [OF db23_reach first _ run.stop] show ?thesis by (auto simp: device_done_def)
qed

theorem delivered_event_is_final_witness:
  "RetryDeadEvent 0 ''ann'' ''o'' db30 = (Inl ErrConflict, db30)"
  using delivered_event_is_final [OF db30_reach run.stop, of notice_sent 0 "''ann''"]
  by (simp add: db30_tables notice_sent_def notice_def outbox_event_def notices_def)


theorem audit_is_append_only_witness: "\<exists>es. audit_events db30 = audit_events db28 @ es"
  using audit_is_append_only [OF db28_reach delivery_run] .

theorem administrator_remains_witness: "has_admin db30"
  using administrator_remains [OF db28_reach delivery_run ann_is_admin] .

end
