(* ===== verification/Link_Protocol.thy ===== *)
theory Link_Protocol
  imports Guarantees
begin

text \<open>The abstract protocol of an account link, its phases and their transitions, and the proof that every operation
follows it (links.go, maintenance.go, recovery.go).\<close>

section \<open>The protocol of a link\<close>

definition link_phase :: "string \<Rightarrow> db \<Rightarrow> link_state option" where
  "link_phase lid db = map_option n_state (first_row (\<lambda>n. n_id n = lid) (link_intents db))"

inductive phase_step :: "link_state option \<Rightarrow> link_state option \<Rightarrow> bool" where
  unchanged: "phase_step p p"
| requested: "phase_step None (Some Pending)"
| confirmed: "phase_step (Some Pending) (Some Confirmed)"
| prepared: "phase_step (Some Confirmed) (Some Prepared)"
| activated: "phase_step (Some Prepared) (Some Linked)"
| revoked: "phase_step (Some s) (Some Revoked)"

inductive_simps phase_step_simps: "phase_step (Some s) (Some t)"

lemma phase_untouched: "touches T db db' \<Longrightarrow> T_intents \<notin> T \<Longrightarrow> phase_step (link_phase lid db) (link_phase lid db')"
  by (simp add: link_phase_def untouched unchanged)

lemma phase_update:
  assumes "link_intents db' = update_rows P f (link_intents db)" "\<And>n. n_id (f n) = n_id n"
    "\<And>n. n \<in> set (link_intents db) \<Longrightarrow> P n \<Longrightarrow> phase_step (Some (n_state n)) (Some (n_state (f n)))"
  shows "phase_step (link_phase lid db) (link_phase lid db')"
proof -
  have "link_phase lid db' = map_option n_state (map_option (\<lambda>n. if P n then f n else n)
      (first_row (\<lambda>n. n_id n = lid) (link_intents db)))"
    by (simp add: link_phase_def assms(1) first_row_update assms(2))
  moreover have "phase_step (Some (n_state n)) (Some (n_state (if P n then f n else n)))"
    if "first_row (\<lambda>n. n_id n = lid) (link_intents db) = Some n" for n
    using first_row_Some [OF that] assms(3) [of n] by (simp add: unchanged)
  ultimately show ?thesis
    by (cases "first_row (\<lambda>n. n_id n = lid) (link_intents db)") (simp_all add: link_phase_def [of lid db] unchanged)
qed

lemma phase_set:
  assumes "schema_ok db" "n \<in> set (link_intents db)" "n_id n = nid" "phase_step (Some (n_state n)) (Some s)"
    "link_intents db' = update_rows (\<lambda>n. n_id n = nid) (\<lambda>n. n\<lparr>n_state := s\<rparr>) (link_intents db)"
  shows "phase_step (link_phase lid db) (link_phase lid db')"
  using assms(5)
proof (rule phase_update)
  fix m assume "m \<in> set (link_intents db)" "n_id m = nid"
  then have "m = n" using row_unique(8) [OF _ assms(1) _ assms(2)] assms(3) by simp
  then show "phase_step (Some (n_state m)) (Some (n_state (m\<lparr>n_state := s\<rparr>)))" using assms(4) by simp
qed simp

lemma CreateLinkIntent_phase:
  "phase_step (link_phase lid db) (link_phase lid (snd (CreateLinkIntent wall new_id nonce c ref key db)))"
proof -
  have "link_intents (snd (CreateLinkIntent wall new_id nonce c ref key db)) = link_intents db
    \<or> (\<exists>n. n_state n = Pending \<and> link_intents (snd (CreateLinkIntent wall new_id nonce c ref key db)) = link_intents db @ [n])"
    by (auto simp: CreateLinkIntent_def Let_def insert_row_Some split: sum.splits option.splits)
  then show ?thesis
    by (auto simp: link_phase_def first_row_cong_snoc unchanged requested split: option.splits)
qed

lemma confirm_frame: "link_intents (confirm_intents now a (db\<lparr>auth_requests := t\<rparr>)) = link_intents (confirm_intents now a db)"
  by (simp add: confirm_intents_def)

lemma CompleteAuthorization_phase:
  "phase_step (link_phase lid db) (link_phase lid (snd (CompleteAuthorization now rid session db)))"
proof (cases "link_intents (snd (CompleteAuthorization now rid session db)) = link_intents db")
  case False
  then have "\<exists>a. link_intents (snd (CompleteAuthorization now rid session db)) = link_intents (confirm_intents now a db)"
    by (auto simp: CompleteAuthorization_def Let_def confirm_frame split: option.splits sum.splits if_splits)
  then obtain a where a: "link_intents (snd (CompleteAuthorization now rid session db)) = link_intents (confirm_intents now a db)"
    by blast
  have "phase_step (link_phase lid db) (link_phase lid (confirm_intents now a db))"
    by (rule phase_update [where P = "\<lambda>i. n_client_id i = rq_client_id (az_request a)
        \<and> n_nonce i = rq_nonce (az_request a) \<and> n_state i = Pending \<and> now < n_expires_at i"
        and f = "\<lambda>i. i\<lparr>n_subject := Some (az_subject a), n_state := Confirmed\<rparr>"])
      (auto simp: confirm_intents_def confirmed)
  with a show ?thesis by (simp add: link_phase_def)
qed (simp add: link_phase_def unchanged)

lemma PrepareLink_phase:
  assumes "schema_ok db"
  shows "phase_step (link_phase lid db) (link_phase lid (snd (PrepareLink now wall c nid nonce subject db)))"
proof (cases "link_intents (snd (PrepareLink now wall c nid nonce subject db)) = link_intents db")
  case False
  then obtain n where n: "first_row (\<lambda>n. n_id n = nid \<and> n_client_id n = c) (link_intents db) = Some n" "n_state n = Confirmed"
    and "link_intents (snd (PrepareLink now wall c nid nonce subject db)) = update_rows (\<lambda>n. n_id n = nid) (\<lambda>n. n\<lparr>n_state := Prepared\<rparr>) (link_intents db)"
    by (auto simp: PrepareLink_def Let_def set_intent_state_def split: option.splits if_splits)
  then show ?thesis using first_row_Some [OF n(1)] by (intro phase_set [OF assms]) (auto simp: prepared)
qed (simp add: link_phase_def unchanged)

lemma ActivateLink_phase:
  assumes "schema_ok db"
  shows "phase_step (link_phase lid db) (link_phase lid (snd (ActivateLink now wall c nid db)))"
proof (cases "link_intents (snd (ActivateLink now wall c nid db)) = link_intents db")
  case False
  then obtain n where n: "first_row (\<lambda>n. n_id n = nid \<and> n_client_id n = c) (link_intents db) = Some n" "n_state n = Prepared"
    and "link_intents (snd (ActivateLink now wall c nid db)) = update_rows (\<lambda>n. n_id n = nid) (\<lambda>n. n\<lparr>n_state := Linked\<rparr>) (link_intents db)"
    by (auto simp: ActivateLink_def Let_def set_intent_state_def split: option.splits if_splits)
  then show ?thesis using first_row_Some [OF n(1)] by (intro phase_set [OF assms]) (auto simp: activated)
qed (simp add: link_phase_def unchanged)

lemma RevokeLink_phase: "phase_step (link_phase lid db) (link_phase lid (snd (RevokeLink now eid c nid expected db)))"
proof (cases "link_intents (snd (RevokeLink now eid c nid expected db)) = link_intents db")
  case False
  then have "link_intents (snd (RevokeLink now eid c nid expected db)) = update_rows (\<lambda>n. n_id n = nid) (\<lambda>n. n\<lparr>n_state := Revoked\<rparr>) (link_intents db)"
    by (auto simp: RevokeLink_def Let_def set_intent_state_def split: option.splits if_splits)
  then show ?thesis by (rule phase_update) (auto simp: revoked)
qed (simp add: link_phase_def unchanged)

lemma Maintenance_phase: "phase_step (link_phase lid db) (link_phase lid (Maintenance now db))"
proof -
  have "link_intents (Maintenance now db) = update_rows (intent_abandoned now) (\<lambda>n. n\<lparr>n_state := Revoked\<rparr>) (link_intents db)"
    by (simp add: Maintenance_def Let_def release_intents_def release_links_def)
  then show ?thesis by (rule phase_update) (auto simp: revoked)
qed

lemma FenceRestoredState_phase: "phase_step (link_phase lid db) (link_phase lid (snd (FenceRestoredState now ids1 ids2 db)))"
proof (cases "link_intents (snd (FenceRestoredState now ids1 ids2 db)) = link_intents db")
  case False
  then have "link_intents (snd (FenceRestoredState now ids1 ids2 db))
      = update_rows (\<lambda>n. n_state n \<noteq> Revoked) (\<lambda>n. n\<lparr>n_state := Revoked\<rparr>) (link_intents db)"
    by (auto simp: FenceRestoredState_def Let_def fence_links_def fence_stamps_def kill_deliveries_def split: option.splits)
  then show ?thesis by (rule phase_update) (auto simp: revoked)
qed (simp add: link_phase_def unchanged)

lemmas phases_untouched = operation_touches [THEN phase_untouched]

lemma operation_phase:
  assumes "operation X db db'" "schema_ok db"
  shows "phase_step (link_phase lid db) (link_phase lid db')"
  using assms(1) by (cases rule: operation.cases) (simp_all add: phases_untouched assms(2) CreateLinkIntent_phase
    CompleteAuthorization_phase PrepareLink_phase ActivateLink_phase RevokeLink_phase Maintenance_phase
    FenceRestoredState_phase)

text \<open>C3: Every step keeps a link intent within its protocol (pending, confirmed, prepared, linked, and revoked from anywhere),
and the account link made from an intent always carries that intent's state, with the version that belongs to it.\<close>

theorem link_protocol:
  assumes "reach D db" "step D db D' db'"
  shows "phase_step (link_phase lid db) (link_phase lid db')
    \<and> (\<forall>l\<in>set (account_links db'). l_id l = lid \<longrightarrow> link_phase lid db' = Some (l_state l) \<and> l_version l \<in> link_version (l_state l))"
proof -
  have sound: "sound D db" "sound D' db'" using reach_sound [OF assms(1)] step_sound [OF assms(2)] by auto
  have "phase_step (link_phase lid db) (link_phase lid db')"
    using assms(2) soundD(1) [OF sound(1)] by (auto elim!: stepE intro: operation_phase)
  moreover have "link_phase lid db' = Some (l_state l) \<and> l_version l \<in> link_version (l_state l)"
    if l: "l \<in> set (account_links db')" "l_id l = lid" for l
  proof -
    have "link_fits (link_intents db') l" using soundD(3) [OF sound(2)] l(1) by (simp add: link_inv_def)
    then obtain n where n: "n \<in> set (link_intents db')" "n_id n = lid" "n_state n = l_state l" "l_version l \<in> link_version (l_state l)"
      using l(2) by (auto simp: link_fits_def)
    then have "first_row (\<lambda>n. n_id n = lid) (link_intents db') = Some n"
      using intent_ix.lookup_iff soundD(1) [OF sound(2)] by auto
    with n show ?thesis by (simp add: link_phase_def)
  qed
  ultimately show ?thesis by blast
qed

text \<open>At any time a client has at most one unrevoked link for each of its local accounts, and at most one for each subject.\<close>

theorem live_links_unique:
  assumes "reach D db" "l \<in> set (account_links db)" "m \<in> set (account_links db)"
    and "l_state l \<noteq> Revoked" "l_state m \<noteq> Revoked" "l_client_id l = l_client_id m"
    and "l_local_ref l = l_local_ref m \<or> l_subject l = l_subject m"
  shows "l = m"
  using link_ix.no_clash [OF schema_ok_tables(9) [OF soundD(1) [OF reach_sound [OF assms(1)]]] assms(2,3)] assms(4-7)
  by (simp add: link_clash_def)

theorem link_protocol_witness:
  "phase_step (link_phase ''i1'' db11) (link_phase ''i1'' db12)
    \<and> link_phase ''i1'' db11 = Some Confirmed \<and> link_phase ''i1'' db12 = Some Prepared"
proof -
  have step: "step D_db11 db11 D_db11 db12"
    unfolding db12_def by (rule step_quiet [OF prepare_link])
  show ?thesis using link_protocol [OF db11_reach step, of "''i1''"]
    by (simp add: link_phase_def db11_tables db12_tables scenario_simps)
qed

theorem live_links_unique_witness: "\<exists>l\<in>set (account_links db18). \<forall>m\<in>set (account_links db18).
    l_state m \<noteq> Revoked \<and> l_client_id m = l_client_id l \<and> l_local_ref m = l_local_ref l \<longrightarrow> m = l"
proof (rule bexI ballI impI)+
  fix m assume "m \<in> set (account_links db18)"
    "l_state m \<noteq> Revoked \<and> l_client_id m = l_client_id (activate_row link1) \<and> l_local_ref m = l_local_ref (activate_row link1)"
  then show "m = (activate_row link1)"
    using live_links_unique [OF db18_reach, of m "activate_row link1"] by (simp add: db18_tables link1_def activate_row_def)
qed (simp add: db18_tables)

end
