(* ===== verification/Cutoff.thy ===== *)
theory Cutoff
  imports Link_Protocol
begin

text \<open>The operations that end access (logout.go, links.go, exchange.go, account_security.go, service_accounts.go,
recovery.go). What an operation of this kind promises is stated by the locales token_cutoff and subject_cutoff and proved for
each of them; that nothing brings the access back is proved once, in the locales, from the histories of the rows.\<close>

text \<open>Sessions and families that were revoked.\<close>

lemma closed_session:
  assumes "reach D db" "run D db D' db'" "s \<in> set (browser_sessions db)" "s_revoked_at s \<noteq> None"
    "s_token_hash s = Hash token"
  shows "Session now token db' = Inl ErrUnauthorized" "CheckCSRF now token csrf db' = Inl ErrForbidden"
proof -
  obtain s' where s': "s' \<in> set (browser_sessions db')" "session_le s s'"
    using run_rows(2) [OF assms(1,2,3)] by blast
  then have rev: "s_revoked_at s' \<noteq> None" "s_token_hash s' = Hash token"
    using assms(4,5) by (auto simp: session_le_def stays_def)
  have only: "x = s'" if "x \<in> set (browser_sessions db')" "s_token_hash x = Hash token" for x
    using that s'(1) rev(2) schema_ok_tables(2) [OF run_schema(2) [OF assms(1,2)]] session_ix.no_clash
    by (metis session_clash_def)
  then have "first_row (\<lambda>x. s_token_hash x = Hash token \<and> live_session now x \<and> P x) (browser_sessions db') = None" for P
    using rev(1) by (auto simp: first_row_None live_session_def)
  note none = this this [of "\<lambda>_. True"]
  show "Session now token db' = Inl ErrUnauthorized" "CheckCSRF now token csrf db' = Inl ErrForbidden"
    using none by (auto simp: Session_def CheckCSRF_def)
qed

lemma closed_family:
  assumes "reach D db" "run D db D' db'" "f \<in> set (token_families db)" "f_revoked_at f \<noteq> None"
    and "r \<in> set (refresh_tokens db')" "rt_family_id r = f_id f" "rt_token_hash r = Hash raw"
  shows "fst (TokenRequestByRefreshToken now raw db') = Inl InvalidRefreshToken"
    and "raw \<noteq> [] \<Longrightarrow> \<exists>e. fst (CreateAccessAndRefreshTokens now wall new_id fam raw' req raw db') = Inl e"
proof -
  obtain f' where f': "f' \<in> set (token_families db')" "family_le f f'"
    using run_rows(3) [OF assms(1-3)] by blast
  then have "f_revoked_at f' \<noteq> None" "rt_family_id r = f_id f'"
    using assms(4,6) by (auto simp: family_le_def stays_def)
  note refuse = revoked_family_refuses [OF run_schema(2) [OF assms(1,2)] f'(1) this(1) assms(5) this(2) assms(7)]
  show "fst (TokenRequestByRefreshToken now raw db') = Inl InvalidRefreshToken"
    "raw \<noteq> [] \<Longrightarrow> \<exists>e. fst (CreateAccessAndRefreshTokens now wall new_id fam raw' req raw db') = Inl e"
    using refuse(1) refuse(2) by (metis fst_conv)+
qed

section \<open>Operations that end access\<close>

text \<open>An operation that ends some access tokens ends them for good.\<close>

locale token_cutoff =
  fixes act :: "db \<Rightarrow> db" and fresh :: drawn and hit :: "db \<Rightarrow> access_row \<Rightarrow> bool"
  assumes act_operation: "operation fresh db (act db)"
    and act_ends: "schema_ok db \<Longrightarrow> a \<in> set (access_tokens db) \<Longrightarrow> hit db a \<Longrightarrow>
      \<exists>b\<in>set (access_tokens (act db)). t_id b = t_id a \<and> ended (act db) b"
begin

lemma reach_act:
  assumes "reach D db" "\<And>t. fresh t \<inter> D t = {}"
  shows "reach (\<lambda>t. D t \<union> fresh t) (act db)"
  using assms by (blast intro: reach_run run.further [OF run.stop] step.intros [OF act_operation])

lemma dead:
  assumes "reach D db" "\<And>t. fresh t \<inter> D t = {}" "run (\<lambda>t. D t \<union> fresh t) (act db) D' db'"
    and "a \<in> set (access_tokens db)" "hit db a"
  shows "ActiveToken later (t_id a) db' = Inl ErrUnauthorized"
proof -
  note r = reach_act [OF assms(1,2)]
  obtain b where b: "b \<in> set (access_tokens (act db))" "t_id b = t_id a" "ended (act db) b"
    using act_ends [OF soundD(1) [OF reach_sound [OF assms(1)]] assms(4,5)] by blast
  have "ended db' c" if "c \<in> set (access_tokens db')" "t_id c = t_id a" for c
    using ended_run [OF r assms(3) b(1,3) that(1)] that(2) b(2) by simp
  then show ?thesis
    using ended_unusable run_schema(2) [OF r assms(3)] by (blast intro: unusable_rejected [OF run_kept(2) [OF r assms(3)]])
qed

end

text \<open>An operation that, where it takes effect, revokes all sessions, families and access tokens of a subject.\<close>

definition all_revoked :: "string \<Rightarrow> db \<Rightarrow> db \<Rightarrow> bool" where
  "all_revoked subject db db' \<longleftrightarrow>
     (\<forall>s\<in>set (browser_sessions db). s_identity_id s = subject \<longrightarrow>
        (\<exists>s'\<in>set (browser_sessions db'). s_token_hash s' = s_token_hash s \<and> s_revoked_at s' \<noteq> None))
     \<and> (\<forall>f\<in>set (token_families db). f_subject f = subject \<longrightarrow>
        (\<exists>f'\<in>set (token_families db'). f_id f' = f_id f \<and> f_revoked_at f' \<noteq> None))
     \<and> (\<forall>a\<in>set (access_tokens db). t_subject a = subject \<longrightarrow>
        (\<exists>a'\<in>set (access_tokens db'). t_id a' = t_id a \<and> t_revoked_at a' \<noteq> None))"

lemma all_revoked_subject: "all_revoked subject db (revoke_subject now subject db)"
  by (auto simp: all_revoked_def revoke_subject_def stamp_rows_def table_simps image_iff bex_Un)

definition same_access :: "db \<Rightarrow> db \<Rightarrow> bool" where
  "same_access a b = (browser_sessions a = browser_sessions b \<and> token_families a = token_families b
     \<and> access_tokens a = access_tokens b)"

lemma same_access_trans: "same_access a b \<Longrightarrow> same_access b c \<Longrightarrow> same_access a c"
  by (simp add: same_access_def)

lemma all_revoked_frame: "all_revoked subject db db' \<Longrightarrow> same_access db e \<Longrightarrow> same_access db' e' \<Longrightarrow> all_revoked subject e e'"
  by (simp add: all_revoked_def same_access_def)

locale subject_cutoff =
  fixes act :: "db \<Rightarrow> db" and fresh :: drawn and cut :: "db \<Rightarrow> string \<Rightarrow> bool"
  assumes cut_operation: "operation fresh db (act db)"
    and cut_revokes: "schema_ok db \<Longrightarrow> cut db subject \<Longrightarrow> all_revoked subject db (act db)"
begin

lemma cut_token:
  assumes "schema_ok db" "a \<in> set (access_tokens db)" "cut db (t_subject a)"
  shows "\<exists>b\<in>set (access_tokens (act db)). t_id b = t_id a \<and> ended (act db) b"
  using cut_revokes [OF assms(1,3)] assms(2) unfolding all_revoked_def ended_def by blast

sublocale token_cutoff act fresh "\<lambda>db a. cut db (t_subject a)"
  by unfold_locales (fact cut_operation, fact cut_token)

lemma session_closed:
  assumes "reach D db" "\<And>t. fresh t \<inter> D t = {}" "run (\<lambda>t. D t \<union> fresh t) (act db) D' db'"
    and "s \<in> set (browser_sessions db)" "cut db (s_identity_id s)" "s_token_hash s = Hash token"
  shows "Session later token db' = Inl ErrUnauthorized"
proof -
  obtain s' where "s' \<in> set (browser_sessions (act db))" "s_token_hash s' = Hash token" "s_revoked_at s' \<noteq> None"
    using cut_revokes [OF soundD(1) [OF reach_sound [OF assms(1)]] assms(5)] assms(4,6) unfolding all_revoked_def by metis
  then show ?thesis by (intro closed_session [OF reach_act [OF assms(1,2)] assms(3)])
qed

lemma family_closed:
  assumes "reach D db" "\<And>t. fresh t \<inter> D t = {}" "run (\<lambda>t. D t \<union> fresh t) (act db) D' db'"
    and "f \<in> set (token_families db)" "cut db (f_subject f)"
    and "r \<in> set (refresh_tokens db')" "rt_family_id r = f_id f" "rt_token_hash r = Hash raw"
  shows "fst (TokenRequestByRefreshToken later raw db') = Inl InvalidRefreshToken"
proof -
  obtain f' where f': "f' \<in> set (token_families (act db))" "f_id f' = f_id f" "f_revoked_at f' \<noteq> None"
    using cut_revokes [OF soundD(1) [OF reach_sound [OF assms(1)]] assms(5)] assms(4) unfolding all_revoked_def by metis
  then show ?thesis
    using closed_family(1) [OF reach_act [OF assms(1,2)] assms(3) f'(1,3) assms(6)] assms(7,8) by simp
qed

end

lemma queueLogout_revokes:
  assumes "queueLogout now' ids subject sid (revoke_subject now subject db) = Some db'" "same_access db e"
  shows "all_revoked subject e (audit u x y z db')"
  by (rule all_revoked_frame [OF all_revoked_subject [of subject db now] assms(2)])
    (use assms(1) in \<open>auto simp: queueLogout_def same_access_def\<close>)

interpretation logout_all: subject_cutoff "\<lambda>db. snd (LogoutAll now ids subject db)" "draws T_outbox (range ids)"
  "\<lambda>db s. s = subject \<and> fst (LogoutAll now ids subject db) = Inr ()" for now ids subject
proof unfold_locales
  fix db s assume "s = subject \<and> fst (LogoutAll now ids subject db) = Inr ()"
  then show "all_revoked s db (snd (LogoutAll now ids subject db))"
    by (auto simp: LogoutAll_def same_access_def split: if_splits option.splits intro: queueLogout_revokes)
qed (rule logout_all)

lemma all_revoked_end_access:
  assumes "end_access now ids action subject db = Some db'" "same_access db e"
  shows "all_revoked subject e db'"
  by (rule all_revoked_frame [OF all_revoked_subject [of subject db now] assms(2)])
    (use assms(1) in \<open>auto simp: end_access_def queueLogout_def void_authorizations_def same_access_def\<close>)

lemma untouched_access: "touches T db db' \<Longrightarrow> T \<inter> {T_sessions, T_families, T_access} = {} \<Longrightarrow> same_access db' db"
  using untouched(2,5,7) [of T db db'] by (auto simp: same_access_def)

interpretation disabling: subject_cutoff "\<lambda>db. snd (SetIdentityStatus now ids ids' actor subject ''disabled'' db)"
  "draws T_outbox (range ids \<union> range ids')"
  "\<lambda>db s. s = subject \<and> fst (SetIdentityStatus now ids ids' actor subject ''disabled'' db) = Inr ()
     \<and> some_row (active_identity subject) (identities db)" for now ids ids' actor subject
proof unfold_locales
  fix db s assume schema: "schema_ok db" and cut: "s = subject \<and> fst (SetIdentityStatus now ids ids' actor subject ''disabled'' db) = Inr ()
     \<and> some_row (active_identity subject) (identities db)"
  then have "i_status i = Active" if "first_row (\<lambda>i. i_id i = subject) (identities db) = Some i" for i
  proof -
    obtain j where j: "j \<in> set (identities db)" "i_id j = subject" "i_status j = Active"
      using cut unfolding some_row_iff active_identity_def by blast
    moreover have "i = j" using row_unique(1) [OF _ schema _ j(1)] first_row_Some [OF that] j(2) by simp
    ultimately show ?thesis by simp
  qed
  with cut show "all_revoked s db (snd (SetIdentityStatus now ids ids' actor subject ''disabled'' db))"
    by (auto simp: SetIdentityStatus_def parse_status_def Let_def same_access_def split: if_splits option.splits
      elim!: queueLogout_revokes)
qed (rule set_status)

interpretation password_change: subject_cutoff
  "\<lambda>db. snd (ChangePassword kdf unseal totp now wall salt ids subject sid current new_password code peer db)"
  "draws T_outbox (range ids)"
  "\<lambda>db s. s = subject
     \<and> fst (ChangePassword kdf unseal totp now wall salt ids subject sid current new_password code peer db) = Inr ()"
  for kdf unseal totp now wall salt ids subject sid current new_password code peer
proof unfold_locales
  have auth: "same_access b db" if "Authenticate kdf now e pw peer db = (r, b)" for e pw r b db
    using untouched_access [OF Authenticate_touches [of db kdf now e pw peer]] that by simp
  have mfa: "same_access b db" if "VerifyMFA unseal totp now wall subject code db = (r, b)" for r b db
    using untouched_access [OF VerifyMFA_touches [of db unseal totp now wall subject code]] that by simp
  have commit: "all_revoked subject db (snd (commit_password kdf now ids subject sid e current en b))"
    if "same_access b db" "fst (commit_password kdf now ids subject sid e current en b) = Inr ()" for b e en db
    using that by (auto simp: commit_password_def set_password_def same_access_def split: option.splits if_splits
      elim!: all_revoked_end_access)
  fix db s assume cut: "s = subject
     \<and> fst (ChangePassword kdf unseal totp now wall salt ids subject sid current new_password code peer db) = Inr ()"
  then obtain en u where first: "current \<noteq> new_password" "HashPassword kdf salt new_password = Inr en" "Identity subject db = Inr u"
    by (auto simp: ChangePassword_def split: sum.splits if_splits)
  with cut obtain r1 a e where second: "Authenticate kdf now (u_email u) current peer db = (Inr r1, a)" "MFAEnabled subject a = Inr e"
    by (auto simp: ChangePassword_def split: sum.splits prod.splits)
  with cut first obtain r2 b where steps: "(if e then VerifyMFA unseal totp now wall subject code a else (Inr (), a)) = (Inr r2, b)"
      "ChangePassword kdf unseal totp now wall salt ids subject sid current new_password code peer db
        = commit_password kdf now ids subject sid e current en b"
    by (auto simp: ChangePassword_def split: sum.splits prod.splits if_splits)
  have "same_access b db" using steps(1) mfa [of a "Inr r2" b] auth [OF second(1)]
    by (auto split: if_splits intro: same_access_trans)
  with cut steps(2)
  show "all_revoked s db (snd (ChangePassword kdf unseal totp now wall salt ids subject sid current new_password code peer db))"
    by (simp add: commit)
qed (rule change_password)

interpretation recovery: subject_cutoff "\<lambda>db. snd (RedeemCredential kdf now salt new_id ids ''recovery'' raw name password db)"
  "draws T_outbox (range ids)"
  "\<lambda>db s. \<exists>u. fst (RedeemCredential kdf now salt new_id ids ''recovery'' raw name password db) = Inr u \<and> u_id u = s"
  for kdf now salt new_id ids raw name password
proof unfold_locales
  fix db s assume "\<exists>u. fst (RedeemCredential kdf now salt new_id ids ''recovery'' raw name password db) = Inr u \<and> u_id u = s"
  then obtain u where ok: "fst (RedeemCredential kdf now salt new_id ids ''recovery'' raw name password db) = Inr u" "u_id u = s"
    by blast
  then obtain encoded c i where found: "HashPassword kdf salt password = Inr encoded"
      "first_row (usable_credential now raw Recovery) (one_time_credentials db) = Some c"
      "first_row (\<lambda>i. i_email i = c_email c \<and> i_status i = Active) (identities (consume_credential now raw Recovery db)) = Some i"
    by (auto simp: RedeemCredential_def Let_def split: sum.splits option.splits)
  with ok obtain b where b: "end_access now ids ''credential.redeem.recovery'' (i_id i)
        (set_password (i_id i) encoded (consume_credential now raw Recovery db)) = Some b"
      "RedeemCredential kdf now salt new_id ids ''recovery'' raw name password db = (Identity (i_id i) b, b)"
    by (auto simp: RedeemCredential_def Let_def split: option.splits)
  have "s = i_id i" using ok b(2) by (auto simp: Identity_Inr active_identity_def view_identity_def dest!: first_row_Some)
  with b show "all_revoked s db (snd (RedeemCredential kdf now salt new_id ids ''recovery'' raw name password db))"
    by (auto simp: set_password_def consume_credential_def same_access_def elim!: all_revoked_end_access)
qed (rule redeem_credential)



section \<open>Operations that end some tokens\<close>

lemma stamped_ended:
  assumes "a \<in> set ts" "P a" "set (access_stamp.stamp_where now P ts) \<subseteq> set (access_tokens db')"
  shows "\<exists>b\<in>set (access_tokens db'). t_id b = t_id a \<and> ended db' b"
proof -
  have "a\<lparr>t_revoked_at := Some (coalesce (t_revoked_at a) now)\<rparr> \<in> set (access_tokens db')" (is "?b \<in> _")
    using row_updated [OF assms(1), of P] assms(2,3) by (auto simp: stamp_rows_def)
  moreover have "ended db' ?b" by (simp add: ended_def)
  ultimately show ?thesis by (intro bexI [of _ ?b]) simp_all
qed

interpretation policy_withdrawal: token_cutoff
  "\<lambda>db. snd (SetExchangePolicy now actor caller target resource scope False db)" none
  "\<lambda>db a. fst (SetExchangePolicy now actor caller target resource scope False db) = Inr ()
     \<and> t_client_id a = caller \<and> tk_delegated (t_payload a) \<and> resource \<in> set (tk_audience (t_payload a))"
  for now actor caller target resource scope
proof unfold_locales
  fix db a assume "a \<in> set (access_tokens db)"
    "fst (SetExchangePolicy now actor caller target resource scope False db) = Inr ()
      \<and> t_client_id a = caller \<and> tk_delegated (t_payload a) \<and> resource \<in> set (tk_audience (t_payload a))"
  then show "\<exists>b\<in>set (access_tokens (snd (SetExchangePolicy now actor caller target resource scope False db))).
      t_id b = t_id a \<and> ended (snd (SetExchangePolicy now actor caller target resource scope False db)) b"
    by (elim stamped_ended [where now = now and P = "\<lambda>a. t_client_id a = caller \<and> tk_delegated (t_payload a)
        \<and> resource \<in> set (tk_audience (t_payload a))"])
      (auto simp: SetExchangePolicy_def Let_def split: if_splits sum.splits)
qed (rule set_policy)

interpretation consent_withdrawal: token_cutoff
  "\<lambda>db. snd (SetExchangeConsent now subject caller target resource scope False db)" none
  "\<lambda>db a. t_subject a = subject \<and> t_client_id a = caller \<and> tk_delegated (t_payload a)
     \<and> resource \<in> set (tk_audience (t_payload a))"
  for now subject caller target resource scope
proof unfold_locales
  fix db :: db and a assume "a \<in> set (access_tokens db)"
    "t_subject a = subject \<and> t_client_id a = caller \<and> tk_delegated (t_payload a) \<and> resource \<in> set (tk_audience (t_payload a))"
  then show "\<exists>b\<in>set (access_tokens (snd (SetExchangeConsent now subject caller target resource scope False db))).
      t_id b = t_id a \<and> ended (snd (SetExchangeConsent now subject caller target resource scope False db)) b"
    by (elim stamped_ended [where now = now and P = "\<lambda>a. t_subject a = subject \<and> t_client_id a = caller
        \<and> tk_delegated (t_payload a) \<and> resource \<in> set (tk_audience (t_payload a))"])
      (auto simp: SetExchangeConsent_def Let_def)
qed (rule set_consent)

lemma link_access_revoked:
  assumes "a \<in> set (access_tokens db)" "t_subject a = subject"
    and "t_client_id a = c \<or> tk_delegated (t_payload a)
      \<and> (\<exists>p\<in>set (exchange_policies db). x_caller p = t_client_id a \<and> x_target p = c)"
  shows "\<exists>b\<in>set (access_tokens (revoke_link_access now subject c db)). t_id b = t_id a \<and> t_revoked_at b \<noteq> None"
proof -
  define stamp where "stamp a = a\<lparr>t_revoked_at := Some (coalesce (t_revoked_at a) now)\<rparr>" for a :: access_row
  define direct where "direct a = (t_subject a = subject \<and> t_client_id a = c)" for a :: access_row
  define via where "via a = (t_subject a = subject \<and> tk_delegated (t_payload a)
      \<and> some_row (\<lambda>p. x_caller p = t_client_id a \<and> x_target p = c) (exchange_policies db))" for a :: access_row
  have rows: "access_tokens (revoke_link_access now subject c db) = update_rows via stamp (update_rows direct stamp (access_tokens db))"
    by (simp add: revoke_link_access_def stamp_rows_def direct_def [abs_def] via_def [abs_def] stamp_def [abs_def])
  define b where "b = (if direct a then stamp a else a)"
  have "(if via b then stamp b else b) \<in> set (access_tokens (revoke_link_access now subject c db))"
    unfolding rows b_def by (intro row_updated assms(1))
  moreover have "t_id (if via b then stamp b else b) = t_id a" by (simp add: b_def stamp_def)
  moreover have "direct a \<or> via b" using assms(2,3) by (auto simp: direct_def via_def b_def some_row_iff)
  then have "t_revoked_at (if via b then stamp b else b) \<noteq> None" by (auto simp: b_def stamp_def)
  ultimately show ?thesis by blast
qed

interpretation unlinking: token_cutoff "\<lambda>db. snd (RevokeLink now eid c lid expected db)" "draws T_outbox {eid}"
  "\<lambda>db a. \<exists>l\<in>set (account_links db). l_id l = lid \<and> l_client_id l = c \<and> l_state l \<noteq> Revoked \<and> t_subject a = l_subject l
     \<and> (\<exists>v. fst (RevokeLink now eid c lid expected db) = Inr v)
     \<and> (t_client_id a = c \<or> tk_delegated (t_payload a)
          \<and> (\<exists>p\<in>set (exchange_policies db). x_caller p = t_client_id a \<and> x_target p = c))"
  for now eid c lid expected
proof unfold_locales
  fix db a assume schema: "schema_ok db" and a: "a \<in> set (access_tokens db)"
    and "\<exists>l\<in>set (account_links db). l_id l = lid \<and> l_client_id l = c \<and> l_state l \<noteq> Revoked \<and> t_subject a = l_subject l
     \<and> (\<exists>v. fst (RevokeLink now eid c lid expected db) = Inr v)
     \<and> (t_client_id a = c \<or> tk_delegated (t_payload a)
          \<and> (\<exists>p\<in>set (exchange_policies db). x_caller p = t_client_id a \<and> x_target p = c))"
  then obtain l v where l: "l \<in> set (account_links db)" "l_id l = lid" "l_client_id l = c" "l_state l \<noteq> Revoked"
      "t_subject a = l_subject l" "fst (RevokeLink now eid c lid expected db) = Inr v"
    and own: "t_client_id a = c \<or> tk_delegated (t_payload a)
          \<and> (\<exists>p\<in>set (exchange_policies db). x_caller p = t_client_id a \<and> x_target p = c)"
    by blast
  have "first_row (\<lambda>l. l_id l = lid \<and> l_client_id l = c) (account_links db) = Some l"
    using l(2,3) by (intro link_ix.lookup_where [OF schema_ok_tables(9) [OF schema] l(1)]) simp_all
  then have access: "access_tokens (snd (RevokeLink now eid c lid expected db)) = access_tokens (revoke_link_access now (l_subject l) c db)"
    using l(4,6) by (auto simp: RevokeLink_def Let_def revoke_link_access_def set_intent_state_def split: if_splits option.splits)
  have "\<exists>b\<in>set (access_tokens (revoke_link_access now (l_subject l) c db)). t_id b = t_id a \<and> t_revoked_at b \<noteq> None"
    using link_access_revoked [OF a l(5) own] .
  then show "\<exists>b\<in>set (access_tokens (snd (RevokeLink now eid c lid expected db))).
      t_id b = t_id a \<and> ended (snd (RevokeLink now eid c lid expected db)) b"
    unfolding access ended_def by blast
qed (rule revoke_link)

interpretation session_logout: token_cutoff "\<lambda>db. snd (LogoutSession now ids subject sid db)" "draws T_outbox (range ids)"
  "\<lambda>db a. t_subject a = subject \<and> sid \<noteq> [] \<and> tk_session_id (t_payload a) = sid
     \<and> (\<exists>s\<in>set (browser_sessions db). s_id s = sid \<and> s_identity_id s = subject \<and> s_revoked_at s = None)
     \<and> fst (LogoutSession now ids subject sid db) = Inr ()"
  for now ids subject sid
proof unfold_locales
  fix db a assume schema: "schema_ok db" and a: "a \<in> set (access_tokens db)"
    and hit: "t_subject a = subject \<and> sid \<noteq> [] \<and> tk_session_id (t_payload a) = sid
     \<and> (\<exists>s\<in>set (browser_sessions db). s_id s = sid \<and> s_identity_id s = subject \<and> s_revoked_at s = None)
     \<and> fst (LogoutSession now ids subject sid db) = Inr ()"
  then obtain s where "first_row (\<lambda>s. s_id s = sid \<and> s_identity_id s = subject) (browser_sessions db) = Some s" "s_revoked_at s = None"
    using session_ix.lookup_where [OF schema_ok_tables(2) [OF schema], where P = "\<lambda>s. s_id s = sid \<and> s_identity_id s = subject"]
    by (metis (mono_tags, lifting))
  with a hit show "\<exists>b\<in>set (access_tokens (snd (LogoutSession now ids subject sid db))).
      t_id b = t_id a \<and> ended (snd (LogoutSession now ids subject sid db)) b"
    by (elim stamped_ended [where now = now and P = "\<lambda>t. t_subject t = subject \<and> sid \<noteq> [] \<and> tk_session_id (t_payload t) = sid"])
      (auto simp: LogoutSession_def Let_def queueLogout_def split: option.splits)
qed (rule logout_session)

interpretation service_disabling: token_cutoff "\<lambda>db. snd (SetServiceAccountActiveAs now secret actor c False db)" none
  "\<lambda>db a. t_client_id a = c \<and> t_revoked_at a = None
     \<and> (\<exists>r\<in>set (applications db). a_id r = c \<and> serviceClient (a_config r) \<and> a_active r)"
  for now secret actor c
proof unfold_locales
  fix db a assume schema: "schema_ok db" and a: "a \<in> set (access_tokens db)"
    and hit: "t_client_id a = c \<and> t_revoked_at a = None
     \<and> (\<exists>r\<in>set (applications db). a_id r = c \<and> serviceClient (a_config r) \<and> a_active r)"
  then obtain r where "first_row (\<lambda>r. a_id r = c) (applications db) = Some r" "serviceClient (a_config r)" "a_active r"
    using application_ix.lookup_iff schema by (metis schema_ok_tables(3))
  with a hit show "\<exists>b\<in>set (access_tokens (snd (SetServiceAccountActiveAs now secret actor c False db))).
      t_id b = t_id a \<and> ended (snd (SetServiceAccountActiveAs now secret actor c False db)) b"
    by (elim stamped_ended [where now = now and P = "\<lambda>t. t_client_id t = c \<and> t_revoked_at t = None"])
      (auto simp: SetServiceAccountActiveAs_def Let_def)
qed (rule set_service)

section \<open>What ends a subject's access\<close>

text \<open>Nothing a subject held before lets it in after: no access token, no session cookie and no refresh token.\<close>

definition locked_out :: "string \<Rightarrow> db \<Rightarrow> db \<Rightarrow> bool" where
  "locked_out subject before after \<longleftrightarrow>
     (\<forall>a\<in>set (access_tokens before). t_subject a = subject \<longrightarrow>
        (\<forall>now. ActiveToken now (t_id a) after = Inl ErrUnauthorized))
     \<and> (\<forall>s\<in>set (browser_sessions before). s_identity_id s = subject \<longrightarrow>
        (\<forall>now token. s_token_hash s = Hash token \<longrightarrow> Session now token after = Inl ErrUnauthorized))
     \<and> (\<forall>f\<in>set (token_families before). f_subject f = subject \<longrightarrow>
        (\<forall>r\<in>set (refresh_tokens after). rt_family_id r = f_id f \<longrightarrow>
           (\<forall>now raw. rt_token_hash r = Hash raw \<longrightarrow>
              fst (TokenRequestByRefreshToken now raw after) = Inl InvalidRefreshToken)))"

context subject_cutoff begin

lemma locks_out:
  assumes "reach D db" "\<And>t. fresh t \<inter> D t = {}" "run (\<lambda>t. D t \<union> fresh t) (act db) D' db'" "cut db subject"
  shows "locked_out subject db db'"
  unfolding locked_out_def
  using dead [OF assms(1-3)] session_closed [OF assms(1-3)] family_closed [OF assms(1-3)] assms(4) by blast

end

lemma fresh_notices: "(\<And>n. ids n \<notin> D T_outbox) \<Longrightarrow> draws T_outbox (range ids) t \<inter> D t = {}"
  by (auto simp: draws_eq none_def)

text \<open>C26: After a user logs out everywhere, no access token, session cookie or refresh token the user had before is ever accepted
again, whatever runs afterwards.\<close>

theorem logout_all_locks_out:
  assumes "reach D db" "\<And>n. ids n \<notin> D T_outbox" "LogoutAll now ids subject db = (Inr (), mid)"
    and "run (\<lambda>t. D t \<union> draws T_outbox (range ids) t) mid D' db'"
  shows "locked_out subject db db'"
  using logout_all.locks_out [OF assms(1) fresh_notices [of ids D, OF assms(2)], where now = now and subject = subject] assms(3,4)
  by simp

theorem logout_all_locks_out_witness:
  "ActiveToken 1 ''t4'' (snd (LogoutAll 0 notices ''ann'' db27)) = Inl ErrUnauthorized
   \<and> Session 1 ''abc'' (snd (LogoutAll 0 notices ''ann'' db27)) = Inl ErrUnauthorized"
proof -
  have "fst (LogoutAll 0 notices ''ann'' db27) = Inr ()"
    by (simp add: LogoutAll_def queueLogout_def db27_tables scenario_simps linked_clients_def numbered_def outbox_clash_def
      outbox_event_def notices_def active_identity_def active_app_def activate_row_def)
  then have out: "LogoutAll 0 notices ''ann'' db27 = (Inr (), snd (LogoutAll 0 notices ''ann'' db27))" by (metis prod.collapse)
  have "locked_out ''ann'' db27 (snd (LogoutAll 0 notices ''ann'' db27))"
    by (rule logout_all_locks_out [OF db27_reach _ out run.stop]) (simp add: D_db27_def)
  then show ?thesis
    by (simp add: locked_out_def db27_tables token4_def ann_session_def token1_def access_row_of_def)
qed

text \<open>Logging out everywhere leaves the device authorizations as they are: a device the user approved before still gets its
tokens afterwards. A password change, by contrast, denies it.\<close>

lemma logout_all_spares_devices:
  "fst (GetDeviceAuthorizatonState now' wall client code (snd (LogoutAll now ids subject db)))
    = fst (GetDeviceAuthorizatonState now' wall client code db)"
proof -
  have "device_authorizations (snd (LogoutAll now ids subject db)) = device_authorizations db"
      "identities (snd (LogoutAll now ids subject db)) = identities db"
    using LogoutAll_touches [of db now ids subject] by (simp_all add: touches_def)
  then show ?thesis by (simp add: GetDeviceAuthorizatonState_def Let_def split: option.split)
qed

lemma approved_device_survives_logout:
  "fst (GetDeviceAuthorizatonState 0 (seconds 5) ''tv'' ''dc'' (snd (LogoutAll 0 notices ''ann'' db23))) = Inr device_done"
  unfolding logout_all_spares_devices
  by (simp add: db23_tables scenario_simps GetDeviceAuthorizatonState_def update_device_def active_identity_def poll_state_def)

text \<open>A password change locks out every session and token the account had before, and so does the redemption of a recovery
link: whoever knew the old password keeps nothing.\<close>

theorem new_password_locks_out:
  assumes "reach D db" "\<And>n. ids n \<notin> D T_outbox" "run (\<lambda>t. D t \<union> draws T_outbox (range ids) t) mid D' db'"
    and "ChangePassword kdf unseal totp now wall salt ids subject sid current new code peer db = (Inr (), mid)
      \<or> (\<exists>u. RedeemCredential kdf now salt new_id ids ''recovery'' raw name new db = (Inr u, mid) \<and> u_id u = subject)"
  shows "locked_out subject db db'"
  using assms(4)
proof
  assume "ChangePassword kdf unseal totp now wall salt ids subject sid current new code peer db = (Inr (), mid)"
  then show ?thesis
    using password_change.locks_out [OF assms(1) fresh_notices [of ids D, OF assms(2)], where kdf = kdf and unseal = unseal
      and totp = totp and now = now and wall = wall and salt = salt and sid = sid and current = current and new_password = new
      and code = code and peer = peer] assms(3) by simp
next
  assume "\<exists>u. RedeemCredential kdf now salt new_id ids ''recovery'' raw name new db = (Inr u, mid) \<and> u_id u = subject"
  then show ?thesis
    using recovery.locks_out [OF assms(1) fresh_notices [of ids D, OF assms(2)], where kdf = kdf and now = now and salt = salt
      and new_id = new_id and raw = raw and name = name and password = new and subject = subject] assms(3) by auto
qed

lemma ann_password: "PasswordMatches kdf_example ''correct horse'' ann_hash"
  by code_simp

lemma ann_mail: "to_lower (trim_space ''a@x.y'') = ''a@x.y''"
  by code_simp

lemma Allow_few:
  assumes "\<forall>r\<in>set (rate_limits db). q_count r \<le> k" "0 \<le> k" "k < limit"
  shows "fst (Allow now key limit window db)"
    and "\<forall>r\<in>set (rate_limits (snd (Allow now key limit window db))). q_count r \<le> k + 1"
  using assms by (auto simp: Allow_unfold upsert_rate_def Let_def bump_def table_simps split: option.splits dest!: first_row_Some)

lemma ann_authenticates:
  "\<exists>t. Authenticate kdf_example 1 ''a@x.y'' ''correct horse'' ''peer'' db27 = (Inr (view_identity ann), db27\<lparr>rate_limits := t\<rparr>)"
proof -
  define keys where "keys = [''login-account:a@x.y'', ''login-peer:peer'']"
  have "fst (allow_all 1 keys 12 (minutes 15) db27)"
    using Allow_few(1) [of db27 1 12] Allow_few(2) [of db27 1 12 1 "hd keys" "minutes 15"] Allow_few(1) [of _ 2 12]
    by (simp add: keys_def case_prod_unfold db27_tables rate1_def)
  moreover obtain t where "snd (allow_all 1 keys 12 (minutes 15) db27) = db27\<lparr>rate_limits := t\<rparr>"
    using allow_all_eq by blast
  ultimately have "allow_all 1 keys 12 (minutes 15) db27 = (True, db27\<lparr>rate_limits := t\<rparr>)" by (simp add: prod_eq_iff)
  then have "Authenticate kdf_example 1 ''a@x.y'' ''correct horse'' ''peer'' db27 = (Inr (view_identity ann), db27\<lparr>rate_limits := t\<rparr>)"
    using ann_password by (simp add: Authenticate_def ann_mail keys_def db27_tables first_row_simps ann_def
      Identity_def active_identity_def)
  then show ?thesis by blast
qed

theorem new_password_locks_out_witness:
  "ActiveToken 2 ''t4'' (snd (ChangePassword kdf_example Inr (\<lambda>_ _. None) 1 1 salt notices ''ann'' ''s1''
      ''correct horse'' ''battery staple'' [] ''peer'' db27)) = Inl ErrUnauthorized"
proof -
  define out where "out = ChangePassword kdf_example Inr (\<lambda>_ _. None) 1 1 salt notices ''ann'' ''s1''
      ''correct horse'' ''battery staple'' [] ''peer'' db27"
  have new: "\<exists>h. HashPassword kdf_example salt ''battery staple'' = Inr h" by (simp add: HashPassword_def salt_def)
  have "fst out = Inr ()" unfolding out_def
    using ann_password new ann_authenticates by (auto simp: ChangePassword_def db27_tables scenario_simps
      Identity_def active_identity_def view_identity_def MFAEnabled_def commit_password_def identity_with_session_def
      live_session_def end_access_def queueLogout_def linked_clients_def numbered_def outbox_clash_def
      outbox_event_def notices_def active_app_def activate_row_def void_authorizations_def set_password_def)
  then have "ChangePassword kdf_example Inr (\<lambda>_ _. None) 1 1 salt notices ''ann'' ''s1''
      ''correct horse'' ''battery staple'' [] ''peer'' db27 = (Inr (), snd out)"
    unfolding out_def by (metis prod.collapse)
  then have "locked_out ''ann'' db27 (snd out)"
    by (intro new_password_locks_out [OF db27_reach _ run.stop] disjI1) (simp add: D_db27_def)
  then show ?thesis
    by (simp add: out_def locked_out_def db27_tables token4_def token1_def access_row_of_def)
qed

text \<open>Disabling an active account locks it out for good: even if the account is enabled again, none of the sessions and tokens
it had come back.\<close>

theorem disabling_locks_out:
  assumes "reach D db" "\<And>n. ids n \<notin> D T_outbox" "\<And>n. ids' n \<notin> D T_outbox"
    and "SetIdentityStatus now ids ids' actor subject ''disabled'' db = (Inr (), mid)"
    and "some_row (active_identity subject) (identities db)"
    and "run (\<lambda>t. D t \<union> draws T_outbox (range ids \<union> range ids') t) mid D' db'"
  shows "locked_out subject db db'"
proof (rule disabling.locks_out [OF assms(1), where ids = ids and ids' = ids' and subject = subject and subjecta = subject and now = now and actor = actor])
  show "draws T_outbox (range ids \<union> range ids') t \<inter> D t = {}" for t
    using assms(2,3) by (auto simp: draws_eq none_def)
qed (use assms in simp_all)


lemma bob_disabled: "\<exists>db. SetIdentityStatus 3 (\<lambda>n. ''u'' @ replicate n CHR ''x'') (\<lambda>n. ''v'' @ replicate n CHR ''x'')
    ''ann'' ''bob'' ''disabled'' db34 = (Inr (), db)"
  by (simp add: SetIdentityStatus_def parse_status_def db34_tables scenario_simps linked_clients_def numbered_def queueLogout_def
    activate_row_def revoke_subject_def revoke_access_def revoke_families_def revoke_sessions_def)

theorem disabling_locks_out_witness: "\<exists>db. SetIdentityStatus 3 (\<lambda>n. ''u'' @ replicate n CHR ''x'') (\<lambda>n. ''v'' @ replicate n CHR ''x'')
    ''ann'' ''bob'' ''disabled'' db34 = (Inr (), db)
   \<and> Session 4 ''def'' db = Inl ErrUnauthorized \<and> ActiveToken 4 ''t5'' db = Inl ErrUnauthorized"
proof -
  obtain db where out: "SetIdentityStatus 3 (\<lambda>n. ''u'' @ replicate n CHR ''x'') (\<lambda>n. ''v'' @ replicate n CHR ''x'')
      ''ann'' ''bob'' ''disabled'' db34 = (Inr (), db)" using bob_disabled by blast
  have "locked_out ''bob'' db34 db"
    by (rule disabling_locks_out [OF db34_reach _ _ out _ run.stop])
      (auto simp: D_db34_def notices_def db34_tables bob_def ann_def active_identity_def some_row_iff)
  then have "ActiveToken 4 (t_id (access_row_of token5)) db = Inl ErrUnauthorized"
    "Session 4 ''def'' db = Inl ErrUnauthorized"
    by (simp_all add: locked_out_def db34_tables bob_session_def token5_def access_row_of_def)
  with out show ?thesis by (simp add: token5_def access_row_of_def)
qed




text \<open>Withdrawing a policy ends every exchanged token of its caller for its resource, and withdrawing a consent ends those of
the user: they are never accepted again, also when policy and consent are given anew.\<close>

theorem withdrawal_ends_exchanged_tokens:
  assumes "reach D db" "run D mid D' db'" "a \<in> set (access_tokens db)" "tk_delegated (t_payload a)"
    and "resource \<in> set (tk_audience (t_payload a))" "t_client_id a = caller"
    and "SetExchangePolicy now actor caller target resource scope False db = (Inr (), mid)
      \<or> SetExchangeConsent now (t_subject a) caller target resource scope False db = (Inr (), mid)"
  shows "ActiveToken later (t_id a) db' = Inl ErrUnauthorized"
  using assms(7)
proof
  assume "SetExchangePolicy now actor caller target resource scope False db = (Inr (), mid)"
  then show ?thesis
    using policy_withdrawal.dead [OF assms(1), where now = now and actor = actor and caller = caller and target = target
      and resource = resource and scope = scope] assms(2-6) by simp
next
  assume "SetExchangeConsent now (t_subject a) caller target resource scope False db = (Inr (), mid)"
  then show ?thesis
    using consent_withdrawal.dead [OF assms(1), where now = now and subject = "t_subject a" and caller = caller and target = target
      and resource = resource and scope = scope] assms(2-6) by simp
qed

theorem withdrawal_ends_exchanged_tokens_witness:
  "\<exists>db. SetExchangeConsent 0 ''ann'' ''shop'' ''vault'' ''files'' ''read'' False db21 = (Inr (), db)
     \<and> ActiveToken 1 ''t2'' db = Inl ErrUnauthorized"
proof -
  obtain db where out: "SetExchangeConsent 0 ''ann'' ''shop'' ''vault'' ''files'' ''read'' False db21 = (Inr (), db)"
    by (auto simp: SetExchangeConsent_def Let_def)
  have "ActiveToken 1 (t_id (access_row_of token2)) db = Inl ErrUnauthorized"
    by (rule withdrawal_ends_exchanged_tokens [OF db21_reach run.stop, where db' = db and resource = "''files''" and caller = "''shop''"])
      (use out in \<open>auto simp: db21_tables token2_def access_row_of_def\<close>)
  with out show ?thesis by (simp add: token2_def access_row_of_def)
qed

text \<open>Revoking a link ends what rested on it: the client's tokens of the linked subject, and the tokens that were exchanged
for access to that client.\<close>

theorem unlinking_ends_tokens:
  assumes "reach D db" "eid \<notin> D T_outbox" "RevokeLink now eid c lid expected db = (Inr v, mid)"
    and "l \<in> set (account_links db)" "l_id l = lid" "l_client_id l = c" "l_state l \<noteq> Revoked"
    and "a \<in> set (access_tokens db)" "t_subject a = l_subject l"
    and "t_client_id a = c \<or> tk_delegated (t_payload a)
      \<and> (\<exists>p\<in>set (exchange_policies db). x_caller p = t_client_id a \<and> x_target p = c)"
    and "run (\<lambda>t. D t \<union> draws T_outbox {eid} t) mid D' db'"
  shows "ActiveToken later (t_id a) db' = Inl ErrUnauthorized"
proof (rule unlinking.dead [OF assms(1), where now = now and eid = eid and c = c and lid = lid and expected = expected])
  show "draws T_outbox {eid} t \<inter> D t = {}" for t using assms(2) by (simp add: draws_eq none_def)
  show "\<exists>l\<in>set (account_links db). l_id l = lid \<and> l_client_id l = c \<and> l_state l \<noteq> Revoked \<and> t_subject a = l_subject l
     \<and> (\<exists>v. fst (RevokeLink now eid c lid expected db) = Inr v)
     \<and> (t_client_id a = c \<or> tk_delegated (t_payload a)
          \<and> (\<exists>p\<in>set (exchange_policies db). x_caller p = t_client_id a \<and> x_target p = c))"
    using assms(3-10) by (intro bexI [of _ l]) auto
qed (use assms in simp_all)

theorem unlinking_ends_tokens_witness:
  "\<exists>v db. RevokeLink 0 ''o'' ''vault'' ''i2'' 2 db21 = (Inr v, db) \<and> ActiveToken 1 ''t2'' db = Inl ErrUnauthorized"
proof -
  obtain v db where out: "RevokeLink 0 ''o'' ''vault'' ''i2'' 2 db21 = (Inr v, db)"
    by (auto simp: RevokeLink_def Let_def db21_tables scenario_simps activate_row_def set_intent_state_def revoke_link_access_def)
  have "ActiveToken 1 (t_id (access_row_of token2)) db = Inl ErrUnauthorized"
    by (rule unlinking_ends_tokens [OF db21_reach _ out, where l = "activate_row link2" and D' = "\<lambda>t. D_db21 t \<union> draws T_outbox {''o''} t"])
      (auto simp: db21_tables D_db21_def none_def activate_row_def link2_def link1_def token2_def policy1_def access_row_of_def run.stop)
  with out show ?thesis by (simp add: token2_def access_row_of_def)
qed

end
