(* ===== verification/Delegation.thy ===== *)
theory Delegation
  imports Cutoff
begin

text \<open>Token exchange and introspection (exchange.go, tokens.go): the counting queries of the code against what they are meant
to decide, scope by scope.\<close>

lemma distinct_rows:
  assumes "schema_ok db"
  shows "distinct (exchange_policies db)" "distinct (exchange_consents db)"
  using policy_ix.keys_distinct [OF schema_ok_tables(15) [OF assms]] consent_ix.keys_distinct [OF schema_ok_tables(16) [OF assms]]
  by (simp_all add: distinct_map)

section \<open>Exchanging a token\<close>

text \<open>What an administrator and the user must have allowed for one scope of one resource.\<close>

definition scope_granted :: "string \<Rightarrow> string \<Rightarrow> string \<Rightarrow> db \<Rightarrow> string \<Rightarrow> bool" where
  "scope_granted caller resource subject db s =
     (\<exists>p\<in>set (exchange_policies db). \<exists>c\<in>set (exchange_consents db). \<exists>a\<in>set (applications db).
        x_caller p = caller \<and> x_resource p = resource \<and> x_scope p = s \<and> x_active p
        \<and> y_subject c = subject \<and> y_caller c = caller \<and> y_target c = x_target p \<and> y_resource c = resource
        \<and> y_scope c = s \<and> y_revoked_at c = None
        \<and> active_app (x_target p) a \<and> linked caller subject db \<and> linked (x_target p) subject db)"

lemma consents_at_most_one:
  assumes "schema_ok db"
  shows "count_rows (consent_for subject p) (exchange_consents db)
    = (if some_row (consent_for subject p) (exchange_consents db) then 1 else 0)"
  using assms by (intro count_single distinct_rows consent_ix.no_clash [OF schema_ok_tables(16) [OF assms]])
    (auto simp: consent_for_def consent_clash_def)

lemma sum_list_indicator: "sum_list (map (\<lambda>p. if Q p then 1 else 0) (filter P ps)) = count_rows (\<lambda>p. P p \<and> Q p) ps"
  by (induction ps) simp_all

lemma allowed_iff:
  assumes "schema_ok db"
  shows "allowed_count caller resource subject scopes db = length scopes
    \<longleftrightarrow> distinct scopes \<and> (\<forall>s\<in>set scopes. scope_granted caller resource subject db s)"
proof -
  define ok where "ok p = (x_caller p = caller \<and> x_resource p = resource \<and> x_active p
      \<and> some_row (active_app (x_target p)) (applications db) \<and> linked (x_caller p) subject db \<and> linked (x_target p) subject db
      \<and> some_row (consent_for subject p) (exchange_consents db))" for p
  have "allowed_count caller resource subject scopes db = count_rows (\<lambda>p. ok p \<and> x_scope p \<in> set scopes) (exchange_policies db)"
    unfolding allowed_count_def consents_at_most_one [OF assms] sum_list_indicator
    by (rule arg_cong [where f = "\<lambda>P. count_rows P _"]) (auto simp: policy_usable_def ok_def fun_eq_iff)
  moreover have "inj_on x_scope {p \<in> set (exchange_policies db). ok p}"
    by (rule inj_onI, rule policy_ix.no_clash [OF schema_ok_tables(15) [OF assms]]) (auto simp: ok_def policy_clash_def)
  moreover have "(\<exists>p\<in>set (exchange_policies db). ok p \<and> x_scope p = s) \<longleftrightarrow> scope_granted caller resource subject db s" for s
    by (fastforce simp: ok_def scope_granted_def some_row_iff consent_for_def)
  ultimately show ?thesis using count_covers [OF distinct_rows(1) [OF assms], of x_scope ok scopes] by simp
qed

text \<open>C25: An exchange request is accepted exactly when the caller is a confidential client registered for the grant and the
resource, the subject token is active and a first-party user token of that caller, and every requested scope is distinct, held by
caller and source, and granted by an active policy of the administrator, an unrevoked consent of the user and live links of the
user at the caller and at the policy's active target.\<close>

theorem exchange_accepted_iff:
  assumes "reach D db"
  shows "ValidateTokenExchangeRequest now r db = Inr r' \<longleftrightarrow>
    r' = r\<lparr>xr_requested_type := AccessTokenType\<rparr>
    \<and> xr_subject_token_type r = AccessTokenType \<and> xr_actor_token r = [] \<and> xr_requested_type r \<in> {[], AccessTokenType}
    \<and> xr_scopes r \<noteq> [] \<and> (\<exists>resource caller source. xr_resources r = [resource] \<and> xr_audience r = [resource]
      \<and> Client (xr_client_id r) db = Inr caller \<and> \<not> cl_public caller \<and> GrantTypeTokenExchange \<in> set (cl_grants caller)
      \<and> resource \<in> set (cl_resources caller)
      \<and> ActiveToken now (xr_subject_token r) db = Inr source \<and> tk_subject source = xr_exchange_subject r
      \<and> tk_subject source = xr_subject r \<and> tk_client_id source = cl_id caller \<and> \<not> tk_service source \<and> \<not> tk_delegated source
      \<and> distinct (xr_scopes r) \<and> (\<forall>s\<in>set (xr_scopes r). \<not> scope_refused caller source s
          \<and> scope_granted (cl_id caller) resource (tk_subject source) db s))"
proof -
  have one: "length xs = Suc 0 \<longleftrightarrow> (\<exists>x. xs = [x])" for xs :: "string list" by (auto simp: length_Suc_conv)
  note count = allowed_iff [OF soundD(1) [OF reach_sound [OF assms]]]
  show ?thesis
    by (auto simp: ValidateTokenExchangeRequest_def Let_def one count list_ex_iff split: sum.splits if_splits)
qed

section \<open>Introspecting a token\<close>

text \<open>A client that is neither the token's client nor in its audience learns about an exchanged token of one resource only
while every scope of the token still has an active policy naming that client as its target; the token must be active.\<close>

theorem introspection_by_target:
  assumes "reach D db" "c \<notin> set (tk_audience t)" "c \<noteq> tk_client_id t" "ActiveToken now tid db = Inr t"
    and "tk_audience t = [resource]"
  shows "(\<exists>i. SetIntrospectionFromToken now tid subject c db = Inr i) \<longleftrightarrow>
    tk_subject t = subject \<and> tk_delegated t \<and> distinct (tk_scopes t)
    \<and> (\<forall>s\<in>set (tk_scopes t). \<exists>p\<in>set (exchange_policies db). x_caller p = tk_client_id t \<and> x_target p = c
          \<and> x_resource p = resource \<and> x_scope p = s \<and> x_active p)"
proof -
  have schema: "schema_ok db" by (rule soundD(1) [OF reach_sound [OF assms(1)]])
  define ok where "ok p = (x_caller (p :: policy_row) = tk_client_id t \<and> x_target p = c \<and> x_resource p = resource \<and> x_active p)" for p
  have "introspection_policies t c db = count_rows (\<lambda>p. ok p \<and> x_scope p \<in> set (tk_scopes t)) (exchange_policies db)"
    unfolding introspection_policies_def assms(5)
    by (rule arg_cong [where f = "\<lambda>P. count_rows P _"]) (auto simp: ok_def fun_eq_iff)
  moreover have "inj_on x_scope {p \<in> set (exchange_policies db). ok p}"
    by (rule inj_onI, rule policy_ix.no_clash [OF schema_ok_tables(15) [OF schema]]) (auto simp: ok_def policy_clash_def)
  ultimately have "introspection_policies t c db = length (tk_scopes t) \<longleftrightarrow> distinct (tk_scopes t)
      \<and> (\<forall>s\<in>set (tk_scopes t). \<exists>p\<in>set (exchange_policies db). ok p \<and> x_scope p = s)"
    using count_covers [OF distinct_rows(1) [OF schema], of x_scope ok] by simp
  then show ?thesis using assms(2-4) by (auto simp: SetIntrospectionFromToken_def ok_def)
qed

section \<open>Witnesses\<close>

lemma token1_active: "ActiveToken 0 ''t1'' db20 = Inr token1"
  by (simp add: ActiveToken_def active_token.simps access_live_def family_live_def db20_tables scenario_simps
    validateTokenSubject_def session_ok_def live_session_def Identity_def active_identity_def access_row_of_def active_app_def Client_def)

theorem exchange_accepted_iff_witness:
  "ValidateTokenExchangeRequest 0 swap db20 = Inr (swap\<lparr>xr_requested_type := AccessTokenType\<rparr>)"
  unfolding exchange_accepted_iff [OF db20_reach]
  by (simp add: swap_def token1_active Client_def active_app_def db20_tables scenario_simps scope_granted_def linked_def
    activate_row_def shop_def vault_def scope_refused_def ScopeOpenID_def ScopeOfflineAccess_def contains_any_def token1_def)

theorem introspection_by_target_witness:
  "\<exists>i. SetIntrospectionFromToken 0 ''t2'' ''ann'' ''vault'' db21 = Inr i"
  by (subst introspection_by_target [OF db21_reach _ _ token2_active, where resource = "''files''"])
    (simp_all add: token2_def db21_tables policy1_def)

end
