(* ===== verification/Sign_In.thy ===== *)
theory Sign_In
  imports Delegation
begin

text \<open>
  Guarantees on signing in: one-time codes and recovery codes of \<open>account_security.go\<close> are used once,
  and the rate limits of \<open>store.go\<close> allow as many calls as they say.
\<close>

section \<open>Two-factor codes\<close>






section \<open>Recovery codes\<close>

lemma run_recovery:
  assumes "reach D db" "run D db D' db'" "v \<in> set (recovery_codes db)" "w \<in> set (recovery_codes db')"
    "v_identity_id w = v_identity_id v" "v_token_hash w = v_token_hash v"
  shows "recovery_le v w"
proof -
  have ok: "keys_drawn D db" "schema_ok db" "evolves D db db'" using run_kept [OF assms(1,2)] by (simp_all add: soundD)
  have "v_token_hash w \<in> D T_recovery" using ok(1) assms(3,6) by (auto simp: keys_drawn_def)
  moreover have "descends recovery_le v_token_hash (D T_recovery) (recovery_codes db) (recovery_codes db')"
    using ok(3) by (simp add: evolves_def)
  ultimately obtain u where u: "u \<in> set (recovery_codes db)" "recovery_le u w"
    using assms(4) unfolding descends_def by blast
  then have "u = v"
    using assms(5,6) by (intro recovery_ix.no_clash [OF schema_ok_tables(13) [OF ok(2)] u(1) assms(3)])
      (simp add: recovery_clash_def recovery_le_def)
  with u show ?thesis by simp
qed

text \<open>A recovery code is accepted once: after it was, it never passes again, whatever runs in between, unless it is drawn anew.\<close>

theorem recovery_code_used_once:
  assumes "reach D db" "VerifyMFA unseal totp now wall subject code db = (Inr (), mid)" "6 < length code" "run D mid D' db'"
  shows "fst (VerifyMFA unseal' totp' now' wall' subject code db') = Inl ErrUnauthorized"
proof -
  obtain t where rates: "snd (Allow now (''mfa:'' @ subject) 10 (minutes 5) db) = db\<lparr>rate_limits := t\<rparr>"
    using Allow_eq by blast
  then have used: "count_rows (usable_recovery subject code) (recovery_codes db) = 1"
      "recovery_codes mid = update_rows (usable_recovery subject code) (\<lambda>v. v\<lparr>v_consumed_at := Some now\<rparr>) (recovery_codes db)"
    using assms(2,3) by (auto simp: VerifyMFA_def case_prod_unfold split: if_splits option.splits)
  then obtain v where v: "v \<in> set (recovery_codes db)" "usable_recovery subject code v"
    by (metis count_rows_0 zero_neq_one)
  have r: "reach D mid"
    using reach_quiet [OF assms(1) verify_mfa [of db unseal totp now wall subject code]] assms(2) by simp
  have spent: "v\<lparr>v_consumed_at := Some now\<rparr> \<in> set (recovery_codes mid)"
    using row_updated [OF v(1), of "usable_recovery subject code"] v(2) by (simp add: used(2))
  have "\<not> usable_recovery subject code w" if "w \<in> set (recovery_codes db')" for w
    using run_recovery [OF r assms(4) spent that] v(2) by (auto simp: usable_recovery_def recovery_le_def stays_def)
  then have none: "count_rows (usable_recovery subject code) (recovery_codes db') = 0" by (simp add: count_rows_0)
  have "recovery_codes (snd (Allow now' k 10 (minutes 5) db')) = recovery_codes db'" for k
    using Allow_eq [of now' k 10 "minutes 5" db'] by auto
  with none assms(3) show ?thesis by (auto simp: VerifyMFA_def case_prod_unfold split: option.splits)
qed

theorem recovery_code_used_once_witness:
  "\<exists>db. VerifyMFA Inr totp_example 1 1 ''bob'' ''recovery-code'' db36 = (Inr (), db)
    \<and> fst (VerifyMFA Inr totp_example 2 2 ''bob'' ''recovery-code'' db) = Inl ErrUnauthorized"
proof -
  have "fst (Allow 1 ''mfa:bob'' 10 (minutes 5) db36)"
    using Allow_few(1) [of db36 1 10] by (simp add: db36_tables rate1_def)
  moreover obtain t where "snd (Allow 1 ''mfa:bob'' 10 (minutes 5) db36) = db36\<lparr>rate_limits := t\<rparr>"
    using Allow_eq by blast
  ultimately have "Allow 1 ''mfa:bob'' 10 (minutes 5) db36 = (True, db36\<lparr>rate_limits := t\<rparr>)" by (simp add: prod_eq_iff)
  moreover have "trim_space ''recovery-code'' = ''recovery-code''" by code_simp
  ultimately obtain db where ok: "VerifyMFA Inr totp_example 1 1 ''bob'' ''recovery-code'' db36 = (Inr (), db)"
    by (simp add: VerifyMFA_def db36_tables scenario_simps active_identity_def usable_recovery_def recovery_row_of_def)
  with recovery_code_used_once [OF db36_reach ok _ run.stop] show ?thesis by simp
qed

section \<open>Rate limits\<close>

text \<open>The answers of a series of calls for one key.\<close>

fun answers :: "string \<Rightarrow> int \<Rightarrow> time \<Rightarrow> time list \<Rightarrow> db \<Rightarrow> bool list" where
  "answers key limit window [] db = []"
| "answers key limit window (t # ts) db =
     (case Allow t key limit window db of (ok, db) \<Rightarrow> ok # answers key limit window ts db)"

lemma Allow_within:
  assumes "first_row (\<lambda>r. q_key r = Hash key) (rate_limits db) = Some r" "t \<le> q_expires_at r"
  shows "fst (Allow t key limit window db) \<longleftrightarrow> q_count r + 1 \<le> limit"
    and "\<exists>s. first_row (\<lambda>r. q_key r = Hash key) (rate_limits (snd (Allow t key limit window db))) = Some s
      \<and> q_count s = q_count r + 1 \<and> q_expires_at s = q_expires_at r"
  using assms first_row_Some [OF assms(1)] by (simp_all add: Allow_unfold upsert_rate_def first_row_update bump_def)

lemma answers_within:
  assumes "first_row (\<lambda>r. q_key r = Hash key) (rate_limits db) = Some r" "\<forall>t\<in>set ts. t \<le> q_expires_at r"
  shows "answers key limit window ts db = map (\<lambda>n. q_count r + int n \<le> limit) [1..<Suc (length ts)]"
  using assms
proof (induction ts arbitrary: db r)
  case (Cons t ts)
  obtain s where s: "first_row (\<lambda>r. q_key r = Hash key) (rate_limits (snd (Allow t key limit window db))) = Some s"
      "q_count s = q_count r + 1" "q_expires_at s = q_expires_at r"
    using Allow_within(2) [OF Cons.prems(1), of t limit window] Cons.prems(2) by auto
  have "answers key limit window ts (snd (Allow t key limit window db)) = map (\<lambda>n. q_count s + int n \<le> limit) [1..<Suc (length ts)]"
    using Cons.prems(2) s(3) by (intro Cons.IH [OF s(1)]) simp
  moreover have "map (\<lambda>n. q_count s + int n \<le> limit) [1..<Suc (length ts)] = map (\<lambda>n. q_count r + int n \<le> limit) [2..<Suc (Suc (length ts))]"
    by (rule nth_equalityI) (simp_all add: s(2) algebra_simps del: upt_Suc)
  moreover have "[1..<Suc (Suc (length ts))] = 1 # [2..<Suc (Suc (length ts))]"
    by (subst upt_conv_Cons) (simp_all add: numeral_2_eq_2)
  ultimately show ?case
    using Allow_within(1) [OF Cons.prems(1)] Cons.prems(2) by (simp add: case_prod_unfold del: upt_Suc)
qed simp

text \<open>C30: Of the calls for a fresh key within its window exactly the first limit ones are allowed; how many came before is all that
counts, not when they came.\<close>

theorem rate_limit_per_window:
  assumes "\<forall>r\<in>set (rate_limits db). q_key r = Hash key \<longrightarrow> q_expires_at r < t" "\<forall>u\<in>set ts. u \<le> t + window"
  shows "answers key limit window (t # ts) db = map (\<lambda>n. int n \<le> limit) [1..<length ts + 2]
    \<and> int (count_rows id (answers key limit window (t # ts) db)) = max 0 (min limit (int (length ts) + 1))"
proof -
  obtain r where r: "first_row (\<lambda>r. q_key r = Hash key) (rate_limits (snd (Allow t key limit window db))) = Some r"
      "q_count r = 1" "q_expires_at r = t + window" and first: "fst (Allow t key limit window db) \<longleftrightarrow> 1 \<le> limit"
  proof (cases "first_row (\<lambda>r. q_key r = Hash key) (rate_limits db)")
    case None
    with that show ?thesis by (auto simp: Allow_unfold upsert_rate_def Let_def first_row_cong_snoc)
  next
    case (Some q)
    with first_row_Some [OF Some] assms(1) that show ?thesis
      by (auto simp: Allow_unfold upsert_rate_def first_row_update bump_def)
  qed
  have rest: "answers key limit window ts (snd (Allow t key limit window db)) = map (\<lambda>n. 1 + int n \<le> limit) [1..<Suc (length ts)]"
    using answers_within [OF r(1)] assms(2) r(2,3) by simp
  moreover have "map (\<lambda>n. 1 + int n \<le> limit) [1..<Suc (length ts)] = map (\<lambda>n. int n \<le> limit) [2..<length ts + 2]"
    by (rule nth_equalityI) (simp_all add: algebra_simps del: upt_Suc)
  moreover have "[1..<length ts + 2] = 1 # [2..<length ts + 2]"
    by (subst upt_conv_Cons) (simp_all add: numeral_2_eq_2)
  ultimately have answers: "answers key limit window (t # ts) db = map (\<lambda>n. int n \<le> limit) [1..<length ts + 2]"
    using first by (simp add: case_prod_unfold del: upt_Suc)
  have "int (count_rows id (map (\<lambda>n. int n \<le> limit) [1..<Suc k])) = max 0 (min limit (int k))" for k
    by (induction k) (auto simp: count_rows_def)
  from this [of "Suc (length ts)"] answers show ?thesis by (simp add: algebra_simps del: upt_Suc answers.simps)
qed

theorem rate_limit_per_window_witness:
  "answers ''mfa:ann'' 3 (minutes 5) [0, 1, seconds 20, minutes 3, minutes 5] empty_db = [True, True, True, False, False]"
  using rate_limit_per_window [of empty_db "''mfa:ann''" 0 "[1, seconds 20, minutes 3, minutes 5]" "minutes 5" 3]
  by (simp add: empty_db_def upt_rec del: answers.simps)

end
