(* ===== verification/Deliveries.thy ===== *)
theory Deliveries
  imports Delegation
begin

text \<open>
  Liveness of the delivery worker of \<open>events.go\<close>: a queue whose receivers answer is drained.
\<close>

text \<open>An event whose client can be reached is delivered by the worker that claims it.\<close>

definition deliverable :: "(event_claims \<Rightarrow> string option) \<Rightarrow> (string \<Rightarrow> string \<Rightarrow> string \<Rightarrow> int option) \<Rightarrow> string \<Rightarrow> time \<Rightarrow> db
    \<Rightarrow> outbox_row \<Rightarrow> bool" where
  "deliverable sign post issuer wall db r = (\<exists>status. fst (attempt_delivery sign post issuer wall r db) = status \<and> 200 \<le> status \<and> status < 300)"

lemma attempt_cong:
  assumes "applications a = applications b" "o_client_id r = o_client_id s" "o_kind r = o_kind s" "o_id r = o_id s" "o_payload r = o_payload s"
  shows "attempt_delivery sign post issuer wall r a = attempt_delivery sign post issuer wall s b"
proof -
  have "event_token issuer wall r = event_token issuer wall s" unfolding event_token_def by (simp only: assms)
  then show ?thesis unfolding attempt_delivery_def Client_def by (simp only: assms)
qed

lemma earliest_None: "earliest rs = None \<longleftrightarrow> rs = []"
  by (cases rs) (auto split: option.splits)

lemma claim_none: "claim_event now lease db = (None, db') \<longleftrightarrow> db' = db \<and> (\<forall>r\<in>set (outbox db). \<not> claimable now r)"
  by (auto simp: claim_event_def earliest_None filter_empty_conv split: option.splits dest!: earliest_in)

lemma one_delivery:
  assumes "schema_ok db" "\<forall>r\<in>set (outbox db). claimable now r \<longrightarrow> deliverable sign post issuer wall db r"
    and "\<exists>r\<in>set (outbox db). claimable now r"
  shows "\<exists>e\<in>set (outbox db). claimable now e \<and> (\<exists>t. DeliverEvent sign post issuer now wall finish elapsed lease db = (True, t)
    \<and> applications t = applications db
    \<and> outbox t = update_rows (\<lambda>r. o_id r = o_id e)
        (\<lambda>r. complete_row finish (fst (attempt_delivery sign post issuer wall e db)) (o_attempts e + 1) (lease_row now lease r)) (outbox db))"
proof -
  obtain e mid where claim: "claim_event now lease db = (Some e, mid)"
    using claim_none [of now lease db] assms(3) by (metis not_Some_eq prod.exhaust)
  then obtain r where r: "r \<in> set (outbox db)" "claimable now r" "e = lease_row now lease r"
      "mid = db\<lparr>outbox := update_rows (\<lambda>q. o_id q = o_id r) (lease_row now lease) (outbox db)\<rparr>"
    using claim_event_row by blast
  define mine where "mine q = (o_id (q :: outbox_row) = o_id e \<and> o_lease_token q = Some lease)" for q
  have attempt: "attempt_delivery sign post issuer wall e mid = attempt_delivery sign post issuer wall r db"
    by (rule attempt_cong) (simp_all add: r(3,4) lease_row_def)
  have "lease_row now lease r \<in> set (outbox mid)" "mine (lease_row now lease r)"
    using row_updated [OF r(1), of "\<lambda>q. o_id q = o_id r" "lease_row now lease"] by (simp_all add: r(3,4) mine_def lease_row_def)
  then have "some_row mine (outbox mid)" unfolding some_row_iff by blast
  moreover obtain status oc where so: "attempt_delivery sign post issuer wall r db = (status, oc)" by fastforce
  ultimately have "DeliverEvent sign post issuer now wall finish elapsed lease db = (True, complete_event finish (o_id e) lease status (o_attempts e) oc elapsed mid)"
    and "outbox (complete_event finish (o_id e) lease status (o_attempts e) oc elapsed mid)
      = update_rows mine (complete_row finish status (o_attempts e)) (outbox mid)"
    and "applications (complete_event finish (o_id e) lease status (o_attempts e) oc elapsed mid) = applications db"
    using claim attempt by (simp_all add: DeliverEvent_def complete_event_def Let_def mine_def [abs_def] r(4))
  moreover have "update_rows mine (complete_row finish status (o_attempts e)) (outbox mid)
      = update_rows (\<lambda>q. o_id q = o_id r) (\<lambda>q. complete_row finish status (o_attempts r + 1) (lease_row now lease q)) (outbox db)"
    using r(1) row_unique(11) [OF _ assms(1) _ r(1)]
    by (auto simp: update_rows_def r(3,4) mine_def lease_row_def)
  ultimately show ?thesis using r(1,2) so by (metis fst_conv)
qed

text \<open>The row of a delivered event.\<close>

definition delivered_row :: "(event_claims \<Rightarrow> string option) \<Rightarrow> (string \<Rightarrow> string \<Rightarrow> string \<Rightarrow> int option) \<Rightarrow> string \<Rightarrow> time \<Rightarrow> time
    \<Rightarrow> time \<Rightarrow> string \<Rightarrow> db \<Rightarrow> outbox_row \<Rightarrow> outbox_row" where
  "delivered_row sign post issuer now wall finish lease db r =
     complete_row finish (fst (attempt_delivery sign post issuer wall r db)) (o_attempts r + 1) (lease_row now lease r)"

lemma delivered_row_simps:
  assumes "deliverable sign post issuer wall db r"
  shows "o_delivered_at (delivered_row sign post issuer now wall finish lease db r) = Some finish"
    and "\<not> claimable u (delivered_row sign post issuer now wall finish lease db r)"
    and "o_id (delivered_row sign post issuer now wall finish lease db r) = o_id r"
  using assms by (auto simp: deliverable_def delivered_row_def complete_row_def lease_row_def claimable_def Let_def)

lemma count_one_less:
  assumes "distinct (map k t)" "e \<in> set t" "P e" "\<not> P (f e)"
  shows "Suc (count_rows P (map (\<lambda>r. if k r = k e then f r else r) t)) = count_rows P t"
  using assms
proof (induction t)
  case (Cons r t)
  show ?case
  proof (cases "r = e")
    case True
    then have "map (\<lambda>r. if k r = k e then f r else r) t = t" using Cons.prems(1) by (intro map_idI) (auto simp: image_iff)
    then show ?thesis using True Cons.prems by simp
  next
    case False
    then have "k r \<noteq> k e" using Cons.prems(1,2) by auto
    then show ?thesis using False Cons by auto
  qed
qed simp

lemma drained_rows:
  assumes "schema_ok db" "\<forall>r\<in>set (outbox db). claimable now r \<longrightarrow> deliverable sign post issuer wall db r"
    and "n = count_rows (claimable now) (outbox db)"
  shows "outbox (((\<lambda>db. snd (DeliverEvent sign post issuer now wall finish elapsed lease db)) ^^ n) db)
    = map (\<lambda>r. if claimable now r then delivered_row sign post issuer now wall finish lease db r else r) (outbox db)"
proof -
  let ?deliver = "\<lambda>db. snd (DeliverEvent sign post issuer now wall finish elapsed lease db)"
  let ?done = "delivered_row sign post issuer now wall finish lease"
  show ?thesis using assms
  proof (induction n arbitrary: db)
    case 0
    then show ?case by (auto simp: count_rows_0 intro!: map_idI [symmetric])
  next
    case (Suc n)
    have "count_rows (claimable now) (outbox db) \<noteq> 0" using Suc.prems(3) by simp
    then obtain e where e: "e \<in> set (outbox db)" "claimable now e" "applications (?deliver db) = applications db"
        "outbox (?deliver db) = update_rows (\<lambda>r. o_id r = o_id e) (\<lambda>r. complete_row finish
          (fst (attempt_delivery sign post issuer wall e db)) (o_attempts e + 1) (lease_row now lease r)) (outbox db)"
      using one_delivery [OF Suc.prems(1,2), of finish elapsed lease] by (auto simp: count_rows_0)
    have only: "o_id r = o_id e \<longleftrightarrow> r = e" if "r \<in> set (outbox db)" for r
      using row_unique(11) [OF _ Suc.prems(1) that e(1)] by auto
    have rows: "outbox (?deliver db) = map (\<lambda>r. if r = e then ?done db r else r) (outbox db)"
      unfolding e(4) update_rows_def by (rule map_cong [OF refl]) (simp add: only delivered_row_def)
    then have ids: "outbox (?deliver db) = map (\<lambda>r. if o_id r = o_id e then ?done db r else r) (outbox db)"
      by (simp add: only cong: map_cong)
    have ready: "deliverable sign post issuer wall db e" using Suc.prems(2) e(1,2) by blast
    have cong: "attempt_delivery sign post issuer wall r (?deliver db) = attempt_delivery sign post issuer wall r db" for r
      by (rule attempt_cong) (simp_all add: e(3))
    then have same: "?done (?deliver db) = ?done db" "deliverable sign post issuer wall (?deliver db) = deliverable sign post issuer wall db"
      by (simp_all add: delivered_row_def deliverable_def fun_eq_iff)
    have "schema_ok b" if "claim_event now lease db = (x, b)" for x b
      using claim_event_schema [OF Suc.prems(1), of now lease] that by simp
    then have "schema_ok (?deliver db)"
      by (auto simp: DeliverEvent_def split: prod.splits option.splits intro!: complete_event_schema)
    moreover have "\<forall>r\<in>set (outbox (?deliver db)). claimable now r \<longrightarrow> deliverable sign post issuer wall (?deliver db) r"
      using Suc.prems(2) delivered_row_simps(2) [OF ready] by (auto simp: rows same split: if_splits)
    moreover have "n = count_rows (claimable now) (outbox (?deliver db))"
      using count_one_less [of o_id "outbox db" e "claimable now" "?done db"] outbox_ix.keys_distinct [OF schema_ok_tables(11) [OF Suc.prems(1)]] e(1,2)
        delivered_row_simps(2) [OF ready] Suc.prems(3) by (simp add: ids)
    ultimately have "outbox ((?deliver ^^ n) (?deliver db))
        = map (\<lambda>r. if claimable now r then ?done (?deliver db) r else r) (outbox (?deliver db))"
      by (rule Suc.IH)
    also have "\<dots> = map (\<lambda>r. if claimable now r then ?done db r else r) (outbox db)"
      using delivered_row_simps(2) [OF ready] e(2)
      by (auto simp: rows same)
    finally show ?case by (simp only: funpow_Suc_right o_apply)
  qed
qed

text \<open>If every due event can be delivered, then as many calls of a worker as there are due events deliver them all: each due event is
marked delivered, the other events are left as they were, and nothing due remains.\<close>

theorem deliveries_drain:
  assumes "reach D db" "\<forall>r\<in>set (outbox db). claimable now r \<longrightarrow> deliverable sign post issuer wall db r"
    and "n = count_rows (claimable now) (outbox db)"
    and "db' = ((\<lambda>db. snd (DeliverEvent sign post issuer now wall finish elapsed lease db)) ^^ n) db"
  shows "outbox db' = map (\<lambda>r. if claimable now r then delivered_row sign post issuer now wall finish lease db r else r) (outbox db)
    \<and> (\<forall>r\<in>set (outbox db). claimable now r \<longrightarrow> (\<exists>s\<in>set (outbox db'). o_id s = o_id r \<and> o_delivered_at s = Some finish))
    \<and> (\<forall>r\<in>set (outbox db'). \<not> claimable now r)"
proof -
  note rows = drained_rows [OF soundD(1) [OF reach_sound [OF assms(1)]] assms(2,3), of finish elapsed lease, folded assms(4)]
  have sent: "o_delivered_at (delivered_row sign post issuer now wall finish lease db r) = Some finish"
    "\<not> claimable now (delivered_row sign post issuer now wall finish lease db r)"
    "o_id (delivered_row sign post issuer now wall finish lease db r) = o_id r"
    if "r \<in> set (outbox db)" "claimable now r" for r
    using assms(2) that by (auto intro!: delivered_row_simps)
  show ?thesis using sent by (auto simp: rows)
qed

lemma shop_unlinked: "\<exists>v t. RevokeLink 0 ''o'' ''shop'' ''i1'' 2 db18 = (Inr v, t) \<and> applications t = applications db18
    \<and> outbox t = [outbox_event 0 ''o'' ''shop'' (LinkRevoked v) EventKind]"
  by (simp add: RevokeLink_def db18_tables scenario_simps activate_row_def set_intent_state_def revoke_link_access_def outbox_clash_def)

theorem deliveries_drain_witness:
  "\<exists>v t. RevokeLink 0 ''o'' ''shop'' ''i1'' 2 db18 = (Inr v, t)
    \<and> (\<exists>s\<in>set (outbox (snd (DeliverEvent (\<lambda>_. Some ''jwt'') (\<lambda>_ _ _. Some 204) ''issuer'' 0 0 1 5 ''L'' t))). o_delivered_at s = Some 1)"
proof -
  obtain v t where t: "RevokeLink 0 ''o'' ''shop'' ''i1'' 2 db18 = (Inr v, t)" "applications t = applications db18"
      "outbox t = [outbox_event 0 ''o'' ''shop'' (LinkRevoked v) EventKind]"
    using shop_unlinked by blast
  have r: "reach (\<lambda>x. D_db15 x \<union> draws T_outbox {''o''} x) t"
    using reach_drawing [OF db18_reach revoke_link [of "''o''" db18 0 "''shop''" "''i1''" 2] _ refl] t(1)
    by (simp add: draws_eq none_def D_db15_def)
  have due: "deliverable (\<lambda>_. Some ''jwt'') (\<lambda>_ _ _. Some 204) ''issuer'' 0 t e" if "e \<in> set (outbox t)" for e
    using that by (auto simp: t(2,3) deliverable_def attempt_delivery_def Client_def db18_tables app_row_def shop_def active_app_def
      outbox_event_def event_endpoint_def event_token_def first_row_simps)
  have one: "1 = count_rows (claimable 0) (outbox t)" by (simp add: t(3) outbox_event_def claimable_def)
  have ready: "\<forall>e\<in>set (outbox t). claimable 0 e \<longrightarrow> deliverable (\<lambda>_. Some ''jwt'') (\<lambda>_ _ _. Some 204) ''issuer'' 0 t e"
    using due by blast
  have once: "snd (DeliverEvent (\<lambda>_. Some ''jwt'') (\<lambda>_ _ _. Some 204) ''issuer'' 0 0 1 5 ''L'' t)
      = ((\<lambda>db. snd (DeliverEvent (\<lambda>_. Some ''jwt'') (\<lambda>_ _ _. Some 204) ''issuer'' 0 0 1 5 ''L'' db)) ^^ 1) t" by simp
  have "\<forall>e\<in>set (outbox t). claimable 0 e \<longrightarrow> (\<exists>s\<in>set (outbox (snd (DeliverEvent (\<lambda>_. Some ''jwt'') (\<lambda>_ _ _. Some 204) ''issuer'' 0 0 1 5 ''L'' t))).
      o_id s = o_id e \<and> o_delivered_at s = Some 1)"
    using deliveries_drain [OF r ready one once] by blast
  moreover have "outbox_event 0 ''o'' ''shop'' (LinkRevoked v) EventKind \<in> set (outbox t)"
      "claimable 0 (outbox_event 0 ''o'' ''shop'' (LinkRevoked v) EventKind)"
    by (simp_all add: t(3) outbox_event_def claimable_def)
  ultimately have "\<exists>s\<in>set (outbox (snd (DeliverEvent (\<lambda>_. Some ''jwt'') (\<lambda>_ _ _. Some 204) ''issuer'' 0 0 1 5 ''L'' t))). o_delivered_at s = Some 1"
    by blast
  with t(1) show ?thesis by blast
qed

end
