(* ===== verification/Listings.thy ===== *)
theory Listings
  imports Delegation
begin

text \<open>
  The paging of \<open>DeviceInstallations\<close> in \<open>installations.go\<close>: the cursors enumerate the list.
\<close>

lemma newer_total: "k_id a \<noteq> k_id b \<Longrightarrow> \<not> newer a b \<Longrightarrow> newer b a"
  by (auto simp: newer_def)

lemma newer_trans: "newer a b \<Longrightarrow> newer b c \<Longrightarrow> newer a c"
  by (auto simp: newer_def)

lemma newer_irrefl: "\<not> newer a a"
  by (simp add: newer_def)

lemma set_insort_newest: "set (insort_newest k xs) = insert k (set xs)"
  by (induction xs) auto

lemma set_newest_first: "set (newest_first t) = set t"
  by (induction t) (simp_all add: newest_first_def set_insort_newest)

lemma insort_newest_sorted:
  assumes "sorted_wrt newer xs" "\<forall>x\<in>set xs. k_id x \<noteq> k_id k"
  shows "sorted_wrt newer (insort_newest k xs)"
  using assms
proof (induction xs)
  case (Cons x xs)
  show ?case
  proof (cases "newer x k")
    case True
    then show ?thesis using Cons by (auto simp: set_insort_newest)
  next
    case False
    then have "newer k x" using newer_total Cons.prems(2) by auto
    then show ?thesis using False Cons.prems(1) by (auto intro: newer_trans)
  qed
qed simp

lemma newest_first_sorted: "distinct (map k_id t) \<Longrightarrow> sorted_wrt newer (newest_first t)"
proof (induction t)
  case (Cons k t)
  have "newest_first (k # t) = insort_newest k (newest_first t)" by (simp add: newest_first_def)
  moreover have "k_id x \<noteq> k_id k" if "x \<in> set (newest_first t)" for x
    using that Cons.prems unfolding set_newest_first by (metis distinct.simps(2) image_eqI list.set_map list.simps(9))
  ultimately show ?case using Cons by (simp add: insort_newest_sorted)
qed (simp add: newest_first_def)

lemma newer_sorted_distinct: "sorted_wrt newer xs \<Longrightarrow> distinct xs"
  by (induction xs) (auto simp: newer_irrefl)

text \<open>A list in this order is determined by its rows.\<close>

lemma newer_sorted_unique: "sorted_wrt newer xs \<Longrightarrow> sorted_wrt newer ys \<Longrightarrow> set xs = set ys \<Longrightarrow> xs = ys"
proof (induction xs arbitrary: ys)
  case (Cons x xs)
  obtain y zs where ys: "ys = y # zs" using Cons.prems(3) by (cases ys) auto
  have "x = y"
  proof (rule ccontr)
    assume "x \<noteq> y"
    then have "x \<in> set zs" "y \<in> set xs" using Cons.prems(3) by (auto simp: ys)
    then have "newer y x" "newer x y" using Cons.prems(1,2) by (auto simp: ys)
    then show False using newer_trans newer_irrefl by blast
  qed
  moreover have "x \<notin> set xs" "y \<notin> set zs" using Cons.prems(1,2) newer_irrefl by (auto simp: ys)
  ultimately have "set xs = set zs" using Cons.prems(3) by (auto simp: ys)
  then show ?case using Cons ys \<open>x = y\<close> by auto
qed simp

lemma newest_first_after:
  assumes "distinct (map k_id t)" "newest_first t = as @ bs" "P = (\<lambda>k. k \<in> set bs)"
  shows "newest_first (filter P t) = bs"
proof (rule newer_sorted_unique)
  show "sorted_wrt newer (newest_first (filter P t))" by (intro newest_first_sorted distinct_map_filter assms(1))
  show "sorted_wrt newer bs" using newest_first_sorted [OF assms(1)] by (simp add: assms(2) sorted_wrt_append)
  show "set (newest_first (filter P t)) = set bs"
    using set_newest_first [of t] by (auto simp: set_newest_first assms(2,3))
qed

text \<open>A client that follows the cursors until there is none.\<close>

fun all_pages :: "nat \<Rightarrow> string \<Rightarrow> string \<Rightarrow> db \<Rightarrow> (err + device_installation list) option" where
  "all_pages 0 subject before db = None"
| "all_pages (Suc fuel) subject before db =
     (case DeviceInstallations subject before db of
        Inl e \<Rightarrow> Some (Inl e)
      | Inr (items, cursor) \<Rightarrow>
          if cursor = [] then Some (Inr items)
          else (case all_pages fuel subject cursor db of
            Some (Inr rest) \<Rightarrow> Some (Inr (items @ rest))
          | other \<Rightarrow> other))"

definition own_installations :: "string \<Rightarrow> db \<Rightarrow> installation_row list" where
  "own_installations subject db = newest_first (filter (\<lambda>k. k_subject k = subject) (device_installations db))"

lemma own_installations_sorted:
  assumes "schema_ok db"
  shows "sorted_wrt newer (own_installations subject db)"
  using installation_ix.keys_distinct [OF schema_ok_tables(17) [OF assms]]
  by (auto simp: own_installations_def intro!: newest_first_sorted distinct_map_filter)

lemma page_from:
  assumes "schema_ok db" "own_installations subject db = as @ bs"
    and "\<And>k. k \<in> set (device_installations db) \<Longrightarrow> k_subject k = subject \<Longrightarrow> after k \<longleftrightarrow> k \<in> set bs"
  shows "installation_page subject after db = (map (view_installation db) (take 50 bs), if length bs > 50 then k_id (bs ! 49) else [])"
proof -
  have ids: "distinct (map k_id (filter (\<lambda>k. k_subject k = subject) (device_installations db)))"
    using installation_ix.keys_distinct [OF schema_ok_tables(17) [OF assms(1)]] by (rule distinct_map_filter)
  have "filter (\<lambda>k. k_subject k = subject \<and> after k) (device_installations db)
      = filter (\<lambda>k. k \<in> set bs) (filter (\<lambda>k. k_subject k = subject) (device_installations db))"
    using assms(3) by (auto intro: filter_cong)
  then have rows: "newest_first (filter (\<lambda>k. k_subject k = subject \<and> after k) (device_installations db)) = bs"
    using newest_first_after [OF ids assms(2) [unfolded own_installations_def]] by simp
  show ?thesis
  proof (cases "length bs > 50")
    case True
    then have "take 50 bs = take 49 bs @ [bs ! 49]" using take_Suc_conv_app_nth [of 49 bs] by simp
    then have "last (take 50 (map (view_installation db) (take 51 bs))) = view_installation db (bs ! 49)"
      by (simp add: take_map)
    then show ?thesis using True rows
      by (simp add: installation_page_def deviceInstallationPageSize_def Let_def view_installation_def take_map min_def)
  next
    case False
    then show ?thesis using rows
      by (simp add: installation_page_def deviceInstallationPageSize_def Let_def take_map)
  qed
qed

lemma pages_from:
  assumes "schema_ok db" "\<forall>k\<in>set (device_installations db). k_id k \<noteq> []"
    and "own_installations subject db = as @ bs" "before = (if as = [] then [] else k_id (last as))" "length bs div 50 < fuel"
  shows "all_pages fuel subject before db = Some (Inr (map (view_installation db) bs))"
  using assms(3-5)
proof (induction fuel arbitrary: as bs before)
  case (Suc fuel)
  have own: "k \<in> set as \<union> set bs \<longleftrightarrow> k \<in> set (device_installations db) \<and> k_subject k = subject" for k
    using set_newest_first [of "filter (\<lambda>k. k_subject k = subject) (device_installations db)"] Suc.prems(1)
    by (auto simp: own_installations_def)
  have sorted: "sorted_wrt newer (as @ bs)" using own_installations_sorted [OF assms(1)] Suc.prems(1) by metis
  have page: "DeviceInstallations subject before db
      = Inr (map (view_installation db) (take 50 bs), if length bs > 50 then k_id (bs ! 49) else [])"
  proof (cases "as = []")
    case True
    then have "installation_page subject (\<lambda>_. True) db = (map (view_installation db) (take 50 bs), if length bs > 50 then k_id (bs ! 49) else [])"
      using own by (intro page_from [OF assms(1) Suc.prems(1)]) auto
    then show ?thesis using True Suc.prems(2) by (simp add: DeviceInstallations_def)
  next
    case False
    define c where "c = last as"
    have "c \<in> set as" "before = k_id c" using False Suc.prems(2) by (simp_all add: c_def)
    then have c: "c \<in> set as" "c \<in> set (device_installations db)" "k_subject c = subject" "before = k_id c"
      using own [of c] by blast+
    have as: "as = butlast as @ [c]" using False by (simp add: c_def)
    have "sorted_wrt newer (butlast as @ [c])" using sorted unfolding as [symmetric] by (simp add: sorted_wrt_append)
    then have front: "x = c \<or> newer x c" if "x \<in> set as" for x
      using that by (subst (asm) (2) as) (auto simp: sorted_wrt_append)
    have after: "newer c k \<longleftrightarrow> k \<in> set bs" if "k \<in> set (device_installations db)" "k_subject k = subject" for k
      using sorted c(1) front [of k] own [of k] that newer_trans newer_irrefl by (auto simp: sorted_wrt_append)
    then have "installation_page subject (\<lambda>k. k_created_at k < k_created_at c \<or> k_created_at k = k_created_at c \<and> k_id k < before) db
        = (map (view_installation db) (take 50 bs), if length bs > 50 then k_id (bs ! 49) else [])"
    proof (intro page_from [OF assms(1) Suc.prems(1)])
      fix k assume "k \<in> set (device_installations db)" "k_subject k = subject"
      then show "(k_created_at k < k_created_at c \<or> k_created_at k = k_created_at c \<and> k_id k < before) \<longleftrightarrow> k \<in> set bs"
        using after [of k] by (auto simp: newer_def c(4))
    qed
    moreover have "first_row (\<lambda>k. k_id k = before \<and> k_subject k = subject) (device_installations db) = Some c"
      using c by (intro installation_ix.lookup_where [OF schema_ok_tables(17) [OF assms(1)]]) auto
    moreover have "before \<noteq> []" using c assms(2) by auto
    ultimately show ?thesis by (simp add: DeviceInstallations_def)
  qed
  show ?case
  proof (cases "length bs > 50")
    case True
    then have "bs ! 49 \<in> set bs" by simp
    then have "k_id (bs ! 49) \<noteq> []" using own assms(2) by blast
    moreover have "all_pages fuel subject (k_id (bs ! 49)) db = Some (Inr (map (view_installation db) (drop 50 bs)))"
      using Suc.prems True by (intro Suc.IH [of "as @ take 50 bs"]) (auto simp: last_conv_nth nth_append min_def)
    ultimately show ?thesis using page True
      by (simp flip: map_append)
  next
    case False
    then show ?thesis using page by simp
  qed
qed simp

text \<open>C33: Following the cursors of the installation list from the first page enumerates the user's installations, each once and newest
first, and needs no more pages than one for every fifty installations and a last one.\<close>

theorem installations_enumerated:
  assumes "reach D db" "\<forall>k\<in>set (device_installations db). k_id k \<noteq> []"
    and "length (filter (\<lambda>k. k_subject k = subject) (device_installations db)) div 50 < fuel"
  shows "\<exists>ks. all_pages fuel subject [] db = Some (Inr (map (view_installation db) ks)) \<and> distinct ks \<and> sorted_wrt newer ks
    \<and> set ks = {k \<in> set (device_installations db). k_subject k = subject}"
proof -
  have schema: "schema_ok db" by (rule soundD(1) [OF reach_sound [OF assms(1)]])
  have sorted: "sorted_wrt newer (own_installations subject db)" by (rule own_installations_sorted [OF schema])
  have rows: "set (own_installations subject db) = {k \<in> set (device_installations db). k_subject k = subject}"
    by (simp add: own_installations_def set_newest_first)
  have distinct: "distinct (own_installations subject db)"
    using sorted by (rule newer_sorted_distinct)
  have filtered: "distinct (filter (\<lambda>k. k_subject k = subject) (device_installations db))"
    using installation_ix.keys_distinct [OF schema_ok_tables(17) [OF schema]] by (simp add: distinct_map)
  have "length (own_installations subject db) = length (filter (\<lambda>k. k_subject k = subject) (device_installations db))"
    using distinct_card [OF distinct] distinct_card [OF filtered] rows by simp
  then have "all_pages fuel subject [] db = Some (Inr (map (view_installation db) (own_installations subject db)))"
    using assms(3) by (intro pages_from [OF schema assms(2), of subject "[]"]) simp_all
  with distinct sorted rows show ?thesis by blast
qed

theorem installations_enumerated_witness:
  "\<exists>ks. all_pages 1 ''ann'' [] db28 = Some (Inr (map (view_installation db28) ks)) \<and> set ks = {installation1}"
  using installations_enumerated [OF db28_reach, of "''ann''" 1] by (fastforce simp: db28_tables installation1_def)

end
