(* ===== verification/Json.thy ===== *)
theory Json
  imports Go_Library
begin

text \<open>
  \<open>encoding/json\<close>: a parsed value, and the decoding of one into a Go struct whose unknown fields are
  disallowed. The parser of the text is the library's; a number keeps whether its literal is an
  integer, as decoding into an \<open>int\<close> depends on it.
\<close>

datatype json =
    JNull
  | JBool bool
  | JInt int
  | JReal string
  | JStr string
  | JArr "json list"
  | JObj "(string \<times> json) list"

datatype field_kind = TString | TBool | TInt | TStrings | TBoolPtr | TIntPtr

datatype field_value = VString string | VBool bool | VInt int | VStrings "string list"

type_synonym json_fields = "(string \<times> field_kind) list"
type_synonym struct_value = "string \<Rightarrow> field_value option"

text \<open>
  The name of a field matches a key exactly or after case folding, in which the Kelvin sign and
  the long s are letters of ASCII.
\<close>

fun fold_name :: "string \<Rightarrow> string" where
  "fold_name [] = []"
| "fold_name (c # s) =
     (if c = CHR 0xE2 \<and> take 2 s = [CHR 0x84, CHR 0xAA] then CHR ''k'' # fold_name (drop 2 s)
      else if c = CHR 0xC5 \<and> take 1 s = [CHR 0xBF] then CHR ''s'' # fold_name (drop 1 s)
      else lower_char c # fold_name s)"

definition field_named :: "json_fields \<Rightarrow> string \<Rightarrow> (string \<times> field_kind) option" where
  "field_named fields key =
     (case List.find (\<lambda>f. fst f = key) fields of
        Some f \<Rightarrow> Some f
      | None \<Rightarrow> List.find (\<lambda>f. fold_name (fst f) = fold_name key) fields)"

text \<open>A null element keeps what the slice held at its place.\<close>

fun set_strings :: "string list \<Rightarrow> json list \<Rightarrow> string list option" where
  "set_strings old [] = Some []"
| "set_strings old (JStr s # js) = map_option (Cons s) (set_strings (tl old) js)"
| "set_strings old (JNull # js) =
     map_option (Cons (case old of [] \<Rightarrow> [] | s # _ \<Rightarrow> s)) (set_strings (tl old) js)"
| "set_strings old (_ # js) = None"

definition int_range :: "int \<Rightarrow> bool" where
  "int_range n = (- (2 ^ 63) \<le> n \<and> n < 2 ^ 63)"

text \<open>\<open>None\<close> is an \<open>UnmarshalTypeError\<close>; the value of a field that is not set is its zero.\<close>

fun set_field :: "field_kind \<Rightarrow> field_value option \<Rightarrow> json \<Rightarrow> field_value option option" where
  "set_field TString old (JStr s) = Some (Some (VString s))"
| "set_field TBool old (JBool b) = Some (Some (VBool b))"
| "set_field TBoolPtr old (JBool b) = Some (Some (VBool b))"
| "set_field TInt old (JInt n) = (if int_range n then Some (Some (VInt n)) else None)"
| "set_field TIntPtr old (JInt n) = (if int_range n then Some (Some (VInt n)) else None)"
| "set_field TStrings old (JArr js) =
     map_option (\<lambda>ss. Some (VStrings ss)) (set_strings (case old of Some (VStrings ss) \<Rightarrow> ss | _ \<Rightarrow> []) js)"
| "set_field TBoolPtr old JNull = Some None"
| "set_field TIntPtr old JNull = Some None"
| "set_field TStrings old JNull = Some None"
| "set_field _ old JNull = Some old"
| "set_field _ old _ = None"

fun set_fields :: "json_fields \<Rightarrow> struct_value \<Rightarrow> (string \<times> json) list \<Rightarrow> struct_value option" where
  "set_fields fields v [] = Some v"
| "set_fields fields v ((key, j) # kjs) =
     (case field_named fields key of
        None \<Rightarrow> None
      | Some (name, kind) \<Rightarrow>
          (case set_field kind (v name) j of
            None \<Rightarrow> None
          | Some x \<Rightarrow> set_fields fields (v(name := x)) kjs))"

text \<open>
  The decoder reads one value and then expects the end of the input; \<open>input\<close> is the sequence of
  values the text holds, \<open>None\<close> if it is not such a sequence.
\<close>

definition decode_json :: "json_fields \<Rightarrow> json list option \<Rightarrow> struct_value option" where
  "decode_json fields input =
     (case input of
        Some [JObj kjs] \<Rightarrow> set_fields fields Map.empty kjs
      | Some [JNull] \<Rightarrow> Some Map.empty
      | _ \<Rightarrow> None)"

text \<open>
  \<open>json.Unmarshal\<close>, which does not disallow unknown fields: their values are skipped. A value of another kind than its
  field is an error, but the fields beside it are still set: \<open>salvage_json\<close> is what the struct holds when the error is ignored.
\<close>

definition known_fields :: "json_fields \<Rightarrow> (string \<times> json) list \<Rightarrow> (string \<times> json) list" where
  "known_fields shape kjs = filter (\<lambda>kj. field_named shape (fst kj) \<noteq> None) kjs"

definition unmarshal_json :: "json_fields \<Rightarrow> json option \<Rightarrow> struct_value option" where
  "unmarshal_json shape input = (case input of
     Some (JObj kjs) \<Rightarrow> set_fields shape Map.empty (known_fields shape kjs)
   | Some JNull \<Rightarrow> Some Map.empty
   | _ \<Rightarrow> None)"

fun salvage_fields :: "json_fields \<Rightarrow> struct_value \<Rightarrow> (string \<times> json) list \<Rightarrow> struct_value" where
  "salvage_fields shape v [] = v"
| "salvage_fields shape v (kj # kjs) = salvage_fields shape (coalesce (set_fields shape v [kj]) v) kjs"

definition salvage_json :: "json_fields \<Rightarrow> json option \<Rightarrow> struct_value" where
  "salvage_json shape input = (case input of
     Some (JObj kjs) \<Rightarrow> salvage_fields shape Map.empty kjs
   | _ \<Rightarrow> Map.empty)"

definition string_field :: "string \<Rightarrow> struct_value \<Rightarrow> string" where
  "string_field name v = (case v name of Some (VString s) \<Rightarrow> s | _ \<Rightarrow> [])"

definition bool_field :: "string \<Rightarrow> struct_value \<Rightarrow> bool" where
  "bool_field name v = (case v name of Some (VBool b) \<Rightarrow> b | _ \<Rightarrow> False)"

definition int_field :: "string \<Rightarrow> struct_value \<Rightarrow> int" where
  "int_field name v = (case v name of Some (VInt n) \<Rightarrow> n | _ \<Rightarrow> 0)"

definition strings_field :: "string \<Rightarrow> struct_value \<Rightarrow> string list" where
  "strings_field name v = (case v name of Some (VStrings ss) \<Rightarrow> ss | _ \<Rightarrow> [])"

definition bool_pointer :: "string \<Rightarrow> struct_value \<Rightarrow> bool option" where
  "bool_pointer name v = (case v name of Some (VBool b) \<Rightarrow> Some b | _ \<Rightarrow> None)"

definition int_pointer :: "string \<Rightarrow> struct_value \<Rightarrow> int option" where
  "int_pointer name v = (case v name of Some (VInt n) \<Rightarrow> Some n | _ \<Rightarrow> None)"

lemmas struct_fields = string_field_def bool_field_def int_field_def strings_field_def bool_pointer_def int_pointer_def

end
