(* ===== verification/Http.thy ===== *)
theory Http
  imports Lifecycle Net_Library Json
begin

text \<open>
  \<open>internal/httpapi/server.go\<close> and \<open>installations.go\<close>, the part every handler is built on: requests
  and responses, the error mapping, the JSON body, cookies, the peer address and the checks of an
  origin, a session and a client. A handler runs in \<open>http\<close>: it reads and updates the response
  header and the database and may answer early (\<open>Inl\<close>), as a Go handler writes its response and
  returns.

  A request is what \<open>net/http\<close> makes of the wire: the parsed query, form, cookies, basic credentials
  and JSON body are fields. What the environment gives a request is the record \<open>env\<close>: the \<open>k\<close>-th
  reading of the database clock is \<open>en_now k\<close>, of the server's \<open>en_wall k\<close>, and the \<open>k\<close>-th value
  drawn by \<open>RandomToken\<close> is \<open>en_token k\<close>; every handler numbers its own.
\<close>

section \<open>Requests and responses\<close>

record http_request =
  hq_method :: string
  hq_path :: string
  hq_query :: "(string \<times> string) list"
  hq_headers :: "(string \<times> string) list"
  hq_cookies :: "(string \<times> string) list"
  hq_basic :: "(string \<times> string) option"
  hq_remote :: string
  hq_length :: nat
  hq_form_encoded :: bool
  hq_form :: "(string \<times> string) list option"
  hq_json :: "json list option"

record set_cookie =
  ck_name :: string
  ck_value :: string
  ck_path :: string
  ck_http_only :: bool
  ck_secure :: bool
  ck_same_site_lax :: bool
  ck_max_age :: int

record login_page =
  lp_csrf :: string
  lp_request_id :: string
  lp_return_device :: string
  lp_client :: "client option"
  lp_scopes :: string
  lp_link :: "link_intent option"
  lp_user :: "identity_view option"

record device_page =
  dp_code :: string
  dp_user :: "identity_view option"
  dp_request :: "device_request option"
  dp_csrf :: string

record audit_view =
  av_id :: int
  av_actor :: string
  av_action :: string
  av_target :: string
  av_created_at :: time

text \<open>The JSON bodies the handlers encode, one constructor per shape.\<close>

datatype body =
    ErrorBody string string string bool
  | CodeBody string
  | CodeMessageBody string string
  | AliveBody
  | ReadyBody bool
  | MeBody identity_view session_view string bool
  | IntentBody link_intent
  | LinkBody account_link
  | LinksBody "account_link list"
  | OtpauthBody string
  | RecoveryCodesBody "string list"
  | LoginRequiredBody
  | RedeemedBody identity_view
  | SessionsBody "session_view list"
  | IdentitiesBody "identity_view list"
  | CredentialBody string
  | ClientsBody "client list"
  | NewClientBody client string
  | ClientBody client
  | ServiceAccountsBody "service_account list"
  | NewServiceBody string string
  | ServiceStatusBody bool string
  | SecretBody string int
  | OptionsBody "exchange_option list"
  | AuditBody "audit_view list"
  | NewInstallationBody device_installation string
  | InstallationsBody "device_installation list" string
  | InstallationBody device_installation
  | EventsBody "outbox_status list" string
  | AttemptsBody "attempt_row list"
  | QueuedBody

datatype answer =
    Json int body
  | NoContent
  | Redirect int string
  | LoginPage login_page
  | DevicePage device_page
  | DeviceDone

record response =
  rs_headers :: "(string \<times> string) list"
  rs_cookies :: "set_cookie list"
  rs_answer :: answer

fun status_of :: "answer \<Rightarrow> int" where
  "status_of (Json status _) = status"
| "status_of NoContent = 204"
| "status_of (Redirect status _) = status"
| "status_of _ = 200"

record server =
  sv_issuer :: string
  sv_dev :: bool
  sv_console :: bool
  sv_proxy_secret :: string
  sv_encryption :: string

record env =
  en_now :: "nat \<Rightarrow> time"
  en_wall :: "nat \<Rightarrow> time"
  en_token :: "nat \<Rightarrow> string"
  en_ids :: "nat \<Rightarrow> string"
  en_ids' :: "nat \<Rightarrow> string"
  en_codes :: "string list"
  en_salt :: string
  en_mfa_key :: "string \<times> string"
  en_kdf :: kdf
  en_gcm :: gcm
  en_nonce :: string
  en_totp :: totp
  en_mail :: "string \<Rightarrow> string option"
  en_url :: url_parser
  en_verify :: "string \<Rightarrow> access_claims option"
  en_address :: "string \<Rightarrow> (string \<times> string) option"
  en_callback :: "string \<Rightarrow> string"
  en_audit_id :: "nat \<Rightarrow> int"
  en_healthy :: bool

text \<open>\<open>Store.encrypt\<close> and \<open>Store.decrypt\<close> on the server, under the encryption key of its store.\<close>

definition en_seal :: "server \<Rightarrow> env \<Rightarrow> string \<Rightarrow> err + string" where
  "en_seal sv en = encrypt (en_gcm en) (Some (sv_encryption sv)) (en_nonce en)"

definition en_unseal :: "server \<Rightarrow> env \<Rightarrow> string \<Rightarrow> err + string" where
  "en_unseal sv en = decrypt (en_gcm en) (Some (sv_encryption sv))"

text \<open>\<open>http.Header\<close>: \<open>Set\<close> replaces, \<open>Values\<close> gives all, \<open>Get\<close> the first; a form or a query likewise.\<close>

definition values_of :: "string \<Rightarrow> (string \<times> string) list \<Rightarrow> string list" where
  "values_of name ps = map snd (filter (\<lambda>p. fst p = name) ps)"

definition get_value :: "string \<Rightarrow> (string \<times> string) list \<Rightarrow> string" where
  "get_value name ps = (case values_of name ps of [] \<Rightarrow> [] | v # _ \<Rightarrow> v)"

definition set_value :: "string \<Rightarrow> string \<Rightarrow> (string \<times> string) list \<Rightarrow> (string \<times> string) list" where
  "set_value name v ps = filter (\<lambda>p. fst p \<noteq> name) ps @ [(name, v)]"

section \<open>Handlers\<close>

record hstate =
  hs_headers :: "(string \<times> string) list"
  hs_cookies :: "set_cookie list"
  hs_db :: db

type_synonym 'a http = "hstate \<Rightarrow> (answer + 'a) \<times> hstate"

definition give :: "'a \<Rightarrow> 'a http" where "give a st = (Inr a, st)"

definition stop_with :: "answer \<Rightarrow> 'a http" where "stop_with ans st = (Inl ans, st)"

definition andThen :: "'a http \<Rightarrow> ('a \<Rightarrow> 'b http) \<Rightarrow> 'b http" where
  "andThen m f st = (case m st of (Inl ans, st) \<Rightarrow> (Inl ans, st) | (Inr a, st) \<Rightarrow> f a st)"

text \<open>The answer of \<open>failure\<close>; the request id is the one \<open>boundary\<close> drew for \<open>X-Request-ID\<close>.\<close>

definition failure_answer :: "err \<Rightarrow> string \<Rightarrow> answer" where
  "failure_answer e request_id =
     (let (status, code, message) =
        (case e of
           ErrUnauthorized \<Rightarrow> (401, ''authentication_required'', ''Please sign in again'')
         | ErrForbidden \<Rightarrow> (403, ''forbidden'', ''Operation not permitted'')
         | ErrConflict \<Rightarrow> (409, ''conflict'', ''Account link conflicts with an existing relationship'')
         | ErrExpired \<Rightarrow> (400, ''expired'', ''Request expired or was already consumed'')
         | _ \<Rightarrow> (500, ''internal_error'', ''Request could not be completed''))
      in Json status (ErrorBody code message request_id (500 \<le> status)))"

definition set_header :: "string \<Rightarrow> string \<Rightarrow> unit http" where
  "set_header name v st = (Inr (), st\<lparr>hs_headers := set_value name v (hs_headers st)\<rparr>)"

text \<open>The content types of \<open>send\<close> and of the pages.\<close>

definition as_json :: "unit http" where
  "as_json = set_header ''Content-Type'' ''application/json; charset=utf-8''"

definition as_html :: "unit http" where
  "as_html = set_header ''Content-Type'' ''text/html; charset=utf-8''"

definition send :: "int \<Rightarrow> body \<Rightarrow> answer http" where
  "send status b = andThen as_json (\<lambda>_. give (Json status b))"

definition failure :: "err \<Rightarrow> 'a http" where
  "failure e = andThen as_json (\<lambda>_ st.
     stop_with (failure_answer e (get_value ''X-Request-ID'' (hs_headers st))) st)"

text \<open>\<open>if err != nil { failure(w, err); return }\<close> after a call of the store.\<close>

definition call :: "(db \<Rightarrow> (err + 'a) \<times> db) \<Rightarrow> 'a http" where
  "call f st = (case f (hs_db st) of
     (Inl e, db) \<Rightarrow> failure e (st\<lparr>hs_db := db\<rparr>)
   | (Inr a, db) \<Rightarrow> (Inr a, st\<lparr>hs_db := db\<rparr>))"

definition query :: "(db \<Rightarrow> err + 'a) \<Rightarrow> 'a http" where
  "query f = call (\<lambda>db. (f db, db))"

text \<open>A query whose error the handler maps to \<open>e\<close>, and a test of the handler's own.\<close>

definition query_or :: "err \<Rightarrow> (db \<Rightarrow> err + 'a) \<Rightarrow> 'a http" where
  "query_or e f = query (\<lambda>db. case f db of Inl _ \<Rightarrow> Inl e | Inr a \<Rightarrow> Inr a)"

definition demand :: "bool \<Rightarrow> err \<Rightarrow> unit http" where
  "demand P e = (if P then give () else failure e)"

definition setCookie :: "server \<Rightarrow> string \<Rightarrow> string \<Rightarrow> int \<Rightarrow> unit http" where
  "setCookie sv name v age st = (Inr (), st\<lparr>hs_cookies := hs_cookies st @
     [\<lparr>ck_name = name, ck_value = v, ck_path = ''/'', ck_http_only = True,
       ck_secure = has_prefix (sv_issuer sv) ''https:'', ck_same_site_lax = True, ck_max_age = age\<rparr>]\<rparr>)"

fun clear_cookies :: "server \<Rightarrow> string list \<Rightarrow> unit http" where
  "clear_cookies sv [] = give ()"
| "clear_cookies sv (name # names) = andThen (setCookie sv name [] (-1)) (\<lambda>_. clear_cookies sv names)"

text \<open>
  \<open>boundary\<close> sets the headers of every response and caps the body: reading past a mebibyte is an
  error, of the JSON decoder as of a form's parser.
\<close>

definition max_body :: nat where "max_body = 1048576"

definition cap_body :: "http_request \<Rightarrow> http_request" where
  "cap_body r = (if hq_length r \<le> max_body then r
     else r\<lparr>hq_json := None, hq_form := (if hq_form_encoded r then None else hq_form r)\<rparr>)"

definition quoted :: "string \<Rightarrow> string" where "quoted s = [CHR 0x27] @ s @ [CHR 0x27]"

definition content_policy :: "string \<Rightarrow> string" where
  "content_policy form_targets = ''default-src '' @ quoted ''self'' @ ''; form-action '' @ quoted ''self'' @ form_targets
     @ ''; frame-ancestors '' @ quoted ''none'' @ ''; base-uri '' @ quoted ''none''"

definition boundary_headers :: "string \<Rightarrow> (string \<times> string) list" where
  "boundary_headers request_id =
     [(''Cache-Control'', ''no-store''), (''X-Content-Type-Options'', ''nosniff''),
      (''Referrer-Policy'', ''no-referrer''), (''X-Frame-Options'', ''DENY''),
      (''Content-Security-Policy'', content_policy []),
      (''X-Request-ID'', request_id)]"

definition boundary :: "string \<Rightarrow> (http_request \<Rightarrow> answer http) \<Rightarrow> http_request \<Rightarrow> db \<Rightarrow> response \<times> db" where
  "boundary request_id next_handler r db =
     (case next_handler (cap_body r) \<lparr>hs_headers = boundary_headers request_id, hs_cookies = [], hs_db = db\<rparr> of
        (result, st) \<Rightarrow>
          (\<lparr>rs_headers = hs_headers st, rs_cookies = hs_cookies st,
            rs_answer = (case result of Inl ans \<Rightarrow> ans | Inr ans \<Rightarrow> ans)\<rparr>, hs_db st))"

section \<open>Reading a request\<close>

definition decode :: "http_request \<Rightarrow> json_fields \<Rightarrow> struct_value http" where
  "decode r shape = (case decode_json shape (hq_json r) of
     None \<Rightarrow> failure ErrForbidden
   | Some v \<Rightarrow> give v)"

definition cookie :: "http_request \<Rightarrow> string \<Rightarrow> string" where
  "cookie r name = get_value name (hq_cookies r)"

definition header :: "http_request \<Rightarrow> string \<Rightarrow> string" where
  "header r name = get_value name (hq_headers r)"

definition originOK :: "server \<Rightarrow> http_request \<Rightarrow> bool" where
  "originOK sv r = (header r ''Origin'' = sv_issuer sv)"

text \<open>\<open>en_address\<close> is \<open>netip.ParseAddr\<close>: the unmapped address and the zone.\<close>

definition peer :: "server \<Rightarrow> env \<Rightarrow> http_request \<Rightarrow> string" where
  "peer sv en r =
     (let host = (case split_host (hq_remote r) of None \<Rightarrow> hq_remote r | Some h \<Rightarrow> h) in
      if 32 \<le> length (sv_proxy_secret sv)
        \<and> length (values_of ''X-FastCAS-Proxy-Secret'' (hq_headers r)) = 1
        \<and> constant_time_compare (header r ''X-FastCAS-Proxy-Secret'') (sv_proxy_secret sv) = 1
        \<and> length (values_of ''X-FastCAS-Client-IP'' (hq_headers r)) = 1
      then (case en_address en (header r ''X-FastCAS-Client-IP'') of
          Some (address, zone) \<Rightarrow> if zone = [] then address else host
        | None \<Rightarrow> host)
      else host)"

definition bearer :: "http_request \<Rightarrow> string" where
  "bearer r =
     (case values_of ''Authorization'' (hq_headers r) of
        [v] \<Rightarrow> if \<not> has_prefix v ''Bearer '' then []
          else let token = drop 7 v in if token = [] \<or> contains_any token blanks then [] else token
      | _ \<Rightarrow> [])"

section \<open>Who is asking\<close>

text \<open>\<open>client\<close>: the application authenticated by its basic credentials.\<close>

definition client_of :: "env \<Rightarrow> http_request \<Rightarrow> string http" where
  "client_of en r =
     (case hq_basic r of
        None \<Rightarrow> failure ErrUnauthorized
      | Some (user, password) \<Rightarrow>
          (case (query_unescape user, query_unescape password) of
            (Some cid, Some secret) \<Rightarrow>
              andThen (query_or ErrUnauthorized (AuthorizeClientIDSecret (en_now en 0) cid secret))
                (\<lambda>_. give cid)
          | _ \<Rightarrow> failure ErrUnauthorized))"

definition admin_check :: "env \<Rightarrow> session_view \<Rightarrow> unit http" where
  "admin_check en session =
     andThen (query (\<lambda>db. Inr (RequireAdmin (en_now en 2) session db = Inr ()))) (\<lambda>allowed.
     if allowed then give ()
     else andThen (send 403 (CodeMessageBody ''admin_mfa_required''
       ''Administrator access requires recent multi-factor authentication'')) stop_with)"

definition authenticated :: "server \<Rightarrow> env \<Rightarrow> http_request \<Rightarrow> bool \<Rightarrow> session_view http" where
  "authenticated sv en r admin =
     (let token = cookie r ''fastcas_session'' in
      andThen (query (Session (en_now en 0) token)) (\<lambda>session.
      andThen (if hq_method r = ''GET'' then give ()
        else if \<not> originOK sv r then failure ErrForbidden
        else query_or ErrForbidden (CheckCSRF (en_now en 1) token (header r ''X-CSRF-Token''))) (\<lambda>_.
      andThen (if admin then admin_check en session else give ()) (\<lambda>_.
      give session))))"

text \<open>\<open>time.Since(session.AuthenticatedAt) > 5*time.Minute\<close> refuses.\<close>

definition recent :: "env \<Rightarrow> session_view \<Rightarrow> unit http" where
  "recent en session = demand (en_wall en 0 - w_authenticated_at session \<le> minutes 5) ErrUnauthorized"

text \<open>
  \<open>sessionFresh\<close>: the age limit is a product of 64-bit nanoseconds, which wraps around for a limit of
  more than 292 years.
\<close>

definition sessionFresh :: "time \<Rightarrow> authorization \<Rightarrow> session_view \<Rightarrow> bool" where
  "sessionFresh wall a session =
     (\<not> (PromptLogin \<in> set (rq_prompt (az_request a)) \<and> w_authenticated_at session < az_created_at a)
      \<and> (case rq_max_age (az_request a) of
           None \<Rightarrow> True
         | Some age \<Rightarrow> (wall - w_authenticated_at session) * 1000 \<le> wrap64 (age * 1000000000)))"

section \<open>The combinators\<close>

lemmas http_simps = give_def stop_with_def andThen_def failure_def call_def query_def query_or_def demand_def
  set_header_def setCookie_def as_json_def as_html_def send_def

lemma andThen_Inr:
  "andThen m f st = (Inr b, st') \<longleftrightarrow> (\<exists>a st1. m st = (Inr a, st1) \<and> f a st1 = (Inr b, st'))"
  by (auto simp: andThen_def split: prod.splits sum.splits)

lemma failure_eq:
  "\<exists>hs. failure e st = (Inl (failure_answer e (get_value ''X-Request-ID'' hs)), st\<lparr>hs_headers := hs\<rparr>)"
  by (auto simp: http_simps)

lemma failure_Inr [simp]: "failure e st \<noteq> (Inr a, st')"
  by (simp add: http_simps)

lemma call_Inr: "call f st = (Inr a, st') \<longleftrightarrow> (\<exists>db. f (hs_db st) = (Inr a, db) \<and> st' = st\<lparr>hs_db := db\<rparr>)"
  by (auto simp: call_def split: prod.splits sum.splits)

lemma query_Inr: "query f st = (Inr a, st') \<longleftrightarrow> f (hs_db st) = Inr a \<and> st' = st"
  by (auto simp: query_def call_Inr)

lemma query_or_Inr: "query_or e f st = (Inr a, st') \<longleftrightarrow> f (hs_db st) = Inr a \<and> st' = st"
  by (auto simp: query_or_def query_Inr split: sum.splits)

lemma demand_Inr: "demand P e st = (Inr u, st') \<longleftrightarrow> P \<and> st' = st"
  by (auto simp: demand_def give_def)

lemma give_Inr: "give a st = (Inr b, st') \<longleftrightarrow> b = a \<and> st' = st"
  by (auto simp: give_def)

lemma stop_with_Inr [simp]: "stop_with ans st \<noteq> (Inr a, st')"
  by (simp add: stop_with_def)

lemmas http_Inr = andThen_Inr call_Inr query_Inr query_or_Inr demand_Inr give_Inr

end
