(* ===== verification/Pages.thy ===== *)
theory Pages
  imports Http
begin

text \<open>
  The handlers of \<open>internal/httpapi/server.go\<close> and \<open>device.go\<close>: the login page and form, the session
  of a browser, the link API of the applications, and the page that confirms a device.
\<close>

section \<open>Device forms\<close>

definition user_code_letter :: "char \<Rightarrow> bool" where
  "user_code_letter c = (c \<in> set ''BCDFGHJKLMNPQRSTVWXZ'')"

text \<open>The pattern of a user code: four letters, a dash, four letters.\<close>

definition deviceCodePattern :: "string \<Rightarrow> bool" where
  "deviceCodePattern s = (length s = 9 \<and> s ! 4 = CHR ''-''
     \<and> list_all user_code_letter (take 4 s) \<and> list_all user_code_letter (drop 5 s))"

definition safeDeviceCode :: "string \<Rightarrow> string" where
  "safeDeviceCode v = (let code = to_upper (trim_space v) in if deviceCodePattern code then code else [])"

definition deviceFormProof :: "server \<Rightarrow> string \<Rightarrow> string \<Rightarrow> string" where
  "deviceFormProof sv csrf code =
     base64_encode url_alphabet (hmac_sha256 (sv_encryption sv) (csrf @ '':'' @ code))"

section \<open>The login page\<close>

definition loginPage :: "server \<Rightarrow> env \<Rightarrow> http_request \<Rightarrow> answer http" where
  "loginPage sv en r =
     andThen (set_header ''Referrer-Policy'' ''same-origin'') (\<lambda>_.
     andThen (setCookie sv ''fastcas_form'' (en_token en 0) 300) (\<lambda>_.
     let rid = get_value ''auth_request_id'' (hq_query r);
         page = \<lparr>lp_csrf = en_token en 0, lp_request_id = rid,
           lp_return_device = safeDeviceCode (get_value ''return_device'' (hq_query r)),
           lp_client = None, lp_scopes = [], lp_link = None, lp_user = None\<rparr> in
     if rid = [] then andThen as_html (\<lambda>_. give (LoginPage page))
     else andThen (query (AuthRequestByID (en_now en 0) rid)) (\<lambda>a.
       case en_url en (rq_redirect_uri (az_request a)) of
         None \<Rightarrow> failure ErrForbidden
       | Some u \<Rightarrow>
         if url_scheme u = [] \<or> url_host u = [] \<or> url_user u \<or> contains_any (url_host u) host_breakers
         then failure ErrForbidden
         else andThen (set_header ''Content-Security-Policy''
             (content_policy ('' '' @ url_scheme u @ ''://'' @ url_host u))) (\<lambda>_.
           andThen (query (Client (rq_client_id (az_request a)))) (\<lambda>c.
           andThen (query (\<lambda>db. Inr (IntentForAuthorization (en_now en 1) a db))) (\<lambda>link.
           andThen (query (\<lambda>db. Inr (case Session (en_now en 2) (cookie r ''fastcas_session'') db of
               Inl _ \<Rightarrow> None
             | Inr session \<Rightarrow>
                 if \<not> sessionFresh (en_wall en 0) a session then None
                 else (case Identity (w_identity_id session) db of Inl _ \<Rightarrow> None | Inr u \<Rightarrow> Some u)))) (\<lambda>user.
           andThen as_html (\<lambda>_.
             give (LoginPage (page\<lparr>lp_client := Some c,
               lp_scopes := join_with '', '' (rq_scopes (az_request a)),
               lp_link := link, lp_user := user\<rparr>))))))))))"

section \<open>Signing in\<close>

text \<open>What \<open>login\<close> does once it has the tokens of a new session.\<close>

definition signed_in ::
  "server \<Rightarrow> env \<Rightarrow> (string \<times> string) list \<Rightarrow> identity_view \<Rightarrow> bool \<Rightarrow> string \<Rightarrow> string \<Rightarrow> answer http" where
  "signed_in sv en form user enabled token csrf =
     andThen (setCookie sv ''fastcas_session'' token 28800) (\<lambda>_.
     andThen (if enabled then andThen (query (Session (en_now en 3) token)) (\<lambda>session.
         call (MarkMFA (en_now en 4) (u_id user) (w_id session))) else give ()) (\<lambda>_.
     andThen (setCookie sv ''fastcas_csrf'' csrf 28800) (\<lambda>_.
     let rid = get_value ''auth_request_id'' form;
         code = safeDeviceCode (get_value ''return_device'' form) in
     give (Redirect 303
       (if rid \<noteq> [] then ''/login?auth_request_id='' @ query_escape rid
        else if code \<noteq> [] then ''/device?user_code='' @ query_escape code
        else if sv_console sv then ''/console/'' else ''/api/v1/me'')))))"

definition password_login :: "server \<Rightarrow> env \<Rightarrow> http_request \<Rightarrow> (string \<times> string) list \<Rightarrow> answer http" where
  "password_login sv en r form =
     andThen (call (Authenticate (en_kdf en) (en_now en 0) (get_value ''email'' form)
       (get_value ''password'' form) (peer sv en r))) (\<lambda>user.
     andThen (query (MFAEnabled (u_id user))) (\<lambda>enabled.
     andThen (if enabled then call (VerifyMFA (en_unseal sv en) (en_totp en) (en_now en 1) (en_wall en 0)
         (u_id user) (get_value ''mfa_code'' form)) else give ()) (\<lambda>_.
     andThen (call (NewSession (en_now en 2) (en_token en 0) (en_token en 1) (en_token en 2) (u_id user)))
       (\<lambda>(token, csrf). signed_in sv en form user enabled token csrf))))"

definition approve_login :: "env \<Rightarrow> http_request \<Rightarrow> string \<Rightarrow> answer http" where
  "approve_login en r rid =
     andThen (query (Session (en_now en 0) (cookie r ''fastcas_session''))) (\<lambda>session.
     andThen (query (AuthRequestByID (en_now en 1) rid)) (\<lambda>a.
     andThen (demand (sessionFresh (en_wall en 0) a session) ErrUnauthorized) (\<lambda>_.
     andThen (call (CompleteAuthorization (en_now en 2) rid session)) (\<lambda>_.
     give (Redirect 303 (en_callback en rid))))))"

definition login :: "server \<Rightarrow> env \<Rightarrow> http_request \<Rightarrow> answer http" where
  "login sv en r =
     (if \<not> originOK sv r then failure ErrForbidden
      else case hq_form r of
        None \<Rightarrow> failure ErrForbidden
      | Some form \<Rightarrow>
        let got = get_value ''csrf'' form; want = cookie r ''fastcas_form'' in
        if got = [] \<or> want = [] \<or> constant_time_compare got want \<noteq> 1 then failure ErrForbidden
        else andThen (setCookie sv ''fastcas_form'' [] (-1)) (\<lambda>_.
          if get_value ''action'' form = ''login'' then password_login sv en r form
          else if get_value ''action'' form = ''approve''
          then approve_login en r (get_value ''auth_request_id'' form)
          else failure ErrForbidden))"

definition me :: "env \<Rightarrow> http_request \<Rightarrow> answer http" where
  "me en r =
     andThen (query (Session (en_now en 0) (cookie r ''fastcas_session''))) (\<lambda>session.
     andThen (query (Identity (w_identity_id session))) (\<lambda>user.
     andThen (query (MFAEnabled (u_id user))) (\<lambda>enabled.
     send 200 (MeBody user session (cookie r ''fastcas_csrf'') enabled))))"

definition logout :: "server \<Rightarrow> env \<Rightarrow> http_request \<Rightarrow> answer http" where
  "logout sv en r =
     (let token = cookie r ''fastcas_session'' in
      andThen (demand (originOK sv r) ErrForbidden) (\<lambda>_.
      andThen (query_or ErrForbidden (CheckCSRF (en_now en 0) token (header r ''X-CSRF-Token''))) (\<lambda>_.
      andThen (query (Session (en_now en 1) token)) (\<lambda>session.
      andThen (call (LogoutSession (en_now en 2) (en_ids en) (w_identity_id session) (w_id session))) (\<lambda>_.
      andThen (clear_cookies sv [''fastcas_session'', ''fastcas_csrf'', ''fastcas_form'']) (\<lambda>_.
      give NoContent))))))"

definition health_live :: "answer http" where
  "health_live = send 200 AliveBody"

definition health_ready :: "env \<Rightarrow> answer http" where
  "health_ready en = (if en_healthy en then send 200 (ReadyBody True) else send 503 (ReadyBody False))"

section \<open>The link API of an application\<close>

definition linkIntent :: "env \<Rightarrow> http_request \<Rightarrow> answer http" where
  "linkIntent en r =
     andThen (client_of en r) (\<lambda>c.
     andThen (decode r [(''local_account_ref'', TString)]) (\<lambda>input.
     andThen (call (CreateLinkIntent (en_wall en 0) (en_token en 0) (en_token en 1) c
       (string_field ''local_account_ref'' input) (header r ''Idempotency-Key''))) (\<lambda>result.
     send 201 (IntentBody result))))"

definition prepare :: "env \<Rightarrow> string \<Rightarrow> http_request \<Rightarrow> answer http" where
  "prepare en lid r =
     andThen (client_of en r) (\<lambda>c.
     andThen (decode r [(''nonce'', TString), (''subject'', TString)]) (\<lambda>input.
     andThen (call (PrepareLink (en_now en 1) (en_wall en 0) c lid (string_field ''nonce'' input)
       (string_field ''subject'' input))) (\<lambda>result.
     send 200 (LinkBody result))))"

definition activate :: "env \<Rightarrow> string \<Rightarrow> http_request \<Rightarrow> answer http" where
  "activate en lid r =
     andThen (client_of en r) (\<lambda>c.
     andThen (call (ActivateLink (en_now en 1) (en_wall en 0) c lid)) (\<lambda>result.
     send 200 (LinkBody result)))"

definition link_status :: "env \<Rightarrow> string \<Rightarrow> http_request \<Rightarrow> answer http" where
  "link_status en lid r =
     andThen (client_of en r) (\<lambda>c.
     andThen (query (Link c lid)) (\<lambda>result.
     send 200 (LinkBody result)))"

definition resolve :: "env \<Rightarrow> http_request \<Rightarrow> answer http" where
  "resolve en r =
     andThen (client_of en r) (\<lambda>c.
     andThen (query (ResolveLink c (get_value ''subject'' (hq_query r)))) (\<lambda>result.
     send 200 (LinkBody result)))"

definition revoke :: "env \<Rightarrow> string \<Rightarrow> http_request \<Rightarrow> answer http" where
  "revoke en lid r =
     andThen (client_of en r) (\<lambda>c.
     case parse_int (trim_chars [CHR 0x22] (header r ''If-Match'')) of
       None \<Rightarrow> send 428 (CodeBody ''version_required'')
     | Some version \<Rightarrow>
         andThen (call (RevokeLink (en_now en 1) (en_token en 0) c lid version)) (\<lambda>result.
         send 200 (LinkBody result)))"

section \<open>Confirming a device\<close>

text \<open>
  A row that the second query no longer finds leaves the zero identity: \<open>devicePage\<close> does not look
  at the error of \<open>Identity\<close>, which returns a pointer in any case.
\<close>

definition zero_identity :: identity_view where
  "zero_identity = \<lparr>u_id = [], u_email = [], u_name = [], u_role = Member, u_status = Active, u_email_verified = False\<rparr>"

definition devicePage :: "server \<Rightarrow> env \<Rightarrow> http_request \<Rightarrow> answer http" where
  "devicePage sv en r =
     andThen (set_header ''Referrer-Policy'' ''same-origin'') (\<lambda>_.
     let code = safeDeviceCode (get_value ''user_code'' (hq_query r)) in
     andThen (query (\<lambda>db. Inr (case Session (en_now en 0) (cookie r ''fastcas_session'') db of
         Inl _ \<Rightarrow> None
       | Inr session \<Rightarrow> Some (case Identity (w_identity_id session) db of
           Inl _ \<Rightarrow> zero_identity | Inr u \<Rightarrow> u)))) (\<lambda>user.
     let page = \<lparr>dp_code = code, dp_user = user, dp_request = None, dp_csrf = []\<rparr> in
     if user = None \<or> code = [] then andThen as_html (\<lambda>_. give (DevicePage page))
     else andThen (call (\<lambda>db. case Allow (en_now en 1) (''device-verify:'' @ peer sv en r) 20 (minutes 15) db of
         (allowed, db) \<Rightarrow> (if allowed then Inr () else Inl ErrForbidden, db))) (\<lambda>_.
       andThen (query (DeviceRequest (en_now en 2) code)) (\<lambda>request.
       andThen (setCookie sv ''fastcas_device_form'' (deviceFormProof sv (en_token en 0) code) 300) (\<lambda>_.
       andThen as_html (\<lambda>_.
         give (DevicePage (page\<lparr>dp_request := Some request, dp_csrf := en_token en 0\<rparr>))))))))"

definition deviceConfirm :: "server \<Rightarrow> env \<Rightarrow> http_request \<Rightarrow> answer http" where
  "deviceConfirm sv en r =
     (if \<not> originOK sv r then failure ErrForbidden
      else case hq_form r of
        None \<Rightarrow> failure ErrForbidden
      | Some form \<Rightarrow>
        let csrf = get_value ''csrf'' form; expected = cookie r ''fastcas_device_form'';
            code = safeDeviceCode (get_value ''user_code'' form);
            decision = get_value ''decision'' form in
        if csrf = [] \<or> code = [] \<or> expected = []
          \<or> constant_time_compare (deviceFormProof sv csrf code) expected \<noteq> 1
        then failure ErrForbidden
        else andThen (setCookie sv ''fastcas_device_form'' [] (-1)) (\<lambda>_.
          andThen (demand (decision = ''approve'' \<or> decision = ''deny'') ErrForbidden) (\<lambda>_.
          andThen (query (Session (en_now en 0) (cookie r ''fastcas_session''))) (\<lambda>session.
          andThen (call (ConfirmDevice (en_now en 1) code (w_identity_id session) (decision = ''approve''))) (\<lambda>_.
          andThen as_html (\<lambda>_. give DeviceDone))))))"

end
