(* ===== verification/Accounts_Api.thy ===== *)
theory Accounts_Api
  imports Http
begin

text \<open>
  The handlers of \<open>internal/httpapi/accounts.go\<close>, \<open>installations.go\<close> and \<open>outbox.go\<close>: registration
  and recovery, the signed-in user's account, the administration and the device installations. The
  statements up to \<open>authenticated\<close> read the clock at 0, 1 and 2, those of a handler from 3 on.
\<close>

section \<open>Multi-factor authentication and passwords\<close>

definition enrollMFA :: "server \<Rightarrow> env \<Rightarrow> http_request \<Rightarrow> answer http" where
  "enrollMFA sv en r =
     andThen (authenticated sv en r False) (\<lambda>session.
     andThen (recent en session) (\<lambda>_.
     andThen (call (BeginMFA (en_seal sv en) (en_now en 3) (en_mfa_key en) (w_identity_id session))) (\<lambda>uri.
     send 200 (OtpauthBody uri))))"

definition confirmMFA :: "server \<Rightarrow> env \<Rightarrow> http_request \<Rightarrow> answer http" where
  "confirmMFA sv en r =
     andThen (authenticated sv en r False) (\<lambda>session.
     andThen (decode r [(''code'', TString)]) (\<lambda>input.
     andThen (recent en session) (\<lambda>_.
     andThen (call (ConfirmMFA (en_unseal sv en) (en_totp en) (en_now en 3) (en_wall en 1) (en_codes en)
       (w_identity_id session) (w_id session) (string_field ''code'' input))) (\<lambda>codes.
     send 200 (RecoveryCodesBody codes)))))"

definition rotateMFARecoveryCodes :: "server \<Rightarrow> env \<Rightarrow> http_request \<Rightarrow> answer http" where
  "rotateMFARecoveryCodes sv en r =
     andThen (authenticated sv en r False) (\<lambda>session.
     andThen (call (RotateMFARecoveryCodes (en_now en 3) (en_codes en) (w_identity_id session) (w_id session)))
       (\<lambda>codes. send 200 (RecoveryCodesBody codes)))"

definition reauthenticate :: "server \<Rightarrow> env \<Rightarrow> http_request \<Rightarrow> answer http" where
  "reauthenticate sv en r =
     andThen (authenticated sv en r False) (\<lambda>session.
     andThen (decode r [(''password'', TString), (''code'', TString)]) (\<lambda>input.
     andThen (query (Identity (w_identity_id session))) (\<lambda>u.
     andThen (call (Authenticate (en_kdf en) (en_now en 3) (u_email u) (string_field ''password'' input)
       (peer sv en r))) (\<lambda>_.
     andThen (query (MFAEnabled (u_id u))) (\<lambda>enabled.
     andThen (if enabled
       then andThen (call (VerifyMFA (en_unseal sv en) (en_totp en) (en_now en 4) (en_wall en 1) (u_id u)
           (string_field ''code'' input)))
         (\<lambda>_. call (MarkMFA (en_now en 5) (u_id u) (w_id session)))
       else give ()) (\<lambda>_.
     andThen (call (\<lambda>db. (Inr (), renew_session (en_now en 6) (w_id session) db))) (\<lambda>_.
     give NoContent)))))))"

definition changePassword :: "server \<Rightarrow> env \<Rightarrow> http_request \<Rightarrow> answer http" where
  "changePassword sv en r =
     andThen (authenticated sv en r False) (\<lambda>session.
     andThen (decode r [(''current_password'', TString), (''new_password'', TString), (''code'', TString)])
       (\<lambda>input.
     andThen (call (ChangePassword (en_kdf en) (en_unseal sv en) (en_totp en) (en_now en 3) (en_wall en 1)
       (en_salt en) (en_ids en) (w_identity_id session) (w_id session)
       (string_field ''current_password'' input) (string_field ''new_password'' input)
       (string_field ''code'' input) (peer sv en r))) (\<lambda>_.
     andThen (clear_cookies sv [''fastcas_session'', ''fastcas_csrf'']) (\<lambda>_.
     give NoContent))))"

section \<open>Registration and recovery\<close>

text \<open>The limit of ten redemptions in five minutes and peer; it answers 429 itself.\<close>

definition redeem_limit :: "server \<Rightarrow> env \<Rightarrow> http_request \<Rightarrow> unit http" where
  "redeem_limit sv en r =
     andThen (call (\<lambda>db. case Allow (en_now en 0) (''redeem:'' @ peer sv en r) 10 (minutes 5) db of
       (allowed, db) \<Rightarrow> (Inr allowed, db)))
     (\<lambda>allowed. if allowed then give () else andThen (send 429 (CodeBody ''rate_limited'')) stop_with)"

definition redeemMFAReset :: "server \<Rightarrow> env \<Rightarrow> http_request \<Rightarrow> answer http" where
  "redeemMFAReset sv en r =
     andThen (demand (originOK sv r) ErrForbidden) (\<lambda>_.
     andThen (redeem_limit sv en r) (\<lambda>_.
     andThen (decode r [(''token'', TString), (''password'', TString)]) (\<lambda>input.
     andThen (call (RedeemMFAReset (en_kdf en) (en_now en 1) (en_ids en) (string_field ''token'' input)
       (string_field ''password'' input) (peer sv en r))) (\<lambda>_.
     send 200 LoginRequiredBody))))"

definition redeem :: "server \<Rightarrow> env \<Rightarrow> string \<Rightarrow> http_request \<Rightarrow> answer http" where
  "redeem sv en kind r =
     andThen (demand (originOK sv r) ErrForbidden) (\<lambda>_.
     andThen (redeem_limit sv en r) (\<lambda>_.
     andThen (decode r [(''token'', TString), (''name'', TString), (''password'', TString)]) (\<lambda>input.
     andThen (call (RedeemCredential (en_kdf en) (en_now en 1) (en_salt en) (en_token en 0) (en_ids en) kind
       (string_field ''token'' input) (string_field ''name'' input) (string_field ''password'' input))) (\<lambda>user.
     send 200 (RedeemedBody user)))))"

section \<open>The user's links, sessions and delegations\<close>

definition my_links :: "string \<Rightarrow> db \<Rightarrow> account_link list" where
  "my_links subject db = map view_link (take 200 (sort_key (\<lambda>l. - l_verified_at l)
     (filter (\<lambda>l. l_subject l = subject) (account_links db))))"

definition myLinks :: "server \<Rightarrow> env \<Rightarrow> http_request \<Rightarrow> answer http" where
  "myLinks sv en r =
     andThen (authenticated sv en r False) (\<lambda>session.
     andThen (query (\<lambda>db. Inr (my_links (w_identity_id session) db))) (\<lambda>items.
     send 200 (LinksBody items)))"

definition link_client :: "string \<Rightarrow> string \<Rightarrow> db \<Rightarrow> err + string" where
  "link_client lid subject db =
     (case first_row (\<lambda>l. l_id l = lid \<and> l_subject l = subject) (account_links db) of
        None \<Rightarrow> Inl ErrForbidden
      | Some l \<Rightarrow> Inr (l_client_id l))"

definition myRevoke :: "server \<Rightarrow> env \<Rightarrow> string \<Rightarrow> http_request \<Rightarrow> answer http" where
  "myRevoke sv en lid r =
     andThen (authenticated sv en r False) (\<lambda>session.
     andThen (recent en session) (\<lambda>_.
     andThen (query (link_client lid (w_identity_id session))) (\<lambda>c.
     andThen (decode r [(''version'', TInt)]) (\<lambda>input.
     andThen (call (RevokeLink (en_now en 3) (en_token en 0) c lid (int_field ''version'' input))) (\<lambda>link.
     send 200 (LinkBody link))))))"

definition my_sessions :: "time \<Rightarrow> string \<Rightarrow> db \<Rightarrow> session_view list" where
  "my_sessions now subject db = map view_session (take 100 (sort_key (\<lambda>s. - s_authenticated_at s)
     (filter (\<lambda>s. s_identity_id s = subject \<and> live_session now s) (browser_sessions db))))"

definition mySessions :: "server \<Rightarrow> env \<Rightarrow> http_request \<Rightarrow> answer http" where
  "mySessions sv en r =
     andThen (authenticated sv en r False) (\<lambda>session.
     andThen (query (\<lambda>db. Inr (my_sessions (en_now en 3) (w_identity_id session) db))) (\<lambda>items.
     send 200 (SessionsBody items)))"

definition browser_cookies :: "string list" where
  "browser_cookies = [''fastcas_session'', ''fastcas_csrf'', ''fastcas_form'', ''fastcas_device_form'']"

definition revokeSession :: "server \<Rightarrow> env \<Rightarrow> string \<Rightarrow> http_request \<Rightarrow> answer http" where
  "revokeSession sv en target r =
     andThen (authenticated sv en r False) (\<lambda>session.
     andThen (call (LogoutSession (en_now en 3) (en_ids en) (w_identity_id session) target)) (\<lambda>_.
     andThen (if target = w_id session then clear_cookies sv browser_cookies else give ()) (\<lambda>_.
     give NoContent)))"

definition logoutAll :: "server \<Rightarrow> env \<Rightarrow> http_request \<Rightarrow> answer http" where
  "logoutAll sv en r =
     andThen (authenticated sv en r False) (\<lambda>session.
     andThen (call (LogoutAll (en_now en 3) (en_ids en) (w_identity_id session))) (\<lambda>_.
     andThen (clear_cookies sv browser_cookies) (\<lambda>_.
     give NoContent)))"

definition exchange_change :: json_fields where
  "exchange_change = [(''caller_client'', TString), (''target_client'', TString), (''resource'', TString),
     (''scope'', TString), (''active'', TBool)]"

definition delegations :: "server \<Rightarrow> env \<Rightarrow> http_request \<Rightarrow> answer http" where
  "delegations sv en r =
     andThen (authenticated sv en r False) (\<lambda>session.
     andThen (query (\<lambda>db. Inr (ExchangeOptionsFor (w_identity_id session) db))) (\<lambda>items.
     send 200 (OptionsBody items)))"

definition setDelegation :: "server \<Rightarrow> env \<Rightarrow> http_request \<Rightarrow> answer http" where
  "setDelegation sv en r =
     andThen (authenticated sv en r False) (\<lambda>session.
     andThen (decode r exchange_change) (\<lambda>input.
     andThen (call (SetExchangeConsent (en_now en 3) (w_identity_id session)
       (string_field ''caller_client'' input) (string_field ''target_client'' input)
       (string_field ''resource'' input) (string_field ''scope'' input) (bool_field ''active'' input))) (\<lambda>_.
     give NoContent)))"

section \<open>Device installations\<close>

definition registerDeviceInstallation :: "env \<Rightarrow> http_request \<Rightarrow> answer http" where
  "registerDeviceInstallation en r =
     andThen (query_or ErrUnauthorized (DeviceAccessToken (en_verify en) (en_now en 0) (bearer r))) (\<lambda>token.
     andThen (decode r [(''installation_id'', TString)]) (\<lambda>input.
     andThen (call (RegisterDeviceInstallation (en_now en 1) (en_token en 0) (en_token en 1) token
       (string_field ''installation_id'' input))) (\<lambda>(item, secret).
     send 201 (NewInstallationBody item secret))))"

definition myDeviceInstallations :: "server \<Rightarrow> env \<Rightarrow> http_request \<Rightarrow> answer http" where
  "myDeviceInstallations sv en r =
     andThen (authenticated sv en r False) (\<lambda>session.
     andThen (query (DeviceInstallations (w_identity_id session) (get_value ''before'' (hq_query r))))
       (\<lambda>(items, cursor). send 200 (InstallationsBody items cursor)))"

definition revokeMyDeviceInstallation :: "server \<Rightarrow> env \<Rightarrow> string \<Rightarrow> http_request \<Rightarrow> answer http" where
  "revokeMyDeviceInstallation sv en kid r =
     andThen (authenticated sv en r False) (\<lambda>session.
     andThen (recent en session) (\<lambda>_.
     andThen (call (RevokeDeviceInstallation (en_now en 3) kid (w_identity_id session))) (\<lambda>_.
     give NoContent)))"

definition deviceInstallationStatus :: "string \<Rightarrow> http_request \<Rightarrow> answer http" where
  "deviceInstallationStatus kid r =
     andThen (query (DeviceInstallationBySecret kid (bearer r))) (\<lambda>item.
     send 200 (InstallationBody item))"

definition revokeDeviceInstallation_http :: "env \<Rightarrow> string \<Rightarrow> http_request \<Rightarrow> answer http" where
  "revokeDeviceInstallation_http en kid r =
     andThen (call (RevokeDeviceInstallationWithSecret (en_now en 0) kid (bearer r))) (\<lambda>_. give NoContent)"

section \<open>Administration: identities and credentials\<close>

definition identity_list :: "string \<Rightarrow> db \<Rightarrow> identity_view list" where
  "identity_list after db =
     map view_identity (take 100 (sort_key i_id (filter (\<lambda>i. after < i_id i) (identities db))))"

definition list_identities :: "server \<Rightarrow> env \<Rightarrow> http_request \<Rightarrow> answer http" where
  "list_identities sv en r =
     andThen (authenticated sv en r True) (\<lambda>_.
     andThen (query (\<lambda>db. Inr (identity_list (get_value ''after'' (hq_query r)) db))) (\<lambda>items.
     send 200 (IdentitiesBody items)))"

definition identityStatus :: "server \<Rightarrow> env \<Rightarrow> string \<Rightarrow> http_request \<Rightarrow> answer http" where
  "identityStatus sv en subject r =
     andThen (authenticated sv en r True) (\<lambda>session.
     andThen (decode r [(''status'', TString)]) (\<lambda>input.
     andThen (call (SetIdentityStatus (en_now en 3) (en_ids en) (en_ids' en) (w_identity_id session) subject
       (string_field ''status'' input))) (\<lambda>_.
     give NoContent)))"

definition issueCredential :: "server \<Rightarrow> env \<Rightarrow> http_request \<Rightarrow> answer http" where
  "issueCredential sv en r =
     andThen (authenticated sv en r True) (\<lambda>session.
     andThen (decode r [(''kind'', TString), (''email'', TString)]) (\<lambda>input.
     andThen (call (IssueCredential (en_mail en) (en_now en 3) (en_token en 0) (w_identity_id session)
       (string_field ''kind'' input) (string_field ''email'' input))) (\<lambda>raw.
     send 201 (CredentialBody raw))))"

section \<open>Administration: applications and service accounts\<close>

definition list_applications :: "server \<Rightarrow> env \<Rightarrow> http_request \<Rightarrow> answer http" where
  "list_applications sv en r =
     andThen (authenticated sv en r True) (\<lambda>_.
     andThen (query (\<lambda>db. Inr (map a_config (take 100 (sort_key a_id
       (filter (\<lambda>a. get_value ''after'' (hq_query r) < a_id a) (applications db))))))) (\<lambda>items.
     send 200 (ClientsBody items)))"

definition client_fields :: json_fields where
  "client_fields = [(''id'', TString), (''name'', TString), (''redirect_uris'', TStrings),
     (''post_logout_redirect_uris'', TStrings), (''scopes'', TStrings), (''resources'', TStrings),
     (''grant_types'', TStrings), (''public'', TBool), (''development'', TBool),
     (''backchannel_logout_uri'', TString), (''events_uri'', TString)]"

definition client_from :: "struct_value \<Rightarrow> client" where
  "client_from v = \<lparr>cl_id = string_field ''id'' v, cl_name = string_field ''name'' v,
     cl_redirects = strings_field ''redirect_uris'' v,
     cl_logout_redirects = strings_field ''post_logout_redirect_uris'' v,
     cl_scopes = strings_field ''scopes'' v, cl_resources = strings_field ''resources'' v,
     cl_grants = strings_field ''grant_types'' v, cl_public = bool_field ''public'' v,
     cl_development = bool_field ''development'' v,
     cl_backchannel_url = string_field ''backchannel_logout_uri'' v, cl_events_url = string_field ''events_uri'' v\<rparr>"

definition createApplication :: "server \<Rightarrow> env \<Rightarrow> http_request \<Rightarrow> answer http" where
  "createApplication sv en r =
     andThen (authenticated sv en r True) (\<lambda>session.
     andThen (decode r client_fields) (\<lambda>input.
     let c = client_from input; secret = (if cl_public c then [] else en_token en 0) in
     andThen (call (RegisterClientAs (en_url en) (sv_dev sv) (en_now en 3) (w_identity_id session) c secret)) (\<lambda>_.
     send 201 (NewClientBody c secret))))"

definition updateApplicationCallbacks :: "server \<Rightarrow> env \<Rightarrow> string \<Rightarrow> http_request \<Rightarrow> answer http" where
  "updateApplicationCallbacks sv en c r =
     andThen (authenticated sv en r True) (\<lambda>session.
     andThen (decode r [(''events_uri'', TString), (''backchannel_logout_uri'', TString)]) (\<lambda>input.
     andThen (call (UpdateClientCallbacksAs (en_url en) (en_now en 3) (w_identity_id session) c
       (string_field ''events_uri'' input) (string_field ''backchannel_logout_uri'' input))) (\<lambda>cl.
     send 200 (ClientBody cl))))"

definition updateApplicationCapabilities :: "server \<Rightarrow> env \<Rightarrow> string \<Rightarrow> http_request \<Rightarrow> answer http" where
  "updateApplicationCapabilities sv en c r =
     andThen (authenticated sv en r True) (\<lambda>session.
     andThen (decode r [(''grant_types'', TStrings), (''scopes'', TStrings), (''resources'', TStrings)]) (\<lambda>input.
     andThen (call (UpdateClientCapabilitiesAs (en_now en 3) (w_identity_id session) c
       (strings_field ''grant_types'' input) (strings_field ''scopes'' input)
       (strings_field ''resources'' input))) (\<lambda>cl.
     send 200 (ClientBody cl))))"

text \<open>The grace period of a rotation: ten minutes by default, at most an hour.\<close>

definition grace_seconds :: "http_request \<Rightarrow> int http" where
  "grace_seconds r =
     andThen (decode r [(''grace_seconds'', TIntPtr)]) (\<lambda>input.
     let secs = (case int_pointer ''grace_seconds'' input of None \<Rightarrow> 600 | Some n \<Rightarrow> n) in
     andThen (demand (0 \<le> secs \<and> secs \<le> 3600) ErrForbidden) (\<lambda>_. give secs))"

definition rotateApplicationSecret :: "server \<Rightarrow> env \<Rightarrow> string \<Rightarrow> http_request \<Rightarrow> answer http" where
  "rotateApplicationSecret sv en c r =
     andThen (authenticated sv en r True) (\<lambda>session.
     andThen (grace_seconds r) (\<lambda>secs.
     andThen (call (RotateClientSecretAs (en_now en 3) (en_token en 0) (w_identity_id session) c (seconds secs)))
       (\<lambda>secret. send 200 (SecretBody secret secs))))"

definition rotateServiceAccountSecret :: "server \<Rightarrow> env \<Rightarrow> string \<Rightarrow> http_request \<Rightarrow> answer http" where
  "rotateServiceAccountSecret sv en c r =
     andThen (authenticated sv en r True) (\<lambda>session.
     andThen (grace_seconds r) (\<lambda>secs.
     andThen (call (RotateServiceAccountSecretAs (en_now en 3) (en_token en 0) (w_identity_id session) c
       (seconds secs))) (\<lambda>secret.
     send 200 (SecretBody secret secs))))"

definition list_serviceAccounts :: "server \<Rightarrow> env \<Rightarrow> http_request \<Rightarrow> answer http" where
  "list_serviceAccounts sv en r =
     andThen (authenticated sv en r True) (\<lambda>_.
     andThen (query (\<lambda>db. Inr (ServiceAccounts (get_value ''after'' (hq_query r)) db))) (\<lambda>items.
     send 200 (ServiceAccountsBody items)))"

definition createServiceAccount :: "server \<Rightarrow> env \<Rightarrow> http_request \<Rightarrow> answer http" where
  "createServiceAccount sv en r =
     andThen (authenticated sv en r True) (\<lambda>session.
     andThen (decode r [(''id'', TString), (''name'', TString), (''scopes'', TStrings), (''resources'', TStrings),
       (''development'', TBool)]) (\<lambda>input.
     andThen (call (CreateServiceAccountAs (en_url en) (sv_dev sv) (en_now en 3) (en_token en 0)
       (w_identity_id session) (string_field ''id'' input) (string_field ''name'' input)
       (strings_field ''scopes'' input) (strings_field ''resources'' input)
       (bool_field ''development'' input))) (\<lambda>secret.
     send 201 (NewServiceBody (string_field ''id'' input) secret))))"

definition serviceAccountStatus :: "server \<Rightarrow> env \<Rightarrow> string \<Rightarrow> http_request \<Rightarrow> answer http" where
  "serviceAccountStatus sv en c r =
     andThen (authenticated sv en r True) (\<lambda>session.
     andThen (decode r [(''active'', TBoolPtr)]) (\<lambda>input.
     case bool_pointer ''active'' input of
       None \<Rightarrow> failure ErrForbidden
     | Some active \<Rightarrow>
         andThen (call (SetServiceAccountActiveAs (en_now en 3) (en_token en 0) (w_identity_id session) c active))
           (\<lambda>secret. send 200 (ServiceStatusBody active secret))))"

section \<open>Administration: policies, audit and outbox\<close>

definition list_exchangePolicies :: "server \<Rightarrow> env \<Rightarrow> http_request \<Rightarrow> answer http" where
  "list_exchangePolicies sv en r =
     andThen (authenticated sv en r True) (\<lambda>_.
     andThen (query (\<lambda>db. Inr (ExchangePolicies db))) (\<lambda>items.
     send 200 (OptionsBody items)))"

definition setExchangePolicy :: "server \<Rightarrow> env \<Rightarrow> http_request \<Rightarrow> answer http" where
  "setExchangePolicy sv en r =
     andThen (authenticated sv en r True) (\<lambda>session.
     andThen (decode r exchange_change) (\<lambda>input.
     andThen (call (SetExchangePolicy (en_now en 3) (w_identity_id session)
       (string_field ''caller_client'' input) (string_field ''target_client'' input)
       (string_field ''resource'' input) (string_field ''scope'' input) (bool_field ''active'' input))) (\<lambda>_.
     give NoContent)))"

text \<open>\<open>audit_id n\<close> is the sequence's value for the \<open>n\<close>-th event.\<close>

definition audit_page :: "(nat \<Rightarrow> int) \<Rightarrow> int \<Rightarrow> db \<Rightarrow> audit_view list" where
  "audit_page audit_id before db =
     take 100 (rev (filter (\<lambda>v. before = 0 \<or> av_id v < before)
       (map (\<lambda>(n, e). \<lparr>av_id = audit_id n, av_actor = e_actor e, av_action = e_action e,
          av_target = e_target e, av_created_at = e_created_at e\<rparr>)
        (enumerate 0 (audit_events db)))))"

definition audits :: "server \<Rightarrow> env \<Rightarrow> http_request \<Rightarrow> answer http" where
  "audits sv en r =
     andThen (authenticated sv en r True) (\<lambda>_.
     let raw = get_value ''before'' (hq_query r) in
     case (if raw = [] then Some 0 else parse_int raw) of
       None \<Rightarrow> failure ErrForbidden
     | Some before \<Rightarrow>
         if raw \<noteq> [] \<and> before \<le> 0 then failure ErrForbidden
         else andThen (query (\<lambda>db. Inr (audit_page (en_audit_id en) before db))) (\<lambda>items.
           send 200 (AuditBody items)))"

definition outboxStatus :: "server \<Rightarrow> env \<Rightarrow> http_request \<Rightarrow> answer http" where
  "outboxStatus sv en r =
     andThen (authenticated sv en r True) (\<lambda>_.
     andThen (query (\<lambda>db. Inr (OutboxStatuses (get_value ''before'' (hq_query r))
       (get_value ''state'' (hq_query r) \<noteq> ''all'') db))) (\<lambda>events.
     send 200 (EventsBody events (if length events = 100 then ou_id (last events) else []))))"

definition outboxAttempts :: "server \<Rightarrow> env \<Rightarrow> string \<Rightarrow> http_request \<Rightarrow> answer http" where
  "outboxAttempts sv en eid r =
     andThen (authenticated sv en r True) (\<lambda>_.
     andThen (query (\<lambda>db. Inr (OutboxAttempts eid db))) (\<lambda>attempts.
     send 200 (AttemptsBody attempts)))"

definition retryOutbox :: "server \<Rightarrow> env \<Rightarrow> string \<Rightarrow> http_request \<Rightarrow> answer http" where
  "retryOutbox sv en eid r =
     andThen (authenticated sv en r True) (\<lambda>session.
     andThen (call (RetryDeadEvent (en_now en 3) (w_identity_id session) eid)) (\<lambda>_.
     send 200 QueuedBody))"

end
