(* ===== verification/Routes.thy ===== *)
theory Routes
  imports Pages Accounts_Api
begin

text \<open>
  The routes of \<open>New\<close> (\<open>server.go\<close>) and \<open>accountRoutes\<close> (\<open>accounts.go\<close>), the checks \<open>New\<close> makes before a
  server exists, and the console of \<open>console.go\<close> in front of it. The router is \<open>chi\<close>: a
  pattern matches segment by segment, \<open>{id}\<close> any segment, and a fixed segment before a variable one.
  A request no route takes goes to the OpenID provider mounted at the root, which is a library.
\<close>

section \<open>The routing table\<close>

definition id_segment :: string where "id_segment = ''{id}''"

fun match_segments :: "string list \<Rightarrow> string list \<Rightarrow> string option" where
  "match_segments [] [] = Some []"
| "match_segments (p # ps) (s # ss) =
     (if p = id_segment then map_option (\<lambda>_. s) (match_segments ps ss)
      else if p = s then match_segments ps ss else None)"
| "match_segments _ _ = None"

type_synonym route = "string \<times> string \<times> (string \<Rightarrow> http_request \<Rightarrow> answer http)"

definition route_matches :: "http_request \<Rightarrow> route \<Rightarrow> bool" where
  "route_matches r route = (fst route = hq_method r
     \<and> match_segments (split_on CHR ''/'' (fst (snd route))) (split_on CHR ''/'' (hq_path r)) \<noteq> None)"

definition route_id :: "http_request \<Rightarrow> route \<Rightarrow> string" where
  "route_id r route =
     coalesce (match_segments (split_on CHR ''/'' (fst (snd route))) (split_on CHR ''/'' (hq_path r))) []"

definition server_routes :: "server \<Rightarrow> env \<Rightarrow> route list" where
  "server_routes sv en =
     [(''GET'', ''/health/live'', \<lambda>_ _. health_live),
      (''GET'', ''/health/ready'', \<lambda>_ _. health_ready en),
      (''GET'', ''/login'', \<lambda>_. loginPage sv en),
      (''POST'', ''/login'', \<lambda>_. login sv en),
      (''GET'', ''/device'', \<lambda>_. devicePage sv en),
      (''POST'', ''/device'', \<lambda>_. deviceConfirm sv en),
      (''GET'', ''/api/v1/me'', \<lambda>_. me en),
      (''POST'', ''/api/v1/logout'', \<lambda>_. logout sv en),
      (''POST'', ''/api/v1/link-intents'', \<lambda>_. linkIntent en),
      (''POST'', ''/api/v1/link-intents/{id}/prepare'', prepare en),
      (''POST'', ''/api/v1/link-intents/{id}/activate'', activate en),
      (''GET'', ''/api/v1/account-links/resolve'', \<lambda>_. resolve en),
      (''GET'', ''/api/v1/account-links/{id}'', link_status en),
      (''POST'', ''/api/v1/account-links/{id}/revoke'', revoke en)]"

definition user_routes :: "server \<Rightarrow> env \<Rightarrow> route list" where
  "user_routes sv en =
     [(''POST'', ''/api/v1/me/mfa/enroll'', \<lambda>_. enrollMFA sv en),
      (''POST'', ''/api/v1/me/mfa/confirm'', \<lambda>_. confirmMFA sv en),
      (''POST'', ''/api/v1/me/mfa/recovery-codes'', \<lambda>_. rotateMFARecoveryCodes sv en),
      (''POST'', ''/api/v1/me/reauthenticate'', \<lambda>_. reauthenticate sv en),
      (''POST'', ''/api/v1/me/password'', \<lambda>_. changePassword sv en),
      (''GET'', ''/api/v1/me/links'', \<lambda>_. myLinks sv en),
      (''POST'', ''/api/v1/me/links/{id}/revoke'', myRevoke sv en),
      (''GET'', ''/api/v1/me/device-installations'', \<lambda>_. myDeviceInstallations sv en),
      (''POST'', ''/api/v1/me/device-installations/{id}/revoke'', revokeMyDeviceInstallation sv en),
      (''GET'', ''/api/v1/me/sessions'', \<lambda>_. mySessions sv en),
      (''POST'', ''/api/v1/me/sessions/{id}/revoke'', revokeSession sv en),
      (''POST'', ''/api/v1/me/logout-all'', \<lambda>_. logoutAll sv en),
      (''GET'', ''/api/v1/me/delegations'', \<lambda>_. delegations sv en),
      (''POST'', ''/api/v1/me/delegations'', \<lambda>_. setDelegation sv en)]"

definition admin_routes :: "server \<Rightarrow> env \<Rightarrow> route list" where
  "admin_routes sv en =
     [(''GET'', ''/api/v1/admin/identities'', \<lambda>_. list_identities sv en),
      (''POST'', ''/api/v1/admin/identities/{id}/status'', identityStatus sv en),
      (''POST'', ''/api/v1/admin/credentials'', \<lambda>_. issueCredential sv en),
      (''GET'', ''/api/v1/admin/applications'', \<lambda>_. list_applications sv en),
      (''POST'', ''/api/v1/admin/applications'', \<lambda>_. createApplication sv en),
      (''POST'', ''/api/v1/admin/applications/{id}/callbacks'', updateApplicationCallbacks sv en),
      (''POST'', ''/api/v1/admin/applications/{id}/capabilities'', updateApplicationCapabilities sv en),
      (''GET'', ''/api/v1/admin/exchange-policies'', \<lambda>_. list_exchangePolicies sv en),
      (''POST'', ''/api/v1/admin/exchange-policies'', \<lambda>_. setExchangePolicy sv en),
      (''POST'', ''/api/v1/admin/applications/{id}/rotate-secret'', rotateApplicationSecret sv en),
      (''GET'', ''/api/v1/admin/service-accounts'', \<lambda>_. list_serviceAccounts sv en),
      (''POST'', ''/api/v1/admin/service-accounts'', \<lambda>_. createServiceAccount sv en),
      (''POST'', ''/api/v1/admin/service-accounts/{id}/status'', serviceAccountStatus sv en),
      (''POST'', ''/api/v1/admin/service-accounts/{id}/rotate-secret'', rotateServiceAccountSecret sv en),
      (''GET'', ''/api/v1/admin/audit-events'', \<lambda>_. audits sv en),
      (''GET'', ''/api/v1/admin/outbox'', \<lambda>_. outboxStatus sv en),
      (''GET'', ''/api/v1/admin/outbox/{id}/attempts'', outboxAttempts sv en),
      (''POST'', ''/api/v1/admin/outbox/{id}/retry'', retryOutbox sv en)]"

definition open_routes :: "server \<Rightarrow> env \<Rightarrow> route list" where
  "open_routes sv en =
     [(''POST'', ''/api/v1/register'', \<lambda>_. redeem sv en ''invite''),
      (''POST'', ''/api/v1/recover'', \<lambda>_. redeem sv en ''recovery''),
      (''POST'', ''/api/v1/recover-mfa'', \<lambda>_. redeemMFAReset sv en),
      (''POST'', ''/api/v1/device-installations'', \<lambda>_. registerDeviceInstallation en),
      (''GET'', ''/api/v1/device-installations/{id}'', deviceInstallationStatus),
      (''POST'', ''/api/v1/device-installations/{id}/revoke'', revokeDeviceInstallation_http en)]"

definition routes :: "server \<Rightarrow> env \<Rightarrow> route list" where
  "routes sv en = server_routes sv en @ open_routes sv en @ user_routes sv en @ admin_routes sv en"

text \<open>\<open>None\<close>: the request is the provider's. \<open>request_id\<close> is the value drawn by \<open>boundary\<close>.\<close>

definition serve :: "server \<Rightarrow> env \<Rightarrow> string \<Rightarrow> http_request \<Rightarrow> db \<Rightarrow> (response \<times> db) option" where
  "serve sv en request_id r db =
     map_option (\<lambda>route. boundary request_id (snd (snd route) (route_id r route)) r db)
       (List.find (route_matches r) (routes sv en))"

section \<open>Starting a server\<close>

text \<open>The issuer is an origin, over HTTPS but for an explicit development server on a loopback name.\<close>

definition issuer_ok :: "url_parser \<Rightarrow> string \<Rightarrow> bool \<Rightarrow> bool" where
  "issuer_ok parse issuer dev =
     (case parse issuer of
        None \<Rightarrow> False
      | Some u \<Rightarrow>
          url_host u \<noteq> [] \<and> \<not> url_user u \<and> url_raw_query u = [] \<and> url_fragment u = [] \<and> url_path u = []
          \<and> (url_scheme u = ''https''
             \<or> dev \<and> url_scheme u = ''http'' \<and> loopback (url_hostname u)))"

text \<open>
  \<open>keys\<close> is the encryption key of the key ring, if one is loaded; the result is the server in which
  the library's provider, whose own checks are left out, is mounted.
\<close>

definition New :: "url_parser \<Rightarrow> string option \<Rightarrow> string \<Rightarrow> bool \<Rightarrow> err + server" where
  "New parse keys issuer dev =
     (if \<not> issuer_ok parse issuer dev then Inl (Failure ''invalid issuer'')
      else case keys of
        None \<Rightarrow> Inl (Failure ''keys must be initialized before starting'')
      | Some encryption \<Rightarrow> Inr \<lparr>sv_issuer = issuer, sv_dev = dev, sv_console = False, sv_proxy_secret = [],
          sv_encryption = encryption\<rparr>)"

section \<open>The console\<close>

datatype console_answer =
    ToApi
  | ToConsole
  | MethodNotAllowed
  | NotFound
  | ServeFile string

definition contains :: "string \<Rightarrow> string \<Rightarrow> bool" where
  "contains s t = list_ex (\<lambda>n. take (length t) (drop n s) = t) [0..<Suc (length s)]"

definition trim_prefix :: "string \<Rightarrow> string \<Rightarrow> string" where
  "trim_prefix s p = (if has_prefix s p then drop (length p) s else s)"

definition console_headers :: "(string \<times> string) list" where
  "console_headers =
     [(''Cache-Control'', ''no-store''), (''X-Content-Type-Options'', ''nosniff''), (''Referrer-Policy'', ''no-referrer''),
      (''Content-Security-Policy'', ''default-src '' @ quoted ''self'' @ ''; script-src '' @ quoted ''self''
         @ ''; style-src '' @ quoted ''self'' @ ''; connect-src '' @ quoted ''self'' @ ''; img-src '' @ quoted ''self''
         @ '' data:; frame-ancestors '' @ quoted ''none'' @ ''; base-uri '' @ quoted ''none''
         @ ''; form-action '' @ quoted ''self'')]"

text \<open>What \<open>Console\<close> does with a path: \<open>ServeFile\<close> names the file, relative to the build; the headers
  set before it are \<open>console_headers\<close> below \<open>/console/\<close>.\<close>

definition Console :: "string \<Rightarrow> string \<Rightarrow> console_answer" where
  "Console method path =
     (if path = ''/console'' then ToConsole
      else if \<not> has_prefix path ''/console/'' then ToApi
      else if method \<noteq> ''GET'' \<and> method \<noteq> ''HEAD'' then MethodNotAllowed
      else if path \<noteq> ''/console/'' \<and> \<not> has_prefix path ''/console/assets/'' then NotFound
      else let asset = trim_prefix path ''/console/assets/'' in
        if contains path ''..'' \<or> path \<noteq> ''/console/'' \<and> (asset = [] \<or> contains asset ''/'' \<or> has_prefix asset ''.'')
        then NotFound
        else ServeFile (trim_prefix path ''/console/''))"

end
