(* ===== verification/Http_Steps.thy ===== *)
theory Http_Steps
  imports System Routes
begin

text \<open>
  How the handlers act on the state. The locale \<open>handler_contract\<close> is the contract between a handler and
  a preorder on its states that the headers do not matter for: the combinators of \<open>Http\<close> keep it, so a
  handler does whenever its calls of the store and its cookies do. A \<open>database_relation\<close> looks at the
  database alone. Its interpretations are the identity (a handler only reads), the change of rate limits
  alone, and a run of operations that draws no key; \<open>runs\<close> adds the one drawing call a handler may make.
\<close>

section \<open>The contract of a handler\<close>

text \<open>\<open>obeys R m\<close>: whatever the handler answers, it takes the state along \<open>R\<close>.\<close>

definition obeys :: "(hstate \<Rightarrow> hstate \<Rightarrow> bool) \<Rightarrow> 'a http \<Rightarrow> bool" where
  "obeys R m = (\<forall>st. R st (snd (m st)))"

locale handler_contract =
  fixes R :: "hstate \<Rightarrow> hstate \<Rightarrow> bool"
  assumes R_refl: "R a a"
    and R_trans: "R a b \<Longrightarrow> R b c \<Longrightarrow> R a c"
    and R_headers: "R a (a\<lparr>hs_headers := h\<rparr>)"
begin

lemma obeys_headers:
  assumes "\<And>st. \<exists>h. snd (m st) = st\<lparr>hs_headers := h\<rparr>"
  shows "obeys R m"
  using assms R_headers unfolding obeys_def by metis

lemma obeys_andThen:
  assumes "obeys R m" "\<And>a. obeys R (f a)"
  shows "obeys R (andThen m f)"
  unfolding obeys_def
proof
  fix st
  obtain x st1 where m: "m st = (x, st1)" by (cases "m st")
  then have "R st st1" using assms(1) unfolding obeys_def by (metis snd_conv)
  moreover have "R st1 (snd (f a st1))" for a
    using assms(2) by (simp add: obeys_def)
  ultimately show "R st (snd (andThen m f st))"
    using m by (cases x) (auto simp: andThen_def intro: R_trans)
qed

text \<open>A handler that leaves the relation got past its first part, which kept it.\<close>

lemma broken_andThen:
  assumes "\<not> R st (snd (andThen m f st))" "obeys R m"
  obtains a st1 where "m st = (Inr a, st1)" "R st st1" "\<not> R st1 (snd (f a st1))"
proof -
  obtain x st1 where m: "m st = (x, st1)" by (cases "m st")
  then have R: "R st st1" using assms(2) unfolding obeys_def by (metis snd_conv)
  with assms(1) m obtain a where "x = Inr a" by (cases x) (auto simp: andThen_def)
  with that m R assms(1) R_trans show thesis by (auto simp: andThen_def)
qed

lemma obeys_still: "obeys R (give a)" "obeys R (stop_with ans)"
  by (simp_all add: obeys_def http_simps R_refl)

lemma obeys_set_header: "obeys R (set_header n v)"
  by (rule obeys_headers) (auto simp: http_simps)

lemma obeys_as: "obeys R as_json" "obeys R as_html"
  by (simp_all add: as_json_def as_html_def obeys_set_header)

lemma obeys_failure: "obeys R (failure e)"
  by (rule obeys_headers) (auto simp: http_simps)

lemma obeys_send: "obeys R (send s b)"
  unfolding send_def by (intro obeys_andThen obeys_as obeys_still)

lemma obeys_demand: "obeys R (demand P e)"
  by (simp add: demand_def obeys_still obeys_failure)

lemma obeys_setCookie:
  assumes "\<And>st. R st (snd (setCookie sv n v k st))"
  shows "obeys R (setCookie sv n v k)"
  using assms by (simp add: obeys_def)

lemma obeys_clear:
  assumes "\<And>n. n \<in> set names \<Longrightarrow> obeys R (setCookie sv n [] (-1))"
  shows "obeys R (clear_cookies sv names)"
  using assms by (induction names) (auto intro: obeys_still obeys_andThen)

lemma obeys_call:
  assumes "\<And>st :: hstate. R st (st\<lparr>hs_db := snd (f (hs_db st))\<rparr>)"
  shows "obeys R (call f)"
  unfolding obeys_def
proof
  fix st :: hstate
  obtain x db where f: "f (hs_db st) = (x, db)" by (cases "f (hs_db st)")
  then have "R st (st\<lparr>hs_db := db\<rparr>)" using assms [of st] by simp
  then show "R st (snd (call f st))"
    using f obeys_failure [unfolded obeys_def, THEN spec]
    by (cases x) (auto simp: call_def intro: R_trans)
qed

lemma obeys_query: "obeys R (query f)"
  unfolding query_def by (rule obeys_call) (simp add: R_refl)

lemma obeys_query_or: "obeys R (query_or e f)"
  unfolding query_or_def by (rule obeys_query)

lemma obeys_cases:
  shows "(P \<Longrightarrow> obeys R a) \<Longrightarrow> (\<not> P \<Longrightarrow> obeys R b) \<Longrightarrow> obeys R (if P then a else b)"
    and "obeys R a \<Longrightarrow> (\<And>x. obeys R (f x)) \<Longrightarrow> obeys R (case y of None \<Rightarrow> a | Some x \<Rightarrow> f x)"
    and "(\<And>x y. obeys R (g x y)) \<Longrightarrow> obeys R (case p of (x, y) \<Rightarrow> g x y)"
    and "obeys R (h z) \<Longrightarrow> obeys R (Let z h)"
  by (simp_all split: option.split prod.split)

lemmas obeys_basics = obeys_andThen obeys_still obeys_set_header obeys_as obeys_failure obeys_send obeys_demand
  obeys_query obeys_query_or obeys_cases

lemma obeys_decode: "obeys R (decode r shape)"
  unfolding decode_def by (intro obeys_basics)

lemma obeys_client_of: "obeys R (client_of en r)"
  unfolding client_of_def by (intro obeys_basics)

lemma obeys_authenticated: "obeys R (authenticated sv en r admin)"
  unfolding authenticated_def admin_check_def Let_def by (intro obeys_basics)

lemma obeys_recent: "obeys R (recent en session)"
  unfolding recent_def by (rule obeys_demand)

lemma obeys_grace: "obeys R (grace_seconds r)"
  unfolding grace_seconds_def Let_def by (intro obeys_basics obeys_decode)

lemmas obeys_intros = obeys_basics obeys_decode obeys_client_of obeys_authenticated obeys_recent obeys_grace

end

section \<open>The contract on the database\<close>

abbreviation relates :: "(db \<Rightarrow> db \<Rightarrow> bool) \<Rightarrow> 'a http \<Rightarrow> bool" where
  "relates Q \<equiv> obeys (\<lambda>a b. Q (hs_db a) (hs_db b))"

locale database_relation =
  fixes Q :: "db \<Rightarrow> db \<Rightarrow> bool"
  assumes Q_refl: "Q a a"
    and Q_trans: "Q a b \<Longrightarrow> Q b c \<Longrightarrow> Q a c"

sublocale database_relation \<subseteq> handler_contract "\<lambda>a b. Q (hs_db a) (hs_db b)"
  by unfold_locales (auto intro: Q_refl Q_trans)

context database_relation begin

lemma relates_call:
  assumes "\<And>db. Q db (snd (f db))"
  shows "relates Q (call f)"
  by (rule obeys_call) (simp add: assms)

lemma relates_setCookie: "relates Q (setCookie sv n v k)"
  by (rule obeys_setCookie) (simp add: http_simps Q_refl)

lemma relates_clear: "relates Q (clear_cookies sv names)"
  by (rule obeys_clear) (rule relates_setCookie)

lemmas relates_intros = obeys_intros relates_call relates_setCookie relates_clear

end

section \<open>Handlers as runs of operations\<close>

definition quiet_run :: "db \<Rightarrow> db \<Rightarrow> bool" where
  "quiet_run a b = (\<forall>D. run D a D b)"

lemma run_trans: "run D' b D'' c \<Longrightarrow> run D a D' b \<Longrightarrow> run D a D'' c"
  by (induction rule: run.induct) (auto intro: run.further)

lemma quiet_run_operation: "operation none a b \<Longrightarrow> quiet_run a b"
  unfolding quiet_run_def by (blast intro: run.further run.stop step_quiet)

interpretation unchanged: database_relation "(=)"
  by unfold_locales simp_all

definition rates_step :: "db \<Rightarrow> db \<Rightarrow> bool" where
  "rates_step a b = (b = a\<lparr>rate_limits := rate_limits b\<rparr>)"

interpretation rates_only: database_relation rates_step
proof
  fix a b c assume "rates_step a b" "rates_step b c"
  then have "c = (a\<lparr>rate_limits := rate_limits b\<rparr>)\<lparr>rate_limits := rate_limits c\<rparr>" unfolding rates_step_def by metis
  then show "rates_step a c" by (simp add: rates_step_def)
qed (simp add: rates_step_def)

interpretation quiet: database_relation quiet_run
  by unfold_locales (auto simp: quiet_run_def intro: run.stop run_trans)

text \<open>A handler that draws keys within \<open>E\<close> is a run from wherever these are fresh, and draws no others.\<close>

definition runs :: "drawn \<Rightarrow> 'a http \<Rightarrow> bool" where
  "runs E m = (\<forall>D st. (\<forall>t. E t \<inter> D t = {}) \<longrightarrow> (\<exists>D'. (\<forall>t. D' t \<subseteq> D t \<union> E t) \<and> run D (hs_db st) D' (hs_db (snd (m st)))))"

lemma runs_quiet: "relates quiet_run m \<Longrightarrow> runs E m"
  unfolding runs_def obeys_def quiet_run_def by blast

lemma runs_draw:
  assumes "\<And>db. operation X db (snd (f db))" "\<And>t. X t \<subseteq> E t" "\<And>a. relates quiet_run (g a)"
  shows "runs E (andThen (call f) g)"
  unfolding runs_def
proof (intro allI impI)
  fix D :: drawn and st :: hstate
  assume "\<forall>t. E t \<inter> D t = {}"
  then have "X t \<inter> D t = {}" for t using assms(2) by blast
  then have op: "run D (hs_db st) (\<lambda>t. D t \<union> X t) (snd (f (hs_db st)))"
    by (intro run.further [OF run.stop] step.intros assms(1)) simp
  obtain x db where x: "f (hs_db st) = (x, db)" by (cases "f (hs_db st)")
  have "quiet_run (hs_db st1) (hs_db (snd (g a st1)))" for a st1 using assms(3) unfolding obeys_def by blast
  from this [of "st\<lparr>hs_db := db\<rparr>"] have "run D' db D' (hs_db (snd (g a (st\<lparr>hs_db := db\<rparr>))))" for a D'
    by (simp add: quiet_run_def)
  then have rest: "run (\<lambda>t. D t \<union> X t) db (\<lambda>t. D t \<union> X t) (hs_db (snd (andThen (call f) g st)))"
    using x by (cases x) (auto simp: andThen_def call_def failure_def http_simps run.stop)
  have "run D (hs_db st) (\<lambda>t. D t \<union> X t) (hs_db (snd (andThen (call f) g st)))"
    by (rule run_trans [OF rest]) (use op x in simp)
  then show "\<exists>D'. (\<forall>t. D' t \<subseteq> D t \<union> E t) \<and> run D (hs_db st) D' (hs_db (snd (andThen (call f) g st)))"
    using assms(2) by (intro exI [of _ "\<lambda>t. D t \<union> X t"]) blast
qed

lemma runs_first:
  assumes "relates quiet_run m" "\<And>a. runs E (g a)"
  shows "runs E (andThen m g)"
  unfolding runs_def
proof (intro allI impI)
  fix D :: drawn and st :: hstate
  assume fresh: "\<forall>t. E t \<inter> D t = {}"
  obtain x st1 where m: "m st = (x, st1)" by (cases "m st")
  then have first: "run D (hs_db st) D (hs_db st1)" using assms(1) unfolding obeys_def quiet_run_def by (metis snd_conv)
  show "\<exists>D'. (\<forall>t. D' t \<subseteq> D t \<union> E t) \<and> run D (hs_db st) D' (hs_db (snd (andThen m g st)))"
  proof (cases x)
    case (Inl ans)
    then show ?thesis using m first by (intro exI [of _ D]) (auto simp: andThen_def)
  next
    case (Inr a)
    obtain D' where "\<forall>t. D' t \<subseteq> D t \<union> E t" "run D (hs_db st1) D' (hs_db (snd (g a st1)))"
      using assms(2) [of a, unfolded runs_def, THEN spec, THEN spec, THEN mp, OF fresh] by blast
    with first show ?thesis using m Inr by (intro exI [of _ D']) (auto simp: andThen_def intro: run_trans)
  qed
qed


lemma quiet_allow:
  "quiet_run db (snd (case Allow now k limit window db of (allowed, db) \<Rightarrow> (f allowed, db)))"
  using quiet_run_operation [OF operation.allow] by (simp add: split_beta)

lemma quiet_renew: "quiet_run db (snd (Inr (), renew_session now sid db))"
  using quiet_run_operation [OF operation.renew_session] by simp

lemmas quiet_operations = quiet_allow quiet_renew
  operation.authenticate [THEN quiet_run_operation] operation.verify_mfa [THEN quiet_run_operation]
  operation.new_session [THEN quiet_run_operation] operation.mark_mfa [THEN quiet_run_operation]
  operation.complete_authorization [THEN quiet_run_operation] operation.create_intent [THEN quiet_run_operation]
  operation.prepare_link [THEN quiet_run_operation] operation.activate_link [THEN quiet_run_operation]
  operation.confirm_device [THEN quiet_run_operation] operation.begin_mfa [THEN quiet_run_operation]
  operation.set_consent [THEN quiet_run_operation] operation.set_policy [THEN quiet_run_operation]
  operation.register_installation [THEN quiet_run_operation] operation.revoke_installation [THEN quiet_run_operation]
  operation.revoke_installation_secret [THEN quiet_run_operation] operation.issue_credential [THEN quiet_run_operation]
  operation.register_client [THEN quiet_run_operation] operation.update_callbacks [THEN quiet_run_operation]
  operation.update_capabilities [THEN quiet_run_operation] operation.rotate_secret [THEN quiet_run_operation]
  operation.rotate_service [THEN quiet_run_operation] operation.create_service [THEN quiet_run_operation]
  operation.set_service [THEN quiet_run_operation] operation.retry_event [THEN quiet_run_operation]

text \<open>The keys a request draws for rows of the tables that lose rows.\<close>

definition request_draws :: "env \<Rightarrow> drawn" where
  "request_draws en t = (if t = T_outbox then insert (en_token en 0) (range (en_ids en) \<union> range (en_ids' en))
     else if t = T_recovery then Hash ` set (en_codes en) else {})"

lemma draws_within:
  "draws T_outbox (range (en_ids en)) t \<subseteq> request_draws en t"
  "draws T_outbox (range (en_ids en) \<union> range (en_ids' en)) t \<subseteq> request_draws en t"
  "draws T_outbox {en_token en 0} t \<subseteq> request_draws en t"
  "draws T_recovery (Hash ` set (en_codes en)) t \<subseteq> request_draws en t"
  by (auto simp: request_draws_def)

lemmas drawing_operations = operation.logout_session operation.logout_all operation.revoke_link operation.confirm_mfa
  operation.rotate_codes operation.change_password operation.redeem_mfa_reset operation.redeem_credential
  operation.set_status

lemma quiet_pages:
  "relates quiet_run health_live" "relates quiet_run (health_ready en)" "relates quiet_run (loginPage sv en r)"
  "relates quiet_run (password_login sv en r form)" "relates quiet_run (approve_login en r rid)"
  "relates quiet_run (devicePage sv en r)" "relates quiet_run (me en r)"
  by (unfold health_live_def health_ready_def loginPage_def password_login_def signed_in_def Let_def approve_login_def devicePage_def me_def)
    (intro quiet.relates_intros quiet_operations)+


lemma draw_unit:
  assumes "\<And>a. relates quiet_run (g a)"
  shows "runs (request_draws en) (andThen (call (LogoutSession now (en_ids en) subject sid)) g)"
    "runs (request_draws en) (andThen (call (LogoutAll now (en_ids en) subject)) g)"
    "runs (request_draws en) (andThen (call (ChangePassword kdf unseal totp now wall slt (en_ids en) subject sid cur new code pr)) g)"
    "runs (request_draws en) (andThen (call (RedeemMFAReset kdf now (en_ids en) raw pw pr)) g)"
    "runs (request_draws en) (andThen (call (SetIdentityStatus now (en_ids en) (en_ids' en) actor subject status)) g)"
  by (rule runs_draw, rule operation.intros, rule draws_within, rule assms)+

lemma draw_link:
  assumes "\<And>a. relates quiet_run (g a)"
  shows "runs (request_draws en) (andThen (call (RevokeLink now (en_token en 0) c lid v)) g)"
  by (rule runs_draw, rule operation.intros, rule draws_within, rule assms)

lemma draw_codes:
  assumes "\<And>a. relates quiet_run (g a)"
  shows "runs (request_draws en) (andThen (call (ConfirmMFA unseal totp now wall (en_codes en) subject sid code)) g)"
    "runs (request_draws en) (andThen (call (RotateMFARecoveryCodes now (en_codes en) subject sid)) g)"
  by (rule runs_draw, rule operation.intros, rule draws_within, rule assms)+

lemma draw_user:
  assumes "\<And>a. relates quiet_run (g a)"
  shows "runs (request_draws en) (andThen (call (RedeemCredential kdf now slt new_id (en_ids en) kind raw name pw)) g)"
  by (rule runs_draw, rule operation.intros, rule draws_within, rule assms)

lemmas draw_rules = draw_unit draw_link draw_codes draw_user

lemma runs_cases:
  shows "runs E a \<Longrightarrow> (\<And>x. runs E (f x)) \<Longrightarrow> runs E (case y of None \<Rightarrow> a | Some x \<Rightarrow> f x)"
    and "runs E a \<Longrightarrow> runs E b \<Longrightarrow> runs E (if P then a else b)" and "runs E (f x) \<Longrightarrow> runs E (Let x f)"
  by (simp_all split: option.split)

lemma quiet_limit: "relates quiet_run (redeem_limit sv en r)"
  unfolding redeem_limit_def by (intro quiet.relates_intros quiet_operations)

lemmas drawing_handlers = logout_def revoke_def login_def deviceConfirm_def confirmMFA_def rotateMFARecoveryCodes_def changePassword_def
  redeemMFAReset_def redeem_def myRevoke_def revokeSession_def logoutAll_def identityStatus_def

lemma drawing_handlers_run:
  "runs (request_draws en) (logout sv en r)" "runs (request_draws en) (revoke en lid r)"
  "runs (request_draws en) (confirmMFA sv en r)" "runs (request_draws en) (rotateMFARecoveryCodes sv en r)"
  "runs (request_draws en) (changePassword sv en r)" "runs (request_draws en) (redeemMFAReset sv en r)"
  "runs (request_draws en) (redeem sv en kind r)" "runs (request_draws en) (myRevoke sv en lid r)"
  "runs (request_draws en) (revokeSession sv en target r)" "runs (request_draws en) (logoutAll sv en r)"
  "runs (request_draws en) (identityStatus sv en subject r)"
  unfolding drawing_handlers Let_def
  by (rule draw_rules runs_first runs_cases runs_quiet [OF quiet.obeys_send] quiet_limit | intro quiet.relates_intros quiet_limit)+


lemma quiet_posts:
  "relates quiet_run (linkIntent en r)" "relates quiet_run (prepare en lid r)" "relates quiet_run (activate en lid r)"
  "relates quiet_run (enrollMFA sv en r)" "relates quiet_run (reauthenticate sv en r)"
  "relates quiet_run (setDelegation sv en r)" "relates quiet_run (registerDeviceInstallation en r)"
  "relates quiet_run (revokeMyDeviceInstallation sv en lid r)" "relates quiet_run (revokeDeviceInstallation_http en lid r)"
  "relates quiet_run (issueCredential sv en r)" "relates quiet_run (createApplication sv en r)"
  "relates quiet_run (updateApplicationCallbacks sv en lid r)" "relates quiet_run (updateApplicationCapabilities sv en lid r)"
  "relates quiet_run (rotateApplicationSecret sv en lid r)" "relates quiet_run (rotateServiceAccountSecret sv en lid r)"
  "relates quiet_run (createServiceAccount sv en r)" "relates quiet_run (serviceAccountStatus sv en lid r)"
  "relates quiet_run (setExchangePolicy sv en r)" "relates quiet_run (retryOutbox sv en lid r)"
  "relates quiet_run (login sv en r)" "relates quiet_run (deviceConfirm sv en r)"
  unfolding linkIntent_def prepare_def activate_def enrollMFA_def reauthenticate_def setDelegation_def
    registerDeviceInstallation_def revokeMyDeviceInstallation_def revokeDeviceInstallation_http_def issueCredential_def
    createApplication_def updateApplicationCallbacks_def updateApplicationCapabilities_def rotateApplicationSecret_def
    rotateServiceAccountSecret_def createServiceAccount_def serviceAccountStatus_def setExchangePolicy_def retryOutbox_def
    login_def deviceConfirm_def Let_def
  by (intro quiet.relates_intros quiet_operations quiet_pages)+

lemmas reading_handlers = health_live_def health_ready_def loginPage_def me_def link_status_def resolve_def myLinks_def
  mySessions_def delegations_def myDeviceInstallations_def deviceInstallationStatus_def list_identities_def
  list_applications_def list_serviceAccounts_def list_exchangePolicies_def audits_def outboxStatus_def outboxAttempts_def

text \<open>The handlers of the GET routes only query, but for the page that confirms a device.\<close>

lemma reads:
  "relates (=) health_live" "relates (=) (health_ready en)" "relates (=) (loginPage sv en r)" "relates (=) (me en r)"
  "relates (=) (link_status en lid r)" "relates (=) (resolve en r)" "relates (=) (myLinks sv en r)"
  "relates (=) (mySessions sv en r)" "relates (=) (delegations sv en r)" "relates (=) (myDeviceInstallations sv en r)"
  "relates (=) (deviceInstallationStatus lid r)" "relates (=) (list_identities sv en r)"
  "relates (=) (list_applications sv en r)" "relates (=) (list_serviceAccounts sv en r)"
  "relates (=) (list_exchangePolicies sv en r)" "relates (=) (audits sv en r)" "relates (=) (outboxStatus sv en r)"
  "relates (=) (outboxAttempts sv en lid r)"
  unfolding reading_handlers Let_def by (intro unchanged.relates_intros)+

lemma relates_mono: "relates (=) m \<Longrightarrow> (\<And>a. R a a) \<Longrightarrow> relates R m"
  by (simp add: obeys_def)

lemma rates_allow: "rates_step db (snd (case Allow now k limit window db of (allowed, db) \<Rightarrow> (f allowed, db)))"
  using Allow_eq [of now k limit window db] by (auto simp: split_beta rates_step_def)

lemma devicePage_rates: "relates rates_step (devicePage sv en r)"
  unfolding devicePage_def Let_def by (intro rates_only.relates_intros rates_allow)

lemmas reads_run = reads [THEN relates_mono [where R = quiet_run], OF quiet.Q_refl, THEN runs_quiet]
lemmas reads_rates = reads [THEN relates_mono [where R = rates_step], OF rates_only.Q_refl] devicePage_rates

lemma routes_run: "route \<in> set (routes sv en) \<Longrightarrow> runs (request_draws en) (snd (snd route) lid r)"
  unfolding routes_def set_append Un_iff
  by (elim disjE) (auto simp: server_routes_def open_routes_def user_routes_def admin_routes_def
    reads_run drawing_handlers_run quiet_posts [THEN runs_quiet] quiet_pages [THEN runs_quiet])

lemma routes_get:
  "route \<in> set (routes sv en) \<Longrightarrow> fst route = ''GET'' \<Longrightarrow>
   relates rates_step (snd (snd route) lid r)"
  unfolding routes_def set_append Un_iff
  by (elim disjE) (auto simp: server_routes_def open_routes_def user_routes_def admin_routes_def reads_rates)

lemma serve_route:
  assumes "serve sv en rid r db = Some (res, db')"
  obtains route where "route \<in> set (routes sv en)" "route_matches r route"
    "boundary rid (snd (snd route) (route_id r route)) r db = (res, db')"
  using assms unfolding serve_def find_Some_iff map_option_eq_Some by (metis nth_mem)

lemma boundary_db:
  "snd (boundary rid h r db) = hs_db (snd (h (cap_body r) \<lparr>hs_headers = boundary_headers rid, hs_cookies = [], hs_db = db\<rparr>))"
  by (simp add: boundary_def split: prod.splits)

lemma relates_boundary:
  assumes "relates R (h (cap_body r))" "boundary rid h r db = (res, db')"
  shows "R db db'"
  using assms(1) [unfolded obeys_def, THEN spec, of "\<lparr>hs_headers = boundary_headers rid, hs_cookies = [], hs_db = db\<rparr>"]
    boundary_db [of rid h r db] assms(2) by simp

lemma runs_boundary:
  assumes "runs E (h (cap_body r))" "boundary rid h r db = (res, db')" "\<forall>t. E t \<inter> D t = {}"
  shows "\<exists>D'. (\<forall>t. D' t \<subseteq> D t \<union> E t) \<and> run D db D' db'"
  using assms(1) [unfolded runs_def, THEN spec, THEN spec, THEN mp, OF assms(3), of "\<lparr>hs_headers = boundary_headers rid, hs_cookies = [], hs_db = db\<rparr>"]
    boundary_db [of rid h r db] assms(2) by simp

end
