(* ===== verification/Http_Scenario.thy ===== *)
theory Http_Scenario
  imports Scenario Cutoff Http_Steps
begin

text \<open>
  Requests of Ann's browser and of the shop, on the databases of \<open>Scenario\<close>: the witnesses of
  \<open>Http_Guarantees\<close> serve them.
\<close>

section \<open>The server and its environment\<close>

definition api_server :: server where
  "api_server = \<lparr>sv_issuer = ''https://cas'', sv_dev = False, sv_console = True, sv_proxy_secret = [],
     sv_encryption = replicate 32 CHR ''e''\<rparr>"

definition api_env :: env where
  "api_env = \<lparr>en_now = (\<lambda>_. 0), en_wall = (\<lambda>_. 0), en_token = (\<lambda>k. CHR ''T'' # replicate k CHR ''t''),
     en_ids = (\<lambda>k. CHR ''y'' # replicate k CHR ''y''), en_ids' = (\<lambda>k. CHR ''z'' # replicate k CHR ''z''),
     en_codes = [], en_salt = salt, en_mfa_key = (''seed'', ''url''), en_kdf = kdf_example, en_gcm = gcm_example,
     en_nonce = replicate 12 CHR ''n'',
     en_totp = totp_example, en_mail = Some, en_url = https_only, en_verify = (\<lambda>_. None), en_address = (\<lambda>_. None),
     en_callback = (\<lambda>rid. ''/oauth/authorize/callback?id='' @ rid), en_audit_id = (\<lambda>n. int n + 1), en_healthy = True\<rparr>"

lemma api_env_simps [simp]:
  "sv_issuer api_server = ''https://cas''" "sv_proxy_secret api_server = []" "sv_console api_server = True"
  "en_now api_env k = 0" "en_wall api_env k = 0" "en_token api_env k = CHR ''T'' # replicate k CHR ''t''"
  "en_kdf api_env = kdf_example" "en_totp api_env = totp_example" "en_url api_env = https_only"
  by (simp_all add: api_server_def api_env_def)

definition plain_request :: http_request where
  "plain_request = \<lparr>hq_method = ''GET'', hq_path = ''/'', hq_query = [], hq_headers = [(''Origin'', ''https://cas'')],
     hq_cookies = [(''fastcas_session'', ''abc'')], hq_basic = None, hq_remote = ''10.0.0.1:4000'', hq_length = 0,
     hq_form_encoded = False, hq_form = Some [], hq_json = None\<rparr>"

definition sessions_request :: http_request where
  "sessions_request = plain_request\<lparr>hq_path := ''/api/v1/me/sessions''\<rparr>"

definition logout_request :: http_request where
  "logout_request = plain_request\<lparr>hq_method := ''POST'', hq_path := ''/api/v1/me/logout-all'',
     hq_headers := [(''Origin'', ''https://cas''), (''X-CSRF-Token'', ''csrf'')]\<rparr>"

definition page_request :: "string \<Rightarrow> (string \<times> string) list \<Rightarrow> (string \<times> string) list \<Rightarrow> http_request" where
  "page_request path cookies form = plain_request\<lparr>hq_method := ''POST'', hq_path := path,
     hq_cookies := cookies @ hq_cookies plain_request, hq_form_encoded := True, hq_form := Some form\<rparr>"

definition login_request :: http_request where
  "login_request = page_request ''/login'' [(''fastcas_form'', ''f'')]
     [(''csrf'', ''f''), (''action'', ''login''), (''email'', ''a@x.y''), (''password'', ''correct horse'')]"

definition approve_request :: http_request where
  "approve_request = page_request ''/login'' [(''fastcas_form'', ''f'')]
     [(''csrf'', ''f''), (''action'', ''approve''), (''auth_request_id'', ''r1'')]"

definition confirm_request :: http_request where
  "confirm_request = page_request ''/device'' [(''fastcas_device_form'', deviceFormProof api_server ''f'' ''WXZZ-BCDF'')]
     [(''csrf'', ''f''), (''user_code'', ''WXZZ-BCDF''), (''decision'', ''approve'')]"

definition resolve_request :: http_request where
  "resolve_request = plain_request\<lparr>hq_path := ''/api/v1/account-links/resolve'', hq_query := [(''subject'', ''ann'')],
     hq_basic := Some (''shop'', shop_secret)\<rparr>"

lemmas request_defs = plain_request_def sessions_request_def logout_request_def page_request_def login_request_def
  approve_request_def confirm_request_def resolve_request_def

section \<open>The routes they take\<close>

lemmas serving = serve_def routes_def server_routes_def open_routes_def user_routes_def admin_routes_def route_matches_def
  route_id_def id_segment_def request_defs

lemma served:
  "serve sv en rid sessions_request db = Some (boundary rid (mySessions sv en) sessions_request db)"
  "serve sv en rid logout_request db = Some (boundary rid (logoutAll sv en) logout_request db)"
  "serve sv en rid login_request db = Some (boundary rid (login sv en) login_request db)"
  "serve sv en rid approve_request db = Some (boundary rid (login sv en) approve_request db)"
  "serve sv en rid confirm_request db = Some (boundary rid (deviceConfirm sv en) confirm_request db)"
  "serve sv en rid resolve_request db = Some (boundary rid (resolve en) resolve_request db)"
  by (simp_all add: serving)

end
