(* ===== verification/Http_Guarantees.thy ===== *)
theory Http_Guarantees
  imports Http_Scenario
begin

text \<open>
  Guarantees of the HTTP API of \<open>internal/httpapi\<close>, over every route of \<open>New\<close> and \<open>accountRoutes\<close>.
\<close>

section \<open>Requests and the database\<close>

lemma cap_body_fields [simp]:
  "hq_method (cap_body r) = hq_method r" "hq_headers (cap_body r) = hq_headers r" "hq_cookies (cap_body r) = hq_cookies r"
  "hq_basic (cap_body r) = hq_basic r" "hq_path (cap_body r) = hq_path r" "hq_query (cap_body r) = hq_query r"
  "hq_remote (cap_body r) = hq_remote r"
  by (simp_all add: cap_body_def)

lemma cap_body_reads [simp]:
  "cookie (cap_body r) = cookie r" "header (cap_body r) = header r" "originOK sv (cap_body r) = originOK sv r"
  by (simp_all add: cookie_def header_def originOK_def fun_eq_iff)

lemma cap_body_peer [simp]: "peer sv en (cap_body r) = peer sv en r"
  unfolding peer_def cap_body_reads cap_body_fields ..

lemma cap_body_form: "hq_form (cap_body r) = Some form \<Longrightarrow> hq_form r = Some form"
  by (auto simp: cap_body_def split: if_splits)

text \<open>A request the HTTP API serves is a sequence of operations of the service: whatever it sends, the database it leaves is
reached from the one it found, if the keys it draws are fresh. So all that holds of reachable databases holds of the API.\<close>

theorem served_requests_are_runs:
  assumes "serve sv en rid r db = Some (res, db')" "reach D db" "\<forall>t. request_draws en t \<inter> D t = {}"
  shows "\<exists>D'. (\<forall>t. D' t \<subseteq> D t \<union> request_draws en t) \<and> run D db D' db' \<and> reach D' db'"
proof -
  obtain route where route: "route \<in> set (routes sv en)" "boundary rid (snd (snd route) (route_id r route)) r db = (res, db')"
    using assms(1) by (rule serve_route)
  obtain D' where D': "\<forall>t. D' t \<subseteq> D t \<union> request_draws en t" "run D db D' db'"
    using runs_boundary [OF routes_run [OF route(1)] route(2) assms(3)] by blast
  have "reach D' db'" using run_trans [OF D'(2)] assms(2) by (simp add: reach_def)
  with D' show ?thesis by (intro exI [of _ D'] conjI)
qed


section \<open>The account API\<close>

lemma authenticated_Inr:
  assumes "authenticated sv en r admin st = (Inr session, st')"
  shows "st' = st" "Session (en_now en 0) (cookie r ''fastcas_session'') (hs_db st) = Inr session"
    "hq_method r \<noteq> ''GET'' \<Longrightarrow> originOK sv r
       \<and> CheckCSRF (en_now en 1) (cookie r ''fastcas_session'') (header r ''X-CSRF-Token'') (hs_db st) = Inr ()"
    "admin \<Longrightarrow> RequireAdmin (en_now en 2) session (hs_db st) = Inr ()"
  using assms by (auto simp: authenticated_def Let_def http_Inr admin_check_def split: if_splits)

lemma answer_statuses:
  "status_of (failure_answer ErrUnauthorized rid) = 401" "status_of (failure_answer ErrForbidden rid) = 403"
  by (simp_all add: failure_answer_def)

lemma Session_Inl: "Session now token db = Inl e \<Longrightarrow> e = ErrUnauthorized"
  by (auto simp: Session_def classify.simps split: option.splits)

lemma authenticated_Inl:
  assumes "authenticated sv en r admin st = (Inl ans, st')"
  shows "hs_db st' = hs_db st \<and> status_of ans \<in> {401, 403}"
  using assms
  by (auto simp: authenticated_def Let_def http_simps admin_check_def answer_statuses
      split: if_splits prod.splits sum.splits dest!: Session_Inl)

definition guarded :: "server \<Rightarrow> env \<Rightarrow> bool \<Rightarrow> (http_request \<Rightarrow> answer http) \<Rightarrow> bool" where
  "guarded sv en admin h = (\<forall>r. \<exists>f. h r = andThen (authenticated sv en r admin) f)"

lemmas user_handlers = enrollMFA_def confirmMFA_def rotateMFARecoveryCodes_def reauthenticate_def changePassword_def
  myLinks_def myRevoke_def myDeviceInstallations_def revokeMyDeviceInstallation_def mySessions_def revokeSession_def
  logoutAll_def delegations_def setDelegation_def

lemmas admin_handlers = list_identities_def identityStatus_def issueCredential_def list_applications_def createApplication_def
  updateApplicationCallbacks_def updateApplicationCapabilities_def list_exchangePolicies_def setExchangePolicy_def
  rotateApplicationSecret_def list_serviceAccounts_def createServiceAccount_def serviceAccountStatus_def
  rotateServiceAccountSecret_def audits_def outboxStatus_def outboxAttempts_def retryOutbox_def

lemma guardedI: "(\<And>r. h r = andThen (authenticated sv en r admin) (f r)) \<Longrightarrow> guarded sv en admin h"
  unfolding guarded_def by blast

lemma user_routes_guarded: "route \<in> set (user_routes sv en) \<Longrightarrow> guarded sv en False (snd (snd route) lid)"
  unfolding user_routes_def by (auto simp: guarded_def user_handlers)

lemma admin_routes_guarded: "route \<in> set (admin_routes sv en) \<Longrightarrow> guarded sv en True (snd (snd route) lid)"
  unfolding admin_routes_def by (auto simp: guarded_def admin_handlers)

lemma prefix_segments:
  assumes "has_prefix path (p @ [CHR ''/''])"
  shows "\<exists>s ss. split_on CHR ''/'' path = split_on CHR ''/'' p @ s # ss"
proof -
  have split: "split_on CHR ''/'' (p @ CHR ''/'' # t) = split_on CHR ''/'' p @ split_on CHR ''/'' t" for t
    by (induction p) (auto split: list.splits)
  have "path = p @ CHR ''/'' # drop (Suc (length p)) path"
    using assms append_take_drop_id [of "Suc (length p)" path] by (simp add: has_prefix_def)
  then show ?thesis using split [of "drop (Suc (length p)) path"] by (metis list.exhaust split_on_nonempty)
qed

lemma me_segments:
  assumes "has_prefix path ''/api/v1/me/''"
  obtains s ss where "split_on CHR ''/'' path = ''''#''api''#''v1''#''me''#s#ss"
  using prefix_segments [of path "''/api/v1/me''"] assms by auto

lemma admin_segments:
  assumes "has_prefix path ''/api/v1/admin/''"
  obtains s ss where "split_on CHR ''/'' path = ''''#''api''#''v1''#''admin''#s#ss"
  using prefix_segments [of path "''/api/v1/admin''"] assms by auto

lemma me_area:
  assumes "route \<in> set (routes sv en)" "route_matches r route" "has_prefix (hq_path r) ''/api/v1/me/''"
  shows "route \<in> set (user_routes sv en)"
proof -
  obtain s ss where path: "split_on CHR ''/'' (hq_path r) = ''''#''api''#''v1''#''me''#s#ss" using me_segments [OF assms(3)] .
  show ?thesis using assms(1,2) unfolding routes_def set_append Un_iff
    by (elim disjE) (auto simp: server_routes_def open_routes_def admin_routes_def route_matches_def path id_segment_def)
qed

lemma admin_area:
  assumes "route \<in> set (routes sv en)" "route_matches r route" "has_prefix (hq_path r) ''/api/v1/admin/''"
  shows "route \<in> set (admin_routes sv en)"
proof -
  obtain s ss where path: "split_on CHR ''/'' (hq_path r) = ''''#''api''#''v1''#''admin''#s#ss" using admin_segments [OF assms(3)] .
  show ?thesis using assms(1,2) unfolding routes_def set_append Un_iff
    by (elim disjE) (auto simp: server_routes_def open_routes_def user_routes_def route_matches_def path id_segment_def)
qed


lemma guarded_route:
  assumes "boundary rid h r db = (res, db')" "guarded sv en admin h"
  shows "db' = db \<and> status_of (rs_answer res) \<in> {401, 403} \<or>
    (\<exists>session. Session (en_now en 0) (cookie r ''fastcas_session'') db = Inr session
      \<and> (hq_method r \<noteq> ''GET'' \<longrightarrow> originOK sv r
           \<and> CheckCSRF (en_now en 1) (cookie r ''fastcas_session'') (header r ''X-CSRF-Token'') db = Inr ())
      \<and> (admin \<longrightarrow> RequireAdmin (en_now en 2) session db = Inr ()))"
proof -
  define st where "st = \<lparr>hs_headers = boundary_headers rid, hs_cookies = [], hs_db = db\<rparr>"
  obtain f where f: "h (cap_body r) = andThen (authenticated sv en (cap_body r) admin) f"
    using assms(2) unfolding guarded_def by blast
  obtain x st1 where x: "authenticated sv en (cap_body r) admin st = (x, st1)" by (cases "authenticated sv en (cap_body r) admin st")
  show ?thesis
  proof (cases x)
    case (Inl ans)
    from authenticated_Inl [OF x [unfolded Inl]] show ?thesis
      using assms(1) f x Inl by (auto simp: boundary_def st_def [symmetric] andThen_def) (simp_all add: st_def)
  next
    case (Inr session)
    have "hs_db st = db" by (simp add: st_def)
    with authenticated_Inr [OF x [unfolded Inr]] show ?thesis by auto
  qed
qed

text \<open>C7: Behind \<open>/api/v1/me/\<close> and \<open>/api/v1/admin/\<close> the API does nothing for a stranger: it answers 401 or 403 and changes
nothing, unless the session cookie is that of a live session of an active account and, but for a GET, the request comes from
the issuer's origin with the session's CSRF token; an administrator's request also needs the role and a second factor shown in
this session within five minutes.\<close>

theorem account_api_is_protected:
  assumes "serve sv en rid r db = Some (res, db')"
    and "has_prefix (hq_path r) ''/api/v1/me/'' \<or> has_prefix (hq_path r) ''/api/v1/admin/''"
    and "db' \<noteq> db \<or> status_of (rs_answer res) \<notin> {401, 403}"
  shows "\<exists>s\<in>set (browser_sessions db). s_token_hash s = Hash (cookie r ''fastcas_session'') \<and> live_session (en_now en 0) s
    \<and> (\<exists>i\<in>set (identities db). active_identity (s_identity_id s) i)
    \<and> (hq_method r \<noteq> ''GET'' \<longrightarrow> header r ''Origin'' = sv_issuer sv
         \<and> CheckCSRF (en_now en 1) (cookie r ''fastcas_session'') (header r ''X-CSRF-Token'') db = Inr ())
    \<and> (has_prefix (hq_path r) ''/api/v1/admin/'' \<longrightarrow>
         (\<exists>i\<in>set (identities db). active_identity (s_identity_id s) i \<and> i_role i = Admin \<and> i_mfa_secret i \<noteq> None)
         \<and> (\<exists>s'\<in>set (browser_sessions db). s_id s' = s_id s \<and> later_than (s_mfa_at s') (en_now en 2 - minutes 5)))"
proof -
  define admin where "admin = has_prefix (hq_path r) ''/api/v1/admin/''"
  obtain route where route: "route \<in> set (routes sv en)" "route_matches r route"
    "boundary rid (snd (snd route) (route_id r route)) r db = (res, db')"
    using assms(1) by (rule serve_route)
  have "guarded sv en admin (snd (snd route) (route_id r route))"
  proof (cases admin)
    case True
    then show ?thesis using admin_routes_guarded [OF admin_area [OF route(1,2)]] by (simp add: admin_def)
  next
    case False
    then show ?thesis using user_routes_guarded [OF me_area [OF route(1,2)]] assms(2) by (simp add: admin_def)
  qed
  from guarded_route [OF route(3) this] assms(3) obtain session where session:
    "Session (en_now en 0) (cookie r ''fastcas_session'') db = Inr session"
    "hq_method r \<noteq> ''GET'' \<longrightarrow> originOK sv r
       \<and> CheckCSRF (en_now en 1) (cookie r ''fastcas_session'') (header r ''X-CSRF-Token'') db = Inr ()"
    "admin \<longrightarrow> RequireAdmin (en_now en 2) session db = Inr ()" by blast
  from session(1) obtain s where s: "s \<in> set (browser_sessions db)" "s_token_hash s = Hash (cookie r ''fastcas_session'')"
    "live_session (en_now en 0) s" "some_row (active_identity (s_identity_id s)) (identities db)" "session = view_session s"
    by (rule Session_Inr)
  show ?thesis
    by (rule bexI [OF _ s(1)]) (use session(2,3) s in
      \<open>auto simp: RequireAdmin_def originOK_def admin_def [symmetric] some_row_iff view_session_def split: if_splits\<close>)
qed


section \<open>Browser sessions\<close>

text \<open>Every new session cookie has a value of \<open>T\<close>.\<close>

definition session_cookies :: "string set \<Rightarrow> hstate \<Rightarrow> hstate \<Rightarrow> bool" where
  "session_cookies T a b = (\<forall>c\<in>set (hs_cookies b). ck_name c = ''fastcas_session'' \<and> ck_value c \<noteq> [] \<longrightarrow>
     c \<in> set (hs_cookies a) \<or> ck_value c \<in> T)"

abbreviation no_new_session :: "hstate \<Rightarrow> hstate \<Rightarrow> bool" where
  "no_new_session \<equiv> session_cookies {}"

interpretation sessionless: handler_contract "session_cookies T" for T
  by unfold_locales (auto simp: session_cookies_def)

lemma no_new_session_then: "no_new_session a b \<Longrightarrow> session_cookies T b c \<Longrightarrow> session_cookies T a c"
  unfolding session_cookies_def by blast

lemma sessionless_call: "obeys no_new_session (call f)"
  by (rule sessionless.obeys_call) (simp add: session_cookies_def)

lemma sessionless_setCookie:
  "n \<noteq> ''fastcas_session'' \<Longrightarrow> obeys no_new_session (setCookie sv n v k)"
  "obeys no_new_session (setCookie sv n [] k)"
  by (auto intro!: sessionless.obeys_setCookie simp: session_cookies_def http_simps)

lemma sessionless_clear: "obeys no_new_session (clear_cookies sv names)"
  by (rule sessionless.obeys_clear) (rule sessionless_setCookie)

lemmas sessionless_intros = sessionless.obeys_intros sessionless_call sessionless_clear
lemmas sessionless_cookies = sessionless_setCookie(2) sessionless_setCookie(1)

lemma sessionless_pages:
  "obeys no_new_session (loginPage sv en r)" "obeys no_new_session (devicePage sv en r)"
  "obeys no_new_session (deviceConfirm sv en r)" "obeys no_new_session (logout sv en r)"
  "obeys no_new_session (approve_login en r rid)" "obeys no_new_session (revoke en lid r)"
  unfolding loginPage_def devicePage_def deviceConfirm_def logout_def approve_login_def revoke_def Let_def
  by (intro sessionless_intros sessionless_cookies; simp)+

lemma sessionless_open:
  "obeys no_new_session (redeem sv en kind r)" "obeys no_new_session (redeemMFAReset sv en r)"
  "obeys no_new_session (registerDeviceInstallation en r)" "obeys no_new_session (deviceInstallationStatus lid r)"
  "obeys no_new_session (revokeDeviceInstallation_http en lid r)" "obeys no_new_session health_live"
  "obeys no_new_session (health_ready en)" "obeys no_new_session (me en r)" "obeys no_new_session (linkIntent en r)"
  "obeys no_new_session (prepare en lid r)" "obeys no_new_session (activate en lid r)"
  "obeys no_new_session (link_status en lid r)" "obeys no_new_session (resolve en r)"
  unfolding redeem_def redeemMFAReset_def redeem_limit_def registerDeviceInstallation_def deviceInstallationStatus_def
    revokeDeviceInstallation_http_def health_live_def health_ready_def me_def linkIntent_def prepare_def activate_def
    link_status_def resolve_def
  by (intro sessionless_intros)+

lemma sessionless_user: "route \<in> set (user_routes sv en) \<Longrightarrow> obeys no_new_session (snd (snd route) lid r)"
  unfolding user_routes_def user_handlers Let_def
  by (auto; intro sessionless_intros sessionless_setCookie(2); simp)

lemma sessionless_admin: "route \<in> set (admin_routes sv en) \<Longrightarrow> obeys no_new_session (snd (snd route) lid r)"
  unfolding admin_routes_def admin_handlers Let_def
  by (auto; intro sessionless_intros; simp)


lemma login_part:
  assumes "route \<in> set (routes sv en)" "\<not> no_new_session st (snd (snd (snd route) lid r st))"
  shows "snd (snd route) lid r = login sv en r"
  using assms(1) unfolding routes_def set_append Un_iff
proof (elim disjE)
  assume "route \<in> set (server_routes sv en)"
  then show ?thesis using assms(2) sessionless_pages sessionless_open unfolding obeys_def by (auto simp: server_routes_def)
next
  assume "route \<in> set (open_routes sv en)"
  then show ?thesis using assms(2) sessionless_open unfolding obeys_def by (auto simp: open_routes_def)
next
  assume "route \<in> set (user_routes sv en)"
  then show ?thesis using assms(2) sessionless_user unfolding obeys_def by blast
next
  assume "route \<in> set (admin_routes sv en)"
  then show ?thesis using assms(2) sessionless_admin unfolding obeys_def by blast
qed

lemma login_form:
  assumes "\<not> R st (snd (login sv en r st))" "handler_contract R" "\<And>st. R st (snd (setCookie sv ''fastcas_form'' [] (-1) st))"
  obtains form st1 where "originOK sv r" "hq_form r = Some form" "get_value ''csrf'' form = cookie r ''fastcas_form''"
    "cookie r ''fastcas_form'' \<noteq> []" "hs_db st1 = hs_db st" "R st st1"
    "get_value ''action'' form = ''login'' \<and> snd (login sv en r st) = snd (password_login sv en r form st1)
     \<or> get_value ''action'' form = ''approve''
       \<and> snd (login sv en r st) = snd (approve_login en r (get_value ''auth_request_id'' form) st1)"
    "\<not> R st1 (snd (login sv en r st))"
proof -
  note contract = handler_contract.obeys_failure [OF assms(2), unfolded obeys_def, THEN spec]
  define st1 where "st1 = snd (setCookie sv ''fastcas_form'' [] (-1) st)"
  have st1: "setCookie sv ''fastcas_form'' [] (-1) st = (Inr (), st1)" "hs_db st1 = hs_db st" "R st st1"
    using assms(3) [of st] by (simp_all add: st1_def setCookie_def)
  have "\<not> R st1 (snd (login sv en r st))"
    using assms(1) handler_contract.R_trans [OF assms(2) st1(3)] by blast
  with assms(1) contract st1 show thesis
    by (auto intro: that [of _ st1] simp: login_def Let_def andThen_def split: if_splits option.splits)
qed


lemma Authenticate_Inr:
  assumes "Authenticate kdf now email pw p db = (Inr u, mid)"
  obtains i t where "mid = db\<lparr>rate_limits := t\<rparr>" "i \<in> set (identities db)" "active_identity (u_id u) i"
    "i_email i = to_lower (trim_space email)" "PasswordMatches kdf pw (i_password_hash i)"
proof -
  obtain t where mid: "mid = db\<lparr>rate_limits := t\<rparr>"
    using Authenticate_eq [of kdf now email pw p db] assms by auto
  obtain ok t' where "allow_all now [''login-account:'' @ to_lower (trim_space email), ''login-peer:'' @ p] 12 (minutes 15) db
      = (ok, db\<lparr>rate_limits := t'\<rparr>)"
    using allow_all_eq by (metis prod.collapse)
  with assms obtain i where i: "first_row (\<lambda>i. i_email i = to_lower (trim_space email) \<and> i_status i = Active) (identities db) = Some i"
    "PasswordMatches kdf pw (i_password_hash i)" "Identity (i_id i) mid = Inr u"
    by (auto simp: Authenticate_def Let_def split: if_splits option.splits)
  have "u_id u = i_id i"
    using Identity_active [OF i(3)] by (auto simp: active_identity_def view_identity_def)
  with first_row_Some [OF i(1)] i(2) show thesis
    by (intro that [of t i] mid) (auto simp: active_identity_def)
qed

lemma NewSession_Inr:
  assumes "NewSession now token csrf new_id subject db = (Inr (tok, c), mid)"
  shows "tok = token" "c = csrf" "\<exists>s\<in>set (browser_sessions mid). s_token_hash s = Hash token \<and> s_identity_id s = subject"
  using assms by (auto simp: NewSession_def insert_row_Some split: if_splits option.splits)

definition sessions_kept :: "db \<Rightarrow> db \<Rightarrow> bool" where
  "sessions_kept a b = (\<forall>s\<in>set (browser_sessions a). \<exists>s'\<in>set (browser_sessions b).
     s_token_hash s' = s_token_hash s \<and> s_identity_id s' = s_identity_id s)"

interpretation session_rows: database_relation sessions_kept
  by unfold_locales (fastforce simp: sessions_kept_def)+

lemma MarkMFA_sessions_kept: "sessions_kept db (snd (MarkMFA now subject sid db))"
  unfolding sessions_kept_def MarkMFA_def Let_def by (auto intro!: bexI [OF _ row_updated])


lemma signed_in_cookie: "obeys (session_cookies {token}) (signed_in sv en form user enabled token csrf)"
  unfolding signed_in_def Let_def
  by (intro sessionless.obeys_intros sessionless_setCookie(1) sessionless.obeys_call sessionless.obeys_setCookie)
    (auto simp: session_cookies_def http_simps)

lemma signed_in_keeps: "relates sessions_kept (signed_in sv en form user enabled token csrf)"
  unfolding signed_in_def Let_def by (intro session_rows.relates_intros MarkMFA_sessions_kept)

lemma password_login_issues:
  assumes "\<not> no_new_session st (snd (password_login sv en r form st))"
  obtains user mid enabled where
    "Authenticate (en_kdf en) (en_now en 0) (get_value ''email'' form) (get_value ''password'' form) (peer sv en r) (hs_db st)
       = (Inr user, mid)"
    "MFAEnabled (u_id user) mid = Inr enabled"
    "enabled \<longrightarrow> fst (VerifyMFA (en_unseal sv en) (en_totp en) (en_now en 1) (en_wall en 0) (u_id user) (get_value ''mfa_code'' form) mid) = Inr ()"
    "\<exists>s\<in>set (browser_sessions (hs_db (snd (password_login sv en r form st)))).
       s_token_hash s = Hash (en_token en 0) \<and> s_identity_id s = u_id user"
    "session_cookies {en_token en 0} st (snd (password_login sv en r form st))"
proof -
  note run = assms [unfolded password_login_def]
  obtain user st1 where user: "call (Authenticate (en_kdf en) (en_now en 0) (get_value ''email'' form)
       (get_value ''password'' form) (peer sv en r)) st = (Inr user, st1)" "\<not> no_new_session st1 (snd (andThen (query (MFAEnabled (u_id user))) (\<lambda>enabled.
     andThen (if enabled then call (VerifyMFA (en_unseal sv en) (en_totp en) (en_now en 1) (en_wall en 0)
         (u_id user) (get_value ''mfa_code'' form)) else give ()) (\<lambda>_.
     andThen (call (NewSession (en_now en 2) (en_token en 0) (en_token en 1) (en_token en 2) (u_id user)))
       (\<lambda>(token, csrf). signed_in sv en form user enabled token csrf))) st1))"
    by (rule sessionless.broken_andThen [OF run sessionless_call])
  obtain enabled where enabled: "query (MFAEnabled (u_id user)) st1 = (Inr enabled, st1)" "\<not> no_new_session st1 (snd (
     andThen (if enabled then call (VerifyMFA (en_unseal sv en) (en_totp en) (en_now en 1) (en_wall en 0)
         (u_id user) (get_value ''mfa_code'' form)) else give ()) (\<lambda>_.
     andThen (call (NewSession (en_now en 2) (en_token en 0) (en_token en 1) (en_token en 2) (u_id user)))
       (\<lambda>(token, csrf). signed_in sv en form user enabled token csrf)) st1))"
    by (rule sessionless.broken_andThen [OF user(2) sessionless.obeys_query]) (auto simp: query_Inr)
  obtain u' st2 where mfa: "(if enabled then call (VerifyMFA (en_unseal sv en) (en_totp en) (en_now en 1) (en_wall en 0)
         (u_id user) (get_value ''mfa_code'' form)) else give ()) st1 = (Inr u', st2)" "\<not> no_new_session st2 (snd (
     andThen (call (NewSession (en_now en 2) (en_token en 0) (en_token en 1) (en_token en 2) (u_id user)))
       (\<lambda>(token, csrf). signed_in sv en form user enabled token csrf) st2))"
    by (rule sessionless.broken_andThen [OF enabled(2)]) (auto intro: sessionless_call sessionless.obeys_still)
  obtain p st3 where new: "call (NewSession (en_now en 2) (en_token en 0) (en_token en 1) (en_token en 2) (u_id user)) st2 = (Inr p, st3)"
    by (rule sessionless.broken_andThen [OF mfa(2) sessionless_call])
  have "\<exists>s\<in>set (browser_sessions (hs_db st3)). s_token_hash s = Hash (en_token en 0) \<and> s_identity_id s = u_id user"
    using new NewSession_Inr(3) by (cases p) (fastforce simp: call_Inr)
  moreover have whole: "snd (password_login sv en r form st) = snd (case p of (token, csrf) \<Rightarrow> signed_in sv en form user enabled token csrf st3)"
    using user(1) enabled(1) mfa(1) new by (cases p) (simp add: password_login_def andThen_def)
  ultimately have row: "\<exists>s\<in>set (browser_sessions (hs_db (snd (password_login sv en r form st)))).
       s_token_hash s = Hash (en_token en 0) \<and> s_identity_id s = u_id user"
    using signed_in_keeps [of sv en form user enabled "fst p" "snd p"]
    by (cases p) (fastforce simp: obeys_def sessions_kept_def)
  have "hs_cookies st3 = hs_cookies st"
    using user(1) enabled(1) mfa(1) new by (auto simp: call_Inr query_Inr give_def split: if_splits)
  moreover have "fst p = en_token en 0"
    using new NewSession_Inr(1) by (cases p) (auto simp: call_Inr)
  ultimately have "session_cookies {en_token en 0} st (snd (password_login sv en r form st))"
    using signed_in_cookie [of "fst p" sv en form user enabled "snd p", unfolded obeys_def, THEN spec, of st3] whole
    by (simp add: session_cookies_def split_beta)
  with row show thesis using user(1) enabled(1) mfa(1)
    by (intro that [of user "hs_db st1" enabled]) (auto simp: call_Inr query_Inr split: if_splits)
qed


text \<open>C8: A browser gets a session cookie only from the login form: sent from the issuer's origin with the value of the form
cookie, the password of an active account, and the second factor when the account has one. The cookie is the token of a new
session of that account.\<close>

theorem sessions_need_every_factor:
  assumes "reach D db" "serve sv en rid r db = Some (res, db')"
    and "c \<in> set (rs_cookies res)" "ck_name c = ''fastcas_session''" "ck_value c \<noteq> []"
  shows "\<exists>form i t. header r ''Origin'' = sv_issuer sv \<and> hq_form r = Some form
    \<and> get_value ''csrf'' form = cookie r ''fastcas_form'' \<and> cookie r ''fastcas_form'' \<noteq> []
    \<and> i \<in> set (identities db) \<and> i_status i = Active \<and> i_email i = to_lower (trim_space (get_value ''email'' form))
    \<and> PasswordMatches (en_kdf en) (get_value ''password'' form) (i_password_hash i)
    \<and> (i_mfa_secret i \<noteq> None \<longrightarrow> fst (VerifyMFA (en_unseal sv en) (en_totp en) (en_now en 1) (en_wall en 0) (i_id i)
          (get_value ''mfa_code'' form) (db\<lparr>rate_limits := t\<rparr>)) = Inr ())
    \<and> ck_value c = en_token en 0
    \<and> (\<exists>s\<in>set (browser_sessions db'). s_token_hash s = Hash (ck_value c) \<and> s_identity_id s = i_id i)"
proof -
  define st where "st = \<lparr>hs_headers = boundary_headers rid, hs_cookies = [], hs_db = db\<rparr>"
  obtain route where route: "route \<in> set (routes sv en)" "boundary rid (snd (snd route) (route_id r route)) r db = (res, db')"
    using assms(2) by (rule serve_route)
  define m where "m = snd (snd route) (route_id r route) (cap_body r)"
  have res: "rs_cookies res = hs_cookies (snd (m st))" "db' = hs_db (snd (m st))"
    using route(2) unfolding boundary_def st_def [symmetric] m_def [symmetric] by (auto split: prod.splits)
  have new: "\<not> no_new_session st (snd (m st))" using assms(3-5) unfolding session_cookies_def res st_def by auto
  have m: "m = login sv en (cap_body r)" using login_part [OF route(1) new [unfolded m_def]] by (simp add: m_def)
  have not_approve: "no_new_session st (snd (approve_login en r rid st))" for r rid st
    using sessionless_pages(5) [of en r rid] by (simp add: obeys_def)
  have clear: "no_new_session st (snd (setCookie sv ''fastcas_form'' [] (-1) st))" for st
    using sessionless_setCookie(2) [of sv "''fastcas_form''"] by (simp add: obeys_def)
  obtain form st1 where form: "originOK sv r" "hq_form (cap_body r) = Some form"
      "get_value ''csrf'' form = cookie r ''fastcas_form''" "cookie r ''fastcas_form'' \<noteq> []" "hs_db st1 = db"
      "snd (m st) = snd (password_login sv en (cap_body r) form st1)" "\<not> no_new_session st1 (snd (m st))" "no_new_session st st1"
    using login_form [OF new [unfolded m] sessionless.handler_contract_axioms clear] not_approve
    by (metis (no_types, lifting) cap_body_reads hstate.select_convs(3) m st_def)
  obtain user mid enabled where login: "Authenticate (en_kdf en) (en_now en 0) (get_value ''email'' form)
      (get_value ''password'' form) (peer sv en r) db = (Inr user, mid)" "MFAEnabled (u_id user) mid = Inr enabled"
    "enabled \<longrightarrow> fst (VerifyMFA (en_unseal sv en) (en_totp en) (en_now en 1) (en_wall en 0) (u_id user) (get_value ''mfa_code'' form) mid) = Inr ()"
    "\<exists>s\<in>set (browser_sessions db'). s_token_hash s = Hash (en_token en 0) \<and> s_identity_id s = u_id user"
      "session_cookies {en_token en 0} st1 (snd (m st))"
    using password_login_issues [OF form(7) [unfolded form(6)]] unfolding form(5) res(2) form(6) cap_body_peer by blast
  have c: "ck_value c = en_token en 0"
    using no_new_session_then [OF form(8) login(5)] assms(3-5) by (auto simp: session_cookies_def res(1) st_def)
  obtain i t where i: "mid = db\<lparr>rate_limits := t\<rparr>" "i \<in> set (identities db)" "active_identity (u_id user) i"
      "i_email i = to_lower (trim_space (get_value ''email'' form))" "PasswordMatches (en_kdf en) (get_value ''password'' form) (i_password_hash i)"
    by (rule Authenticate_Inr [OF login(1)])
  have "j = i" if "first_row (active_identity (u_id user)) (identities db) = Some j" for j
    using first_row_Some [OF that] row_unique(1) [OF _ soundD(1) [OF reach_sound [OF assms(1)]] _ i(2), of j] i(3)
    by (simp add: active_identity_def)
  then have "enabled = (i_mfa_secret i \<noteq> None)" using login(2) i(1) by (auto simp: MFAEnabled_def split: option.splits)
  then show ?thesis
    using form(1-4) login(3,4) i cap_body_form [OF form(2)] c
    by (intro exI [of _ form] exI [of _ i] exI [of _ t]) (auto simp: originOK_def active_identity_def)
qed


section \<open>What a user grants\<close>

text \<open>No authorization request gets a new payload, no device authorization is newly approved.\<close>

definition no_grants :: "db \<Rightarrow> db \<Rightarrow> bool" where
  "no_grants a b =
     ((\<forall>q\<in>set (auth_requests b). \<exists>q0\<in>set (auth_requests a). r_id q0 = r_id q \<and> r_payload q0 = r_payload q)
      \<and> (\<forall>d\<in>set (device_authorizations b). d_status d = DeviceApproved \<longrightarrow>
           (\<exists>d0\<in>set (device_authorizations a). d_device_code_hash d0 = d_device_code_hash d \<and> d_status d0 = DeviceApproved)))"

interpretation grants: database_relation no_grants
proof
  fix a b c assume "no_grants a b" "no_grants b c"
  then show "no_grants a c" unfolding no_grants_def by metis
qed (auto simp: no_grants_def)

lemma no_grants_cong:
  "auth_requests c = auth_requests b \<Longrightarrow> device_authorizations c = device_authorizations b \<Longrightarrow> no_grants a c = no_grants a b"
  by (simp add: no_grants_def)

lemma untouched_grants: "touches T a b \<Longrightarrow> T_requests \<notin> T \<Longrightarrow> T_devices \<notin> T \<Longrightarrow> no_grants a b"
  using untouched(4,16) no_grants_cong grants.Q_refl by metis

lemma end_access_grants:
  assumes "end_access now ids action subject b = Some b'" "no_grants a b"
  shows "no_grants a b'"
proof -
  obtain c where "queueLogout now ids subject [] (void_authorizations now subject (revoke_subject now subject b)) = Some c"
      "b' = audit now subject action subject c" using assms(1) by (auto simp: end_access_def)
  then have "auth_requests b' = request_stamp.stamp_where now (\<lambda>r. az_subject (r_payload r) = subject \<and> r_consumed_at r = None)
       (auth_requests b)"
     "device_authorizations b' = device_authorizations (deny_devices subject b)"
    by (auto simp: queueLogout_def void_authorizations_def deny_devices_def revoke_subject_def)
  then show ?thesis using assms(2)
    by (fastforce simp: no_grants_def deny_devices_def request_stamp.set_stamp_where elim!: in_update_rows)
qed


lemma same_grants:
  "Authenticate kdf now e pw pr db = (r, b) \<Longrightarrow> no_grants a b = no_grants a db"
  "VerifyMFA unseal totp now wall subject code db = (q, b) \<Longrightarrow> no_grants a b = no_grants a db"
  using untouched(4,16) [OF Authenticate_touches [of db kdf now e pw pr]]
    untouched(4,16) [OF VerifyMFA_touches [of db unseal totp now wall subject code]]
  by (auto intro!: no_grants_cong)

lemma no_grants_updates [simp]:
  "no_grants a (b\<lparr>identities := t1\<rparr>) = no_grants a b" "no_grants a (b\<lparr>recovery_codes := t2\<rparr>) = no_grants a b"
  "no_grants a (b\<lparr>one_time_credentials := t3\<rparr>) = no_grants a b" "no_grants a (audit now x y z b) = no_grants a b"
  by (simp_all add: no_grants_def audit_def)

lemma RedeemMFAReset_grants: "no_grants db (snd (RedeemMFAReset kdf now ids raw password pr db))"
  by (auto simp: RedeemMFAReset_def Let_def grants.Q_refl consume_credential_def split: option.splits sum.splits prod.splits
    dest!: same_grants(1) [where a = db] elim!: end_access_grants)

lemma commit_password_grants:
  "no_grants a db \<Longrightarrow> no_grants a (snd (commit_password kdf now ids subject sid e cur en db))"
  by (auto simp: commit_password_def set_password_def split: option.splits elim!: end_access_grants)

lemma ChangePassword_grants:
  "no_grants db (snd (ChangePassword kdf unseal totp now wall slt ids subject sid cur new code pr db))"
  by (auto simp: ChangePassword_def grants.Q_refl split: option.splits sum.splits prod.splits if_splits
    dest!: same_grants [where a = db] intro!: commit_password_grants)

lemma RedeemCredential_grants: "no_grants db (snd (RedeemCredential kdf now slt new_id ids kind raw name pw db))"
  by (auto simp: RedeemCredential_def Let_def grants.Q_refl consume_credential_def set_password_def
    split: option.splits sum.splits elim!: end_access_grants)

lemmas ungranting = Authenticate_touches VerifyMFA_touches NewSession_touches MarkMFA_touches CreateLinkIntent_touches
  PrepareLink_touches ActivateLink_touches RevokeLink_touches LogoutSession_touches LogoutAll_touches BeginMFA_touches
  ConfirmMFA_touches RotateMFARecoveryCodes_touches IssueCredential_touches SetIdentityStatus_touches
  RegisterClientAs_touches UpdateClientCallbacksAs_touches UpdateClientCapabilitiesAs_touches RotateClientSecretAs_touches
  CreateServiceAccountAs_touches SetServiceAccountActiveAs_touches RotateServiceAccountSecretAs_touches
  SetExchangePolicy_touches SetExchangeConsent_touches RegisterDeviceInstallation_touches
  RevokeDeviceInstallation_touches RevokeDeviceInstallationWithSecret_touches RetryDeadEvent_touches

lemmas keep_grants = ungranting [THEN untouched_grants, simplified] RedeemMFAReset_grants ChangePassword_grants
  RedeemCredential_grants

lemma allow_grants: "no_grants db (snd (case Allow now k limit window db of (allowed, db) \<Rightarrow> (f allowed, db)))"
  using Allow_touches [of db now k limit window, THEN untouched_grants] by (simp add: split_beta)

lemma renew_grants: "no_grants db (snd (Inr (), renew_session now sid db))"
  using renew_session_touches [THEN untouched_grants] by simp

lemmas grant_intros = grants.relates_intros keep_grants allow_grants renew_grants

lemma ungranting_posts:
  "relates no_grants (password_login sv en r form)" "relates no_grants (logout sv en r)" "relates no_grants (devicePage sv en r)"
  "relates no_grants (linkIntent en r)" "relates no_grants (prepare en lid r)" "relates no_grants (activate en lid r)"
  "relates no_grants (revoke en lid r)" "relates no_grants (redeem sv en kind r)" "relates no_grants (redeemMFAReset sv en r)"
  "relates no_grants (registerDeviceInstallation en r)" "relates no_grants (revokeDeviceInstallation_http en lid r)"
  unfolding password_login_def signed_in_def logout_def devicePage_def linkIntent_def prepare_def activate_def revoke_def
    redeem_def redeemMFAReset_def redeem_limit_def registerDeviceInstallation_def revokeDeviceInstallation_http_def Let_def
  by (intro grant_intros)+

lemma ungranting_user: "route \<in> set (user_routes sv en) \<Longrightarrow> relates no_grants (snd (snd route) lid r)"
  unfolding user_routes_def user_handlers Let_def by (auto; intro grant_intros)

lemma ungranting_admin: "route \<in> set (admin_routes sv en) \<Longrightarrow> relates no_grants (snd (snd route) lid r)"
  unfolding admin_routes_def admin_handlers Let_def by (auto; intro grant_intros)

lemmas reads_grants = reads [THEN relates_mono [where R = no_grants], OF grants.Q_refl]

lemma granting_route:
  assumes "route \<in> set (routes sv en)" "\<not> no_grants (hs_db st) (hs_db (snd (snd (snd route) lid r st)))"
  shows "snd (snd route) lid r = login sv en r \<or> snd (snd route) lid r = deviceConfirm sv en r"
  using assms(1) unfolding routes_def set_append Un_iff
proof (elim disjE)
  assume "route \<in> set (server_routes sv en)"
  then show ?thesis using assms(2) ungranting_posts reads_grants unfolding obeys_def by (auto simp: server_routes_def)
next
  assume "route \<in> set (open_routes sv en)"
  then show ?thesis using assms(2) ungranting_posts reads_grants unfolding obeys_def by (auto simp: open_routes_def)
next
  assume "route \<in> set (user_routes sv en)"
  then show ?thesis using assms(2) ungranting_user unfolding obeys_def by blast
next
  assume "route \<in> set (admin_routes sv en)"
  then show ?thesis using assms(2) ungranting_admin unfolding obeys_def by blast
qed


interpretation same_requests: database_relation "\<lambda>a b. auth_requests b = auth_requests a"
  by unfold_locales simp_all

interpretation same_devices: database_relation "\<lambda>a b. device_authorizations b = device_authorizations a"
  by unfold_locales simp_all

lemma deviceConfirm_requests: "relates (\<lambda>a b. auth_requests b = auth_requests a) (deviceConfirm sv en r)"
  unfolding deviceConfirm_def Let_def
  by (intro same_requests.relates_intros untouched(4) [OF ConfirmDevice_touches]; simp)

lemma login_devices: "relates (\<lambda>a b. device_authorizations b = device_authorizations a) (login sv en r)"
  unfolding login_def password_login_def signed_in_def approve_login_def Let_def
  by (intro same_devices.relates_intros untouched(16) [OF Authenticate_touches] untouched(16) [OF VerifyMFA_touches]
    untouched(16) [OF NewSession_touches] untouched(16) [OF MarkMFA_touches] untouched(16) [OF CompleteAuthorization_touches]; simp)

lemma approve_login_grants:
  assumes "\<not> no_grants (hs_db st) (hs_db (snd (approve_login en r rid st)))"
  obtains session a where "Session (en_now en 0) (cookie r ''fastcas_session'') (hs_db st) = Inr session"
    "AuthRequestByID (en_now en 1) rid (hs_db st) = Inr a" "sessionFresh (en_wall en 0) a session"
    "hs_db (snd (approve_login en r rid st)) = snd (CompleteAuthorization (en_now en 2) rid session (hs_db st))"
proof -
  obtain session where session: "Session (en_now en 0) (cookie r ''fastcas_session'') (hs_db st) = Inr session"
      "\<not> no_grants (hs_db st) (hs_db (snd ((andThen (query (AuthRequestByID (en_now en 1) rid)) (\<lambda>a.
     andThen (demand (sessionFresh (en_wall en 0) a session) ErrUnauthorized) (\<lambda>_.
     andThen (call (CompleteAuthorization (en_now en 2) rid session)) (\<lambda>_.
     give (Redirect 303 (en_callback en rid)))))) st)))"
    by (rule grants.broken_andThen [OF assms [unfolded approve_login_def]]) (auto simp: query_Inr grants.obeys_query)
  obtain a where a: "AuthRequestByID (en_now en 1) rid (hs_db st) = Inr a" "\<not> no_grants (hs_db st) (hs_db (snd ((
     andThen (demand (sessionFresh (en_wall en 0) a session) ErrUnauthorized) (\<lambda>_.
     andThen (call (CompleteAuthorization (en_now en 2) rid session)) (\<lambda>_.
     give (Redirect 303 (en_callback en rid))))) st)))"
    by (rule grants.broken_andThen [OF session(2)]) (auto simp: query_Inr grants.obeys_query)
  have fresh: "sessionFresh (en_wall en 0) a session"
    by (rule grants.broken_andThen [OF a(2) grants.obeys_demand]) (auto simp: demand_Inr)
  have "hs_db (snd (approve_login en r rid st)) = snd (CompleteAuthorization (en_now en 2) rid session (hs_db st))"
    using session(1) a(1) fresh
    by (auto simp: approve_login_def http_simps split: prod.splits sum.splits)
  with session(1) a(1) fresh that show thesis by blast
qed


lemma served_grants:
  assumes "serve sv en rid r db = Some (res, db')" "\<not> no_grants db db'"
  obtains st where "hs_db st = db" "db' = hs_db (snd (login sv en (cap_body r) st)) \<or> db' = hs_db (snd (deviceConfirm sv en (cap_body r) st))"
proof -
  define st where "st = \<lparr>hs_headers = boundary_headers rid, hs_cookies = [], hs_db = db\<rparr>"
  obtain route where route: "route \<in> set (routes sv en)" "boundary rid (snd (snd route) (route_id r route)) r db = (res, db')"
    using assms(1) by (rule serve_route)
  have "db' = hs_db (snd (snd (snd route) (route_id r route) (cap_body r) st))" "hs_db st = db"
    using boundary_db [of rid "snd (snd route) (route_id r route)" r db] route(2) by (simp_all add: st_def)
  with granting_route [OF route(1), of st "route_id r route" "cap_body r"] assms(2) that [of st] show thesis by auto
qed

text \<open>C9: An authorization request becomes authenticated only when its user approves it: with the form of the login page, from the
issuer's origin, in a live session that is fresh enough for what the application asked. It then stands for that user and session.\<close>

theorem authorizations_need_approval:
  assumes "serve sv en rid r db = Some (res, db')"
    and "q \<in> set (auth_requests db')" "az_authenticated (r_payload q)"
    and "\<forall>q0\<in>set (auth_requests db). r_id q0 = r_id q \<longrightarrow> \<not> az_authenticated (r_payload q0)"
  shows "\<exists>form session a. header r ''Origin'' = sv_issuer sv \<and> hq_form r = Some form
    \<and> get_value ''csrf'' form = cookie r ''fastcas_form'' \<and> cookie r ''fastcas_form'' \<noteq> []
    \<and> get_value ''action'' form = ''approve'' \<and> get_value ''auth_request_id'' form = r_id q
    \<and> Session (en_now en 0) (cookie r ''fastcas_session'') db = Inr session
    \<and> AuthRequestByID (en_now en 1) (r_id q) db = Inr a \<and> sessionFresh (en_wall en 0) a session
    \<and> az_subject (r_payload q) = w_identity_id session \<and> az_session_id (r_payload q) = w_id session"
proof -
  have new: "\<not> no_grants db db'" using assms(2-4) unfolding no_grants_def by metis
  obtain st where st: "hs_db st = db"
    "db' = hs_db (snd (login sv en (cap_body r) st)) \<or> db' = hs_db (snd (deviceConfirm sv en (cap_body r) st))"
    by (rule served_grants [OF assms(1) new])
  have "auth_requests db' \<noteq> auth_requests db" using assms(2-4) by metis
  then have db': "db' = hs_db (snd (login sv en (cap_body r) st))"
    using st deviceConfirm_requests [of sv en "cap_body r"] by (auto simp: obeys_def)
  have clear: "no_grants (hs_db st) (hs_db (snd (setCookie sv ''fastcas_form'' [] (-1) st)))" for st
    by (simp add: setCookie_def grants.Q_refl)
  have stays: "no_grants (hs_db st) (hs_db (snd (password_login sv en (cap_body r) form st)))" for form st
    using ungranting_posts(1) unfolding obeys_def by blast
  obtain form st1 where form: "originOK sv r" "hq_form (cap_body r) = Some form" "get_value ''csrf'' form = cookie r ''fastcas_form''"
      "cookie r ''fastcas_form'' \<noteq> []" "hs_db st1 = db" "get_value ''action'' form = ''approve''"
      "db' = hs_db (snd (approve_login en (cap_body r) (get_value ''auth_request_id'' form) st1))"
  proof (rule login_form [OF new [folded st(1), unfolded db'] grants.handler_contract_axioms clear])
    fix form st1
    assume f: "originOK sv (cap_body r)" "hq_form (cap_body r) = Some form"
      "get_value ''csrf'' form = cookie (cap_body r) ''fastcas_form''" "cookie (cap_body r) ''fastcas_form'' \<noteq> []" "hs_db st1 = hs_db st"
      "get_value ''action'' form = ''login'' \<and> snd (login sv en (cap_body r) st) = snd (password_login sv en (cap_body r) form st1)
       \<or> get_value ''action'' form = ''approve''
         \<and> snd (login sv en (cap_body r) st) = snd (approve_login en (cap_body r) (get_value ''auth_request_id'' form) st1)"
      "\<not> no_grants (hs_db st1) (hs_db (snd (login sv en (cap_body r) st)))"
    show thesis by (rule that [of form st1]) (use f stays st(1) db' in auto)
  qed
  define aid where "aid = get_value ''auth_request_id'' form"
  obtain session a where session: "Session (en_now en 0) (cookie r ''fastcas_session'') db = Inr session"
      "AuthRequestByID (en_now en 1) aid db = Inr a" "sessionFresh (en_wall en 0) a session"
      "db' = snd (CompleteAuthorization (en_now en 2) aid session db)"
    using approve_login_grants [of st1 en "cap_body r" aid] new unfolding form(7) form(5) aid_def [symmetric] by auto
  have "db' = db" if "fst (CompleteAuthorization (en_now en 2) aid session db) = Inl e" for e
    using that session(4) by (auto simp: CompleteAuthorization_def Let_def split: option.splits sum.splits if_splits)
  then have "CompleteAuthorization (en_now en 2) aid session db = (Inr (), db')"
    using new grants.Q_refl session(4)
    by (cases "CompleteAuthorization (en_now en 2) aid session db"; cases "fst (CompleteAuthorization (en_now en 2) aid session db)") auto
  then obtain r0 :: auth_request_row where "auth_requests db' = update_rows (\<lambda>r. r_id r = aid) (\<lambda>s. s\<lparr>r_payload := (r_payload r0)
       \<lparr>az_subject := w_identity_id session, az_session_id := w_id session,
        az_auth_time := w_authenticated_at session, az_authenticated := True\<rparr>\<rparr>) (auth_requests db)" (is "_ = update_rows _ ?f _")
    by (rule CompleteAuthorization_success) blast
  then have "q \<in> set (update_rows (\<lambda>r. r_id r = aid) ?f (auth_requests db))" using assms(2) by simp
  then obtain q0 where q0: "q0 \<in> set (auth_requests db)" "q = (if r_id q0 = aid then ?f q0 else q0)" by (rule in_update_rows)
  then have "r_id q0 = aid" using assms(3,4) by (auto split: if_splits)
  with q0(2) have "r_id q = aid" "az_subject (r_payload q) = w_identity_id session" "az_session_id (r_payload q) = w_id session"
    by simp_all
  with form session(1-3) cap_body_form [OF form(2)] show ?thesis
    by (intro exI [of _ form] exI [of _ session] exI [of _ a]) (simp add: originOK_def aid_def)
qed


lemma deviceConfirm_grants:
  assumes "\<not> no_grants (hs_db st) (hs_db (snd (deviceConfirm sv en r st)))"
  obtains form session code where "originOK sv r" "hq_form r = Some form" "code = safeDeviceCode (get_value ''user_code'' form)" "code \<noteq> []"
    "cookie r ''fastcas_device_form'' = deviceFormProof sv (get_value ''csrf'' form) code"
    "Session (en_now en 0) (cookie r ''fastcas_session'') (hs_db st) = Inr session"
    "hs_db (snd (deviceConfirm sv en r st))
       = snd (ConfirmDevice (en_now en 1) code (w_identity_id session) (get_value ''decision'' form = ''approve'') (hs_db st))"
proof -
  have still: "no_grants (hs_db st) (hs_db (snd (failure e st)))" for e and st :: hstate
    using grants.obeys_failure unfolding obeys_def by blast
  from assms obtain form where form: "originOK sv r" "hq_form r = Some form"
    by (auto simp: deviceConfirm_def still split: if_splits option.splits)
  define code where "code = safeDeviceCode (get_value ''user_code'' form)"
  have proof_ok: "code \<noteq> []" "cookie r ''fastcas_device_form'' = deviceFormProof sv (get_value ''csrf'' form) code"
    using assms form still by (auto simp: deviceConfirm_def Let_def code_def [symmetric] split: if_splits)
  show thesis using assms form proof_ok that [OF form code_def proof_ok]
    by (auto simp: deviceConfirm_def Let_def code_def [symmetric] still http_simps grants.Q_refl split: if_splits prod.splits sum.splits)
qed


text \<open>C10: A device authorization becomes approved only when its user confirms it in the browser: on the form of the device page,
from the issuer's origin, with the proof the server made for exactly this user code, in a live session whose user it then stands for.\<close>

theorem devices_need_confirmation:
  assumes "serve sv en rid r db = Some (res, db')"
    and "d \<in> set (device_authorizations db')" "d_status d = DeviceApproved"
    and "\<forall>d0\<in>set (device_authorizations db). d_device_code_hash d0 = d_device_code_hash d \<longrightarrow> d_status d0 \<noteq> DeviceApproved"
  shows "\<exists>form session. header r ''Origin'' = sv_issuer sv \<and> hq_form r = Some form
    \<and> cookie r ''fastcas_device_form'' = deviceFormProof sv (get_value ''csrf'' form) (safeDeviceCode (get_value ''user_code'' form))
    \<and> get_value ''decision'' form = ''approve''
    \<and> Session (en_now en 0) (cookie r ''fastcas_session'') db = Inr session \<and> d_subject d = Some (w_identity_id session)
    \<and> (\<exists>d0\<in>set (device_authorizations db). d_device_code_hash d0 = d_device_code_hash d \<and> d_status d0 = DevicePending
         \<and> en_now en 1 < d_expires_at d0 \<and> d_user_code d0 = to_upper (trim_space (safeDeviceCode (get_value ''user_code'' form))))"
proof -
  have new: "\<not> no_grants db db'" using assms(2-4) unfolding no_grants_def by metis
  obtain st where st: "hs_db st = db"
    "db' = hs_db (snd (login sv en (cap_body r) st)) \<or> db' = hs_db (snd (deviceConfirm sv en (cap_body r) st))"
    by (rule served_grants [OF assms(1) new])
  have "device_authorizations db' \<noteq> device_authorizations db" using assms(2-4) by metis
  then have db': "db' = hs_db (snd (deviceConfirm sv en (cap_body r) st))"
    using st login_devices [of sv en "cap_body r"] by (auto simp: obeys_def)
  obtain form session code where form: "originOK sv r" "hq_form (cap_body r) = Some form" "code = safeDeviceCode (get_value ''user_code'' form)"
    "cookie r ''fastcas_device_form'' = deviceFormProof sv (get_value ''csrf'' form) code"
    "Session (en_now en 0) (cookie r ''fastcas_session'') db = Inr session"
    "db' = snd (ConfirmDevice (en_now en 1) code (w_identity_id session) (get_value ''decision'' form = ''approve'') db)"
    by (rule deviceConfirm_grants [OF new [folded st(1), unfolded db']]) (use st(1) db' in auto)
  obtain e where e: "first_row (device_open (en_now en 1) (to_upper (trim_space code)) db) (device_authorizations db) = Some e"
    using form(6) new grants.Q_refl by (auto simp: ConfirmDevice_def split: option.splits)
  note open_row = first_row_Some [OF e, unfolded device_open_def]
  define approve where "approve = (get_value ''decision'' form = ''approve'')"
  have "device_authorizations db' = update_rows (\<lambda>d. d_device_code_hash d = d_device_code_hash e)
        (\<lambda>d. d\<lparr>d_status := (if approve then DeviceApproved else DeviceDenied),
                    d_subject := Some (w_identity_id session), d_auth_time := Some (en_now en 1)\<rparr>) (device_authorizations db)"
    (is "_ = update_rows _ ?f _")
    using form(6) e new grants.Q_refl by (auto simp: ConfirmDevice_def approve_def [symmetric] split: if_splits)
  then have "d \<in> set (update_rows (\<lambda>d. d_device_code_hash d = d_device_code_hash e) ?f (device_authorizations db))" using assms(2) by simp
  then obtain d0 where d0: "d0 \<in> set (device_authorizations db)" "d = (if d_device_code_hash d0 = d_device_code_hash e then ?f d0 else d0)"
    by (rule in_update_rows)
  then have "d_device_code_hash d0 = d_device_code_hash e" using assms(3,4) by (auto split: if_splits)
  with d0(2) have "d_device_code_hash d = d_device_code_hash e" "approve" "d_subject d = Some (w_identity_id session)"
    using assms(3) by (auto split: if_splits)
  with form open_row cap_body_form [OF form(2)] show ?thesis
    by (intro exI [of _ form] exI [of _ session]) (auto simp: originOK_def approve_def)
qed


section \<open>The link API of an application\<close>

















section \<open>The console\<close>

lemma has_prefix_iff: "has_prefix s p \<longleftrightarrow> (\<exists>t. s = p @ t)"
  by (metis append_eq_conv_conj append_take_drop_id has_prefix_def)

lemma contains_iff: "contains s t \<longleftrightarrow> (\<exists>a b. s = a @ t @ b)"
proof
  assume "contains s t"
  then obtain n where "take (length t) (drop n s) = t" by (auto simp: contains_def list_ex_iff)
  then show "\<exists>a b. s = a @ t @ b" by (metis append_take_drop_id)
next
  assume "\<exists>a b. s = a @ t @ b"
  then obtain a b where "s = a @ t @ b" by blast
  then show "contains s t" by (auto simp: contains_def list_ex_iff intro!: bexI [of _ "length a"])
qed

lemma contains_later: "contains t p \<Longrightarrow> contains (s @ t) p"
  unfolding contains_iff by (metis append.assoc)

text \<open>The console serves its index and the files directly below \<open>assets\<close>, no hidden ones and no way out of the directory.\<close>

theorem console_serves_assets:
  assumes "Console meth path = ServeFile f"
  shows "meth \<in> {''GET'', ''HEAD''} \<and> has_prefix path ''/console/''
    \<and> (f = [] \<or> (\<exists>name. f = ''assets/'' @ name \<and> name \<noteq> [] \<and> hd name \<noteq> CHR ''.'' \<and> CHR ''/'' \<notin> set name
           \<and> \<not> contains name ''..''))"
proof -
  have meth: "meth \<in> {''GET'', ''HEAD''}" "has_prefix path ''/console/''" "\<not> contains path ''..''"
      "f = trim_prefix path ''/console/''"
    and asset: "path = ''/console/'' \<or> has_prefix path ''/console/assets/''
      \<and> trim_prefix path ''/console/assets/'' \<noteq> [] \<and> \<not> contains (trim_prefix path ''/console/assets/'') ''/''
      \<and> \<not> has_prefix (trim_prefix path ''/console/assets/'') ''.''"
    using assms by (auto simp: Console_def Let_def split: if_splits)
  show ?thesis
  proof (cases "path = ''/console/''")
    case True
    then show ?thesis using meth by (simp add: trim_prefix_def has_prefix_def)
  next
    case False
    with asset obtain name where path: "path = ''/console/assets/'' @ name" by (auto simp: has_prefix_iff)
    have "f = ''assets/'' @ name" using meth(4) path by (simp add: trim_prefix_def has_prefix_def)
    moreover have "\<not> contains name ''..''" using meth(3) unfolding path by (rule contrapos_nn) (rule contains_later)
    moreover have "CHR ''/'' \<notin> set name" if "\<not> contains name ''/''"
      using that split_list [of "CHR ''/''" name] by (auto simp: contains_iff)
    ultimately show ?thesis using meth(1,2) asset False path
      by (auto simp: trim_prefix_def has_prefix_def neq_Nil_conv)
  qed
qed

section \<open>The requests of the scenario\<close>

theorem served_requests_are_runs_witness:
  "\<exists>res db'. serve api_server api_env ''q'' logout_request db5 = Some (res, db') \<and> (\<exists>D'. run none db5 D' db' \<and> reach D' db')"
proof -
  obtain res db' where s: "serve api_server api_env ''q'' logout_request db5 = Some (res, db')"
    unfolding served by (metis surj_pair)
  from served_requests_are_runs [OF s db5_reach] s show ?thesis by auto
qed


lemma request_reads:
  "cookie sessions_request n = (if n = ''fastcas_session'' then ''abc'' else [])"
  "hq_method sessions_request = ''GET''" "hq_path sessions_request = ''/api/v1/me/sessions''" "cap_body sessions_request = sessions_request"
  by (simp_all add: request_defs cookie_def get_value_def values_of_def cap_body_def)

lemma ann_signed_in: "Session 0 ''abc'' db5 = Inr (view_session ann_session)"
  by (simp add: Session_def db5_tables scenario_simps live_session_def active_identity_def)

theorem account_api_is_protected_witness:
  "\<exists>res. serve api_server api_env ''q'' sessions_request db5 = Some (res, db5) \<and> status_of (rs_answer res) = 200
    \<and> (\<exists>s\<in>set (browser_sessions db5). s_token_hash s = Hash (cookie sessions_request ''fastcas_session'')
         \<and> live_session (en_now api_env 0) s)"
proof -
  define res where "res = fst (boundary ''q'' (mySessions api_server api_env) sessions_request db5)"
  have s: "serve api_server api_env ''q'' sessions_request db5 = Some (res, db5)" "status_of (rs_answer res) = 200"
    unfolding served res_def
    by (simp_all add: boundary_def mySessions_def authenticated_def http_simps request_reads Let_def ann_signed_in)
  have "has_prefix (hq_path sessions_request) ''/api/v1/me/''" by (simp add: request_reads has_prefix_def)
  with account_api_is_protected [OF s(1)] s show ?thesis by auto
qed


text \<open>Each of the other requests does what it asks for.\<close>

lemmas request_evals = request_defs cookie_def get_value_def values_of_def cap_body_def header_def originOK_def max_body_def
  set_value_def boundary_def http_simps Let_def

lemma ann_signs_in:
  "\<exists>t. Authenticate kdf_example 0 ''a@x.y'' ''correct horse'' p db4 = (Inr (view_identity ann), db4\<lparr>rate_limits := t\<rparr>)"
proof -
  define keys where "keys = [''login-account:a@x.y'', ''login-peer:'' @ p]"
  have "fst (allow_all 0 keys 12 (minutes 15) db4)"
    using Allow_few(1) [of db4 1 12] Allow_few(2) [of db4 1 12 0 "hd keys" "minutes 15"] Allow_few(1) [of _ 2 12]
    by (simp add: keys_def case_prod_unfold db4_tables)
  moreover obtain t where "snd (allow_all 0 keys 12 (minutes 15) db4) = db4\<lparr>rate_limits := t\<rparr>"
    using allow_all_eq by blast
  ultimately have "allow_all 0 keys 12 (minutes 15) db4 = (True, db4\<lparr>rate_limits := t\<rparr>)" by (simp add: prod_eq_iff)
  then have "Authenticate kdf_example 0 ''a@x.y'' ''correct horse'' p db4 = (Inr (view_identity ann), db4\<lparr>rate_limits := t\<rparr>)"
    using ann_password by (simp add: Authenticate_def ann_mail keys_def db4_tables first_row_simps ann_def
      Identity_def active_identity_def)
  then show ?thesis by blast
qed

theorem sessions_need_every_factor_witness:
  "\<exists>res db'. serve api_server api_env ''q'' login_request db4 = Some (res, db')
    \<and> (\<exists>s\<in>set (browser_sessions db'). s_token_hash s = Hash ''T'' \<and> s_identity_id s = ''ann'')"
proof -
  obtain res db' where s: "serve api_server api_env ''q'' login_request db4 = Some (res, db')"
    unfolding served by (metis surj_pair)
  obtain t where t: "Authenticate kdf_example 0 ''a@x.y'' ''correct horse'' ''10.0.0.1'' db4
      = (Inr (view_identity ann), db4\<lparr>rate_limits := t\<rparr>)"
    using ann_signs_in by blast
  have "\<exists>c\<in>set (rs_cookies res). ck_name c = ''fastcas_session'' \<and> ck_value c = ''T''"
    using s [unfolded served] t
    by (auto simp: request_evals login_def password_login_def signed_in_def peer_def split_host_def after_last_def before_last_def
      MFAEnabled_def db4_tables scenario_simps NewSession_def active_identity_def view_identity_def)
  then obtain c where "c \<in> set (rs_cookies res)" "ck_name c = ''fastcas_session''" "ck_value c = ''T''" by blast
  from sessions_need_every_factor [OF db4_reach s this(1,2)] this(3) s show ?thesis
    by (fastforce simp: db4_tables ann_def)
qed

theorem authorizations_need_approval_witness:
  "\<exists>res. serve api_server api_env ''q'' approve_request db7 = Some (res, db8)
    \<and> (\<exists>form session a. hq_form approve_request = Some form \<and> get_value ''auth_request_id'' form = ''r1''
         \<and> Session 0 (cookie approve_request ''fastcas_session'') db7 = Inr session
         \<and> AuthRequestByID 0 ''r1'' db7 = Inr a \<and> sessionFresh 0 a session \<and> w_identity_id session = ''ann'')"
proof -
  have session: "Session 0 ''abc'' db7 = Inr (view_session ann_session)"
    by (simp add: Session_def db7_tables scenario_simps live_session_def active_identity_def)
  have a: "AuthRequestByID 0 ''r1'' db7 = Inr (asked ''r1'' shop ''n1'')"
    by (simp add: AuthRequestByID_def db7_tables scenario_simps)
  have fresh: "sessionFresh 0 (asked ''r1'' shop ''n1'') (view_session ann_session)"
    by (simp add: sessionFresh_def asked_def ask_def)
  have completes: "CompleteAuthorization 0 ''r1'' (view_session ann_session) db7 = (Inr (), db8)"
    by (simp add: db8_def CompleteAuthorization_def db7_tables scenario_simps Identity_def active_identity_def view_session_def)
  obtain res where s: "serve api_server api_env ''q'' approve_request db7 = Some (res, db8)"
    unfolding served by (simp add: request_evals login_def approve_login_def session a fresh completes)
  have q: "request1 \<in> set (auth_requests db8)" by (simp add: db8_tables)
  show ?thesis
    using authorizations_need_approval [OF s q] s
    by (fastforce simp: db7_tables request1_def request_row_def granted_def asked_def)
qed

theorem devices_need_confirmation_witness:
  "\<exists>res. serve api_server api_env ''q'' confirm_request db22 = Some (res, db23)
    \<and> (\<exists>session. Session 0 (cookie confirm_request ''fastcas_session'') db22 = Inr session \<and> w_identity_id session = ''ann'')"
proof -
  have session: "Session 0 ''abc'' db22 = Inr (view_session ann_session)"
    by (simp add: Session_def db22_tables scenario_simps live_session_def active_identity_def)
  have code: "safeDeviceCode ''WXZZ-BCDF'' = ''WXZZ-BCDF''" "to_upper (trim_space ''WXZZ-BCDF'') = ''WXZZ-BCDF''" by code_simp+
  have completes: "ConfirmDevice 0 ''WXZZ-BCDF'' ''ann'' True db22 = (Inr (), db23)"
    by (simp add: db23_def ConfirmDevice_def code db22_tables scenario_simps device_open_def active_app_def active_identity_def)
  have "length (deviceFormProof api_server ''f'' ''WXZZ-BCDF'') \<noteq> 0" by (simp add: deviceFormProof_def length_base64_encode)
  then have proof_set: "deviceFormProof api_server ''f'' ''WXZZ-BCDF'' \<noteq> []" by auto
  obtain res where s: "serve api_server api_env ''q'' confirm_request db22 = Some (res, db23)"
    unfolding served by (simp add: request_evals deviceConfirm_def session code proof_set completes view_session_def ann_session_def)
  have d: "device1_approved \<in> set (device_authorizations db23)" by (simp add: db23_tables)
  show ?thesis
    using devices_need_confirmation [OF s d] s
    by (auto simp: db22_tables device1_approved_def device1_def)
qed


theorem console_serves_assets_witness:
  "Console ''GET'' ''/console/assets/app.js'' = ServeFile ''assets/app.js''
    \<and> (\<exists>name. ''assets/app.js'' = ''assets/'' @ name \<and> CHR ''/'' \<notin> set name)"
proof -
  have "Console ''GET'' ''/console/assets/app.js'' = ServeFile ''assets/app.js''" by code_simp
  from console_serves_assets [OF this] this show ?thesis by auto
qed

end
