(* ===== verification/Keys.thy ===== *)
theory Keys
  imports Tokens
begin

text \<open>
  \<open>internal/core/keys.go\<close> and \<open>internal/core/key_rotation.go\<close>: the directory with the signing key and
  the encryption key, its creation, loading and rotation, and the key set published for verifiers.

  A \<open>directory\<close> maps the names of its files to mode and content. The \<open>system\<close> gives what the operating
  system and the random source answer: \<open>sy_works k\<close> tells whether the \<open>k\<close>-th call of an operation
  works, \<open>sy_short\<close> how much a failing write leaves behind. The encodings of RSA keys (PKCS1 in DER and
  PEM) and of the manifest (JSON) are those of Go's packages, the record \<open>codec\<close>; \<open>codec_ok\<close> says
  that decoding inverts encoding.
\<close>

section \<open>Files, keys and encodings\<close>

unbundle bit_operations_syntax

record key_file =
  fl_mode :: "9 word"
  fl_data :: string

type_synonym directory = "string \<Rightarrow> key_file option"

record rsa_public =
  ks_n :: nat
  ks_e :: nat

record rsa_private =
  kp_public :: rsa_public
  kp_exponent :: nat

fun bit_length :: "nat \<Rightarrow> nat" where
  "bit_length n = (if n = 0 then 0 else Suc (bit_length (n div 2)))"

declare bit_length.simps [simp del]

record retained_key =
  rk_public :: string
  rk_until :: time

record key_manifest =
  km_version :: int
  km_private :: string
  km_previous :: "retained_key list"

record verification_key =
  vk_public :: rsa_public
  vk_id :: string
  vk_until :: time

record key_ring =
  kr_private :: rsa_private
  kr_key_id :: string
  kr_encryption :: string
  kr_previous :: "verification_key list"

record codec =
  cd_private :: "rsa_private \<Rightarrow> string"
  cd_parse_private :: "string \<Rightarrow> rsa_private option"
  cd_public :: "rsa_public \<Rightarrow> string"
  cd_parse_public :: "string \<Rightarrow> rsa_public option"
  cd_pem :: "string \<Rightarrow> string"
  cd_pem_decode :: "string \<Rightarrow> string option"
  cd_manifest :: "key_manifest \<Rightarrow> string"
  cd_parse_manifest :: "string \<Rightarrow> key_manifest option"

definition codec_ok :: "codec \<Rightarrow> bool" where
  "codec_ok cd = ((\<forall>k. cd_parse_private cd (cd_private cd k) = Some k)
     \<and> (\<forall>k. cd_parse_public cd (cd_public cd k) = Some k)
     \<and> (\<forall>s. cd_pem_decode cd (cd_pem cd s) = Some s)
     \<and> (\<forall>m. cd_parse_manifest cd (cd_manifest cd m) = Some m))"

record system =
  sy_works :: "nat \<Rightarrow> bool"
  sy_short :: nat
  sy_temp :: string
  sy_key :: rsa_private
  sy_encryption :: string
  sy_now :: time

text \<open>An early return: the second computation runs when the first one succeeds.\<close>

definition attempt :: "err + 'a \<Rightarrow> ('a \<Rightarrow> err + 'b) \<Rightarrow> err + 'b" where
  "attempt x f = (case x of Inl e \<Rightarrow> Inl e | Inr a \<Rightarrow> f a)"

definition need :: "string \<Rightarrow> 'a option \<Rightarrow> err + 'a" where
  "need msg x = (case x of None \<Rightarrow> Inl (Failure msg) | Some a \<Rightarrow> Inr a)"

definition check :: "string \<Rightarrow> bool \<Rightarrow> err + unit" where
  "check msg P = (if P then Inr () else Inl (Failure msg))"

section \<open>Loading\<close>

definition key_id :: "string \<Rightarrow> string" where
  "key_id der = take 24 (Hash der)"

text \<open>\<open>os.Stat\<close> and the test of the permission bits of group and others.\<close>

definition stat_private :: "bool \<Rightarrow> directory \<Rightarrow> string \<Rightarrow> err + key_file" where
  "stat_private works dir name =
     attempt (check ''stat'' works) (\<lambda>_.
     attempt (need ''file does not exist'' (dir name)) (\<lambda>f.
     attempt (check ''key files must not be readable by group or others'' (fl_mode f AND 0x3F = 0)) (\<lambda>_.
     Inr f)))"

fun retained_keys :: "codec \<Rightarrow> retained_key list \<Rightarrow> err + verification_key list" where
  "retained_keys cd [] = Inr []"
| "retained_keys cd (old # olds) =
     attempt (need ''x509'' (cd_parse_public cd (rk_public old))) (\<lambda>pub.
     attempt (check ''invalid retained verification key'' (2048 \<le> bit_length (ks_n pub) \<and> rk_until old \<noteq> zero_time)) (\<lambda>_.
     attempt (retained_keys cd olds) (\<lambda>ks.
     Inr (\<lparr>vk_public = pub, vk_id = key_id (rk_public old), vk_until = rk_until old\<rparr> # ks))))"

text \<open>The private key and the retained keys of the signing file, which is the manifest if there is one.\<close>

definition signing_file :: "directory \<Rightarrow> string" where
  "signing_file dir = (if dir ''keyring.json'' = None then ''signing.pem'' else ''keyring.json'')"

definition read_manifest :: "codec \<Rightarrow> string \<Rightarrow> string \<Rightarrow> err + key_manifest" where
  "read_manifest cd name data =
     (if name = ''keyring.json'' then
        attempt (need ''json'' (cd_parse_manifest cd data)) (\<lambda>m.
        attempt (check ''unsupported key manifest version'' (km_version m = 1)) (\<lambda>_. Inr m))
      else Inr \<lparr>km_version = 0, km_private = data, km_previous = []\<rparr>)"

definition LoadKeys :: "codec \<Rightarrow> (nat \<Rightarrow> bool) \<Rightarrow> directory \<Rightarrow> err + key_ring" where
  "LoadKeys cd works dir =
     attempt (check ''stat'' (works 0)) (\<lambda>_.
     attempt (stat_private (works 1) dir (signing_file dir)) (\<lambda>signing.
     attempt (stat_private (works 2) dir ''encryption.key'') (\<lambda>encryption.
     attempt (check ''read'' (works 3)) (\<lambda>_.
     attempt (read_manifest cd (signing_file dir) (fl_data signing)) (\<lambda>manifest.
     attempt (need ''invalid private key'' (cd_pem_decode cd (km_private manifest))) (\<lambda>block.
     attempt (need ''x509'' (cd_parse_private cd block)) (\<lambda>key.
     attempt (check ''RSA key must be at least 2048 bits'' (2048 \<le> bit_length (ks_n (kp_public key)))) (\<lambda>_.
     attempt (check ''read'' (works 4)) (\<lambda>_.
     attempt (check ''encryption key must have 32 bytes'' (length (fl_data encryption) = 32)) (\<lambda>_.
     attempt (retained_keys cd (km_previous manifest)) (\<lambda>previous.
     Inr \<lparr>kr_private = key, kr_key_id = key_id (cd_public cd (kp_public key)),
       kr_encryption = fl_data encryption, kr_previous = previous\<rparr>)))))))))))"

section \<open>Creating\<close>

text \<open>
  A new file of mode 0600, in hexadecimal 180 (\<open>O_EXCL\<close>: an existing one is an error), written, synced and closed: the
  calls \<open>k\<close> to \<open>k + 3\<close>. A write that fails may leave a part of the data.
\<close>

definition write_new :: "system \<Rightarrow> nat \<Rightarrow> string \<Rightarrow> string \<Rightarrow> directory \<Rightarrow> (err + unit) \<times> directory" where
  "write_new sy k name data dir =
     (if \<not> sy_works sy k \<or> dir name \<noteq> None then (Inl (Failure ''open''), dir)
      else (check ''write'' (sy_works sy (k + 1) \<and> sy_works sy (k + 2) \<and> sy_works sy (k + 3)),
        dir(name \<mapsto> \<lparr>fl_mode = 0x180, fl_data = (if sy_works sy (k + 1) then data else take (sy_short sy) data)\<rparr>)))"

fun write_all :: "system \<Rightarrow> nat \<Rightarrow> (string \<times> string) list \<Rightarrow> directory \<Rightarrow> (err + unit) \<times> directory" where
  "write_all sy k [] dir = (Inr (), dir)"
| "write_all sy k ((name, data) # files) dir =
     (case write_new sy k name data dir of
        (Inl e, dir) \<Rightarrow> (Inl e, dir)
      | (Inr _, dir) \<Rightarrow> write_all sy (k + 4) files dir)"

text \<open>The two files are written in the order of a Go map: \<open>swapped\<close> is either order.\<close>

definition InitializeKeys :: "codec \<Rightarrow> system \<Rightarrow> bool \<Rightarrow> directory option \<Rightarrow> (err + unit) \<times> directory option" where
  "InitializeKeys cd sy swapped existing =
     (if \<not> sy_works sy 0 \<or> \<not> sy_works sy 1 \<or> existing \<noteq> None then (Inl (Failure ''mkdir''), existing)
      else if \<not> sy_works sy 2 \<or> \<not> sy_works sy 3 then (Inl (Failure ''rand''), Some Map.empty)
      else let files = [(''signing.pem'', cd_pem cd (cd_private cd (sy_key sy))), (''encryption.key'', sy_encryption sy)] in
        case write_all sy 4 (if swapped then rev files else files) Map.empty of
          (result, dir) \<Rightarrow> (result, Some dir))"

section \<open>Rotating\<close>

definition rotated_manifest :: "codec \<Rightarrow> system \<Rightarrow> time \<Rightarrow> bool \<Rightarrow> key_ring \<Rightarrow> key_manifest" where
  "rotated_manifest cd sy retain emergency ring =
     \<lparr>km_version = 1, km_private = cd_pem cd (cd_private cd (sy_key sy)),
       km_previous = (if emergency then []
         else \<lparr>rk_public = cd_public cd (kp_public (kr_private ring)), rk_until = sy_now sy + retain\<rparr>
           # map (\<lambda>old. \<lparr>rk_public = cd_public cd (vk_public old), rk_until = vk_until old\<rparr>)
               (filter (\<lambda>old. sy_now sy < vk_until old) (kr_previous ring)))\<rparr>"

text \<open>
  What \<open>RotateKeys\<close> does under its lock: the result and the directory, before the deferred calls. The
  calls 0 to 4 are those of \<open>LoadKeys\<close>, 5 draws the key, 6 to 9 write the temporary file, 10 renames it,
  11 and 12 sync the directory, 13 removes the old file and 14 syncs again; 15 takes the lock. \<open>os.Rename\<close> replaces its target at once.
\<close>

definition rotate_locked :: "codec \<Rightarrow> system \<Rightarrow> time \<Rightarrow> bool \<Rightarrow> directory \<Rightarrow> (err + unit) \<times> directory" where
  "rotate_locked cd sy retain emergency dir =
     (case attempt (LoadKeys cd (sy_works sy) dir) (\<lambda>ring. attempt (check ''rand'' (sy_works sy 5)) (\<lambda>_. Inr ring)) of
        Inl e \<Rightarrow> (Inl e, dir)
      | Inr ring \<Rightarrow>
        (case write_new sy 6 (sy_temp sy) (cd_manifest cd (rotated_manifest cd sy retain emergency ring)) dir of
          (Inl e, dir) \<Rightarrow> (Inl e, dir)
        | (Inr _, dir) \<Rightarrow>
          if \<not> sy_works sy 10 then (Inl (Failure ''rename''), dir)
          else let dir = (dir(''keyring.json'' := dir (sy_temp sy)))(sy_temp sy := None) in
          if \<not> sy_works sy 11 \<or> \<not> sy_works sy 12 then (Inl (Failure ''sync''), dir)
          else if \<not> sy_works sy 13 then (Inl (Failure ''remove''), dir)
          else (check ''sync'' (sy_works sy 14), dir(''signing.pem'' := None))))"

text \<open>The deferred calls remove the temporary file and the lock; a crash leaves both.\<close>

definition clean_up :: "system \<Rightarrow> directory \<Rightarrow> directory" where
  "clean_up sy dir = dir(sy_temp sy := None, ''rotation.lock'' := None)"

definition RotateKeys :: "codec \<Rightarrow> system \<Rightarrow> time \<Rightarrow> bool \<Rightarrow> directory \<Rightarrow> (err + unit) \<times> directory" where
  "RotateKeys cd sy retain emergency dir =
     (if \<not> emergency \<and> retain < minutes 10 then (Inl (Failure ''retention''), dir)
      else if \<not> sy_works sy 15 \<or> dir ''rotation.lock'' \<noteq> None then (Inl (Failure ''lock''), dir)
      else case rotate_locked cd sy retain emergency (dir(''rotation.lock'' \<mapsto> \<lparr>fl_mode = 0x180, fl_data = []\<rparr>)) of
        (result, dir) \<Rightarrow> (result, clean_up sy dir))"

section \<open>Publishing\<close>

definition SigningKey :: "key_ring option \<Rightarrow> err + (rsa_private \<times> string)" where
  "SigningKey keys =
     (case keys of None \<Rightarrow> Inl (Failure ''signing key unavailable'') | Some ring \<Rightarrow> Inr (kr_private ring, kr_key_id ring))"

definition KeySet :: "time \<Rightarrow> key_ring option \<Rightarrow> err + (rsa_public \<times> string) list" where
  "KeySet wall keys =
     (case keys of
        None \<Rightarrow> Inl (Failure ''signing key unavailable'')
      | Some ring \<Rightarrow> Inr ((kp_public (kr_private ring), kr_key_id ring)
          # map (\<lambda>k. (vk_public k, vk_id k)) (filter (\<lambda>k. wall < vk_until k) (kr_previous ring))))"

section \<open>What loading looks at\<close>

lemma attempt_Inr: "attempt x f = Inr b \<longleftrightarrow> (\<exists>a. x = Inr a \<and> f a = Inr b)"
  by (auto simp: attempt_def split: sum.splits)

lemma need_Inr: "need msg x = Inr a \<longleftrightarrow> x = Some a"
  by (auto simp: need_def split: option.splits)

lemma check_Inr: "check msg P = Inr u \<longleftrightarrow> P"
  by (auto simp: check_def)

lemmas early_returns = attempt_Inr need_Inr check_Inr

abbreviation load :: "codec \<Rightarrow> directory \<Rightarrow> err + key_ring" where
  "load cd dir \<equiv> LoadKeys cd (\<lambda>_. True) dir"

lemma stat_private_Inr:
  "stat_private works dir name = Inr f \<longleftrightarrow> works \<and> dir name = Some f \<and> fl_mode f AND 0x3F = 0"
  by (auto simp: stat_private_def early_returns)

lemma LoadKeys_Inr:
  "LoadKeys cd works dir = Inr ring \<longleftrightarrow> works 0 \<and> works 1 \<and> works 2 \<and> works 3 \<and> works 4 \<and> load cd dir = Inr ring"
  by (auto simp: LoadKeys_def early_returns stat_private_Inr)

lemma load_cong:
  assumes "d ''keyring.json'' = dir ''keyring.json''" "d ''encryption.key'' = dir ''encryption.key''"
    and "dir ''keyring.json'' = None \<Longrightarrow> d ''signing.pem'' = dir ''signing.pem''"
  shows "load cd d = load cd dir"
  using assms by (auto simp: LoadKeys_def signing_file_def stat_private_def)

text \<open>A ring that was loaded has keys of at least 2048 bits and an encryption key of 32 bytes.\<close>

lemma retained_keys_sizes:
  "retained_keys cd olds = Inr ks \<Longrightarrow> k \<in> set ks \<Longrightarrow> 2048 \<le> bit_length (ks_n (vk_public k))"
  by (induction olds arbitrary: ks) (auto simp: early_returns)

lemma load_sizes:
  assumes "load cd dir = Inr ring"
  shows "2048 \<le> bit_length (ks_n (kp_public (kr_private ring)))" "length (kr_encryption ring) = 32"
    "k \<in> set (kr_previous ring) \<Longrightarrow> 2048 \<le> bit_length (ks_n (vk_public k))"
    "\<exists>f. dir ''encryption.key'' = Some f \<and> fl_data f = kr_encryption ring \<and> fl_mode f AND 0x3F = 0"
  using assms by (auto simp: LoadKeys_def early_returns stat_private_Inr intro: retained_keys_sizes)

section \<open>Loading what was written\<close>

definition rotated_ring :: "codec \<Rightarrow> system \<Rightarrow> time \<Rightarrow> bool \<Rightarrow> key_ring \<Rightarrow> key_ring" where
  "rotated_ring cd sy retain emergency ring =
     \<lparr>kr_private = sy_key sy, kr_key_id = key_id (cd_public cd (kp_public (sy_key sy))), kr_encryption = kr_encryption ring,
       kr_previous = (if emergency then []
         else \<lparr>vk_public = kp_public (kr_private ring), vk_id = key_id (cd_public cd (kp_public (kr_private ring))),
              vk_until = sy_now sy + retain\<rparr>
           # map (\<lambda>k. k\<lparr>vk_id := key_id (cd_public cd (vk_public k))\<rparr>)
               (filter (\<lambda>k. sy_now sy < vk_until k) (kr_previous ring)))\<rparr>"

lemma retained_keys_written:
  assumes "codec_ok cd" "\<And>k. k \<in> set ks \<Longrightarrow> 2048 \<le> bit_length (ks_n (vk_public k)) \<and> vk_until k \<noteq> zero_time"
  shows "retained_keys cd (map (\<lambda>k. \<lparr>rk_public = cd_public cd (vk_public k), rk_until = vk_until k\<rparr>) ks)
    = Inr (map (\<lambda>k. k\<lparr>vk_id := key_id (cd_public cd (vk_public k))\<rparr>) ks)"
  using assms by (induction ks) (auto simp: codec_ok_def attempt_def need_def check_def)

lemma load_rotated:
  assumes "codec_ok cd" "2048 \<le> bit_length (ks_n (kp_public (sy_key sy)))" "zero_time < sy_now sy" "emergency \<or> 0 \<le> retain"
    and "load cd dir = Inr ring" "d ''encryption.key'' = dir ''encryption.key''"
    and "d ''keyring.json'' = Some \<lparr>fl_mode = 0x180, fl_data = cd_manifest cd (rotated_manifest cd sy retain emergency ring)\<rparr>"
  shows "load cd d = Inr (rotated_ring cd sy retain emergency ring)"
proof -
  obtain f where f: "dir ''encryption.key'' = Some f" "fl_data f = kr_encryption ring" "fl_mode f AND 0x3F = 0"
    using load_sizes(4) [OF assms(5)] by blast
  define current where "current = \<lparr>vk_public = kp_public (kr_private ring), vk_id = key_id (cd_public cd (kp_public (kr_private ring))),
    vk_until = sy_now sy + retain\<rparr>"
  have "retained_keys cd (km_previous (rotated_manifest cd sy retain emergency ring)) = Inr (kr_previous (rotated_ring cd sy retain emergency ring))"
  proof (cases emergency)
    case False
    then have "2048 \<le> bit_length (ks_n (vk_public k)) \<and> vk_until k \<noteq> zero_time"
      if "k \<in> set (current # filter (\<lambda>k. sy_now sy < vk_until k) (kr_previous ring))" for k
      using that assms(3,4) load_sizes(1,3) [OF assms(5)] by (auto simp: current_def)
    then have "retained_keys cd (map (\<lambda>k. \<lparr>rk_public = cd_public cd (vk_public k), rk_until = vk_until k\<rparr>)
          (current # filter (\<lambda>k. sy_now sy < vk_until k) (kr_previous ring)))
        = Inr (map (\<lambda>k. k\<lparr>vk_id := key_id (cd_public cd (vk_public k))\<rparr>)
          (current # filter (\<lambda>k. sy_now sy < vk_until k) (kr_previous ring)))"
      by (intro retained_keys_written [OF assms(1)])
    then show ?thesis using False by (simp only: rotated_manifest_def rotated_ring_def) (simp add: current_def)
  qed (simp add: rotated_manifest_def rotated_ring_def)
  moreover have "(0x180 :: 9 word) AND 0x3F = 0" by simp
  ultimately show ?thesis
    using assms(1,2,6,7) f load_sizes(2) [OF assms(5)]
    by (simp add: LoadKeys_def attempt_def need_def check_def stat_private_def signing_file_def read_manifest_def codec_ok_def)
      (simp add: rotated_manifest_def rotated_ring_def)
qed

section \<open>Rotation\<close>

text \<open>The names \<open>CreateTemp\<close> may choose.\<close>

definition temp_ok :: "string \<Rightarrow> bool" where
  "temp_ok name = (name \<notin> {''keyring.json'', ''signing.pem'', ''encryption.key'', ''rotation.lock''})"

definition system_ok :: "system \<Rightarrow> bool" where
  "system_ok sy = (2048 \<le> bit_length (ks_n (kp_public (sy_key sy))) \<and> length (sy_encryption sy) = 32
     \<and> zero_time < sy_now sy \<and> temp_ok (sy_temp sy))"

lemma clean_up_loads: "temp_ok (sy_temp sy) \<Longrightarrow> load cd (clean_up sy dir) = load cd dir"
  by (rule load_cong) (auto simp: clean_up_def temp_ok_def)

lemma write_new_Inr:
  "write_new sy k name data dir = (Inr u, d) \<longleftrightarrow> sy_works sy k \<and> sy_works sy (k + 1) \<and> sy_works sy (k + 2) \<and> sy_works sy (k + 3)
     \<and> dir name = None \<and> d = dir(name \<mapsto> \<lparr>fl_mode = 0x180, fl_data = data\<rparr>)"
  by (auto simp: write_new_def check_def)

lemma write_new_other: "write_new sy k name data dir = (x, d) \<Longrightarrow> n \<noteq> name \<Longrightarrow> d n = dir n"
  by (auto simp: write_new_def split: if_splits)

text \<open>Whatever call fails, the directory under the lock loads the old ring or the new one, the new one after a success.\<close>

lemma rotate_locked_loads:
  assumes "codec_ok cd" "system_ok sy" "emergency \<or> 0 \<le> retain" "load cd dir = Inr ring"
    and "rotate_locked cd sy retain emergency dir = (result, d)"
  shows "load cd d = Inr ring \<and> result \<noteq> Inr () \<or> load cd d = Inr (rotated_ring cd sy retain emergency ring)"
    and "result = Inr () \<Longrightarrow> d ''signing.pem'' = None"
proof -
  have temp: "sy_temp sy \<noteq> ''keyring.json''" "sy_temp sy \<noteq> ''signing.pem''" "sy_temp sy \<noteq> ''encryption.key''"
    using assms(2) by (auto simp: system_ok_def temp_ok_def)
  define m where "m = cd_manifest cd (rotated_manifest cd sy retain emergency ring)"
  obtain written dir1 where w: "write_new sy 6 (sy_temp sy) m dir = (written, dir1)" by (cases "write_new sy 6 (sy_temp sy) m dir")
  have same: "load cd dir1 = Inr ring"
    using load_cong [of dir1 dir cd] write_new_other [OF w] temp assms(4) by simp
  define dir2 where "dir2 = (dir1(''keyring.json'' := dir1 (sy_temp sy)))(sy_temp sy := None)"
  have new: "load cd dir2 = Inr (rotated_ring cd sy retain emergency ring)"
      "load cd (dir2(''signing.pem'' := None)) = Inr (rotated_ring cd sy retain emergency ring)" if "written = Inr ()"
    using load_rotated [OF assms(1) _ _ assms(3,4)] that w temp assms(2)
    by (auto simp: dir2_def m_def write_new_Inr system_ok_def)
  have loaded: "r = ring" if "LoadKeys cd (sy_works sy) dir = Inr r" for r
    using LoadKeys_Inr [THEN iffD1, OF that] assms(4) by simp
  consider "result \<noteq> Inr ()" "d = dir \<or> d = dir1" | "written = Inr ()" "d = dir2" "result \<noteq> Inr ()"
    | "written = Inr ()" "d = dir2(''signing.pem'' := None)"
    using assms(4,5) w unfolding rotate_locked_def
    by (auto simp: attempt_def check_def m_def dir2_def Let_def split: sum.splits if_splits prod.splits dest!: loaded)
  note cases = this
  show "load cd d = Inr ring \<and> result \<noteq> Inr () \<or> load cd d = Inr (rotated_ring cd sy retain emergency ring)"
    using cases new same assms(4) by cases auto
  show "d ''signing.pem'' = None" if "result = Inr ()" using cases that by cases auto
qed

end
