(* ===== verification/Key_Guarantees.thy ===== *)
theory Key_Guarantees
  imports Keys "HOL-Library.Countable"
begin

text \<open>
  Guarantees of the key directory: what is created can be loaded, a rotation is atomic whatever call
  fails and wherever it crashes, and verifiers keep the keys they need.
\<close>

section \<open>Creating a directory\<close>

lemma load_created:
  assumes "codec_ok cd" "system_ok sy" "InitializeKeys cd sy swapped existing = (Inr (), dir)"
  shows "existing = None \<and> (\<exists>d. dir = Some d \<and> d ''rotation.lock'' = None \<and> load cd d
    = Inr \<lparr>kr_private = sy_key sy, kr_key_id = key_id (cd_public cd (kp_public (sy_key sy))),
           kr_encryption = sy_encryption sy, kr_previous = []\<rparr>)"
proof -
  define s where "s = \<lparr>fl_mode = 0x180, fl_data = cd_pem cd (cd_private cd (sy_key sy))\<rparr>"
  define e where "e = \<lparr>fl_mode = 0x180, fl_data = sy_encryption sy\<rparr>"
  have "existing = None" using assms(3) by (auto simp: InitializeKeys_def split: if_splits)
  moreover obtain d where d: "dir = Some d" "d ''signing.pem'' = Some s" "d ''encryption.key'' = Some e" "d ''keyring.json'' = None"
      "d ''rotation.lock'' = None"
    using assms(3) by (cases swapped) (auto simp: InitializeKeys_def Let_def write_new_Inr s_def e_def split: if_splits prod.splits sum.splits)
  moreover have "load cd d = Inr \<lparr>kr_private = sy_key sy, kr_key_id = key_id (cd_public cd (kp_public (sy_key sy))),
           kr_encryption = sy_encryption sy, kr_previous = []\<rparr>"
    using assms(1,2) d by (simp add: LoadKeys_def attempt_def need_def check_def stat_private_def signing_file_def read_manifest_def
      codec_ok_def system_ok_def s_def e_def)
  ultimately show ?thesis by simp
qed

text \<open>Keys that were created can be loaded: after a successful \<open>InitializeKeys\<close>, which needs a directory that did not exist,
\<open>LoadKeys\<close> gives the drawn keys. An existing directory is refused and left as it is.\<close>

theorem keys_round_trip:
  assumes "codec_ok cd" "system_ok sy"
  shows "(InitializeKeys cd sy swapped existing = (Inr (), dir) \<longrightarrow> existing = None \<and> (\<exists>d. dir = Some d \<and> LoadKeys cd (\<lambda>_. True) d
      = Inr \<lparr>kr_private = sy_key sy, kr_key_id = take 24 (Hash (cd_public cd (kp_public (sy_key sy)))),
             kr_encryption = sy_encryption sy, kr_previous = []\<rparr>))
    \<and> ((\<forall>k. sy_works sy k) \<and> existing = None \<longrightarrow> fst (InitializeKeys cd sy swapped existing) = Inr ())
    \<and> (existing \<noteq> None \<longrightarrow> (\<exists>e. InitializeKeys cd sy swapped existing = (Inl e, existing)))"
proof -
  have "fst (InitializeKeys cd sy swapped existing) = Inr ()" if "\<forall>k. sy_works sy k" "existing = None"
    using that by (cases swapped) (auto simp: InitializeKeys_def Let_def write_new_def check_def split: prod.splits)
  moreover have "\<exists>e. InitializeKeys cd sy swapped existing = (Inl e, existing)" if "existing \<noteq> None"
    using that by (simp add: InitializeKeys_def)
  ultimately show ?thesis using load_created [OF assms, of swapped existing dir] by (auto simp: key_id_def)
qed

section \<open>The life of a directory\<close>

text \<open>
  Rotations that return, rotations that crash in any call and leave their files, and an operator who removes the lock of a
  crashed one.
\<close>

inductive key_directory :: "codec \<Rightarrow> string \<Rightarrow> directory \<Rightarrow> bool" for cd encryption where
  created: "InitializeKeys cd sy swapped None = (Inr (), Some dir) \<Longrightarrow> system_ok sy \<Longrightarrow> sy_encryption sy = encryption
    \<Longrightarrow> key_directory cd encryption dir"
| rotated: "key_directory cd encryption dir \<Longrightarrow> system_ok sy
    \<Longrightarrow> key_directory cd encryption (snd (RotateKeys cd sy retain emergency dir))"
| crashed: "key_directory cd encryption dir \<Longrightarrow> system_ok sy \<Longrightarrow> emergency \<or> minutes 10 \<le> retain
    \<Longrightarrow> key_directory cd encryption (snd (rotate_locked cd sy retain emergency
          (dir(''rotation.lock'' \<mapsto> \<lparr>fl_mode = 0x180, fl_data = []\<rparr>))))"
| unlocked: "key_directory cd encryption dir \<Longrightarrow> key_directory cd encryption (dir(''rotation.lock'' := None))"

lemma lock_loads: "load cd (dir(''rotation.lock'' := f)) = load cd dir"
  by (rule load_cong) simp_all

lemma rotate_locked_result:
  assumes "codec_ok cd" "system_ok sy" "emergency \<or> minutes 10 \<le> retain" "load cd dir = Inr ring"
  shows "load cd (snd (rotate_locked cd sy retain emergency (dir(''rotation.lock'' := f))))
    \<in> {Inr ring, Inr (rotated_ring cd sy retain emergency ring)}"
proof -
  have "emergency \<or> 0 \<le> retain" using assms(3) by auto
  from rotate_locked_loads(1) [OF assms(1,2) this, of "dir(''rotation.lock'' := f)" ring] assms(4) show ?thesis
    unfolding lock_loads by (metis insertCI prod.collapse)
qed

lemma RotateKeys_result:
  assumes "codec_ok cd" "system_ok sy" "load cd dir = Inr ring"
  shows "load cd (snd (RotateKeys cd sy retain emergency dir)) \<in> {Inr ring, Inr (rotated_ring cd sy retain emergency ring)}"
proof (cases "\<not> emergency \<and> retain < minutes 10 \<or> \<not> sy_works sy 15 \<or> dir ''rotation.lock'' \<noteq> None")
  case True
  then show ?thesis using assms(3) by (auto simp: RotateKeys_def)
next
  case False
  then have "emergency \<or> minutes 10 \<le> retain" by auto
  from rotate_locked_result [OF assms(1,2) this assms(3), of "Some \<lparr>fl_mode = 0x180, fl_data = []\<rparr>"] show ?thesis
    using False clean_up_loads [of sy cd] assms(2)
    by (auto simp: RotateKeys_def system_ok_def split: prod.splits)
qed

text \<open>C20: At every point of its life, after any number of rotations that succeeded, failed or crashed, the key directory loads, and
the encryption key is the one it was created with.\<close>

theorem key_directory_always_loads:
  assumes "codec_ok cd" "key_directory cd encryption dir"
  shows "\<exists>ring. LoadKeys cd (\<lambda>_. True) dir = Inr ring \<and> kr_encryption ring = encryption"
  using assms(2)
proof induction
  case (created sy swapped dir)
  with load_created [OF assms(1) created(2,1)] show ?case by auto
next
  case (rotated dir sy retain emergency)
  then obtain ring where "load cd dir = Inr ring" "kr_encryption ring = encryption" by blast
  with RotateKeys_result [OF assms(1) rotated(2), of dir ring retain emergency] show ?case by (auto simp: rotated_ring_def)
next
  case (crashed dir sy emergency retain)
  then obtain ring where "load cd dir = Inr ring" "kr_encryption ring = encryption" by blast
  with rotate_locked_result [OF assms(1) crashed(2,3), of dir ring "Some \<lparr>fl_mode = 0x180, fl_data = []\<rparr>"] show ?case
    by (auto simp: rotated_ring_def)
next
  case (unlocked dir)
  from unlocked.IH show ?case unfolding lock_loads .
qed

definition published :: "time \<Rightarrow> key_ring \<Rightarrow> rsa_public list" where
  "published wall ring = map vk_public (filter (\<lambda>k. wall < vk_until k) (kr_previous ring))"

lemma KeySet_published:
  "KeySet wall (Some ring) = Inr ((kp_public (kr_private ring), kr_key_id ring)
     # map (\<lambda>k. (vk_public k, vk_id k)) (filter (\<lambda>k. wall < vk_until k) (kr_previous ring)))"
  "fst ` set (map (\<lambda>k. (vk_public k, vk_id k)) (filter (\<lambda>k. wall < vk_until k) (kr_previous ring))) = set (published wall ring)"
  by (simp_all add: KeySet_def published_def image_image)

lemma published_rotated:
  assumes "sy_now sy \<le> wall"
  shows "published wall (rotated_ring cd sy retain emergency ring) = (if emergency then []
    else (if wall < sy_now sy + retain then [kp_public (kr_private ring)] else []) @ published wall ring)"
proof -
  have "(sy_now sy < vk_until k \<and> wall < vk_until k) = (wall < vk_until k)" for k :: verification_key using assms by auto
  then show ?thesis by (simp add: published_def rotated_ring_def filter_map o_def)
qed

lemma rotated_ring_key: "kp_public (kr_private (rotated_ring cd sy retain emergency ring)) = kp_public (sy_key sy)"
  by (simp add: rotated_ring_def)

text \<open>C19: A rotation is all or nothing: it loads the old ring after a failure, or the new one, and a success leaves no old private
key. The new key set has the new key; without an emergency it also has the old key and every key that was still published, for
as long as each is retained, which is ten minutes for the old key at least. In an emergency it has the new key alone.\<close>

theorem rotation_keeps_verifiers:
  assumes "codec_ok cd" "system_ok sy" "LoadKeys cd (\<lambda>_. True) dir = Inr ring"
    and "RotateKeys cd sy retain emergency dir = (result, dir')" "sy_now sy \<le> wall"
  shows "(result \<noteq> Inr () \<and> LoadKeys cd (\<lambda>_. True) dir' = Inr ring)
    \<or> (\<exists>ring' keys keys'. LoadKeys cd (\<lambda>_. True) dir' = Inr ring' \<and> (result = Inr () \<longrightarrow> dir' ''signing.pem'' = None)
        \<and> KeySet wall (Some ring) = Inr keys \<and> KeySet wall (Some ring') = Inr keys'
        \<and> kp_public (sy_key sy) \<in> fst ` set keys'
        \<and> (emergency \<longrightarrow> fst ` set keys' = {kp_public (sy_key sy)})
        \<and> (\<not> emergency \<longrightarrow> minutes 10 \<le> retain
             \<and> fst ` set (tl keys) \<subseteq> fst ` set keys' \<and> (wall < sy_now sy + retain \<longrightarrow> fst ` set keys \<subseteq> fst ` set keys')))"
proof (cases "\<not> emergency \<and> retain < minutes 10 \<or> \<not> sy_works sy 15 \<or> dir ''rotation.lock'' \<noteq> None")
  case True
  then show ?thesis using assms(3,4) by (auto simp: RotateKeys_def split: if_splits)
next
  case False
  define locked where "locked = dir(''rotation.lock'' \<mapsto> \<lparr>fl_mode = 0x180, fl_data = []\<rparr>)"
  obtain d where d: "rotate_locked cd sy retain emergency locked = (result, d)" "dir' = clean_up sy d"
    using False assms(4) by (auto simp: RotateKeys_def locked_def split: prod.splits if_splits)
  have temp: "temp_ok (sy_temp sy)" using assms(2) by (simp add: system_ok_def)
  have "load cd locked = Inr ring" using assms(3) lock_loads by (simp add: locked_def)
  moreover have "emergency \<or> 0 \<le> retain" using False by auto
  ultimately have r: "load cd d = Inr ring \<and> result \<noteq> Inr () \<or> load cd d = Inr (rotated_ring cd sy retain emergency ring)"
      "result = Inr () \<Longrightarrow> d ''signing.pem'' = None"
    using rotate_locked_loads [OF assms(1,2) _ _ d(1)] by blast+
  then have loads: "load cd dir' = Inr ring \<and> result \<noteq> Inr () \<or> load cd dir' = Inr (rotated_ring cd sy retain emergency ring)"
      "result = Inr () \<longrightarrow> dir' ''signing.pem'' = None"
    using clean_up_loads [OF temp, of cd d] temp by (auto simp: d(2) clean_up_def)
  show ?thesis using loads(1)
  proof (elim disjE)
    assume "load cd dir' = Inr ring \<and> result \<noteq> Inr ()"
    then show ?thesis by simp
  next
    assume new: "load cd dir' = Inr (rotated_ring cd sy retain emergency ring)"
    show ?thesis
      by (rule disjI2, rule exI, rule exI, rule exI, intro conjI, rule new, rule loads(2), (rule KeySet_published(1))+)
        (use False in \<open>auto simp: KeySet_published(2) published_rotated [OF assms(5)] rotated_ring_key simp del: set_map\<close>)
  qed
qed

section \<open>A directory\<close>

text \<open>
  Encodings in unary, of the natural number that codes a value. With them the hypotheses of the theorems above hold for two keys
  of 2048 bits.
\<close>

definition unary :: "'a::countable \<Rightarrow> string" where
  "unary x = replicate (to_nat x) CHR ''1''"

definition read_unary :: "string \<Rightarrow> 'a::countable" where
  "read_unary s = from_nat (length s)"

lemma read_unary [simp]: "read_unary (unary x) = x"
  by (simp add: read_unary_def unary_def)

definition public_of :: "nat \<times> nat \<Rightarrow> rsa_public" where
  "public_of p = \<lparr>ks_n = fst p, ks_e = snd p\<rparr>"

definition unary_codec :: codec where
  "unary_codec = \<lparr>cd_private = (\<lambda>k. unary (ks_n (kp_public k), ks_e (kp_public k), kp_exponent k)),
     cd_parse_private = (\<lambda>s. case read_unary s of (n, e, d) \<Rightarrow> Some \<lparr>kp_public = public_of (n, e), kp_exponent = d\<rparr>),
     cd_public = (\<lambda>k. unary (ks_n k, ks_e k)), cd_parse_public = (\<lambda>s. Some (public_of (read_unary s))),
     cd_pem = id, cd_pem_decode = Some,
     cd_manifest = (\<lambda>m. unary (km_version m, km_private m, map (\<lambda>k. (rk_public k, rk_until k)) (km_previous m))),
     cd_parse_manifest = (\<lambda>s. case read_unary s of (v, p, ks) \<Rightarrow> Some \<lparr>km_version = v, km_private = p,
       km_previous = map (\<lambda>(k, t). \<lparr>rk_public = k, rk_until = t\<rparr>) ks\<rparr>)\<rparr>"

lemma retained_key_eta: "\<lparr>rk_public = rk_public k, rk_until = rk_until k\<rparr> = k"
  by (cases k) simp

lemma unary_codec_ok: "codec_ok unary_codec"
  by (simp add: codec_ok_def unary_codec_def public_of_def o_def retained_key_eta)

lemma bit_length_power: "bit_length (2 ^ n) = Suc n"
proof (induction n)
  case 0
  then show ?case by (simp add: bit_length.simps [of "Suc 0"] bit_length.simps [of 0])
next
  case (Suc n)
  then show ?case by (simp add: bit_length.simps [of "2 * 2 ^ n"])
qed

definition modulus :: nat where "modulus = 2 ^ 2047"

lemma bit_length_modulus [simp]: "bit_length modulus = 2048"
  using bit_length_power [of 2047] by (simp add: modulus_def del: power_numeral)

definition working :: "nat \<Rightarrow> time \<Rightarrow> system" where
  "working e now = \<lparr>sy_works = (\<lambda>_. True), sy_short = 0, sy_temp = ''.keyring-1'',
     sy_key = \<lparr>kp_public = \<lparr>ks_n = modulus, ks_e = e\<rparr>, kp_exponent = 1\<rparr>, sy_encryption = replicate 32 CHR ''e'', sy_now = now\<rparr>"

lemma working_ok: "0 \<le> now \<Longrightarrow> system_ok (working e now)"
  by (simp add: system_ok_def working_def temp_ok_def zero_time_def)

definition fresh_directory :: directory where
  "fresh_directory = coalesce (snd (InitializeKeys unary_codec (working 3 0) False None)) Map.empty"

lemma fresh_created: "InitializeKeys unary_codec (working 3 0) False None = (Inr (), Some fresh_directory)"
  by (simp add: fresh_directory_def InitializeKeys_def Let_def write_new_def check_def working_def)

theorem keys_round_trip_witness:
  "\<exists>ring. LoadKeys unary_codec (\<lambda>_. True) fresh_directory = Inr ring \<and> kr_private ring = sy_key (working 3 0)"
  using keys_round_trip [OF unary_codec_ok working_ok, of 0 3 False None "Some fresh_directory"] fresh_created by auto

theorem key_directory_always_loads_witness:
  "\<exists>ring. LoadKeys unary_codec (\<lambda>_. True)
      (snd (RotateKeys unary_codec ((working 5 1)\<lparr>sy_works := (\<lambda>k. k \<noteq> 12)\<rparr>) (hours 24) False fresh_directory)) = Inr ring
    \<and> kr_encryption ring = replicate 32 CHR ''e''"
proof (rule key_directory_always_loads [OF unary_codec_ok])
  have "system_ok ((working 5 1)\<lparr>sy_works := (\<lambda>k. k \<noteq> 12)\<rparr>)"
    using working_ok [of 1 5] by (simp add: system_ok_def)
  moreover have "key_directory unary_codec (replicate 32 CHR ''e'') fresh_directory"
    by (rule created [OF fresh_created working_ok]) (simp_all add: working_def)
  ultimately show "key_directory unary_codec (replicate 32 CHR ''e'')
      (snd (RotateKeys unary_codec ((working 5 1)\<lparr>sy_works := (\<lambda>k. k \<noteq> 12)\<rparr>) (hours 24) False fresh_directory))"
    by (intro rotated)
qed

theorem rotation_keeps_verifiers_witness:
  "\<exists>ring result dir'. LoadKeys unary_codec (\<lambda>_. True) fresh_directory = Inr ring
    \<and> RotateKeys unary_codec (working 5 1) (hours 24) False fresh_directory = (result, dir')
    \<and> result = Inr () \<and> (\<exists>ring' keys'. LoadKeys unary_codec (\<lambda>_. True) dir' = Inr ring' \<and> KeySet (minutes 5) (Some ring') = Inr keys'
         \<and> kp_public (sy_key (working 3 0)) \<in> fst ` set keys')"
proof -
  obtain ring where ring: "load unary_codec fresh_directory = Inr ring" "kr_private ring = sy_key (working 3 0)"
    using load_created [OF unary_codec_ok working_ok fresh_created] by auto
  obtain result dir' where r: "RotateKeys unary_codec (working 5 1) (hours 24) False fresh_directory = (result, dir')" by fastforce
  have "fresh_directory ''rotation.lock'' = None" "fresh_directory ''.keyring-1'' = None"
    by (simp_all add: fresh_directory_def InitializeKeys_def Let_def write_new_def check_def working_def)
  moreover have "load unary_codec (fresh_directory(''rotation.lock'' \<mapsto> f)) = Inr ring" for f
    using ring(1) lock_loads by simp
  ultimately have "result = Inr ()"
    using r by (auto simp: RotateKeys_def rotate_locked_def attempt_def check_def write_new_def Let_def working_def)
  moreover have "sy_now (working 5 1) \<le> minutes 5" "minutes 5 < sy_now (working 5 1) + hours 24" by (simp_all add: working_def)
  ultimately show ?thesis using rotation_keeps_verifiers [OF unary_codec_ok working_ok ring(1) r, of "minutes 5"] ring r
    by (fastforce simp: KeySet_def)
qed

end
