(* ===== verification/Migrations.thy ===== *)
theory Migrations
  imports Security
begin

text \<open>
  \<open>Migrate\<close> of \<open>internal/core/store.go\<close>: the scripts embedded in the program are applied in the order of
  their names, each once, in one transaction; the table \<open>schema_migrations\<close> records name and checksum.

  The tables a script works on are any type \<open>'d\<close>, and what PostgreSQL makes of a script is the parameter
  \<open>exec\<close>. \<open>works k\<close> tells whether the \<open>k\<close>-th statement of the call reaches the server: 0 begins, 1 takes
  the lock, 2 creates the table and 3 commits; a script takes three from 4 on.
\<close>

section \<open>Applying scripts\<close>

record 'd versioned =
  vs_applied :: "(string \<times> string) list"
  vs_data :: 'd

type_synonym script = "string \<times> string"

fun migrate_files ::
  "(nat \<Rightarrow> bool) \<Rightarrow> (string \<Rightarrow> 'd \<Rightarrow> err + 'd) \<Rightarrow> nat \<Rightarrow> script list \<Rightarrow> 'd versioned \<Rightarrow> err + 'd versioned" where
  "migrate_files works exec k [] v = Inr v"
| "migrate_files works exec k ((name, body) # files) v =
     (if \<not> works k then Inl (Failure ''query'')
      else case map_of (vs_applied v) name of
        Some checksum \<Rightarrow>
          if checksum \<noteq> Hash body then Inl (Failure (''migration checksum changed: '' @ name))
          else migrate_files works exec (k + 3) files v
      | None \<Rightarrow>
          if \<not> works (k + 1) then Inl (Failure ''exec'')
          else (case exec body (vs_data v) of
            Inl e \<Rightarrow> Inl e
          | Inr d \<Rightarrow>
              if \<not> works (k + 2) then Inl (Failure ''insert'')
              else migrate_files works exec (k + 3) files
                \<lparr>vs_applied = vs_applied v @ [(name, Hash body)], vs_data = d\<rparr>))"

definition Migrate ::
  "(nat \<Rightarrow> bool) \<Rightarrow> (string \<Rightarrow> 'd \<Rightarrow> err + 'd) \<Rightarrow> script list \<Rightarrow> 'd versioned \<Rightarrow> (err + unit) \<times> 'd versioned" where
  "Migrate works exec files v =
     (if \<not> (works 0 \<and> works 1 \<and> works 2) then (Inl (Failure ''begin''), v)
      else case migrate_files works exec 4 (sort_key fst files) v of
        Inl e \<Rightarrow> (Inl e, v)
      | Inr v' \<Rightarrow> if works 3 then (Inr (), v') else (Inl (Failure ''commit''), v))"

section \<open>What it does\<close>

text \<open>The specification: the scripts not yet recorded, run one after the other.\<close>

definition pending_scripts :: "script list \<Rightarrow> 'd versioned \<Rightarrow> script list" where
  "pending_scripts files v = filter (\<lambda>f. fst f \<notin> fst ` set (vs_applied v)) (sort_key fst files)"

fun run_scripts :: "(string \<Rightarrow> 'd \<Rightarrow> err + 'd) \<Rightarrow> string list \<Rightarrow> 'd \<Rightarrow> err + 'd" where
  "run_scripts exec [] d = Inr d"
| "run_scripts exec (body # bodies) d = (case exec body d of Inl e \<Rightarrow> Inl e | Inr d \<Rightarrow> run_scripts exec bodies d)"

definition unchanged_scripts :: "script list \<Rightarrow> 'd versioned \<Rightarrow> bool" where
  "unchanged_scripts files v = (\<forall>f\<in>set files. \<forall>checksum. map_of (vs_applied v) (fst f) = Some checksum \<longrightarrow> checksum = Hash (snd f))"

definition stamp :: "script \<Rightarrow> string \<times> string" where "stamp f = (fst f, Hash (snd f))"

lemma not_applied: "map_of (vs_applied v) n = None \<longleftrightarrow> n \<notin> fst ` set (vs_applied v)"
  by (rule map_of_eq_None_iff)

lemma migrate_files_Inr:
  assumes "distinct (map fst files)" "migrate_files works exec k files v = Inr v'"
  defines "new \<equiv> filter (\<lambda>f. fst f \<notin> fst ` set (vs_applied v)) files"
  shows "unchanged_scripts files v \<and> vs_applied v' = vs_applied v @ map stamp new
    \<and> run_scripts exec (map snd new) (vs_data v) = Inr (vs_data v')"
  using assms(1,2) unfolding new_def
proof (induction files arbitrary: k v)
  case Nil
  then show ?case by (simp add: unchanged_scripts_def)
next
  case (Cons f files)
  obtain name body where f: "f = (name, body)" by (cases f)
  show ?case
  proof (cases "map_of (vs_applied v) name")
    case (Some checksum)
    then have "name \<in> fst ` set (vs_applied v)" by (metis not_applied option.distinct(1))
    then show ?thesis using Cons Some by (auto simp: f unchanged_scripts_def split: if_splits)
  next
    case None
    then have out: "name \<notin> fst ` set (vs_applied v)" by (simp add: not_applied)
    obtain d where d: "exec body (vs_data v) = Inr d"
        "migrate_files works exec (k + 3) files \<lparr>vs_applied = vs_applied v @ [(name, Hash body)], vs_data = d\<rparr> = Inr v'"
      using Cons.prems(2) None by (auto simp: f split: if_splits sum.splits)
    have "fst g \<noteq> name" if "g \<in> set files" for g using that Cons.prems(1) by (auto simp: f)
    then have same: "filter (\<lambda>g. fst g \<notin> fst ` set (vs_applied v @ [(name, Hash body)])) files
        = filter (\<lambda>g. fst g \<notin> fst ` set (vs_applied v)) files"
      and lookup: "\<And>g. g \<in> set files \<Longrightarrow> map_of (vs_applied v @ [(name, Hash body)]) (fst g) = map_of (vs_applied v) (fst g)"
      by (auto intro!: filter_cong simp: map_add_def split: option.splits)
    show ?thesis
      using Cons.IH [OF _ d(2)] Cons.prems(1) same lookup None out d(1)
      by (auto simp: f unchanged_scripts_def stamp_def)
  qed
qed

lemma migrate_files_works:
  assumes "works = (\<lambda>_. True)" "distinct (map fst files)" "unchanged_scripts files v"
    and "run_scripts exec (map snd (filter (\<lambda>f. fst f \<notin> fst ` set (vs_applied v)) files)) (vs_data v) = Inr d"
  shows "\<exists>v'. migrate_files works exec k files v = Inr v'"
  using assms(2-)
proof (induction files arbitrary: k v)
  case (Cons f files)
  obtain name body where f: "f = (name, body)" by (cases f)
  show ?case
  proof (cases "map_of (vs_applied v) name")
    case (Some checksum)
    then have "name \<in> fst ` set (vs_applied v)" by (metis not_applied option.distinct(1))
    then show ?thesis using Cons Some assms(1) by (auto simp: f unchanged_scripts_def)
  next
    case None
    then have out: "name \<notin> fst ` set (vs_applied v)" by (simp add: not_applied)
    then obtain d1 where d1: "exec body (vs_data v) = Inr d1"
        "run_scripts exec (map snd (filter (\<lambda>f. fst f \<notin> fst ` set (vs_applied v)) files)) d1 = Inr d"
      using Cons.prems(3) by (auto simp: f split: sum.splits)
    define w where "w = \<lparr>vs_applied = vs_applied v @ [(name, Hash body)], vs_data = d1\<rparr>"
    have "fst g \<noteq> name" if "g \<in> set files" for g using that Cons.prems(1) by (auto simp: f)
    then have "filter (\<lambda>g. fst g \<notin> fst ` set (vs_applied w)) files
        = filter (\<lambda>g. fst g \<notin> fst ` set (vs_applied v)) files" "unchanged_scripts files w"
      using Cons.prems(2)
      by (auto intro!: filter_cong simp: map_add_def w_def unchanged_scripts_def split: option.splits)
    then have "\<exists>v'. migrate_files works exec (k + 3) files w = Inr v'"
      using Cons.IH [of w] Cons.prems(1) d1(2) by (simp add: f w_def)
    then show ?thesis using None assms(1) d1(1) by (simp add: f w_def)
  qed
qed simp

lemma map_fst_sort: "distinct (map fst files) \<Longrightarrow> distinct (map fst (sort_key fst files))"
  by (simp add: distinct_map distinct_sort)

text \<open>The outcomes of a call.\<close>

lemma Migrate_cases:
  assumes "distinct (map fst files)"
  obtains e where "Migrate works exec files v = (Inl e, v)"
  | v' where "Migrate works exec files v = (Inr (), v')" "unchanged_scripts files v"
      "run_scripts exec (map snd (pending_scripts files v)) (vs_data v) = Inr (vs_data v')"
      "vs_applied v' = vs_applied v @ map stamp (pending_scripts files v)"
proof (cases "migrate_files works exec 4 (sort_key fst files) v")
  case (Inl e)
  then have "\<exists>e. Migrate works exec files v = (Inl e, v)" by (simp add: Migrate_def)
  then show ?thesis using that(1) by blast
next
  case (Inr v')
  from migrate_files_Inr [OF map_fst_sort [OF assms] this]
  have "unchanged_scripts files v" "vs_applied v' = vs_applied v @ map stamp (pending_scripts files v)"
      "run_scripts exec (map snd (pending_scripts files v)) (vs_data v) = Inr (vs_data v')"
    by (simp_all add: pending_scripts_def unchanged_scripts_def)
  moreover have "Migrate works exec files v = (Inr (), v') \<or> (\<exists>e. Migrate works exec files v = (Inl e, v))"
    using Inr by (simp add: Migrate_def)
  ultimately show ?thesis using that by blast
qed

lemma all_recorded:
  assumes "distinct (map fst files)" "unchanged_scripts files v" "vs_applied v' = vs_applied v @ map stamp (pending_scripts files v)"
  shows "pending_scripts files v' = []" "unchanged_scripts files v'"
proof -
  have "fst f \<in> fst ` set (vs_applied v')" if "f \<in> set files" for f
  proof (cases "fst f \<in> fst ` set (vs_applied v)")
    case False
    with that have "stamp f \<in> set (vs_applied v')" by (simp add: assms(3) pending_scripts_def)
    then have "fst (stamp f) \<in> fst ` set (vs_applied v')" by (rule imageI)
    then show ?thesis by (simp add: stamp_def)
  qed (simp add: assms(3) image_Un)
  then show "pending_scripts files v' = []" by (simp add: pending_scripts_def filter_empty_conv)
  have "checksum = Hash (snd f)" if f: "f \<in> set files" and c: "map_of (vs_applied v') (fst f) = Some checksum" for f checksum
  proof (cases "map_of (vs_applied v) (fst f)")
    case None
    then obtain g where g: "g \<in> set files" "fst g = fst f" "checksum = Hash (snd g)"
      using c by (auto simp: assms(3) map_add_def pending_scripts_def stamp_def dest!: map_of_SomeD split: option.splits)
    then have "g = f" using f assms(1) by (metis eq_key_imp_eq_value prod.collapse)
    then show ?thesis using g(3) by simp
  next
    case (Some c0)
    then show ?thesis using assms(2) f c unfolding unchanged_scripts_def assms(3) by (auto simp: map_add_def split: option.splits)
  qed
  then show "unchanged_scripts files v'" unfolding unchanged_scripts_def by blast
qed

lemma migrated_again:
  assumes "distinct (map fst files)" "pending_scripts files v = []"
  shows "snd (Migrate works exec files v) = v"
  by (rule Migrate_cases [OF assms(1), of works exec v]) (simp_all add: assms(2))

text \<open>C38: A migration either fails and changes nothing, or runs the scripts not yet recorded, in the order of their names, and records
their checksums; then no recorded script was edited, and migrating again changes nothing. It succeeds if all statements work, no recorded
script was edited and the new scripts run.\<close>

theorem migrate_runs_pending:
  assumes "distinct (map fst files)"
  shows "((\<exists>e. Migrate works exec files v = (Inl e, v))
      \<or> (\<exists>v'. Migrate works exec files v = (Inr (), v') \<and> unchanged_scripts files v
           \<and> run_scripts exec (map snd (pending_scripts files v)) (vs_data v) = Inr (vs_data v')
           \<and> vs_applied v' = vs_applied v @ map (\<lambda>f. (fst f, Hash (snd f))) (pending_scripts files v)
           \<and> (\<forall>works' exec'. snd (Migrate works' exec' files v') = v')))
    \<and> (works = (\<lambda>_. True) \<and> unchanged_scripts files v \<and> run_scripts exec (map snd (pending_scripts files v)) (vs_data v) = Inr d
      \<longrightarrow> fst (Migrate works exec files v) = Inr ())"
    (is "(?failed \<or> ?ran) \<and> ?total")
proof
  have stamps: "stamp = (\<lambda>f. (fst f, Hash (snd f)))" by (simp add: fun_eq_iff stamp_def)
  show "?failed \<or> ?ran"
  proof (cases rule: Migrate_cases [OF assms, of works exec v])
    case (2 v')
    then show ?thesis using migrated_again [OF assms all_recorded(1) [OF assms 2(2,4)]] by (simp add: stamps)
  qed simp
  show ?total
    using migrate_files_works [OF _ map_fst_sort [OF assms], of works v exec d 4]
    by (auto simp: Migrate_def pending_scripts_def unchanged_scripts_def)
qed

text \<open>Two scripts on an empty database, listed in the wrong order.\<close>

definition two_scripts :: "script list" where "two_scripts = [(''002'', ''b''), (''001'', ''a'')]"

theorem migrate_runs_pending_witness:
  "\<exists>v'. Migrate (\<lambda>_. True) (\<lambda>body d. Inr (d @ [body])) two_scripts \<lparr>vs_applied = [], vs_data = []\<rparr> = (Inr (), v')
    \<and> vs_data v' = [''a'', ''b''] \<and> vs_applied v' = [(''001'', Hash ''a''), (''002'', Hash ''b'')]"
proof -
  define v where "v = \<lparr>vs_applied = [] :: (string \<times> string) list, vs_data = [] :: string list\<rparr>"
  have "sort_key fst two_scripts = [(''001'', ''a''), (''002'', ''b'')]" by code_simp
  then have new: "pending_scripts two_scripts v = [(''001'', ''a''), (''002'', ''b'')]"
    by (simp add: pending_scripts_def v_def)
  have empty: "vs_data v = []" "vs_applied v = []" "unchanged_scripts two_scripts v" by (simp_all add: v_def unchanged_scripts_def)
  have "distinct (map fst two_scripts)" by (simp add: two_scripts_def)
  from migrate_runs_pending [OF this, of "\<lambda>_. True" "\<lambda>body d. Inr (d @ [body])" v "[''a'', ''b'']"]
  show ?thesis unfolding v_def [symmetric] by (auto simp: new empty)
qed

end
