(* ===== verification/Command.thy ===== *)
theory Command
  imports Routes Keys Migrations
begin

text \<open>
  \<open>cmd/fastcas/main.go\<close>: the commands of the program on its keys and its database, the start of the server and the
  rounds of its workers.

  The state of the host is its environment, its key directories and the database with the record of its migrations.
  What libraries and operating system answer is the record \<open>tools\<close>: \<open>tl_flags\<close> is \<open>flag.Parse\<close> over the defaults,
  \<open>tl_open\<close> the connection, \<open>tl_file\<close> reads a file as JSON (\<open>None\<close>: it cannot be read, \<open>Some None\<close>: it is no JSON).
  What a command prints is not modelled, but for the report of a \<open>check-outbox\<close> that finds nothing wrong.
\<close>

section \<open>The host\<close>

record flag_values =
  fg_keys :: string
  fg_file :: string
  fg_retain :: time
  fg_emergency :: bool
  fg_max_pending_age :: time
  fg_max_p95 :: time
  fg_max_dead :: int
  fg_window :: time

record host =
  ho_env :: "string \<Rightarrow> string"
  ho_keys :: "string \<Rightarrow> directory option"
  ho_data :: "db versioned"

record tools =
  tl_flags :: "flag_values \<Rightarrow> string list \<Rightarrow> flag_values option"
  tl_open :: "string \<Rightarrow> bool"
  tl_codec :: codec
  tl_system :: system
  tl_swapped :: bool
  tl_works :: "nat \<Rightarrow> bool"
  tl_exec :: "string \<Rightarrow> db \<Rightarrow> err + db"
  tl_scripts :: "script list"
  tl_url :: url_parser
  tl_mail :: "string \<Rightarrow> string option"
  tl_kdf :: kdf
  tl_salt :: string
  tl_id :: string
  tl_ids :: "nat \<Rightarrow> string"
  tl_ids' :: "nat \<Rightarrow> string"
  tl_now :: time
  tl_file :: "string \<Rightarrow> json option option"
  tl_console :: "string \<Rightarrow> bool"

datatype outcome_of =
    Finished
  | Report telemetry
  | Listening server "string option" string

definition env_or :: "host \<Rightarrow> string \<Rightarrow> string \<Rightarrow> string" where
  "env_or h name fallback = (if ho_env h name \<noteq> [] then ho_env h name else fallback)"

definition default_flags :: "host \<Rightarrow> flag_values" where
  "default_flags h = \<lparr>fg_keys = env_or h ''FASTCAS_KEYS_DIR'' ''.local/keys'', fg_file = [], fg_retain = hours 24,
     fg_emergency = False, fg_max_pending_age = seconds 30, fg_max_p95 = seconds 30, fg_max_dead = 0, fg_window = hours 1\<rparr>"

text \<open>The directory the keys are read from, if it exists.\<close>

definition load_directory :: "tools \<Rightarrow> host \<Rightarrow> string \<Rightarrow> err + key_ring" where
  "load_directory lib h name = (case ho_keys h name of
     None \<Rightarrow> Inl (Failure ''file does not exist'')
   | Some dir \<Rightarrow> LoadKeys (tl_codec lib) (sy_works (tl_system lib)) dir)"

section \<open>Commands\<close>

text \<open>Running an operation of the store on the database of the host.\<close>

definition on_store :: "(db \<Rightarrow> (err + 'a) \<times> db) \<Rightarrow> host \<Rightarrow> (err + outcome_of) \<times> host" where
  "on_store f h = (case f (vs_data (ho_data h)) of
     (Inl e, db) \<Rightarrow> (Inl e, h\<lparr>ho_data := (ho_data h)\<lparr>vs_data := db\<rparr>\<rparr>)
   | (Inr _, db) \<Rightarrow> (Inr Finished, h\<lparr>ho_data := (ho_data h)\<lparr>vs_data := db\<rparr>\<rparr>))"

definition key_command :: "tools \<Rightarrow> flag_values \<Rightarrow> bool \<Rightarrow> host \<Rightarrow> (err + outcome_of) \<times> host" where
  "key_command lib fg create h =
     (let existing = ho_keys h (fg_keys fg);
          (result, dir) =
            (if create then InitializeKeys (tl_codec lib) (tl_system lib) (tl_swapped lib) existing
             else case existing of
               None \<Rightarrow> (Inl (Failure ''file does not exist''), None)
             | Some d \<Rightarrow> (case RotateKeys (tl_codec lib) (tl_system lib) (fg_retain fg) (fg_emergency fg) d of
                 (result, d') \<Rightarrow> (result, Some d')))
      in (case result of Inl e \<Rightarrow> Inl e | Inr _ \<Rightarrow> Inr Finished, h\<lparr>ho_keys := (ho_keys h)(fg_keys fg := dir)\<rparr>))"

definition bootstrap :: "tools \<Rightarrow> host \<Rightarrow> db \<Rightarrow> (err + identity_view) \<times> db" where
  "bootstrap lib h db =
     (if count_rows (\<lambda>i. i_role i = Admin) (identities db) \<noteq> 0 then (Inl (Failure ''administrator already exists''), db)
      else CreateIdentity (tl_mail lib) (tl_kdf lib) (tl_salt lib) (tl_id lib) (ho_env h ''FASTCAS_ADMIN_EMAIL'')
        (env_or h ''FASTCAS_ADMIN_NAME'' ''FastCAS Administrator'') (ho_env h ''FASTCAS_ADMIN_PASSWORD'') ''admin'' db)"

definition register_file :: "tools \<Rightarrow> bool \<Rightarrow> flag_values \<Rightarrow> host \<Rightarrow> db \<Rightarrow> (err + unit) \<times> db" where
  "register_file lib dev fg h db =
     (if fg_file fg = [] then (Inl (Failure ''--file is required''), db)
      else case tl_file lib (fg_file fg) of
        None \<Rightarrow> (Inl (Failure ''open''), db)
      | Some text \<Rightarrow> (case unmarshal_json client_fields text of
          None \<Rightarrow> (Inl (Failure ''json''), db)
        | Some v \<Rightarrow> RegisterClient (tl_url lib) dev (tl_now lib) (client_from v) (ho_env h ''FASTCAS_CLIENT_SECRET'') db))"

text \<open>What \<open>serve\<close> does before it listens: the server, the directory of the console and the address.\<close>

definition serve_setup :: "tools \<Rightarrow> bool \<Rightarrow> flag_values \<Rightarrow> host \<Rightarrow> err + outcome_of" where
  "serve_setup lib dev fg h =
     (let secret = ho_env h ''FASTCAS_PROXY_SECRET''; ui = ho_env h ''FASTCAS_UI_DIR'' in
      attempt (load_directory lib h (fg_keys fg)) (\<lambda>ring.
      attempt (New (tl_url lib) (Some (kr_encryption ring)) (env_or h ''FASTCAS_ISSUER'' ''http://127.0.0.1:8900'') dev) (\<lambda>api.
      attempt (check ''FASTCAS_PROXY_SECRET must be at least 32 bytes'' (secret = [] \<or> 32 \<le> length secret)) (\<lambda>_.
      attempt (check ''console build missing'' (ui = [] \<or> tl_console lib ui)) (\<lambda>_.
      Inr (Listening (api\<lparr>sv_proxy_secret := secret, sv_console := (ui \<noteq> [])\<rparr>) (if ui = [] then None else Some ui)
        (env_or h ''FASTCAS_LISTEN'' ''127.0.0.1:8900'')))))))"

definition run_on_store :: "tools \<Rightarrow> string \<Rightarrow> flag_values \<Rightarrow> host \<Rightarrow> (err + outcome_of) \<times> host" where
  "run_on_store lib cmd fg h =
     (let dev = (ho_env h ''FASTCAS_ENV'' = ''development'') in
      if cmd = ''migrate'' then
        (case Migrate (tl_works lib) (tl_exec lib) (tl_scripts lib) (ho_data h) of
          (Inl e, v) \<Rightarrow> (Inl e, h\<lparr>ho_data := v\<rparr>) | (Inr _, v) \<Rightarrow> (Inr Finished, h\<lparr>ho_data := v\<rparr>))
      else if cmd = ''fence-restore'' then on_store (FenceRestoredState (tl_now lib) (tl_ids lib) (tl_ids' lib)) h
      else if cmd = ''doctor'' then (attempt (check ''ping'' (tl_works lib 0)) (\<lambda>_.
        attempt (load_directory lib h (fg_keys fg)) (\<lambda>_. Inr Finished)), h)
      else if cmd = ''check-outbox'' then
        (case check_outbox (fg_max_pending_age fg) (fg_max_p95 fg) (fg_max_dead fg) (fg_window fg) (tl_now lib) (vs_data (ho_data h)) of
          None \<Rightarrow> Inl (Failure ''outbox alert thresholds'')
        | Some exceeded \<Rightarrow> if exceeded then Inl (Failure ''outbox delivery threshold exceeded'')
            else Inr (Report (OutboxTelemetry (tl_now lib) (fg_window fg) (vs_data (ho_data h)))), h)
      else if cmd = ''bootstrap'' then on_store (bootstrap lib h) h
      else if cmd = ''register-client'' then on_store (register_file lib dev fg h) h
      else if cmd = ''serve'' then (serve_setup lib dev fg h, h)
      else (Inl (Failure ''unknown command''), h))"

text \<open>\<open>run\<close>, with \<open>os.Args\<close> without the name of the program.\<close>

definition run_command :: "tools \<Rightarrow> string list \<Rightarrow> host \<Rightarrow> (err + outcome_of) \<times> host" where
  "run_command lib args h =
     (case args of
        [] \<Rightarrow> (Inl (Failure ''usage''), h)
      | cmd # rest \<Rightarrow>
        (case tl_flags lib (default_flags h) rest of
          None \<Rightarrow> (Inl (Failure ''flags''), h)
        | Some fg \<Rightarrow>
            if cmd = ''init-keys'' then key_command lib fg True h
            else if cmd = ''rotate-keys'' then key_command lib fg False h
            else if ho_env h ''FASTCAS_DATABASE_URL'' = [] then (Inl (Failure ''FASTCAS_DATABASE_URL is required''), h)
            else if \<not> tl_open lib (ho_env h ''FASTCAS_DATABASE_URL'') then (Inl (Failure ''database''), h)
            else run_on_store lib cmd fg h))"

section \<open>The delivery worker\<close>

text \<open>
  A tick of the worker delivers until nothing is due, 32 events at most; \<open>deliver k\<close> is its \<open>k\<close>-th call of
  \<open>DeliverEvent\<close>.
\<close>

fun deliver_burst :: "nat \<Rightarrow> (nat \<Rightarrow> db \<Rightarrow> bool \<times> db) \<Rightarrow> nat \<Rightarrow> db \<Rightarrow> db" where
  "deliver_burst 0 deliver k db = db"
| "deliver_burst (Suc n) deliver k db =
     (case deliver k db of (worked, db) \<Rightarrow> if worked then deliver_burst n deliver (Suc k) db else db)"

definition delivery_tick :: "(nat \<Rightarrow> db \<Rightarrow> bool \<times> db) \<Rightarrow> db \<Rightarrow> db" where
  "delivery_tick deliver = deliver_burst 32 deliver 0"

end
