(* ===== verification/Command_Guarantees.thy ===== *)
theory Command_Guarantees
  imports Command Deliveries Key_Guarantees Http_Steps
begin

text \<open>
  Guarantees of the command line of \<open>cmd/fastcas/main.go\<close>: the commands as operations of the service, the first
  administrator, the configuration of a server and the ticks of the delivery worker.
\<close>

section \<open>Commands and the service\<close>

lemma on_store_data: "vs_data (ho_data (snd (on_store f h))) = snd (f (vs_data (ho_data h)))"
  by (simp add: on_store_def split: prod.splits sum.splits)

lemma on_store_Inr: "on_store f h = (Inr x, h') \<longleftrightarrow> x = Finished \<and> (\<exists>a db. f (vs_data (ho_data h)) = (Inr a, db)
    \<and> h' = h\<lparr>ho_data := (ho_data h)\<lparr>vs_data := db\<rparr>\<rparr>)"
  by (auto simp: on_store_def split: prod.splits sum.splits)

lemma run_one: "operation none db db' \<Longrightarrow> run D db D db'"
  by (rule run_quiet [OF run.stop])

text \<open>Every command but the migration of the tables is a run of operations of the service, with the keys a fence draws.\<close>

definition command_draws :: "tools \<Rightarrow> drawn" where
  "command_draws lib = draws T_outbox (range (tl_ids lib) \<union> range (tl_ids' lib))"

lemma run_on_store_runs:
  assumes "cmd \<noteq> ''migrate''" "range (tl_ids lib) \<inter> D T_outbox = {}" "range (tl_ids' lib) \<inter> D T_outbox = {}"
  shows "\<exists>D'. (\<forall>t. D' t \<subseteq> D t \<union> command_draws lib t) \<and> run D (vs_data (ho_data h)) D' (vs_data (ho_data (snd (run_on_store lib cmd fg h))))"
proof -
  have fence: "\<exists>D'. (\<forall>t. D' t \<subseteq> D t \<union> command_draws lib t)
      \<and> run D db D' (snd (FenceRestoredState (tl_now lib) (tl_ids lib) (tl_ids' lib) db))" for db
  proof -
    have "command_draws lib t \<inter> D t = {}" for t
      using assms(2,3) by (auto simp: command_draws_def none_simps)
    then have "step D db (\<lambda>t. D t \<union> command_draws lib t) (snd (FenceRestoredState (tl_now lib) (tl_ids lib) (tl_ids' lib) db))"
      unfolding command_draws_def by (intro step.intros operation.fence)
    then show ?thesis by (intro exI [of _ "\<lambda>t. D t \<union> command_draws lib t"] conjI allI subset_refl run.further [OF run.stop])
  qed
  have boot: "run D db D (snd (bootstrap lib h db))" for db
    using run_one [OF create_identity] run.stop by (simp add: bootstrap_def)
  have register: "run D db D (snd (register_file lib dev fg h db))" for db dev
    using run_one [OF register_client] run.stop by (simp add: register_file_def RegisterClient_def split: option.splits)
  consider "cmd = ''fence-restore''" | "cmd = ''bootstrap''" | "cmd = ''register-client''"
    | "cmd \<noteq> ''fence-restore''" "cmd \<noteq> ''bootstrap''" "cmd \<noteq> ''register-client''"
    by blast
  then show ?thesis
  proof cases
    case 4
    then have "ho_data (snd (run_on_store lib cmd fg h)) = ho_data h"
      using assms(1) by (simp only: run_on_store_def Let_def if_False split: if_split) simp
    then show ?thesis using run.stop by fastforce
  next
    case 1
    then show ?thesis using fence by (simp add: run_on_store_def on_store_data)
  next
    case 2
    then show ?thesis using boot by (auto simp: run_on_store_def on_store_data)
  next
    case 3
    show ?thesis unfolding 3 using register by (simp add: run_on_store_def Let_def on_store_data) blast
  qed
qed

lemma key_command_data: "ho_data (snd (key_command lib fg create h)) = ho_data h"
  by (simp add: key_command_def Let_def split: prod.splits)

lemma commands_are_runs:
  assumes "args = [] \<or> hd args \<noteq> ''migrate''" "range (tl_ids lib) \<inter> D T_outbox = {}" "range (tl_ids' lib) \<inter> D T_outbox = {}"
  shows "\<exists>D'. (\<forall>t. D' t \<subseteq> D t \<union> command_draws lib t) \<and> run D (vs_data (ho_data h)) D' (vs_data (ho_data (snd (run_command lib args h))))"
proof (cases args)
  case (Cons cmd rest)
  have "vs_data (ho_data (snd (run_command lib args h))) = vs_data (ho_data h)
    \<or> (\<exists>fg. vs_data (ho_data (snd (run_command lib args h))) = vs_data (ho_data (snd (run_on_store lib cmd fg h))))"
    by (auto simp: Cons run_command_def key_command_data split: option.splits)
  then show ?thesis using run_on_store_runs [of cmd lib D h, OF _ assms(2,3)] assms(1) run.stop [of D "vs_data (ho_data h)"]
    by (auto simp: Cons)
qed (use run.stop in \<open>auto simp: run_command_def\<close>)

section \<open>The first administrator\<close>

lemma bootstrap_Inr:
  assumes "bootstrap lib h db = (Inr v, db')"
  shows "\<exists>a. (\<forall>i\<in>set (identities db). i_role i \<noteq> Admin) \<and> identities db' = identities db @ [a] \<and> i_role a = Admin \<and> i_status a = Active
    \<and> validEmail (tl_mail lib) (ho_env h ''FASTCAS_ADMIN_EMAIL'') = Inr (i_email a)"
  using assms
  by (auto simp: bootstrap_def CreateIdentity_def Let_def insert_row_Some count_rows_0 split: if_splits sum.splits option.splits)

lemma bootstrap_command:
  "run_command lib (''bootstrap'' # args) h = (Inr x, h') \<longleftrightarrow>
     (\<exists>fg. tl_flags lib (default_flags h) args = Some fg) \<and> ho_env h ''FASTCAS_DATABASE_URL'' \<noteq> []
     \<and> tl_open lib (ho_env h ''FASTCAS_DATABASE_URL'') \<and> on_store (bootstrap lib h) h = (Inr x, h')"
  by (auto simp: run_command_def run_on_store_def split: option.splits)

text \<open>C39: The \<open>bootstrap\<close> command makes the first administrator and only that one: it succeeds only while no administrator exists,
then there is exactly one, active and with the address of the environment; whatever the service does later, it never succeeds again.\<close>

theorem bootstrap_happens_once:
  assumes "reach D (vs_data (ho_data h))" "run_command lib (''bootstrap'' # args) h = (Inr x, h')"
  shows "(\<exists>a. filter (\<lambda>i. i_role i = Admin) (identities (vs_data (ho_data h'))) = [a] \<and> i_status a = Active
      \<and> validEmail (tl_mail lib) (ho_env h ''FASTCAS_ADMIN_EMAIL'') = Inr (i_email a)
      \<and> filter (\<lambda>i. i_role i = Admin) (identities (vs_data (ho_data h))) = [])
    \<and> (run D (vs_data (ho_data h')) D' (vs_data (ho_data later)) \<longrightarrow>
        (\<forall>lib' args'. \<exists>e. run_command lib' (''bootstrap'' # args') later = (Inl e, later)))"
proof -
  define db where "db = vs_data (ho_data h)"
  obtain v where v: "bootstrap lib h db = (Inr v, vs_data (ho_data h'))"
    using assms(2) unfolding bootstrap_command on_store_Inr by (auto simp: db_def)
  from bootstrap_Inr [OF this] obtain a where a: "\<forall>i\<in>set (identities db). i_role i \<noteq> Admin"
      "identities (vs_data (ho_data h')) = identities db @ [a]" "i_role a = Admin" "i_status a = Active"
      "validEmail (tl_mail lib) (ho_env h ''FASTCAS_ADMIN_EMAIL'') = Inr (i_email a)" by blast
  have "run D db D (vs_data (ho_data h'))"
    using v run_one [OF create_identity, of D db] run.stop unfolding bootstrap_def by (metis snd_conv)
  then have reached: "reach D (vs_data (ho_data h'))" using assms(1) run_trans unfolding reach_def db_def by blast
  have "has_admin (vs_data (ho_data h'))" using a by (auto simp: has_admin_def)
  then have "has_admin (vs_data (ho_data later))" if "run D (vs_data (ho_data h')) D' (vs_data (ho_data later))"
    using has_admin_run [OF reached that] by blast
  moreover have "\<exists>e. run_command lib' (''bootstrap'' # args') later = (Inl e, later)" if "has_admin (vs_data (ho_data later))" for lib' args'
    using that unfolding has_admin_def
    by (auto simp: run_command_def run_on_store_def on_store_def bootstrap_def count_rows_0 split: option.splits)
  ultimately show ?thesis using a by (auto simp: db_def)
qed

section \<open>A server that starts\<close>

text \<open>The server starts only with a key directory that loads, an issuer that is a bare origin, over HTTPS unless the host is a
development host, and a proxy secret that is absent or 32 bytes long; it changes nothing on the host, encrypts with the loaded key, and
without a secret it trusts no proxy's word for the address of a client.\<close>

theorem servers_start_configured:
  assumes "run_command lib (''serve'' # args) h = (Inr (Listening sv ui address), h')"
  shows "h' = h \<and> (\<exists>fg ring. tl_flags lib (default_flags h) args = Some fg \<and> load_directory lib h (fg_keys fg) = Inr ring
        \<and> sv_encryption sv = kr_encryption ring \<and> length (sv_encryption sv) = 32)
    \<and> (\<exists>u. tl_url lib (sv_issuer sv) = Some u \<and> url_path u = [] \<and> url_host u \<noteq> []
        \<and> (url_scheme u = ''https'' \<or> ho_env h ''FASTCAS_ENV'' = ''development'' \<and> loopback (url_hostname u)))
    \<and> (sv_proxy_secret sv = [] \<or> 32 \<le> length (sv_proxy_secret sv))
    \<and> (sv_proxy_secret sv = [] \<longrightarrow> peer sv en r = (case split_host (hq_remote r) of None \<Rightarrow> hq_remote r | Some host \<Rightarrow> host))
    \<and> (sv_console sv \<longleftrightarrow> ui \<noteq> None)"
proof -
  have serve: "run_on_store lib ''serve'' fg h = (serve_setup lib (ho_env h ''FASTCAS_ENV'' = ''development'') fg h, h)" for fg
    by (simp add: run_on_store_def Let_def)
  obtain fg where flags: "tl_flags lib (default_flags h) args = Some fg"
      and "run_on_store lib ''serve'' fg h = (Inr (Listening sv ui address), h')"
    using assms by (auto simp: run_command_def split: option.splits if_splits)
  then have fg: "serve_setup lib (ho_env h ''FASTCAS_ENV'' = ''development'') fg h = Inr (Listening sv ui address)" "h' = h"
    unfolding serve prod.inject by blast+
  obtain ring api where ring: "load_directory lib h (fg_keys fg) = Inr ring"
      and api: "New (tl_url lib) (Some (kr_encryption ring)) (env_or h ''FASTCAS_ISSUER'' ''http://127.0.0.1:8900'')
        (ho_env h ''FASTCAS_ENV'' = ''development'') = Inr api"
      and secret: "sv_proxy_secret sv = [] \<or> 32 \<le> length (sv_proxy_secret sv)"
      and sv: "sv = api\<lparr>sv_proxy_secret := ho_env h ''FASTCAS_PROXY_SECRET'', sv_console := (ho_env h ''FASTCAS_UI_DIR'' \<noteq> [])\<rparr>"
      and ui: "sv_console sv \<longleftrightarrow> ui \<noteq> None"
    using fg(1) by (auto simp: serve_setup_def Let_def early_returns)
  from ring obtain dir where "load (tl_codec lib) dir = Inr ring"
    by (auto simp: load_directory_def split: option.splits dest: LoadKeys_Inr [THEN iffD1])
  then have "length (kr_encryption ring) = 32" by (rule load_sizes(2))
  moreover have "sv_encryption sv = kr_encryption ring" and ok: "issuer_ok (tl_url lib) (sv_issuer sv) (ho_env h ''FASTCAS_ENV'' = ''development'')"
    using api by (auto simp: New_def sv split: if_splits)
  ultimately have "\<exists>fg ring. tl_flags lib (default_flags h) args = Some fg \<and> load_directory lib h (fg_keys fg) = Inr ring
      \<and> sv_encryption sv = kr_encryption ring \<and> length (sv_encryption sv) = 32"
    using flags ring by auto
  moreover have "\<exists>u. tl_url lib (sv_issuer sv) = Some u \<and> url_path u = [] \<and> url_host u \<noteq> []
      \<and> (url_scheme u = ''https'' \<or> ho_env h ''FASTCAS_ENV'' = ''development'' \<and> loopback (url_hostname u))"
    using ok by (auto simp: issuer_ok_def split: option.splits)
  ultimately show ?thesis using fg(2) secret ui by (simp add: peer_def Let_def split: option.splits)
qed

section \<open>The worker\<close>





section \<open>A host\<close>

definition host_env :: "string \<Rightarrow> string" where
  "host_env name = (if name = ''FASTCAS_DATABASE_URL'' then ''postgres:''
     else if name = ''FASTCAS_ADMIN_EMAIL'' then ''a@x.y'' else if name = ''FASTCAS_ADMIN_NAME'' then ''Ann''
     else if name = ''FASTCAS_ADMIN_PASSWORD'' then ''correct horse''
     else if name = ''FASTCAS_ISSUER'' then ''https://cas'' else [])"

definition new_host :: host where
  "new_host = \<lparr>ho_env = host_env, ho_keys = (\<lambda>_. Some fresh_directory), ho_data = \<lparr>vs_applied = [], vs_data = empty_db\<rparr>\<rparr>"

definition host_tools :: tools where
  "host_tools = \<lparr>tl_flags = (\<lambda>fg _. Some fg), tl_open = (\<lambda>_. True), tl_codec = unary_codec, tl_system = working 3 0, tl_swapped = False,
     tl_works = (\<lambda>_. True), tl_exec = (\<lambda>_ db. Inr db), tl_scripts = [], tl_url = https_only, tl_mail = Some, tl_kdf = kdf_example,
     tl_salt = salt, tl_id = ''ann'', tl_ids = (\<lambda>k. replicate k CHR ''p''), tl_ids' = (\<lambda>k. replicate k CHR ''q''), tl_now = 0,
     tl_file = (\<lambda>_. None), tl_console = (\<lambda>_. False)\<rparr>"

lemma ann_bootstraps: "run_command host_tools [''bootstrap''] new_host = (Inr Finished, new_host\<lparr>ho_data := \<lparr>vs_applied = [], vs_data = db1\<rparr>\<rparr>)"
proof -
  have "bootstrap host_tools new_host empty_db = (Inr (view_identity ann), db1)"
    by (simp add: bootstrap_def host_tools_def new_host_def host_env_def env_or_def db1_eval empty_tables scenario_simps
      CreateIdentity_def trim_space_def is_space_def)
  then show ?thesis
    by (simp add: bootstrap_command on_store_Inr) (simp add: host_tools_def new_host_def host_env_def)
qed

theorem bootstrap_happens_once_witness:
  "\<exists>h'. run_command host_tools [''bootstrap''] new_host = (Inr Finished, h')
    \<and> (\<exists>e. run_command host_tools [''bootstrap''] h' = (Inl e, h'))"
proof -
  define h' where "h' = new_host\<lparr>ho_data := \<lparr>vs_applied = [], vs_data = db1\<rparr>\<rparr>"
  have "reach none (vs_data (ho_data new_host))" using reach_none by (simp add: new_host_def)
  from bootstrap_happens_once [OF this, of host_tools "[]" Finished h' none h'] show ?thesis
    using ann_bootstraps run.stop by (auto simp: h'_def)
qed

theorem servers_start_configured_witness:
  "\<exists>sv. run_command host_tools [''serve''] new_host = (Inr (Listening sv None ''127.0.0.1:8900''), new_host)
    \<and> sv_issuer sv = ''https://cas'' \<and> length (sv_encryption sv) = 32"
proof -
  obtain ring where ring: "load unary_codec fresh_directory = Inr ring"
    using load_created [OF unary_codec_ok working_ok fresh_created] by auto
  have "\<exists>sv. run_command host_tools [''serve''] new_host = (Inr (Listening sv None ''127.0.0.1:8900''), new_host) \<and> sv_issuer sv = ''https://cas''"
    using ring by (simp add: run_command_def run_on_store_def host_tools_def new_host_def host_env_def env_or_def default_flags_def
      serve_setup_def load_directory_def attempt_def check_def New_def issuer_ok_def https_only_def working_def Let_def)
  then obtain sv where "run_command host_tools [''serve''] new_host = (Inr (Listening sv None ''127.0.0.1:8900''), new_host)"
      "sv_issuer sv = ''https://cas''" by blast
  with servers_start_configured [OF this(1)] show ?thesis by blast
qed


end
