(* ===== verification/Serving.thy ===== *)
theory Serving
  imports Http_Guarantees Command_Guarantees
begin

text \<open>
  The service in operation, \<open>cmd/fastcas/main.go\<close>: while \<open>serve\<close> listens, requests, the ticks of the delivery worker and those of the
  maintenance worker act on the database, the OpenID library calls operations of the store, and an operator runs other commands.
\<close>

section \<open>The process\<close>

text \<open>
  \<open>serving sv D db E db'\<close>: the server \<open>sv\<close> took the database from \<open>db\<close> to \<open>db'\<close>, and \<open>E\<close> has the keys of \<open>D\<close> and all that may
  have been drawn on the way. What is drawn is new. A tick of the worker finds its own clocks, leases, signatures and answers at each call.
\<close>

inductive serving :: "server \<Rightarrow> drawn \<Rightarrow> db \<Rightarrow> drawn \<Rightarrow> db \<Rightarrow> bool" for sv :: server and D :: drawn and db :: db where
  listening: "serving sv D db D db"
| request: "serving sv D db E mid \<Longrightarrow> serve sv en rid r mid = Some (res, after) \<Longrightarrow> \<forall>t. request_draws en t \<inter> E t = {} \<Longrightarrow>
    serving sv D db (\<lambda>t. E t \<union> request_draws en t) after"
| provider: "serving sv D db E mid \<Longrightarrow> step E mid E' after \<Longrightarrow> serving sv D db E' after"
| delivery: "serving sv D db E mid \<Longrightarrow>
    serving sv D db E (delivery_tick (\<lambda>k. DeliverEvent (sign k) (post k) (sv_issuer sv) (now k) (wall k) (finish k) (elapsed k) (lease k)) mid)"
| upkeep: "serving sv D db E mid \<Longrightarrow> serving sv D db E (Maintenance now mid)"
| operator: "serving sv D db E (vs_data (ho_data h)) \<Longrightarrow> args = [] \<or> hd args \<noteq> ''migrate'' \<Longrightarrow> \<forall>t. command_draws lib t \<inter> E t = {} \<Longrightarrow>
    serving sv D db (\<lambda>t. E t \<union> command_draws lib t) (vs_data (ho_data (snd (run_command lib args h))))"

section \<open>What it does to the database\<close>

lemma DeliverEvent_runs: "run D db D (snd (DeliverEvent sign post issuer now wall finish elapsed lease db))"
proof -
  obtain e mid where claim: "claim_event now lease db = (e, mid)" by (cases "claim_event now lease db")
  then have first: "run D db D mid" using run_one [OF operation.claim [of db now lease]] by simp
  show ?thesis
  proof (cases e)
    case (Some r)
    then show ?thesis using run_quiet [OF first operation.complete] claim by (auto simp: DeliverEvent_def split: prod.split)
  qed (use first claim in \<open>simp add: DeliverEvent_def\<close>)
qed

lemma deliver_burst_runs:
  "(\<And>k db. run D db D (snd (deliver k db))) \<Longrightarrow> run D db D (deliver_burst n deliver k db)"
proof (induction n arbitrary: k db)
  case (Suc n)
  obtain worked mid where d: "deliver k db = (worked, mid)" by (cases "deliver k db")
  then have "run D db D mid" using Suc.prems [of db k] by simp
  then show ?case using run_trans [OF Suc.IH [OF Suc.prems, of mid "Suc k"]] d by simp
qed (simp add: run.stop)

lemma step_within: "step E db E' db' \<Longrightarrow> \<forall>t. D t \<subseteq> E t \<Longrightarrow> \<exists>D'. (\<forall>t. D' t \<subseteq> E' t) \<and> step D db D' db'"
proof (elim stepE)
  fix X assume X: "operation X db db'" "\<And>t. X t \<inter> E t = {}" "E' = (\<lambda>t. E t \<union> X t)" and sub: "\<forall>t. D t \<subseteq> E t"
  have "X t \<inter> D t = {}" for t using X(2) [of t] sub by blast
  from step.intros [OF X(1) this] show ?thesis using sub X(3) by (intro exI [of _ "\<lambda>t. D t \<union> X t"]) auto
qed

lemma run_further:
  assumes "run D db D1 a" "\<forall>t. D1 t \<subseteq> E t" "run D1 a D2 b" "\<forall>t. D2 t \<subseteq> D1 t \<union> X t"
  shows "\<exists>D'. (\<forall>t. D' t \<subseteq> E t \<union> X t) \<and> run D db D' b"
proof (intro exI [of _ D2] conjI allI)
  show "D2 t \<subseteq> E t \<union> X t" for t using assms(2,4) by (meson Un_mono order_refl subset_trans)
  show "run D db D2 b" by (rule run_trans [OF assms(3,1)])
qed

text \<open>C6: The server in operation is the service of the model: whatever requests it serves, whatever operations its OpenID provider calls, whenever
its workers tick and the operator runs commands, in any order, the database it leaves is reached by operations of the store. So every
invariant and guarantee of the reachable databases holds of a deployment as long as it runs.\<close>

theorem deployment_is_reachable:
  assumes "reach D db" "serving sv D db E after"
  shows "\<exists>D'. (\<forall>t. D' t \<subseteq> E t) \<and> run D db D' after \<and> reach D' after \<and> sound D' after"
proof -
  from assms(2) have "\<exists>D'. (\<forall>t. D' t \<subseteq> E t) \<and> run D db D' after"
  proof induction
    case listening
    then show ?case using run.stop by blast
  next
    case (request E mid en rid r res after)
    then obtain D1 where D1: "\<forall>t. D1 t \<subseteq> E t" "run D db D1 mid" by blast
    then have "reach D1 mid" using assms(1) run_trans unfolding reach_def by blast
    moreover have "\<forall>t. request_draws en t \<inter> D1 t = {}" using request.hyps(3) D1(1) by blast
    ultimately obtain D2 where D2: "\<forall>t. D2 t \<subseteq> D1 t \<union> request_draws en t" "run D1 mid D2 after"
      using served_requests_are_runs [OF request.hyps(2)] by blast
    show ?case by (rule run_further [OF D1(2,1) D2(2,1)])
  next
    case (provider E mid E' after)
    then obtain D1 where D1: "\<forall>t. D1 t \<subseteq> E t" "run D db D1 mid" by blast
    obtain D2 where "\<forall>t. D2 t \<subseteq> E' t" "step D1 mid D2 after" using step_within [OF provider.hyps(2) D1(1)] by blast
    then show ?case by (intro exI [of _ D2] conjI run.further [OF D1(2)])
  next
    case (delivery E mid sign post now wall finish elapsed lease)
    then obtain D1 where D1: "\<forall>t. D1 t \<subseteq> E t" "run D db D1 mid" by blast
    then show ?case unfolding delivery_tick_def
      by (intro exI [of _ D1] conjI run_trans [OF deliver_burst_runs [OF DeliverEvent_runs]])
  next
    case (upkeep E mid now)
    then obtain D1 where D1: "\<forall>t. D1 t \<subseteq> E t" "run D db D1 mid" by blast
    then show ?case by (intro exI [of _ D1] conjI run_quiet [OF _ operation.maintain])
  next
    case (operator E h args lib)
    then obtain D1 where D1: "\<forall>t. D1 t \<subseteq> E t" "run D db D1 (vs_data (ho_data h))" by blast
    have "command_draws lib T_outbox \<inter> D1 T_outbox = {}" using operator.hyps(3) D1(1) by blast
    then have "range (tl_ids lib) \<inter> D1 T_outbox = {}" "range (tl_ids' lib) \<inter> D1 T_outbox = {}" by (auto simp: command_draws_def)
    from commands_are_runs [where D = D1 and lib = lib and h = h, OF operator.hyps(2) this]
    obtain D2 where D2: "\<forall>t. D2 t \<subseteq> D1 t \<union> command_draws lib t" "run D1 (vs_data (ho_data h)) D2 (vs_data (ho_data (snd (run_command lib args h))))"
      by blast
    show ?case by (rule run_further [OF D1(2,1) D2(2,1)])
  qed
  then obtain D' where D': "\<forall>t. D' t \<subseteq> E t" "run D db D' after" by blast
  have "reach D' after" using run_trans [OF D'(2)] assms(1) by (simp add: reach_def)
  with D' reach_sound show ?thesis by blast
qed

text \<open>Ann logs out everywhere, the worker delivers the notices and the old rows are cleaned up.\<close>

theorem deployment_is_reachable_witness:
  "\<exists>res mid. serve api_server api_env ''q'' logout_request db5 = Some (res, mid)
    \<and> (\<exists>D'. sound D' (Maintenance (days 1) (delivery_tick (\<lambda>k. DeliverEvent (\<lambda>_. None) (\<lambda>_ _ _. None) ''https://cas'' 0 0 0 0 ''lease'') mid)))"
proof -
  obtain res mid where s: "serve api_server api_env ''q'' logout_request db5 = Some (res, mid)"
    unfolding served by (metis surj_pair)
  have "serving api_server none db5 (\<lambda>t. none t \<union> request_draws api_env t) mid" by (rule request [OF listening s]) simp
  from upkeep [OF delivery [OF this]]
  have "serving api_server none db5 (\<lambda>t. none t \<union> request_draws api_env t)
      (Maintenance (days 1) (delivery_tick (\<lambda>k. DeliverEvent (\<lambda>_. None) (\<lambda>_ _ _. None) (sv_issuer api_server) 0 0 0 0 ''lease'') mid))" .
  from deployment_is_reachable [OF db5_reach this] s show ?thesis by auto
qed

end
