(* ===== verification/Honest_Use.thy ===== *)
theory Honest_Use
  imports Delegation
begin

text \<open>
  What honest use achieves: a login at an application ends in tokens that work (\<open>authorization.go\<close>, \<open>tokens.go\<close>), and an enrolled second
  factor is accepted from then on (\<open>account_security.go\<close>).
\<close>

section \<open>The last row of a table\<close>

lemma last_row:
  assumes "\<forall>x\<in>set t. \<not> P x" "P r"
  shows "first_row P (t @ [r]) = Some r" "update_rows P f (t @ [r]) = t @ [f r]" "count_rows P (t @ [r]) = 1" "some_row P (t @ [r])"
proof -
  have "update_rows P f t = t" using assms(1) by (induction t) auto
  then show "update_rows P f (t @ [r]) = t @ [f r]" using assms(2) by simp
  have "first_row P t = None" "filter P t = []" using assms(1) by (auto simp: first_row_None)
  then show "first_row P (t @ [r]) = Some r" "count_rows P (t @ [r]) = 1" "some_row P (t @ [r])"
    using assms(2) by (simp_all add: first_row_cong_snoc count_rows_def some_row_iff)
qed

section \<open>Logging in at an application\<close>

definition approved :: "time \<Rightarrow> string \<Rightarrow> auth_request \<Rightarrow> session_view \<Rightarrow> authorization" where
  "approved wall rid r session = \<lparr>az_id = rid, az_created_at = wall, az_request = r, az_subject = w_identity_id session,
     az_session_id = w_id session, az_auth_time = w_authenticated_at session, az_authenticated = True\<rparr>"

text \<open>Two databases with the same sessions, identities, applications and tokens.\<close>

definition same_parties :: "db \<Rightarrow> db \<Rightarrow> bool" where
  "same_parties a b \<longleftrightarrow> identities a = identities b \<and> browser_sessions a = browser_sessions b \<and> applications a = applications b
     \<and> token_families a = token_families b \<and> refresh_tokens a = refresh_tokens b \<and> access_tokens a = access_tokens b"

lemma request_approved:
  assumes "Session n0 cookie db = Inr session" "CreateAuthRequest n1 wall rid r db = (Inr a, d1)" "n2 < n1 + minutes 5"
  obtains t row where "CompleteAuthorization n2 rid session d1 = (Inr (), t)" "auth_requests t = auth_requests db @ [row]"
    "r_id row = rid" "r_code_hash row = None" "r_consumed_at row = None" "r_expires_at row = n1 + minutes 5"
    "r_payload row = approved wall rid r session" "\<forall>x\<in>set (auth_requests db). r_id x \<noteq> rid" "same_parties t db"
proof -
  obtain c where c: "Client (rq_client_id r) db = Inr c" using assms(2) by (auto simp: CreateAuthRequest_def split: sum.splits)
  define a' where "a' = \<lparr>az_id = rid, az_created_at = wall, az_request = r, az_subject = [], az_session_id = [],
      az_auth_time = zero_time, az_authenticated = False\<rparr>"
  define row where "row = \<lparr>r_id = rid, r_client_id = cl_id c, r_payload = a', r_code_hash = None,
      r_expires_at = n1 + minutes 5, r_code_expires_at = None, r_consumed_at = None\<rparr>"
  have d1: "d1 = db\<lparr>auth_requests := auth_requests db @ [row]\<rparr>" and new: "\<forall>x\<in>set (auth_requests db). \<not> auth_request_clash row x"
    using assms(2) c by (auto simp: CreateAuthRequest_def Let_def row_def a'_def insert_row_Some split: if_splits option.splits)
  then have fresh: "\<forall>x\<in>set (auth_requests db). r_id x \<noteq> rid" by (auto simp: auth_request_clash_def row_def)
  obtain u where u: "Identity (w_identity_id session) db = Inr u"
    using assms(1) by (elim Session_Inr) (fastforce simp: Identity_def view_session_def some_row_iff split: option.splits dest: first_row_NoneD)
  let ?f = "\<lambda>x. x\<lparr>r_payload := approved wall rid r session\<rparr>"
  note last = last_row [where t = "auth_requests db" and r = row]
  have "first_row (\<lambda>x. r_id x = rid \<and> n2 < r_expires_at x \<and> r_consumed_at x = None \<and> r_code_hash x = None) (auth_requests db @ [row]) = Some row"
    using fresh assms(3) by (intro last(1)) (auto simp: row_def)
  moreover have "update_rows (\<lambda>x. r_id x = rid) ?f (auth_requests db @ [row]) = auth_requests db @ [?f row]"
    using fresh by (intro last(2)) (auto simp: row_def)
  moreover have "a'\<lparr>az_subject := w_identity_id session, az_session_id := w_id session, az_auth_time := w_authenticated_at session,
      az_authenticated := True\<rparr> = approved wall rid r session" by (simp add: a'_def approved_def)
  ultimately obtain t where "CompleteAuthorization n2 rid session d1 = (Inr (), t)" "auth_requests t = auth_requests db @ [?f row]" "same_parties t db"
    using u by (auto simp: CompleteAuthorization_def d1 Let_def row_def Identity_def confirm_intents_def same_parties_def a'_def split: sum.splits)
  with fresh show ?thesis by (intro that [of t "?f row"]) (auto simp: row_def)
qed

lemma code_redeemed:
  assumes "auth_requests db = rows @ [row]" "r_id row = rid" "r_code_hash row = None" "r_consumed_at row = None" "n4 < r_expires_at row"
    and "r_payload row = a" "az_authenticated a" "\<forall>x\<in>set rows. r_id x \<noteq> rid" "n3 < r_expires_at row" "n4 < n3 + seconds 60"
    and "\<forall>x\<in>set rows. r_code_hash x \<noteq> Some (Hash code)"
  obtains s t where "SaveAuthCode n3 rid code db = (Inr (), s)" "AuthRequestByCode n4 code s = (Inr a, t)" "same_parties t db"
proof -
  let ?f = "\<lambda>x. x\<lparr>r_code_hash := Some (Hash code), r_code_expires_at := Some (n3 + seconds 60)\<rparr>"
  note last = last_row [where t = rows]
  have pending: "\<forall>x\<in>set rows. \<not> code_pending n3 rid x" "code_pending n3 rid row"
    using assms by (auto simp: code_pending_def)
  have usable: "\<forall>x\<in>set rows. \<not> code_usable n4 code x" "code_usable n4 code (?f row)"
    using assms by (auto simp: code_usable_def)
  define s where "s = db\<lparr>auth_requests := rows @ [?f row]\<rparr>"
  have "SaveAuthCode n3 rid code db = (Inr (), s)"
  proof -
    have "\<not> some_row (\<lambda>x. r_code_hash x = Some (Hash code)) (rows @ [row])" using assms(3,11) by (simp add: some_row_iff)
    then show ?thesis unfolding SaveAuthCode_def assms(1) last(2-4) [OF pending] s_def by simp
  qed
  moreover have "AuthRequestByCode n4 code s = (Inr a, s\<lparr>auth_requests := rows @ [(?f row)\<lparr>r_consumed_at := Some n4\<rparr>]\<rparr>)"
  proof -
    have rows: "auth_requests s = rows @ [?f row]" by (simp add: s_def)
    show ?thesis unfolding AuthRequestByCode_def rows last(1,2) [OF usable] using assms(6,7) by simp
  qed
  ultimately show ?thesis by (rule that) (simp add: s_def same_parties_def)
qed

lemma tokens_issued:
  assumes "Client (rq_client_id (az_request a)) db = Inr c" "Identity (az_subject a) db = Inr u"
    and "\<forall>n\<in>{n5, n6}. session_ok n (az_session_id a) (az_subject a) db" "n6 < wall + minutes 5"
    and "\<forall>x\<in>set (access_tokens db). t_id x \<noteq> tid" "\<forall>x\<in>set (token_families db). f_id x \<noteq> fam"
    and "\<forall>x\<in>set (refresh_tokens db). rt_token_hash x \<noteq> Hash raw"
  obtains t tk where "CreateAccessAndRefreshTokens n5 wall tid fam raw (AuthorizationRequest a) [] db = (Inr (tid, raw, wall + minutes 5), t)"
    "ActiveToken n6 tid t = Inr tk" "TokenRequestByRefreshToken n6 raw t = (Inr tk, t)"
    "tk = (blank_token wall tid (AuthorizationRequest a))\<lparr>tk_client_id := rq_client_id (az_request a), tk_auth_time := az_auth_time a,
      tk_session_id := az_session_id a, tk_family_id := fam\<rparr>"
proof -
  define tk where "tk = (blank_token wall tid (AuthorizationRequest a))\<lparr>tk_client_id := rq_client_id (az_request a), tk_auth_time := az_auth_time a,
      tk_session_id := az_session_id a, tk_family_id := fam\<rparr>"
  define rt where "rt = \<lparr>rt_token_hash = Hash raw, rt_family_id = fam, rt_payload = tk, rt_consumed_at = None, rt_expires_at = wall + days 7\<rparr>"
  define t where "t = db\<lparr>token_families := token_families db @ [new_family wall fam tk], refresh_tokens := refresh_tokens db @ [rt],
      access_tokens := access_tokens db @ [access_row_of tk]\<rparr>"
  have tk: "tk_id tk = tid" "tk_client_id tk = rq_client_id (az_request a)" "tk_subject tk = az_subject a" "\<not> tk_service tk" "\<not> tk_delegated tk"
      "tk_session_id tk = az_session_id a" "tk_expires_at tk = wall + minutes 5" "tk_family_id tk = fam"
    by (simp_all add: tk_def blank_token_def)
  have valid: "validateTokenSubject n tk' d = Inr ()" if "n \<in> {n5, n6}" "tk_client_id tk' = tk_client_id tk" "tk_subject tk' = tk_subject tk"
      "tk_session_id tk' = tk_session_id tk" "identities d = identities db" "applications d = applications db" "browser_sessions d = browser_sessions db" for n tk' d
    using assms(1-3) that tk by (auto simp: validateTokenSubject_def Client_def Identity_def session_ok_def split: option.splits)
  have made: "CreateAccessAndRefreshTokens n5 wall tid fam raw (AuthorizationRequest a) [] db = (Inr (tid, raw, wall + minutes 5), t)"
  proof -
    let ?t = "(blank_token wall tid (AuthorizationRequest a))\<lparr>tk_client_id := rq_client_id (az_request a), tk_auth_time := az_auth_time a,
        tk_session_id := az_session_id a\<rparr>"
    have "insert_row family_clash (new_family wall fam tk) (token_families db) = Some (token_families db @ [new_family wall fam tk])"
      "insert_row refresh_clash rt (refresh_tokens db) = Some (refresh_tokens db @ [rt])"
      "insert_row access_clash (access_row_of tk) (access_tokens db) = Some (access_tokens db @ [access_row_of tk])"
      using assms(5-7) by (auto simp: insert_row_Some family_clash_def refresh_clash_def access_clash_def new_family_def rt_def tk(1))
    moreover have "validateTokenSubject n5 ?t db = Inr ()" "\<not> tk_service ?t" "?t\<lparr>tk_family_id := fam\<rparr> = tk"
      by (intro valid) (simp_all add: tk_def blank_token_def)
    ultimately show ?thesis
      by (simp add: CreateAccessAndRefreshTokens_def Let_def insert_pair_def insertAccess_def t_def rt_def tk)
  qed
  have family: "family_live n6 fam t"
    using assms(4) by (simp add: family_live_def t_def some_row_iff new_family_def)
  have live: "access_live n6 t (access_row_of tk)"
    using assms(1,4) family by (auto simp: access_live_def access_row_of_def tk t_def Client_def some_row_iff split: option.splits dest!: first_row_Some)
  have "first_row (\<lambda>x. t_id x = tid \<and> access_live n6 t x) (access_tokens t) = Some (access_row_of tk)"
    using assms(5) live by (simp add: t_def) (intro last_row(1), auto simp: tk t_def)
  then have "active_token (Suc n) n6 tid t = Some (Inr tk)" for n
    using valid [of n6 tk t] by (simp add: Let_def access_row_of_def tk(5) t_def)
  then have active: "ActiveToken n6 tid t = Inr tk" by (simp add: ActiveToken_def)
  have "refresh_with_family raw t = Some (rt, new_family wall fam tk)"
    using last_row(1) [of "refresh_tokens db" "\<lambda>r. rt_token_hash r = Hash raw" rt] last_row(1) [of "token_families db" "\<lambda>f. f_id f = fam" "new_family wall fam tk"] assms(6,7)
    by (simp add: refresh_with_family_def t_def rt_def new_family_def)
  then have "TokenRequestByRefreshToken n6 raw t = (Inr tk, t)"
    using valid [of n6 tk t] assms(4) by (simp add: TokenRequestByRefreshToken_def rt_def new_family_def t_def)
  with made active show ?thesis by (rule that) (simp add: tk_def)
qed

text \<open>C5: Logging in works: once an authorization request is accepted for a user with a live session, the user's approval, the code
and its exchange succeed, within the five minutes of the request and the minute of the code, and give an access token that is active and a
refresh token that is accepted, with the client and scopes of the request and the subject, session and login time of the user.
The random values must be new, and the session must not have ended.\<close>

theorem code_flow_completes:
  assumes "Session n0 cookie db = Inr session" "CreateAuthRequest n1 wall1 rid r db = (Inr a, d1)"
    and "n5 \<le> n6" "n6 < w_expires_at session" "n6 < wall5 + minutes 5"
    and "n2 < n1 + minutes 5" "n3 < n1 + minutes 5" "n4 < n1 + minutes 5" "n4 < n3 + seconds 60"
    and "\<forall>x\<in>set (auth_requests db). r_code_hash x \<noteq> Some (Hash code)" "\<forall>x\<in>set (access_tokens db). t_id x \<noteq> tid"
    and "\<forall>x\<in>set (token_families db). f_id x \<noteq> fam" "\<forall>x\<in>set (refresh_tokens db). rt_token_hash x \<noteq> Hash raw"
  shows "\<exists>d2 d3 d4 d5 b t. CompleteAuthorization n2 rid session d1 = (Inr (), d2) \<and> SaveAuthCode n3 rid code d2 = (Inr (), d3)
    \<and> AuthRequestByCode n4 code d3 = (Inr b, d4)
    \<and> CreateAccessAndRefreshTokens n5 wall5 tid fam raw (AuthorizationRequest b) [] d4 = (Inr (tid, raw, wall5 + minutes 5), d5)
    \<and> ActiveToken n6 tid d5 = Inr t \<and> TokenRequestByRefreshToken n6 raw d5 = (Inr t, d5)
    \<and> tk_client_id t = rq_client_id r \<and> tk_scopes t = rq_scopes r \<and> tk_subject t = w_identity_id session
    \<and> tk_session_id t = w_id session \<and> tk_auth_time t = w_authenticated_at session"
proof -
  let ?b = "approved wall1 rid r session"
  obtain d2 row where one: "CompleteAuthorization n2 rid session d1 = (Inr (), d2)" "auth_requests d2 = auth_requests db @ [row]"
    "r_id row = rid" "r_code_hash row = None" "r_consumed_at row = None" "r_expires_at row = n1 + minutes 5"
    "r_payload row = ?b" "\<forall>x\<in>set (auth_requests db). r_id x \<noteq> rid" and same2: "same_parties d2 db"
    using request_approved [OF assms(1,2,6)] by metis
  obtain d3 d4 where two: "SaveAuthCode n3 rid code d2 = (Inr (), d3)" "AuthRequestByCode n4 code d3 = (Inr ?b, d4)"
      and same4: "same_parties d4 d2"
    by (rule code_redeemed [OF one(2-5) _ one(7) _ one(8) _ assms(9,10)]) (use one(6) assms(7,8) in \<open>auto simp: approved_def\<close>)
  have same: "same_parties d4 db" using same4 same2 by (simp add: same_parties_def)
  obtain s where s: "s \<in> set (browser_sessions db)" "live_session n0 s" "some_row (active_identity (s_identity_id s)) (identities db)"
      "session = view_session s" by (rule Session_Inr [OF assms(1)])
  have client: "\<exists>c. Client (rq_client_id (az_request ?b)) d4 = Inr c"
    using assms(2) same by (auto simp: CreateAuthRequest_def approved_def Client_def same_parties_def split: sum.splits)
  have user: "\<exists>u. Identity (az_subject ?b) d4 = Inr u"
    using s(3,4) same by (cases "first_row (active_identity (s_identity_id s)) (identities db)")
      (auto simp: approved_def Identity_def same_parties_def view_session_def some_row_iff dest: first_row_NoneD)
  have live: "\<forall>n\<in>{n5, n6}. session_ok n (az_session_id ?b) (az_subject ?b) d4"
    using s(1,2,4) assms(3,4) same
    by (auto simp: session_ok_def approved_def same_parties_def view_session_def some_row_iff live_session_def intro!: bexI [of _ s])
  from client user obtain c u where cu: "Client (rq_client_id (az_request ?b)) d4 = Inr c" "Identity (az_subject ?b) d4 = Inr u" by blast
  obtain d5 t where three: "CreateAccessAndRefreshTokens n5 wall5 tid fam raw (AuthorizationRequest ?b) [] d4 = (Inr (tid, raw, wall5 + minutes 5), d5)"
    "ActiveToken n6 tid d5 = Inr t" "TokenRequestByRefreshToken n6 raw d5 = (Inr t, d5)"
    "t = (blank_token wall5 tid (AuthorizationRequest ?b))\<lparr>tk_client_id := rq_client_id (az_request ?b), tk_auth_time := az_auth_time ?b,
      tk_session_id := az_session_id ?b, tk_family_id := fam\<rparr>"
    by (rule tokens_issued [OF cu live assms(5)]) (use assms(11-13) same in \<open>auto simp: same_parties_def\<close>)
  from one(1) two three show ?thesis
    by (intro exI [of _ d2] exI [of _ d3] exI [of _ d4] exI [of _ d5] exI [of _ ?b] exI [of _ t]) (simp add: blank_token_def approved_def)
qed

text \<open>Ann logs in at the shop.\<close>

theorem code_flow_completes_witness:
  "\<exists>d8 d9 d10 d11 b t. CompleteAuthorization (minutes 1) ''r1'' (view_session ann_session) db7 = (Inr (), d8)
    \<and> SaveAuthCode (minutes 2) ''r1'' ''code'' d8 = (Inr (), d9) \<and> AuthRequestByCode (minutes 2) ''code'' d9 = (Inr b, d10)
    \<and> CreateAccessAndRefreshTokens (minutes 3) (minutes 3) ''t1'' ''f1'' ''raw'' (AuthorizationRequest b) [] d10 = (Inr (''t1'', ''raw'', minutes 8), d11)
    \<and> ActiveToken (minutes 7) ''t1'' d11 = Inr t \<and> tk_subject t = ''ann''"
proof -
  have s: "Session 0 ''abc'' db6 = Inr (view_session ann_session)"
    by (simp add: Session_def db6_tables scenario_simps live_session_def active_identity_def)
  have "\<exists>a. fst (CreateAuthRequest 0 0 ''r1'' (ask shop ''n1'') db6) = Inr a"
    by (simp add: db6_tables scenario_simps CreateAuthRequest_def ask_def PromptNone_def ScopeOpenID_def active_app_def Client_def)
  then obtain a where r: "CreateAuthRequest 0 0 ''r1'' (ask shop ''n1'') db6 = (Inr a, db7)" unfolding db7_def by (metis prod.collapse)
  show ?thesis
    using code_flow_completes [OF s r, of "minutes 3" "minutes 7" "minutes 3" "minutes 1" "minutes 2" "minutes 2" "''code''" "''t1''" "''f1''" "''raw''"]
    by (simp add: db6_tables ann_session_def view_session_def) metis
qed

section \<open>Enrolling a second factor\<close>

lemma lone_row:
  assumes "indexed clash t" "\<And>a b. P a \<Longrightarrow> P b \<Longrightarrow> clash a b" "r \<in> set t" "P r"
  shows "first_row P t = Some r" "count_rows P t = 1"
proof -
  have "filter P t = [r]" using assms(1,3)
  proof (induction t)
    case (Cons x t)
    then have apart: "\<forall>y\<in>set t. \<not> clash x y" and ok: "indexed clash t" by (auto simp: indexed_def)
    show ?case
    proof (cases "P x")
      case True
      then have none: "\<forall>y\<in>set t. \<not> P y" using apart assms(2) by blast
      then show ?thesis using True Cons.prems(2) assms(4) by (auto simp: filter_empty_conv)
    next
      case False
      then show ?thesis using Cons.IH [OF ok] Cons.prems(2) assms(4) by auto
    qed
  qed simp
  then show "count_rows P t = 1" by (simp add: count_rows_def)
  have "first_row P t = (case filter P t of [] \<Rightarrow> None | x # _ \<Rightarrow> Some x)" by (induction t) auto
  then show "first_row P t = Some r" using \<open>filter P t = [r]\<close> by simp
qed

lemma identity_found:
  assumes "schema_ok db" "i \<in> set (identities db)" "P i" "\<And>j. P j \<Longrightarrow> i_id j = i_id i"
  shows "first_row P (identities db) = Some i" "count_rows P (identities db) = 1"
proof -
  have "identity_clash a b" if "P a" "P b" for a b
    using assms(4) [OF that(1)] assms(4) [OF that(2)] by (simp add: identity_clash_def)
  note found = lone_row [where P = P, OF schema_ok_tables(1) [OF assms(1)] this assms(2,3)]
  show "first_row P (identities db) = Some i" by (rule found(1))
  show "count_rows P (identities db) = 1" by (rule found(2))
qed

lemma totpStep_now:
  assumes "totp secret (wall div seconds 1 div 30 * 30) = Some code" "length code = 6" "seconds 30 \<le> wall"
  shows "\<bar>totpStep totp wall secret code - wall div seconds 1 div 30\<bar> \<le> 1" "0 \<le> totpStep totp wall secret code"
proof -
  let ?n = "wall div seconds 1 div 30"
  have n: "1 \<le> ?n" using assms(3) by simp
  have "totp_matches totp secret code ?n" using assms(1) by (simp add: totp_matches_def)
  then have "totpStep totp wall secret code \<in> {?n - 1, ?n}" using assms(2) by (auto simp: totpStep_def Let_def)
  then show "\<bar>totpStep totp wall secret code - ?n\<bar> \<le> 1" "0 \<le> totpStep totp wall secret code" using n by auto
qed

lemma fresh_codes_admitted:
  assumes "distinct (map Hash codes)" "\<forall>v\<in>set t. v_token_hash v \<notin> Hash ` set codes"
  shows "insert_rows recovery_clash (map (recovery_row_of subject) codes) t = Some (t @ map (recovery_row_of subject) codes)"
  using assms
proof (induction codes arbitrary: t)
  case (Cons c codes)
  have "insert_row recovery_clash (recovery_row_of subject c) t = Some (t @ [recovery_row_of subject c])"
    using Cons.prems(2) by (auto simp: insert_row_Some recovery_clash_def recovery_row_of_def)
  then show ?case using Cons.IH [of "t @ [recovery_row_of subject c]"] Cons.prems by (auto simp: recovery_row_of_def)
qed simp

text \<open>The identity after the two steps of an enrolment.\<close>

definition enrolled :: "string \<Rightarrow> int \<Rightarrow> identity_row \<Rightarrow> identity_row" where
  "enrolled sealed slot i = i\<lparr>i_mfa_secret := Some sealed, i_pending_mfa_secret := None, i_pending_mfa_expires := None, i_mfa_last_step := slot\<rparr>"

lemma enrolment_steps:
  assumes "schema_ok db" "i \<in> set (identities db)" "active_identity subject i" "i_mfa_secret i = None"
    and "seal secret = Inr sealed" "unseal sealed = Inr secret" "now2 < now1 + minutes 5" "0 \<le> totpStep totp wall secret code"
    and "distinct (map Hash codes)" "\<forall>v\<in>set (recovery_codes db). v_token_hash v \<notin> Hash ` set codes"
  obtains s t where "BeginMFA seal now1 (secret, url) subject db = (Inr url, s)"
    "ConfirmMFA unseal totp now2 wall codes subject sid code s = (Inr codes, t)" "schema_ok t"
    "enrolled sealed (totpStep totp wall secret code) i \<in> set (identities t)" "rate_limits t = rate_limits db"
    "recovery_codes t = recovery_codes db @ map (recovery_row_of subject) codes"
proof -
  let ?P = "\<lambda>i. active_identity subject i \<and> i_mfa_secret i = None"
  let ?f = "\<lambda>i. i\<lparr>i_pending_mfa_secret := Some sealed, i_pending_mfa_expires := Some (now1 + minutes 5)\<rparr>"
  let ?k = "totpStep totp wall secret code"
  have one: "count_rows ?P (identities db) = 1"
    using assms(1-4) by (intro identity_found(2)) (auto simp: active_identity_def)
  have "first_row (active_identity subject) (identities db) = Some i"
    using assms(1-3) by (intro identity_found(1)) (auto simp: active_identity_def)
  define s where "s = db\<lparr>identities := update_rows ?P ?f (identities db)\<rparr>"
  have begun: "BeginMFA seal now1 (secret, url) subject db = (Inr url, s)"
    using one \<open>first_row _ _ = _\<close> assms(5) by (simp add: BeginMFA_def Identity_def s_def)
  have ok: "schema_ok s" using BeginMFA_schema [OF assms(1), of seal now1 "(secret, url)" subject] begun by simp
  have row: "?f i \<in> set (identities s)" using assms(2-4) by (auto simp: s_def set_update_rows)
  have found: "first_row (\<lambda>i. active_identity subject i \<and> i_mfa_secret i = None \<and> later_than (i_pending_mfa_expires i) now2) (identities s) = Some (?f i)"
    using ok row assms(3,4,7) by (intro identity_found(1)) (auto simp: active_identity_def)
  have tables: "recovery_codes s = recovery_codes db" "rate_limits s = rate_limits db" by (simp_all add: s_def)
  define t where "t = snd (ConfirmMFA unseal totp now2 wall codes subject sid code s)"
  have confirmed: "ConfirmMFA unseal totp now2 wall codes subject sid code s = (Inr codes, t)"
    and t: "identities t = update_rows (\<lambda>i. i_id i = subject) (\<lambda>i. i\<lparr>i_mfa_secret := i_pending_mfa_secret i, i_pending_mfa_secret := None,
        i_pending_mfa_expires := None, i_mfa_last_step := ?k\<rparr>) (identities s)"
      "recovery_codes t = recovery_codes db @ map (recovery_row_of subject) codes" "rate_limits t = rate_limits db"
    using found assms(6,8) fresh_codes_admitted [OF assms(9,10), of subject] tables by (simp_all add: t_def ConfirmMFA_def Let_def)
  have ok': "schema_ok t" unfolding t_def by (rule ConfirmMFA_schema [OF ok])
  have row': "enrolled sealed ?k i \<in> set (identities t)"
    using row assms(3) unfolding t(1) set_update_rows by (force simp: enrolled_def active_identity_def)
  show ?thesis by (rule that [OF begun confirmed ok' row' t(3,2)])
qed

text \<open>C29: A second factor that was enrolled works: for a user without one, enrolment stores the secret under AES-GCM, a current code of
the authenticator confirms it within five minutes, and from then on a code two minutes later is accepted, and so is every recovery code
that was handed out, as long as the limit on attempts is not reached.\<close>

theorem enrolled_factor_works:
  assumes "reach D db" "i \<in> set (identities db)" "active_identity subject i" "i_mfa_secret i = None"
    and "gcm_ok g" "length nonce = NonceSize" "seal = encrypt g (Some key) nonce" "unseal = decrypt g (Some key)"
    and "now2 < now1 + minutes 5" "seconds 30 \<le> wall2" "wall2 + minutes 2 \<le> wall3"
    and "totp secret (wall2 div seconds 1 div 30 * 30) = Some code2" "length code2 = 6"
    and "totp secret (wall3 div seconds 1 div 30 * 30) = Some code3" "length code3 = 6"
    and "distinct (map Hash codes)" "\<forall>v\<in>set (recovery_codes db). v_token_hash v \<notin> Hash ` set codes"
    and "fst (Allow now3 (''mfa:'' @ subject) 10 (minutes 5) db)"
  shows "\<exists>s t. BeginMFA seal now1 (secret, url) subject db = (Inr url, s)
    \<and> ConfirmMFA unseal totp now2 wall2 codes subject sid code2 s = (Inr codes, t) \<and> MFAEnabled subject t = Inr True
    \<and> fst (VerifyMFA unseal totp now3 wall3 subject code3 t) = Inr ()
    \<and> (\<forall>c\<in>set codes. 6 < length c \<and> trim_space c = c \<longrightarrow> fst (VerifyMFA unseal totp now3 wall3 subject c t) = Inr ())"
proof -
  obtain sealed where sealed: "seal secret = Inr sealed" "sealed \<noteq> []"
    using assms(6,7) by (cases nonce) (simp_all add: encrypt_def NonceSize_def)
  have open_it: "unseal sealed = Inr secret" using decrypt_encrypt assms(5-8) sealed(1) by simp
  note first = totpStep_now [where totp = totp and wall = wall2 and secret = secret, OF assms(12,13,10)]
  obtain s t where st: "BeginMFA seal now1 (secret, url) subject db = (Inr url, s)"
    "ConfirmMFA unseal totp now2 wall2 codes subject sid code2 s = (Inr codes, t)" "schema_ok t"
    "enrolled sealed (totpStep totp wall2 secret code2) i \<in> set (identities t)" "rate_limits t = rate_limits db"
    "recovery_codes t = recovery_codes db @ map (recovery_row_of subject) codes"
    by (rule enrolment_steps [where seal = seal and unseal = unseal and totp = totp and secret = secret, OF soundD(1) [OF reach_sound [OF assms(1)]] assms(2-4) sealed(1) open_it assms(9) first(2) assms(16,17)])
  let ?i = "enrolled sealed (totpStep totp wall2 secret code2) i"
  have i: "active_identity subject ?i" "i_mfa_secret ?i = Some sealed" "i_mfa_last_step ?i = totpStep totp wall2 secret code2"
    using assms(3) by (simp_all add: enrolled_def active_identity_def)
  have found: "first_row (active_identity subject) (identities t) = Some ?i"
    using st(3,4) i(1) by (intro identity_found(1)) (auto simp: active_identity_def)
  then have enabled: "MFAEnabled subject t = Inr True" by (simp add: MFAEnabled_def i(2))
  obtain rates where allow: "Allow now3 (''mfa:'' @ subject) 10 (minutes 5) t = (True, t\<lparr>rate_limits := rates\<rparr>)"
    using assms(18) by (auto simp: Allow_unfold st(5))
  have "wall2 div seconds 1 div 30 + 2 < wall3 div seconds 1 div 30" using assms(11) by simp
  moreover have "seconds 30 \<le> wall3" using assms(10,11) by linarith
  note third = totpStep_now [where totp = totp and wall = wall3 and secret = secret, OF assms(14,15) this]
  ultimately have later: "totpStep totp wall2 secret code2 < totpStep totp wall3 secret code3" "0 \<le> totpStep totp wall3 secret code3"
    using first(1) third unfolding abs_le_iff by linarith+
  have code: "fst (VerifyMFA unseal totp now3 wall3 subject code3 t) = Inr ()"
    using later assms(15) unfolding VerifyMFA_def allow by (simp add: found i(2,3) sealed(2) open_it Let_def)
  have "fst (VerifyMFA unseal totp now3 wall3 subject c t) = Inr ()" if c: "c \<in> set codes" "6 < length c" "trim_space c = c" for c
  proof -
    have "count_rows (usable_recovery subject c) (recovery_codes t) = 1"
    proof (rule lone_row(2))
      show "indexed recovery_clash (recovery_codes t)" using st(3) by simp
      show "recovery_row_of subject c \<in> set (recovery_codes t)" using c(1) by (simp add: st(6))
    qed (auto simp: usable_recovery_def recovery_clash_def recovery_row_of_def c(3))
    then show ?thesis using c(2) unfolding VerifyMFA_def allow by (simp add: found i(2) sealed(2))
  qed
  with st(1,2) enabled code show ?thesis by blast
qed

text \<open>Ann enrols her authenticator and uses it two minutes later.\<close>

theorem enrolled_factor_works_witness:
  "\<exists>s t. BeginMFA (encrypt gcm_example (Some (replicate 32 CHR ''k'')) (replicate 12 CHR ''n'')) 0 (''seed'', ''url'') ''ann'' db5 = (Inr ''url'', s)
    \<and> ConfirmMFA (decrypt gcm_example (Some (replicate 32 CHR ''k''))) totp_example (seconds 30) (seconds 30) [''recovery-code''] ''ann'' ''s1'' ''111111'' s
        = (Inr [''recovery-code''], t)
    \<and> fst (VerifyMFA (decrypt gcm_example (Some (replicate 32 CHR ''k''))) totp_example (seconds 150) (seconds 150) ''ann'' ''111111'' t) = Inr ()"
proof -
  have "gcm_ok gcm_example" by (simp add: gcm_ok_def gcm_example_def)
  from enrolled_factor_works [OF db5_reach _ _ _ this _ refl refl, of ann "''ann''" "replicate 12 CHR ''n''" "seconds 30" 0 "seconds 30" "seconds 150"
      totp_example "''seed''" "''111111''" "''111111''" "[''recovery-code'']" "seconds 150"]
  show ?thesis
    by (simp add: db5_tables ann_def active_identity_def NonceSize_def totp_example_def Allow_unfold upsert_rate_def Let_def) blast
qed

end
