(* ===== verification/Sdk.thy ===== *)
theory Sdk
  imports Tokens Net_Library Json
begin

text \<open>
  The Go SDK, \<open>sdk/go/client.go\<close>: the client an application embeds to sign its users in through FastCAS and to link their
  accounts. Every operation is in \<open>sdk\<close>: it may fail, and it reads and changes the client's cached provider, the application's
  store of transactions and the network.

  The libraries are the record \<open>library\<close>: \<open>go-oidc\<close> (discovery, verification of tokens, the user info), \<open>oauth2\<close> (the
  authorization URL, code exchange and refresh), \<open>go-jose\<close>, \<open>net/http\<close> and the parsers of URLs, JSON texts and times. \<open>lb_put\<close>
  and \<open>lb_take\<close> are the methods of the application's \<open>TransactionStore\<close>. The states of the store and of the network are
  any types; providers are any type.
\<close>

section \<open>net/url\<close>

text \<open>\<open>url.PathEscape\<close>.\<close>

definition escape_segment_char :: "char \<Rightarrow> string" where
  "escape_segment_char c =
     (if unreserved c \<or> c \<in> set ''$&+:=@'' then [c]
      else [CHR ''%'', upper_hex (of_char c div 16), upper_hex (of_char c mod 16)])"

definition path_escape :: "string \<Rightarrow> string" where
  "path_escape s = concat (map escape_segment_char s)"

text \<open>\<open>Values.Encode\<close> of values with one string per key.\<close>

definition encode_values :: "(string \<times> string) list \<Rightarrow> string" where
  "encode_values vs = join_with ''&'' (map (\<lambda>(k, v). query_escape k @ ''='' @ query_escape v) (sort_key fst vs))"

text \<open>\<open>ParseQuery\<close>: the pairs it could read and whether it read them all. A pair with a semicolon is an error.\<close>

definition parse_pair :: "string \<Rightarrow> (string \<times> string) option" where
  "parse_pair s =
     (if CHR '';'' \<in> set s then None
      else case (query_unescape (takeWhile (\<lambda>c. c \<noteq> CHR ''='') s), query_unescape (drop 1 (dropWhile (\<lambda>c. c \<noteq> CHR ''='') s))) of
        (Some k, Some v) \<Rightarrow> Some (k, v)
      | _ \<Rightarrow> None)"

definition parse_query :: "string \<Rightarrow> (string \<times> string) list \<times> bool" where
  "parse_query s = (let parsed = map parse_pair (filter (\<lambda>p. p \<noteq> []) (split_on CHR ''&'' s))
     in (map the (filter (\<lambda>p. p \<noteq> None) parsed), None \<notin> set parsed))"

definition query_value :: "string \<Rightarrow> url \<Rightarrow> string" where
  "query_value name u = (case filter (\<lambda>p. fst p = name) (fst (parse_query (url_raw_query u))) of [] \<Rightarrow> [] | p # _ \<Rightarrow> snd p)"

text \<open>\<open>strings.Fields\<close>.\<close>

fun fields_from :: "string \<Rightarrow> string \<Rightarrow> string list" where
  "fields_from word [] = (if word = [] then [] else [rev word])"
| "fields_from word (c # s) =
     (if is_space c then (if word = [] then fields_from [] s else rev word # fields_from [] s) else fields_from (c # word) s)"

definition string_fields :: "string \<Rightarrow> string list" where
  "string_fields s = fields_from [] s"

section \<open>The data of the client\<close>

record sdk_config =
  cf_issuer :: string
  cf_client_id :: string
  cf_client_secret :: string
  cf_redirect_uri :: string
  cf_loopback :: bool

record sdk_intent =
  si_id :: string
  si_client_id :: string
  si_local_ref :: string
  si_nonce :: string
  si_state :: string
  si_expires_at :: time

record sdk_link =
  sl_id :: string
  sl_client_id :: string
  sl_local_ref :: string
  sl_subject :: string
  sl_state :: string
  sl_version :: int
  sl_verified_at :: time

record transaction =
  tx_state :: string
  tx_nonce :: string
  tx_verifier :: string
  tx_binding_hash :: string
  tx_purpose :: string
  tx_return_to :: string
  tx_local_account :: string
  tx_local_session :: string
  tx_expires_at :: time
  tx_intent :: "sdk_intent option"

record metadata =
  md_issuer :: string
  md_authorization :: string
  md_token :: string
  md_jwks :: string
  md_userinfo :: string
  md_revocation :: string
  md_introspection :: string
  md_device :: string

record sdk_identity =
  id_issuer :: string
  id_subject :: string
  id_name :: string
  id_email :: string
  id_email_verified :: bool
  id_session :: string

record begin_options =
  bo_binding :: string
  bo_return_to :: string
  bo_local_account :: string
  bo_local_session :: string
  bo_scopes :: "string list"

record finish_options =
  fo_binding :: string
  fo_local_account :: string
  fo_local_session :: string

datatype sdk_error =
    SdkError string
  | ApiError string string int
  | LibraryError

section \<open>The libraries\<close>

datatype sdk_body = NoBody | JsonBody json | FormBody string

record sdk_request =
  sq_method :: string
  sq_url :: string
  sq_basic :: "(string \<times> string) option"
  sq_headers :: "(string \<times> string) list"
  sq_body :: sdk_body

text \<open>Of a response its first mebibyte: the first JSON value in it, and the value it is if it is one.\<close>

record sdk_response =
  sp_status :: int
  sp_first :: "json option"
  sp_whole :: "json option"

record oauth =
  oa_client_id :: string
  oa_client_secret :: string
  oa_redirect :: string
  oa_scopes :: "string list"

record oauth_token =
  ot_access :: string
  ot_refresh :: string
  ot_expiry :: time
  ot_id_token :: "string option"

record id_token =
  it_issuer :: string
  it_subject :: string
  it_audience :: "string list"
  it_expiry :: time
  it_issued_at :: time
  it_nonce :: string
  it_claims :: json

record user_profile =
  up_subject :: string
  up_email :: string
  up_email_verified :: bool
  up_claims :: json

record ('p, 's, 'n) library =
  lb_url :: url_parser
  lb_url_string :: "string \<Rightarrow> string"
  lb_time :: "string \<Rightarrow> time option"
  lb_provider :: "string \<Rightarrow> 'n \<Rightarrow> 'p option \<times> 'n"
  lb_discovered :: "'p \<Rightarrow> json"
  lb_verify :: "'p \<Rightarrow> string \<Rightarrow> string \<Rightarrow> 'n \<Rightarrow> id_token option \<times> 'n"
  lb_token_types :: "string \<Rightarrow> string option list option"
  lb_auth_url :: "'p \<Rightarrow> oauth \<Rightarrow> string \<Rightarrow> string \<Rightarrow> string \<Rightarrow> string"
  lb_exchange :: "'p \<Rightarrow> oauth \<Rightarrow> string \<Rightarrow> string \<Rightarrow> 'n \<Rightarrow> oauth_token option \<times> 'n"
  lb_refresh :: "'p \<Rightarrow> oauth \<Rightarrow> oauth_token \<Rightarrow> 'n \<Rightarrow> oauth_token option \<times> 'n"
  lb_userinfo :: "'p \<Rightarrow> oauth_token \<Rightarrow> 'n \<Rightarrow> user_profile option \<times> 'n"
  lb_do :: "sdk_request \<Rightarrow> 'n \<Rightarrow> sdk_response option \<times> 'n"
  lb_put :: "transaction \<Rightarrow> 's \<Rightarrow> bool \<times> 's"
  lb_take :: "string \<Rightarrow> 's \<Rightarrow> transaction option option \<times> 's"

section \<open>Operations of the client\<close>

record ('p, 's, 'n) sdk_state =
  sd_provider :: "('p \<times> metadata) option"
  sd_store :: 's
  sd_net :: 'n

type_synonym ('p, 's, 'n, 'a) sdk = "('p, 's, 'n) sdk_state \<Rightarrow> (sdk_error + 'a) \<times> ('p, 's, 'n) sdk_state"

definition sdk_give :: "'a \<Rightarrow> ('p, 's, 'n, 'a) sdk" where "sdk_give a st = (Inr a, st)"

definition sdk_fail :: "sdk_error \<Rightarrow> ('p, 's, 'n, 'a) sdk" where "sdk_fail e st = (Inl e, st)"

definition sdk_then :: "('p, 's, 'n, 'a) sdk \<Rightarrow> ('a \<Rightarrow> ('p, 's, 'n, 'b) sdk) \<Rightarrow> ('p, 's, 'n, 'b) sdk" where
  "sdk_then m f st = (case m st of (Inl e, st) \<Rightarrow> (Inl e, st) | (Inr a, st) \<Rightarrow> f a st)"

text \<open>A check of the client's own, a value that may be missing, and a call into the network or the store.\<close>

definition sdk_check :: "string \<Rightarrow> bool \<Rightarrow> ('p, 's, 'n, unit) sdk" where
  "sdk_check msg P = (if P then sdk_give () else sdk_fail (SdkError msg))"

definition sdk_some :: "sdk_error \<Rightarrow> 'a option \<Rightarrow> ('p, 's, 'n, 'a) sdk" where
  "sdk_some e x = (case x of None \<Rightarrow> sdk_fail e | Some a \<Rightarrow> sdk_give a)"

definition on_net :: "sdk_error \<Rightarrow> ('n \<Rightarrow> 'a option \<times> 'n) \<Rightarrow> ('p, 's, 'n, 'a) sdk" where
  "on_net e f st = (case f (sd_net st) of (x, n) \<Rightarrow> sdk_some e x (st\<lparr>sd_net := n\<rparr>))"

definition on_transactions :: "('s \<Rightarrow> 'a \<times> 's) \<Rightarrow> ('p, 's, 'n, 'a) sdk" where
  "on_transactions f st = (case f (sd_store st) of (x, s) \<Rightarrow> (Inr x, st\<lparr>sd_store := s\<rparr>))"

section \<open>Creating a client\<close>

definition endpoint :: "url_parser \<Rightarrow> string \<Rightarrow> bool \<Rightarrow> sdk_error + url" where
  "endpoint parse raw dev =
     (case parse raw of
        None \<Rightarrow> Inl (SdkError ''invalid endpoint URL'')
      | Some u \<Rightarrow>
          if url_host u = [] \<or> url_user u \<or> url_fragment u \<noteq> [] then Inl (SdkError ''invalid endpoint URL'')
          else if url_scheme u \<noteq> ''https'' \<and> \<not> (dev \<and> url_scheme u = ''http'' \<and> loopback (url_hostname u))
          then Inl (SdkError ''HTTPS required outside explicit loopback development'')
          else Inr u)"

definition New_sdk :: "url_parser \<Rightarrow> sdk_config \<Rightarrow> bool \<Rightarrow> sdk_error + sdk_config" where
  "New_sdk parse cf has_store =
     (if \<not> has_store then Inl (SdkError ''persistent transaction store required'')
      else case endpoint parse (cf_issuer cf) (cf_loopback cf) of
        Inl e \<Rightarrow> Inl e
      | Inr issuer \<Rightarrow>
          if url_path issuer \<noteq> [] \<or> url_raw_query issuer \<noteq> [] \<or> cf_client_id cf = []
          then Inl (SdkError ''issuer must be an origin; client ID required'')
          else (case endpoint parse (cf_redirect_uri cf) (cf_loopback cf) of Inl e \<Rightarrow> Inl e | Inr _ \<Rightarrow> Inr cf))"

definition RandomBinding :: "string \<Rightarrow> string" where
  "RandomBinding raw = base64_encode url_alphabet raw"

definition hash_sdk :: "string \<Rightarrow> string" where
  "hash_sdk raw = base64_encode url_alphabet (sha256 raw)"

section \<open>Discovery\<close>

definition metadata_fields :: json_fields where
  "metadata_fields = map (\<lambda>n. (n, TString)) [''issuer'', ''authorization_endpoint'', ''token_endpoint'', ''jwks_uri'',
     ''userinfo_endpoint'', ''revocation_endpoint'', ''introspection_endpoint'', ''device_authorization_endpoint'']"

definition metadata_from :: "struct_value \<Rightarrow> metadata" where
  "metadata_from v = \<lparr>md_issuer = string_field ''issuer'' v, md_authorization = string_field ''authorization_endpoint'' v,
     md_token = string_field ''token_endpoint'' v, md_jwks = string_field ''jwks_uri'' v,
     md_userinfo = string_field ''userinfo_endpoint'' v, md_revocation = string_field ''revocation_endpoint'' v,
     md_introspection = string_field ''introspection_endpoint'' v,
     md_device = string_field ''device_authorization_endpoint'' v\<rparr>"

text \<open>The origin of an endpoint is the issuer.\<close>

definition origin_of :: "url \<Rightarrow> string" where
  "origin_of u = url_scheme u @ ''://'' @ url_host u"

fun check_endpoints :: "url_parser \<Rightarrow> sdk_config \<Rightarrow> string list \<Rightarrow> sdk_error + unit" where
  "check_endpoints parse cf [] = Inr ()"
| "check_endpoints parse cf (raw # raws) =
     (case endpoint parse raw (cf_loopback cf) of
        Inl e \<Rightarrow> Inl e
      | Inr u \<Rightarrow> if origin_of u \<noteq> cf_issuer cf then Inl (SdkError ''endpoint does not belong to configured issuer'')
          else check_endpoints parse cf raws)"

definition sdk_result :: "sdk_error + 'a \<Rightarrow> ('p, 's, 'n, 'a) sdk" where
  "sdk_result x st = (x, st)"

definition discovery :: "sdk_config \<Rightarrow> ('p, 's, 'n) library \<Rightarrow> ('p, 's, 'n, 'p \<times> metadata) sdk" where
  "discovery cf lb st =
     (case sd_provider st of
        Some pm \<Rightarrow> (Inr pm, st)
      | None \<Rightarrow>
          sdk_then (on_net LibraryError (lb_provider lb (cf_issuer cf))) (\<lambda>p.
          sdk_then (sdk_some LibraryError (unmarshal_json metadata_fields (Some (lb_discovered lb p)))) (\<lambda>v.
          let m = metadata_from v in
          sdk_then (sdk_result (check_endpoints (lb_url lb) cf [md_authorization m, md_token m, md_jwks m, md_userinfo m])) (\<lambda>_.
          \<lambda>st. (Inr (p, m), st\<lparr>sd_provider := Some (p, m)\<rparr>)))) st)"

definition ResetVerificationCache :: "('p, 's, 'n, unit) sdk" where
  "ResetVerificationCache st = (Inr (), st\<lparr>sd_provider := None\<rparr>)"

text \<open>\<open>Diagnostics\<close>: issuer, client and readiness.\<close>

definition Diagnose :: "sdk_config \<Rightarrow> ('p, 's, 'n) library \<Rightarrow> ('p, 's, 'n, string \<times> string \<times> bool) sdk" where
  "Diagnose cf lb = sdk_then (discovery cf lb) (\<lambda>_. sdk_give (cf_issuer cf, cf_client_id cf, True))"

definition oauth_config :: "sdk_config \<Rightarrow> string list \<Rightarrow> oauth" where
  "oauth_config cf scopes = \<lparr>oa_client_id = cf_client_id cf, oa_client_secret = cf_client_secret cf,
     oa_redirect = cf_redirect_uri cf, oa_scopes = scopes\<rparr>"

section \<open>The link API\<close>

text \<open>The error an answer of another status stands for, and the request of \<open>api\<close>.\<close>

definition api_error :: "sdk_response \<Rightarrow> sdk_error" where
  "api_error r =
     (let v = salvage_json [(''code'', TString), (''message'', TString)] (sp_first r);
          or_default = (\<lambda>n. case v n of None \<Rightarrow> True | Some _ \<Rightarrow> False)
      in ApiError (if or_default ''code'' then ''request_failed'' else string_field ''code'' v)
        (if or_default ''message'' then ''request failed'' else string_field ''message'' v) (sp_status r))"

definition basic_auth :: "sdk_config \<Rightarrow> string \<times> string" where
  "basic_auth cf = (query_escape (cf_client_id cf), query_escape (cf_client_secret cf))"

definition api_request :: "sdk_config \<Rightarrow> string \<Rightarrow> string \<Rightarrow> json option \<Rightarrow> (string \<times> string) list \<Rightarrow> sdk_request" where
  "api_request cf meth path payload headers =
     \<lparr>sq_method = meth, sq_url = cf_issuer cf @ path, sq_basic = Some (basic_auth cf),
       sq_headers = [(''Accept'', ''application/json'')]
         @ (if payload = None then [] else [(''Content-Type'', ''application/json'')]) @ headers,
       sq_body = (case payload of None \<Rightarrow> NoBody | Some j \<Rightarrow> JsonBody j)\<rparr>"

text \<open>\<open>out\<close> decodes the answer; \<open>lb_do\<close> does not follow redirects.\<close>

definition api ::
  "sdk_config \<Rightarrow> ('p, 's, 'n) library \<Rightarrow> string \<Rightarrow> string \<Rightarrow> json option \<Rightarrow> (string \<times> string) list \<Rightarrow> (json \<Rightarrow> 'a option)
    \<Rightarrow> ('p, 's, 'n, 'a) sdk" where
  "api cf lb meth path payload headers out =
     sdk_then (sdk_check ''application server credential required'' (cf_client_secret cf \<noteq> [])) (\<lambda>_.
     sdk_then (sdk_some LibraryError (lb_url lb (cf_issuer cf @ path))) (\<lambda>_.
     sdk_then (on_net LibraryError (lb_do lb (api_request cf meth path payload headers))) (\<lambda>r.
     if sp_status r < 200 \<or> 300 \<le> sp_status r then sdk_fail (api_error r)
     else sdk_some LibraryError (Option.bind (sp_first r) out))))"

text \<open>
  Decoding an intent and a link. \<open>unmarshal_json\<close> has no times, so these are read from the values of their key: a
  string must be a time, null leaves the field.
\<close>

fun time_value :: "(string \<Rightarrow> time option) \<Rightarrow> time \<Rightarrow> json list \<Rightarrow> time option" where
  "time_value parse t [] = Some t"
| "time_value parse t (JStr s # js) = (case parse s of None \<Rightarrow> None | Some t \<Rightarrow> time_value parse t js)"
| "time_value parse t (JNull # js) = time_value parse t js"
| "time_value parse t (_ # js) = None"

definition values_at :: "json_fields \<Rightarrow> string \<Rightarrow> (string \<times> json) list \<Rightarrow> json list" where
  "values_at shape name kjs = map snd (filter (\<lambda>kj. map_option fst (field_named shape (fst kj)) = Some name) kjs)"

definition without_field :: "json_fields \<Rightarrow> string \<Rightarrow> (string \<times> json) list \<Rightarrow> (string \<times> json) list" where
  "without_field shape name kjs = filter (\<lambda>kj. map_option fst (field_named shape (fst kj)) \<noteq> Some name) kjs"

definition timed_struct :: "(string \<Rightarrow> time option) \<Rightarrow> json_fields \<Rightarrow> string \<Rightarrow> time \<Rightarrow> json \<Rightarrow> struct_value \<Rightarrow> (struct_value \<times> time) option" where
  "timed_struct parse shape name t0 j v0 = (case j of
     JObj kjs \<Rightarrow> (case (set_fields shape v0 (without_field shape name (known_fields shape kjs)), time_value parse t0 (values_at shape name kjs)) of
         (Some v, Some t) \<Rightarrow> Some (v, t)
       | _ \<Rightarrow> None)
   | JNull \<Rightarrow> Some (v0, t0)
   | _ \<Rightarrow> None)"

definition intent_shape :: json_fields where
  "intent_shape = map (\<lambda>n. (n, TString)) [''id'', ''client_id'', ''local_account_ref'', ''nonce'', ''state'', ''expires_at'']"

definition decode_intent :: "(string \<Rightarrow> time option) \<Rightarrow> json \<Rightarrow> sdk_intent option" where
  "decode_intent parse j = map_option (\<lambda>(v, t). \<lparr>si_id = string_field ''id'' v, si_client_id = string_field ''client_id'' v,
     si_local_ref = string_field ''local_account_ref'' v, si_nonce = string_field ''nonce'' v, si_state = string_field ''state'' v,
     si_expires_at = t\<rparr>) (timed_struct parse intent_shape ''expires_at'' zero_time j Map.empty)"

definition link_shape :: json_fields where
  "link_shape = map (\<lambda>n. (n, TString)) [''id'', ''client_id'', ''local_account_ref'', ''subject'', ''state'']
     @ [(''version'', TInt), (''verified_at'', TString)]"

definition link_from :: "struct_value \<times> time \<Rightarrow> sdk_link" where
  "link_from = (\<lambda>(v, t). \<lparr>sl_id = string_field ''id'' v, sl_client_id = string_field ''client_id'' v,
     sl_local_ref = string_field ''local_account_ref'' v, sl_subject = string_field ''subject'' v, sl_state = string_field ''state'' v,
     sl_version = int_field ''version'' v, sl_verified_at = t\<rparr>)"

definition decode_link :: "(string \<Rightarrow> time option) \<Rightarrow> json \<Rightarrow> sdk_link option" where
  "decode_link parse j = map_option link_from (timed_struct parse link_shape ''verified_at'' zero_time j Map.empty)"

section \<open>Signing in\<close>

definition application_path :: "string \<Rightarrow> bool" where
  "application_path path = (has_prefix path ''/'' \<and> \<not> has_prefix path ''//'' \<and> \<not> contains_any path [CHR 0x5C, CHR 0x0D, CHR 0x0A])"

text \<open>
  \<open>draws\<close> gives the random bytes of state and nonce, \<open>verifier\<close> is what \<open>oauth2.GenerateVerifier\<close> made. A purpose that links an
  account first creates the intent, whose nonce replaces the client's own.
\<close>

definition login_transaction :: "(nat \<Rightarrow> string) \<Rightarrow> string \<Rightarrow> time \<Rightarrow> string \<Rightarrow> string \<Rightarrow> begin_options \<Rightarrow> transaction" where
  "login_transaction draw verifier wall purpose path opts =
     \<lparr>tx_state = RandomBinding (draw 0), tx_nonce = RandomBinding (draw 1), tx_verifier = verifier,
       tx_binding_hash = hash_sdk (bo_binding opts), tx_purpose = purpose, tx_return_to = path, tx_local_account = [],
       tx_local_session = [], tx_expires_at = wall + minutes 5, tx_intent = None\<rparr>"

definition with_intent ::
  "sdk_config \<Rightarrow> ('p, 's, 'n) library \<Rightarrow> begin_options \<Rightarrow> transaction \<Rightarrow> ('p, 's, 'n, transaction) sdk" where
  "with_intent cf lb opts t =
     (if tx_purpose t \<noteq> ''link'' \<and> tx_purpose t \<noteq> ''register'' then sdk_give t
      else sdk_then (api cf lb ''POST'' ''/api/v1/link-intents'' (Some (JObj [(''local_account_ref'', JStr (bo_local_account opts))]))
          [(''Idempotency-Key'', tx_state t)] (decode_intent (lb_time lb))) (\<lambda>intent.
        sdk_give (t\<lparr>tx_local_account := bo_local_account opts, tx_local_session := bo_local_session opts,
          tx_intent := Some intent, tx_nonce := si_nonce intent\<rparr>)))"

definition begin_sdk ::
  "sdk_config \<Rightarrow> ('p, 's, 'n) library \<Rightarrow> (nat \<Rightarrow> string) \<Rightarrow> string \<Rightarrow> time \<Rightarrow> string \<Rightarrow> begin_options \<Rightarrow> ('p, 's, 'n, string) sdk" where
  "begin_sdk cf lb draw verifier wall purpose opts =
     (let path = (if bo_return_to opts = [] then ''/'' else bo_return_to opts);
          scopes = (if bo_scopes opts = [] then [''openid'', ''profile'', ''email''] else bo_scopes opts) in
      sdk_then (sdk_check ''fresh browser binding required'' (32 \<le> length (bo_binding opts))) (\<lambda>_.
      sdk_then (sdk_check ''application-relative return path required'' (application_path path)) (\<lambda>_.
      sdk_then (discovery cf lb) (\<lambda>(p, _).
      sdk_then (with_intent cf lb opts (login_transaction draw verifier wall purpose path opts)) (\<lambda>t.
      sdk_then (on_transactions (lb_put lb t)) (\<lambda>stored.
      if \<not> stored then sdk_fail LibraryError
      else sdk_give (lb_auth_url lb p (oauth_config cf scopes) (tx_state t) (tx_verifier t) (tx_nonce t))))))))"

definition BeginLogin where
  "BeginLogin cf lb draw verifier wall opts = begin_sdk cf lb draw verifier wall ''login'' opts"

definition BeginLink where
  "BeginLink cf lb draw verifier wall opts =
     sdk_then (sdk_check ''recent local account and session proof required''
       (bo_local_account opts \<noteq> [] \<and> bo_local_session opts \<noteq> [])) (\<lambda>_.
     begin_sdk cf lb draw verifier wall ''link'' opts)"

definition BeginRegistration where
  "BeginRegistration cf lb draw verifier wall new_account opts =
     sdk_then (sdk_check ''new local account reference required'' (new_account \<noteq> [])) (\<lambda>_.
     begin_sdk cf lb draw verifier wall ''register'' (opts\<lparr>bo_local_account := new_account, bo_local_session := []\<rparr>))"

record login_result =
  lr_identity :: sdk_identity
  lr_transaction :: transaction
  lr_token :: oauth_token
  lr_id_token :: string

text \<open>The checks of a transaction that was taken out of the store, and of the tokens the code was exchanged for.\<close>

definition transaction_usable :: "time \<Rightarrow> finish_options \<Rightarrow> transaction \<Rightarrow> bool" where
  "transaction_usable wall opts t = (wall \<le> tx_expires_at t
     \<and> constant_time_compare (tx_binding_hash t) (hash_sdk (fo_binding opts)) = 1)"

definition same_account :: "finish_options \<Rightarrow> transaction \<Rightarrow> bool" where
  "same_account opts t = (tx_purpose t = ''link'' \<longrightarrow>
     fo_local_account opts = tx_local_account t \<and> fo_local_session opts = tx_local_session t)"

text \<open>The identity: the name is the profile's, the session the token's, or the profile's if the token has none.\<close>

definition signed_in_identity :: "sdk_config \<Rightarrow> id_token \<Rightarrow> user_profile \<Rightarrow> sdk_identity option" where
  "signed_in_identity cf it up =
     (let shape = [(''name'', TString), (''sid'', TString)] in
      Option.bind (unmarshal_json shape (Some (up_claims up))) (\<lambda>v.
      map_option (\<lambda>w. \<lparr>id_issuer = cf_issuer cf, id_subject = it_subject it, id_name = string_field ''name'' v,
          id_email = up_email up, id_email_verified = up_email_verified up, id_session = string_field ''sid'' w\<rparr>)
        (case it_claims it of
           JObj kjs \<Rightarrow> set_fields shape v (known_fields shape kjs)
         | JNull \<Rightarrow> Some v
         | _ \<Rightarrow> None)))"

definition redeem_code ::
  "sdk_config \<Rightarrow> ('p, 's, 'n) library \<Rightarrow> string \<Rightarrow> transaction \<Rightarrow> ('p, 's, 'n, login_result) sdk" where
  "redeem_code cf lb code t =
     sdk_then (discovery cf lb) (\<lambda>(p, _).
     sdk_then (on_net (SdkError ''code exchange failed'') (lb_exchange lb p (oauth_config cf []) code (tx_verifier t))) (\<lambda>token.
     sdk_then (sdk_some (SdkError ''ID token required'') (ot_id_token token)) (\<lambda>raw.
     sdk_then (on_net LibraryError (lb_verify lb p (cf_client_id cf) raw)) (\<lambda>it.
     sdk_then (sdk_check ''nonce mismatch'' (it_nonce it = tx_nonce t)) (\<lambda>_.
     sdk_then (on_net LibraryError (lb_userinfo lb p token)) (\<lambda>profile.
     sdk_then (sdk_check ''userinfo subject mismatch'' (up_subject profile = it_subject it)) (\<lambda>_.
     sdk_then (sdk_some LibraryError (signed_in_identity cf it profile)) (\<lambda>who.
     sdk_give \<lparr>lr_identity = who, lr_transaction = t, lr_token = token, lr_id_token = raw\<rparr>))))))))"

definition FinishLogin ::
  "sdk_config \<Rightarrow> ('p, 's, 'n) library \<Rightarrow> time \<Rightarrow> string \<Rightarrow> finish_options \<Rightarrow> ('p, 's, 'n, login_result) sdk" where
  "FinishLogin cf lb wall callback opts =
     sdk_then (sdk_some LibraryError (lb_url lb callback)) (\<lambda>u.
     sdk_then (sdk_some LibraryError (lb_url lb (cf_redirect_uri cf))) (\<lambda>expected.
     sdk_then (sdk_check ''callback URL mismatch'' (url_scheme u = url_scheme expected \<and> url_host u = url_host expected
       \<and> url_path u = url_path expected)) (\<lambda>_.
     sdk_then (sdk_check ''callback state required'' (query_value ''state'' u \<noteq> [])) (\<lambda>_.
     sdk_then (on_transactions (lb_take lb (query_value ''state'' u))) (\<lambda>taken.
     sdk_then (sdk_some LibraryError taken) (\<lambda>found.
     sdk_then (sdk_some (SdkError ''transaction expired, consumed or belongs to another browser'') found) (\<lambda>t.
     sdk_then (sdk_check ''transaction expired, consumed or belongs to another browser'' (transaction_usable wall opts t)) (\<lambda>_.
     sdk_then (sdk_check ''local account changed during linking'' (same_account opts t)) (\<lambda>_.
     sdk_then (sdk_check ''authorization was not granted'' (query_value ''error'' u = [] \<and> query_value ''code'' u \<noteq> [])) (\<lambda>_.
     redeem_code cf lb (query_value ''code'' u) t))))))))))"

section \<open>Links and tokens\<close>

definition PrepareLink_sdk :: "sdk_config \<Rightarrow> ('p, 's, 'n) library \<Rightarrow> login_result \<Rightarrow> ('p, 's, 'n, sdk_link) sdk" where
  "PrepareLink_sdk cf lb r =
     (let t = lr_transaction r in
      case tx_intent t of
        None \<Rightarrow> sdk_fail (SdkError ''completed link transaction required'')
      | Some intent \<Rightarrow>
        if tx_purpose t \<noteq> ''link'' \<and> tx_purpose t \<noteq> ''register'' then sdk_fail (SdkError ''completed link transaction required'')
        else api cf lb ''POST'' (''/api/v1/link-intents/'' @ path_escape (si_id intent) @ ''/prepare'')
          (Some (JObj [(''nonce'', JStr (si_nonce intent)), (''subject'', JStr (id_subject (lr_identity r)))])) []
          (decode_link (lb_time lb)))"

definition ActivateLink_sdk :: "sdk_config \<Rightarrow> ('p, 's, 'n) library \<Rightarrow> string \<Rightarrow> ('p, 's, 'n, sdk_link) sdk" where
  "ActivateLink_sdk cf lb lid = api cf lb ''POST'' (''/api/v1/link-intents/'' @ path_escape lid @ ''/activate'') None []
     (decode_link (lb_time lb))"

definition GetLink :: "sdk_config \<Rightarrow> ('p, 's, 'n) library \<Rightarrow> string \<Rightarrow> ('p, 's, 'n, sdk_link) sdk" where
  "GetLink cf lb lid = api cf lb ''GET'' (''/api/v1/account-links/'' @ path_escape lid) None [] (decode_link (lb_time lb))"

definition ResolveLink_sdk :: "sdk_config \<Rightarrow> ('p, 's, 'n) library \<Rightarrow> string \<Rightarrow> ('p, 's, 'n, sdk_link) sdk" where
  "ResolveLink_sdk cf lb subject = api cf lb ''GET'' (''/api/v1/account-links/resolve?subject='' @ query_escape subject) None []
     (decode_link (lb_time lb))"

text \<open>\<open>strconv\<close>'s decimal notation of an \<open>int64\<close>, as \<open>%d\<close> prints it.\<close>

fun decimal_digits :: "nat \<Rightarrow> string" where
  "decimal_digits n = (if n < 10 then [char_of (48 + n)] else decimal_digits (n div 10) @ [char_of (48 + n mod 10)])"

declare decimal_digits.simps [simp del]

definition format_int :: "int \<Rightarrow> string" where
  "format_int n = (if n < 0 then CHR ''-'' # decimal_digits (nat (- n)) else decimal_digits (nat n))"

definition RevokeLink_sdk :: "sdk_config \<Rightarrow> ('p, 's, 'n) library \<Rightarrow> sdk_link \<Rightarrow> ('p, 's, 'n, sdk_link) sdk" where
  "RevokeLink_sdk cf lb l = api cf lb ''POST'' (''/api/v1/account-links/'' @ path_escape (sl_id l) @ ''/revoke'') None
     [(''If-Match'', [CHR 0x22] @ format_int (sl_version l) @ [CHR 0x22])] (decode_link (lb_time lb))"

definition Refresh :: "sdk_config \<Rightarrow> ('p, 's, 'n) library \<Rightarrow> time \<Rightarrow> oauth_token \<Rightarrow> ('p, 's, 'n, oauth_token) sdk" where
  "Refresh cf lb wall token =
     sdk_then (discovery cf lb) (\<lambda>(p, _).
     on_net LibraryError (lb_refresh lb p (oauth_config cf []) (token\<lparr>ot_access := [], ot_expiry := wall - minutes 1\<rparr>)))"

record sdk_access_claims =
  ac_issuer :: string
  ac_subject :: string
  ac_audience :: "string list"
  ac_client_id :: string
  ac_scope :: string
  ac_token_use :: string
  ac_service :: bool
  ac_session :: string

definition access_shape :: json_fields where
  "access_shape = [(''iss'', TString), (''sub'', TString), (''aud'', TStrings), (''client_id'', TString), (''scope'', TString),
     (''token_use'', TString), (''service'', TBool), (''sid'', TString)]"

definition access_from :: "struct_value \<Rightarrow> sdk_access_claims" where
  "access_from v = \<lparr>ac_issuer = string_field ''iss'' v, ac_subject = string_field ''sub'' v, ac_audience = strings_field ''aud'' v,
     ac_client_id = string_field ''client_id'' v, ac_scope = string_field ''scope'' v, ac_token_use = string_field ''token_use'' v,
     ac_service = bool_field ''service'' v, ac_session = string_field ''sid'' v\<rparr>"

definition VerifyAccessToken ::
  "sdk_config \<Rightarrow> ('p, 's, 'n) library \<Rightarrow> string \<Rightarrow> string \<Rightarrow> string list \<Rightarrow> ('p, 's, 'n, sdk_access_claims) sdk" where
  "VerifyAccessToken cf lb raw audience scopes =
     sdk_then (discovery cf lb) (\<lambda>(p, _).
     sdk_then (on_net LibraryError (lb_verify lb p audience raw)) (\<lambda>it.
     sdk_then (sdk_some LibraryError (unmarshal_json access_shape (Some (it_claims it)))) (\<lambda>v.
     let claims = access_from v in
     sdk_then (sdk_check ''API access token required'' (ac_token_use claims = ''access'' \<and> ac_subject claims \<noteq> [])) (\<lambda>_.
     sdk_then (sdk_check ''insufficient scope'' (list_all (\<lambda>scope. scope \<in> set (string_fields (ac_scope claims))) scopes)) (\<lambda>_.
     sdk_give claims)))))"

end
