(* ===== verification/Sdk_Grants.thy ===== *)
theory Sdk_Grants
  imports Sdk
begin

text \<open>
  The Go SDK, \<open>sdk/go/grants.go\<close>, \<open>introspection.go\<close> and \<open>device.go\<close>: tokens for services, exchanged tokens, the
  introspection of a token and the pairing of a device.
\<close>

section \<open>Token grants\<close>

record token_response =
  tr_access :: string
  tr_type :: string
  tr_issued_type :: string
  tr_scope :: string
  tr_expires_in :: int
  tr_expiry :: time

definition token_shape :: json_fields where
  "token_shape = [(''access_token'', TString), (''token_type'', TString), (''issued_token_type'', TString), (''scope'', TString),
     (''expires_in'', TInt)]"

text \<open>The expiry: seconds times \<open>time.Second\<close> is a 64-bit product of nanoseconds, here in microseconds.\<close>

definition token_from :: "time \<Rightarrow> struct_value \<Rightarrow> token_response" where
  "token_from wall v = \<lparr>tr_access = string_field ''access_token'' v, tr_type = string_field ''token_type'' v,
     tr_issued_type = string_field ''issued_token_type'' v, tr_scope = string_field ''scope'' v,
     tr_expires_in = int_field ''expires_in'' v,
     tr_expiry = wall + wrap64 (int_field ''expires_in'' v * 1000000000) div 1000\<rparr>"

definition form_request :: "sdk_config \<Rightarrow> bool \<Rightarrow> bool \<Rightarrow> string \<Rightarrow> (string \<times> string) list \<Rightarrow> sdk_request" where
  "form_request cf authorized accepts u vs =
     \<lparr>sq_method = ''POST'', sq_url = u, sq_basic = (if authorized then Some (basic_auth cf) else None),
       sq_headers = (''Content-Type'', ''application/x-www-form-urlencoded'')
         # (if accepts then [(''Accept'', ''application/json'')] else []),
       sq_body = FormBody (encode_values vs)\<rparr>"

definition oauth_problem :: "string \<Rightarrow> json option \<Rightarrow> int \<Rightarrow> sdk_error" where
  "oauth_problem fallback j status =
     (let v = salvage_json [(''error'', TString), (''error_description'', TString)] j; c = string_field ''error'' v
      in ApiError (if c = [] then fallback else c) (string_field ''error_description'' v) status)"

definition tokenGrant ::
  "sdk_config \<Rightarrow> ('p, 's, 'n) library \<Rightarrow> time \<Rightarrow> (string \<times> string) list \<Rightarrow> ('p, 's, 'n, token_response) sdk" where
  "tokenGrant cf lb wall vs =
     sdk_then (sdk_check ''confidential client credential required'' (cf_client_secret cf \<noteq> [])) (\<lambda>_.
     sdk_then (discovery cf lb) (\<lambda>(_, m).
     sdk_then (on_net LibraryError (lb_do lb (form_request cf True True (md_token m) vs))) (\<lambda>r.
     if sp_status r \<noteq> 200 then sdk_fail (oauth_problem [] (sp_first r) (sp_status r))
     else sdk_then (sdk_some LibraryError (unmarshal_json token_shape (sp_first r))) (\<lambda>v.
       let token = token_from wall v in
       sdk_then (sdk_check ''invalid token response''
         (tr_access token \<noteq> [] \<and> tr_type token = ''Bearer'' \<and> 0 < tr_expires_in token)) (\<lambda>_.
       sdk_give token)))))"

definition ClientCredentials_sdk ::
  "sdk_config \<Rightarrow> ('p, 's, 'n) library \<Rightarrow> time \<Rightarrow> string list \<Rightarrow> ('p, 's, 'n, token_response) sdk" where
  "ClientCredentials_sdk cf lb wall scopes =
     tokenGrant cf lb wall [(''grant_type'', ''client_credentials''), (''scope'', join_with '' '' scopes)]"

definition access_token_type :: string where
  "access_token_type = ''urn:ietf:params:oauth:token-type:access_token''"

definition ExchangeToken ::
  "sdk_config \<Rightarrow> ('p, 's, 'n) library \<Rightarrow> time \<Rightarrow> string \<Rightarrow> string \<Rightarrow> string list \<Rightarrow> ('p, 's, 'n, token_response) sdk" where
  "ExchangeToken cf lb wall subject_token resource scopes =
     sdk_then (sdk_check ''subject token, resource and scopes required'' (subject_token \<noteq> [] \<and> resource \<noteq> [] \<and> scopes \<noteq> [])) (\<lambda>_.
     sdk_then (tokenGrant cf lb wall
       [(''grant_type'', ''urn:ietf:params:oauth:grant-type:token-exchange''), (''subject_token'', subject_token),
        (''subject_token_type'', access_token_type), (''requested_token_type'', access_token_type), (''resource'', resource),
        (''audience'', resource), (''scope'', join_with '' '' scopes)]) (\<lambda>token.
     sdk_then (sdk_check ''wrong exchanged token type'' (tr_issued_type token = access_token_type)) (\<lambda>_.
     sdk_give token)))"

section \<open>Introspection\<close>

record sdk_introspection =
  in_active :: bool
  in_subject :: string
  in_client_id :: string
  in_audience :: "string list"
  in_scope :: string

definition introspection_shape :: json_fields where
  "introspection_shape = [(''active'', TBoolPtr), (''sub'', TString), (''client_id'', TString), (''aud'', TStrings), (''scope'', TString)]"

text \<open>An endpoint of the issuer, for the endpoints discovery does not check.\<close>

definition issuer_endpoint :: "sdk_config \<Rightarrow> url_parser \<Rightarrow> string \<Rightarrow> bool" where
  "issuer_endpoint cf parse raw = (case endpoint parse raw (cf_loopback cf) of Inl _ \<Rightarrow> False | Inr u \<Rightarrow> origin_of u = cf_issuer cf)"

definition IntrospectToken :: "sdk_config \<Rightarrow> ('p, 's, 'n) library \<Rightarrow> string \<Rightarrow> ('p, 's, 'n, sdk_introspection) sdk" where
  "IntrospectToken cf lb token =
     sdk_then (sdk_check ''confidential client credential and token required'' (cf_client_secret cf \<noteq> [] \<and> token \<noteq> [])) (\<lambda>_.
     sdk_then (discovery cf lb) (\<lambda>(_, m).
     sdk_then (sdk_check ''introspection endpoint must belong to issuer'' (issuer_endpoint cf (lb_url lb) (md_introspection m))) (\<lambda>_.
     sdk_then (on_net LibraryError (lb_do lb
       (form_request cf True True (lb_url_string lb (md_introspection m)) [(''token'', token)]))) (\<lambda>r.
     if sp_status r \<noteq> 200 then sdk_fail (oauth_problem ''introspection_failed'' (sp_first r) (sp_status r))
     else case unmarshal_json introspection_shape (sp_first r) of
       None \<Rightarrow> sdk_fail (SdkError ''invalid introspection response'')
     | Some v \<Rightarrow> (case bool_pointer ''active'' v of
         None \<Rightarrow> sdk_fail (SdkError ''invalid introspection response'')
       | Some act \<Rightarrow> sdk_give \<lparr>in_active = act, in_subject = string_field ''sub'' v, in_client_id = string_field ''client_id'' v,
           in_audience = strings_field ''aud'' v, in_scope = string_field ''scope'' v\<rparr>)))))"

section \<open>Devices\<close>

record sdk_device =
  dv_device_code :: string
  dv_user_code :: string
  dv_uri :: string
  dv_uri_complete :: string
  dv_expires_in :: int
  dv_interval :: int

definition device_shape :: json_fields where
  "device_shape = [(''device_code'', TString), (''user_code'', TString), (''verification_uri'', TString),
     (''verification_uri_complete'', TString), (''expires_in'', TInt), (''interval'', TInt)]"

definition device_from :: "struct_value \<Rightarrow> sdk_device" where
  "device_from v = \<lparr>dv_device_code = string_field ''device_code'' v, dv_user_code = string_field ''user_code'' v,
     dv_uri = string_field ''verification_uri'' v, dv_uri_complete = string_field ''verification_uri_complete'' v,
     dv_expires_in = int_field ''expires_in'' v, dv_interval = int_field ''interval'' v\<rparr>"

definition deviceForm ::
  "sdk_config \<Rightarrow> ('p, 's, 'n) library \<Rightarrow> string \<Rightarrow> (string \<times> string) list \<Rightarrow> json_fields \<Rightarrow> ('p, 's, 'n, struct_value) sdk" where
  "deviceForm cf lb u vs shape =
     sdk_then (on_net LibraryError (lb_do lb (form_request cf False False u vs))) (\<lambda>r.
     if sp_status r < 200 \<or> 300 \<le> sp_status r then sdk_fail (oauth_problem ''request_failed'' (sp_whole r) (sp_status r))
     else sdk_some LibraryError (unmarshal_json shape (sp_whole r)))"

definition DeviceAuthorize :: "sdk_config \<Rightarrow> ('p, 's, 'n) library \<Rightarrow> string list \<Rightarrow> ('p, 's, 'n, sdk_device) sdk" where
  "DeviceAuthorize cf lb scopes =
     sdk_then (sdk_check ''device pairing requires a public client'' (cf_client_secret cf = [])) (\<lambda>_.
     sdk_then (discovery cf lb) (\<lambda>(_, m).
     sdk_then (sdk_result (endpoint (lb_url lb) (md_device m) (cf_loopback cf))) (\<lambda>u.
     sdk_then (sdk_check ''device endpoint must belong to issuer'' (origin_of u = cf_issuer cf)) (\<lambda>_.
     sdk_then (deviceForm cf lb (lb_url_string lb (md_device m))
       [(''client_id'', cf_client_id cf), (''scope'', join_with '' '' scopes)] device_shape) (\<lambda>v.
     let start = device_from v in
     sdk_then (sdk_check ''invalid device authorization response''
       (issuer_endpoint cf (lb_url lb) (dv_uri start) \<and> dv_device_code start \<noteq> [] \<and> dv_user_code start \<noteq> []
         \<and> 0 < dv_expires_in start \<and> 0 < dv_interval start)) (\<lambda>_.
     sdk_give start))))))"

record device_login =
  dl_identity :: sdk_identity
  dl_access :: string
  dl_id_token :: string
  dl_expires_in :: int

definition PollDevice :: "sdk_config \<Rightarrow> ('p, 's, 'n) library \<Rightarrow> string \<Rightarrow> ('p, 's, 'n, device_login) sdk" where
  "PollDevice cf lb device_code =
     sdk_then (sdk_check ''device pairing requires a public client'' (cf_client_secret cf = [])) (\<lambda>_.
     sdk_then (discovery cf lb) (\<lambda>(p, m).
     sdk_then (deviceForm cf lb (md_token m)
       [(''client_id'', cf_client_id cf), (''grant_type'', ''urn:ietf:params:oauth:grant-type:device_code''),
        (''device_code'', device_code)] [(''access_token'', TString), (''id_token'', TString), (''expires_in'', TInt)]) (\<lambda>v.
     let access = string_field ''access_token'' v; raw = string_field ''id_token'' v; expires = int_field ''expires_in'' v in
     sdk_then (sdk_check ''incomplete device token response'' (access \<noteq> [] \<and> raw \<noteq> [] \<and> 0 < expires)) (\<lambda>_.
     sdk_then (on_net LibraryError (lb_verify lb p (cf_client_id cf) raw)) (\<lambda>it.
     sdk_then (VerifyAccessToken cf lb access (cf_client_id cf) [''openid'']) (\<lambda>claims.
     sdk_then (sdk_check ''device identity mismatch'' (it_subject it = ac_subject claims \<and> \<not> ac_service claims)) (\<lambda>_.
     sdk_give \<lparr>dl_identity = \<lparr>id_issuer = cf_issuer cf, id_subject = it_subject it, id_name = [], id_email = [],
         id_email_verified = False, id_session = []\<rparr>, dl_access = access, dl_id_token = raw, dl_expires_in = expires\<rparr>)))))))"

end
