(* ===== verification/Sdk_Events.thy ===== *)
theory Sdk_Events
  imports Sdk_Grants
begin

text \<open>
  The Go SDK, \<open>sdk/go/events.go\<close> and \<open>logout.go\<close>, and its handlers for Gin, \<open>sdk/go/ginadapter/adapter.go\<close>: what an application
  does with the notices FastCAS delivers and with the access tokens others present.

  The application's \<open>apply\<close> is a function on the store of the state; it says whether its transaction committed.
\<close>

section \<open>Notifications\<close>

record notification =
  nt_id :: string
  nt_type :: string
  nt_link :: "sdk_link option"
  nt_subject :: string
  nt_status :: string
  nt_version :: int

text \<open>
  The envelope: \<open>jti\<close> and the event, a struct with a pointer to a link. A field given several times is decoded into what
  is there already, null resets the pointer; \<open>event_struct\<close> keeps the plain fields of the event and its link.
\<close>

definition event_shape :: json_fields where
  "event_shape = [(''id'', TString), (''type'', TString), (''link'', TString), (''subject'', TString), (''status'', TString),
     (''version'', TInt)]"

type_synonym event_struct = "struct_value \<times> (struct_value \<times> time) option"

fun decode_link_values :: "(string \<Rightarrow> time option) \<Rightarrow> (struct_value \<times> time) option \<Rightarrow> json list \<Rightarrow> (struct_value \<times> time) option option" where
  "decode_link_values parse l [] = Some l"
| "decode_link_values parse l (j # js) =
     (case j of
        JNull \<Rightarrow> decode_link_values parse None js
      | JObj _ \<Rightarrow> (case l of
            None \<Rightarrow> (case timed_struct parse link_shape ''verified_at'' zero_time j Map.empty of
              None \<Rightarrow> None | Some vt \<Rightarrow> decode_link_values parse (Some vt) js)
          | Some (v, t) \<Rightarrow> (case timed_struct parse link_shape ''verified_at'' t j v of
              None \<Rightarrow> None | Some vt \<Rightarrow> decode_link_values parse (Some vt) js))
      | _ \<Rightarrow> None)"

fun decode_events :: "(string \<Rightarrow> time option) \<Rightarrow> event_struct \<Rightarrow> json list \<Rightarrow> event_struct option" where
  "decode_events parse e [] = Some e"
| "decode_events parse (v, l) (JObj kjs # js) =
     (case (set_fields event_shape v (without_field event_shape ''link'' (known_fields event_shape kjs)),
         decode_link_values parse l (values_at event_shape ''link'' kjs)) of
       (Some v, Some l) \<Rightarrow> decode_events parse (v, l) js
     | _ \<Rightarrow> None)"
| "decode_events parse e (JNull # js) = decode_events parse e js"
| "decode_events parse e (_ # js) = None"

definition envelope_shape :: json_fields where
  "envelope_shape = [(''jti'', TString), (''event'', TString)]"

definition decode_envelope :: "(string \<Rightarrow> time option) \<Rightarrow> json \<Rightarrow> notification option" where
  "decode_envelope parse j =
     (case j of
        JObj kjs \<Rightarrow>
          (case (set_fields envelope_shape Map.empty (without_field envelope_shape ''event'' (known_fields envelope_shape kjs)),
             decode_events parse (Map.empty, None) (values_at envelope_shape ''event'' kjs)) of
            (Some v, Some (e, l)) \<Rightarrow> Some \<lparr>nt_id = string_field ''jti'' v, nt_type = string_field ''type'' e,
              nt_link = map_option link_from l, nt_subject = string_field ''subject'' e, nt_status = string_field ''status'' e,
              nt_version = int_field ''version'' e\<rparr>
          | _ \<Rightarrow> None)
      | _ \<Rightarrow> None)"

text \<open>The bounds on the age of a notice, which is read off the clock against \<open>iat\<close>.\<close>

definition recent_token :: "time \<Rightarrow> id_token \<Rightarrow> bool" where
  "recent_token wall it = (it_issued_at it \<noteq> zero_time \<and> wall - it_issued_at it \<le> minutes 5 \<and> - minutes 1 \<le> wall - it_issued_at it)"

definition notification_ok :: "sdk_config \<Rightarrow> notification \<Rightarrow> sdk_error option" where
  "notification_ok cf e =
     (if nt_type e = ''account_link.revoked'' then
        (case nt_link e of
           None \<Rightarrow> Some (SdkError ''invalid account-link event'')
         | Some l \<Rightarrow>
             if sl_id l = [] \<or> sl_client_id l \<noteq> cf_client_id cf \<or> sl_subject l = [] \<or> sl_local_ref l = []
               \<or> sl_state l \<noteq> ''revoked'' \<or> sl_version l < 1
             then Some (SdkError ''invalid account-link event'') else None)
      else if nt_type e = ''identity.status_changed'' then
        (if nt_subject e = [] \<or> (nt_status e \<noteq> ''active'' \<and> nt_status e \<noteq> ''disabled'') \<or> nt_version e < 2 \<or> nt_link e \<noteq> None
         then Some (SdkError ''invalid identity status event'') else None)
      else Some (SdkError ''unsupported event type''))"

text \<open>The signature, its type, and the verification for this client: what events and logout tokens share.\<close>

definition verified_notice ::
  "sdk_config \<Rightarrow> ('p, 's, 'n) library \<Rightarrow> string \<Rightarrow> string \<Rightarrow> string \<Rightarrow> ('p, 's, 'n, id_token) sdk" where
  "verified_notice cf lb typ msg raw =
     sdk_then (sdk_some LibraryError (lb_token_types lb raw)) (\<lambda>types.
     sdk_then (sdk_check msg (types = [Some typ])) (\<lambda>_.
     sdk_then (discovery cf lb) (\<lambda>(p, _).
     on_net LibraryError (lb_verify lb p (cf_client_id cf) raw))))"

text \<open>An \<open>apply\<close> of the application: its error, or a commit, on its store.\<close>

type_synonym 's transaction_of = "'s \<Rightarrow> sdk_error option \<times> 's"

definition sdk_apply :: "'s transaction_of \<Rightarrow> ('p, 's, 'n, unit) sdk" where
  "sdk_apply f st = (case f (sd_store st) of
     (None, s) \<Rightarrow> (Inr (), st\<lparr>sd_store := s\<rparr>)
   | (Some e, s) \<Rightarrow> (Inl e, st\<lparr>sd_store := s\<rparr>))"

text \<open>\<open>HandleNotification\<close> verifies the notice before it calls the handler, the last thing it does.\<close>

definition verify_notification ::
  "sdk_config \<Rightarrow> ('p, 's, 'n) library \<Rightarrow> time \<Rightarrow> string \<Rightarrow> ('p, 's, 'n, notification) sdk" where
  "verify_notification cf lb wall raw =
     sdk_then (sdk_check ''invalid event handler or payload'' (length raw \<le> 65536)) (\<lambda>_.
     sdk_then (verified_notice cf lb ''fastcas-event+jwt'' ''invalid event token type'' raw) (\<lambda>it.
     sdk_then (sdk_some LibraryError (decode_envelope (lb_time lb) (it_claims it))) (\<lambda>event.
     sdk_then (sdk_check ''invalid event claims'' (nt_id event \<noteq> [] \<and> recent_token wall it)) (\<lambda>_.
     case notification_ok cf event of
       Some e \<Rightarrow> sdk_fail e
     | None \<Rightarrow> sdk_give event))))"

definition HandleNotification ::
  "sdk_config \<Rightarrow> ('p, 's, 'n) library \<Rightarrow> time \<Rightarrow> string \<Rightarrow> (notification \<Rightarrow> ('p, 's, 'n, unit) sdk) option \<Rightarrow> ('p, 's, 'n, unit) sdk" where
  "HandleNotification cf lb wall raw handler =
     (case handler of
        None \<Rightarrow> sdk_fail (SdkError ''invalid event handler or payload'')
      | Some run_handler \<Rightarrow> sdk_then (verify_notification cf lb wall raw) run_handler)"

definition HandleEvent ::
  "sdk_config \<Rightarrow> ('p, 's, 'n) library \<Rightarrow> time \<Rightarrow> string \<Rightarrow> (string \<Rightarrow> string \<Rightarrow> sdk_link \<Rightarrow> ('p, 's, 'n, unit) sdk) option
    \<Rightarrow> ('p, 's, 'n, unit) sdk" where
  "HandleEvent cf lb wall raw handler =
     (case handler of
        None \<Rightarrow> sdk_fail (SdkError ''invalid event handler'')
      | Some run_handler \<Rightarrow> HandleNotification cf lb wall raw (Some (\<lambda>event.
          if nt_type event \<noteq> ''account_link.revoked'' then sdk_fail (SdkError ''unsupported account-link event'')
          else case nt_link event of
            None \<Rightarrow> sdk_fail (SdkError ''unsupported account-link event'')
          | Some l \<Rightarrow> run_handler (nt_id event) (nt_type event) l)))"

section \<open>Back-channel logout\<close>

record logout_notice =
  lo_id :: string
  lo_subject :: string
  lo_session :: string
  lo_expires_at :: time

definition logout_shape :: json_fields where
  "logout_shape = [(''jti'', TString), (''sub'', TString), (''sid'', TString), (''nonce'', TString), (''events'', TString)]"

text \<open>\<open>*string\<close>: null resets it; \<open>map[string]map[string]any\<close>: the keys set, each with a map or nil.\<close>

fun string_pointer :: "string option \<Rightarrow> json list \<Rightarrow> string option option" where
  "string_pointer old [] = Some old"
| "string_pointer old (JStr s # js) = string_pointer (Some s) js"
| "string_pointer old (JNull # js) = string_pointer None js"
| "string_pointer old (_ # js) = None"

fun event_entries :: "(string \<Rightarrow> bool option) \<Rightarrow> (string \<times> json) list \<Rightarrow> (string \<Rightarrow> bool option) option" where
  "event_entries m [] = Some m"
| "event_entries m ((k, j) # kjs) =
     (case j of
        JObj _ \<Rightarrow> event_entries (m(k \<mapsto> True)) kjs
      | JNull \<Rightarrow> event_entries (m(k \<mapsto> False)) kjs
      | _ \<Rightarrow> None)"

fun event_map :: "(string \<Rightarrow> bool option) \<Rightarrow> json list \<Rightarrow> (string \<Rightarrow> bool option) option" where
  "event_map m [] = Some m"
| "event_map m (JObj kjs # js) = (case event_entries m kjs of None \<Rightarrow> None | Some m \<Rightarrow> event_map m js)"
| "event_map m (JNull # js) = event_map Map.empty js"
| "event_map m (_ # js) = None"

text \<open>The claims: id, subject, session, whether there is a nonce, and the map of the events.\<close>

definition decode_logout :: "json \<Rightarrow> (struct_value \<times> string option \<times> (string \<Rightarrow> bool option)) option" where
  "decode_logout j =
     (case j of
        JObj kjs \<Rightarrow>
          (case (set_fields logout_shape Map.empty (without_field logout_shape ''nonce'' (without_field logout_shape ''events''
                   (known_fields logout_shape kjs))),
             string_pointer None (values_at logout_shape ''nonce'' kjs), event_map Map.empty (values_at logout_shape ''events'' kjs)) of
            (Some v, Some nonce, Some m) \<Rightarrow> Some (v, nonce, m)
          | _ \<Rightarrow> None)
      | JNull \<Rightarrow> Some (Map.empty, None, Map.empty)
      | _ \<Rightarrow> None)"

definition logout_event :: string where
  "logout_event = ''http://schemas.openid.net/event/backchannel-logout''"

definition VerifyLogout :: "sdk_config \<Rightarrow> ('p, 's, 'n) library \<Rightarrow> time \<Rightarrow> string \<Rightarrow> ('p, 's, 'n, logout_notice) sdk" where
  "VerifyLogout cf lb wall raw =
     sdk_then (sdk_check ''invalid logout token length'' (raw \<noteq> [] \<and> length raw \<le> 65536)) (\<lambda>_.
     sdk_then (verified_notice cf lb ''logout+jwt'' ''invalid logout token type'' raw) (\<lambda>it.
     sdk_then (sdk_some LibraryError (decode_logout (it_claims it))) (\<lambda>(v, nonce, events).
     sdk_then (sdk_check ''invalid logout claims'' (string_field ''jti'' v \<noteq> [] \<and> string_field ''sub'' v \<noteq> [] \<and> nonce = None
       \<and> recent_token wall it \<and> dom events = {logout_event} \<and> events logout_event = Some True)) (\<lambda>_.
     sdk_give \<lparr>lo_id = string_field ''jti'' v, lo_subject = string_field ''sub'' v, lo_session = string_field ''sid'' v,
       lo_expires_at = it_expiry it\<rparr>))))"

section \<open>Handlers for Gin\<close>

text \<open>A request as a handler sees it: its media type, the body up to its limit, if it could be read, and the authorization.\<close>

record gin_request =
  gr_content_type :: string
  gr_body :: "string option"
  gr_authorization :: string

datatype 'a gin_answer = Status int | Next 'a

definition MaxNotificationBytes :: nat where "MaxNotificationBytes = 65536"

definition mediaType :: "gin_request \<Rightarrow> string \<Rightarrow> bool" where
  "mediaType r expected = (to_lower (trim_space (takeWhile (\<lambda>c. c \<noteq> CHR '';'') (gr_content_type r))) = expected)"

definition boundedBody :: "gin_request \<Rightarrow> string option" where
  "boundedBody r = (case gr_body r of None \<Rightarrow> None | Some raw \<Rightarrow> if MaxNotificationBytes < length raw then None else Some raw)"

text \<open>The client of the application, \<open>None\<close> if its provider fails or gives none.\<close>

type_synonym ('p, 's, 'n) sdk_client = "(sdk_config \<times> ('p, 's, 'n) library) option"

text \<open>
  \<open>Events\<close>: what verification refuses is 401, a handler that was started and could not commit is 503.
\<close>

definition Events ::
  "('p, 's, 'n) sdk_client option \<Rightarrow> (notification \<Rightarrow> 's transaction_of) option \<Rightarrow> time \<Rightarrow> gin_request
    \<Rightarrow> ('p, 's, 'n) sdk_state \<Rightarrow> int \<times> ('p, 's, 'n) sdk_state" where
  "Events provider handler wall r st =
     (case (provider, handler) of
        (Some cl, Some f) \<Rightarrow>
          if \<not> mediaType r ''application/jwt'' then (415, st)
          else (case (boundedBody r, cl) of
            (None, _) \<Rightarrow> (413, st)
          | (Some raw, None) \<Rightarrow> (503, st)
          | (Some raw, Some (cf, lb)) \<Rightarrow>
              (case verify_notification cf lb wall raw st of
                (Inl _, st) \<Rightarrow> (401, st)
              | (Inr event, st) \<Rightarrow> (case sdk_apply (f event) st of (Inl _, st) \<Rightarrow> (503, st) | (Inr _, st) \<Rightarrow> (204, st))))
      | _ \<Rightarrow> (503, st))"

text \<open>The form of a logout request: the pair it must have and no other.\<close>

definition logout_form :: "string \<Rightarrow> string option" where
  "logout_form raw = (case parse_query raw of
     ([(k, v)], True) \<Rightarrow> if k = ''logout_token'' \<and> v \<noteq> [] then Some v else None
   | _ \<Rightarrow> None)"

definition Logout ::
  "('p, 's, 'n) sdk_client option \<Rightarrow> (logout_notice \<Rightarrow> 's transaction_of) option \<Rightarrow> time \<Rightarrow> gin_request
    \<Rightarrow> ('p, 's, 'n) sdk_state \<Rightarrow> int \<times> ('p, 's, 'n) sdk_state" where
  "Logout provider handler wall r st =
     (case (provider, handler) of
        (Some cl, Some f) \<Rightarrow>
          if \<not> mediaType r ''application/x-www-form-urlencoded'' then (415, st)
          else (case boundedBody r of
            None \<Rightarrow> (413, st)
          | Some raw \<Rightarrow>
            (case (logout_form raw, cl) of
              (None, _) \<Rightarrow> (400, st)
            | (Some token, None) \<Rightarrow> (503, st)
            | (Some token, Some (cf, lb)) \<Rightarrow>
                (case VerifyLogout cf lb wall token st of
                  (Inl _, st) \<Rightarrow> (401, st)
                | (Inr notice, st) \<Rightarrow> (case sdk_apply (f notice) st of (Inl _, st) \<Rightarrow> (503, st) | (Inr _, st) \<Rightarrow> (204, st)))))
      | _ \<Rightarrow> (503, st))"

definition bearer_token :: "gin_request \<Rightarrow> string option" where
  "bearer_token r = (case string_fields (gr_authorization r) of
     [scheme, token] \<Rightarrow> if to_lower scheme = ''bearer'' \<and> token \<noteq> [] \<and> CHR '','' \<notin> set token then Some token else None
   | _ \<Rightarrow> None)"

text \<open>\<open>Next\<close> passes the request on with the claims \<open>Claims\<close> will give.\<close>

definition RequireAccessToken ::
  "('p, 's, 'n) sdk_client option \<Rightarrow> string \<Rightarrow> string list \<Rightarrow> bool \<Rightarrow> gin_request \<Rightarrow> ('p, 's, 'n) sdk_state
    \<Rightarrow> sdk_access_claims gin_answer \<times> ('p, 's, 'n) sdk_state" where
  "RequireAccessToken provider audience scopes introspect r st =
     (case provider of
        None \<Rightarrow> (Status 503, st)
      | Some cl \<Rightarrow>
          if audience = [] then (Status 503, st)
          else (case (bearer_token r, cl) of
            (None, _) \<Rightarrow> (Status 401, st)
          | (Some token, None) \<Rightarrow> (Status 503, st)
          | (Some token, Some (cf, lb)) \<Rightarrow>
            (case VerifyAccessToken cf lb token audience scopes st of
              (Inl _, st) \<Rightarrow> (Status 401, st)
            | (Inr claims, st) \<Rightarrow>
                if \<not> introspect then (Next claims, st)
                else (case IntrospectToken cf lb token st of
                  (Inl _, st) \<Rightarrow> (Status 503, st)
                | (Inr state, st) \<Rightarrow>
                    if \<not> in_active state \<or> in_subject state \<noteq> ac_subject claims \<or> in_client_id state \<noteq> ac_client_id claims
                    then (Status 401, st) else (Next claims, st)))))"

definition Claims :: "sdk_access_claims gin_answer \<Rightarrow> sdk_access_claims option" where
  "Claims answer = (case answer of Next claims \<Rightarrow> Some claims | Status _ \<Rightarrow> None)"

end
