(* ===== verification/Sdk_Server.thy ===== *)
theory Sdk_Server
  imports Sdk_Events Routes
begin

text \<open>
  The SDK in front of the service: how the requests of the SDK reach the HTTP API, how the answers and the delivered notices are
  read, and what the two sides must agree on. The encodings are those of \<open>encoding/json\<close>: the order of the keys of \<open>body\<close>
  and of the claims, and the format of a time, the parameter \<open>fmt\<close>.
\<close>

section \<open>JSON of links and notices\<close>

definition state_name :: "link_state \<Rightarrow> string" where
  "state_name s = (case s of Pending \<Rightarrow> ''pending'' | Confirmed \<Rightarrow> ''confirmed'' | Prepared \<Rightarrow> ''prepared'' | Linked \<Rightarrow> ''active''
     | Revoked \<Rightarrow> ''revoked'')"

definition link_json :: "(time \<Rightarrow> string) \<Rightarrow> account_link \<Rightarrow> json" where
  "link_json fmt l = JObj [(''id'', JStr (ln_id l)), (''client_id'', JStr (ln_client_id l)),
     (''local_account_ref'', JStr (ln_local_ref l)), (''subject'', JStr (ln_subject l)), (''state'', JStr (state_name (ln_state l))),
     (''version'', JInt (ln_version l)), (''verified_at'', JStr (fmt (ln_verified_at l)))]"

definition intent_json :: "(time \<Rightarrow> string) \<Rightarrow> link_intent \<Rightarrow> json" where
  "intent_json fmt n = JObj [(''id'', JStr (ni_id n)), (''client_id'', JStr (ni_client_id n)),
     (''local_account_ref'', JStr (ni_local_ref n)), (''nonce'', JStr (ni_nonce n)), (''state'', JStr (state_name (ni_state n))),
     (''expires_at'', JStr (fmt (ni_expires_at n)))]"

definition payload_json :: "(time \<Rightarrow> string) \<Rightarrow> payload \<Rightarrow> json" where
  "payload_json fmt p = (case p of
     LinkRevoked l \<Rightarrow> JObj [(''link'', link_json fmt l), (''type'', JStr ''account_link.revoked'')]
   | StatusChanged subject status version \<Rightarrow> JObj [(''status'', JStr status), (''subject'', JStr subject),
       (''type'', JStr ''identity.status_changed''), (''version'', JInt version)]
   | LogoutOf subject sid \<Rightarrow> JObj [(''sid'', JStr sid), (''subject'', JStr subject)])"

text \<open>The payload of a delivered token; a numeric date counts whole seconds.\<close>

definition whole_seconds :: "time \<Rightarrow> time" where "whole_seconds t = seconds (t div 1000000)"

definition claims_json :: "(time \<Rightarrow> string) \<Rightarrow> event_claims \<Rightarrow> json" where
  "claims_json fmt c = JObj
     ([(''aud'', JArr [JStr (ev_audience c)])]
      @ (case ev_event c of None \<Rightarrow> [] | Some p \<Rightarrow> [(''event'', payload_json fmt p)])
      @ (if ev_events c = [] then [] else [(''events'', JObj (map (\<lambda>e. (e, JObj [])) (ev_events c)))])
      @ [(''exp'', JInt (ev_expires_at c div 1000000)), (''iat'', JInt (ev_issued_at c div 1000000)),
         (''iss'', JStr (ev_issuer c)), (''jti'', JStr (ev_jti c))]
      @ (if ev_sid c = [] then [] else [(''sid'', JStr (ev_sid c))])
      @ (if ev_subject c = [] then [] else [(''sub'', JStr (ev_subject c))]))"

definition claims_token :: "(time \<Rightarrow> string) \<Rightarrow> event_claims \<Rightarrow> id_token" where
  "claims_token fmt c = \<lparr>it_issuer = ev_issuer c, it_subject = ev_subject c, it_audience = [ev_audience c],
     it_expiry = whole_seconds (ev_expires_at c), it_issued_at = whole_seconds (ev_issued_at c), it_nonce = [],
     it_claims = claims_json fmt c\<rparr>"

section \<open>What the libraries agree on\<close>

text \<open>A time that was formatted is parsed back.\<close>

definition times_agree :: "(time \<Rightarrow> string) \<Rightarrow> (string \<Rightarrow> time option) \<Rightarrow> bool" where
  "times_agree fmt parse = (\<forall>t. parse (fmt t) = Some t)"

text \<open>
  The provider of an issuer accepts what the issuer signs, for its audience, until it expires; \<open>clock\<close> is the time at which the network state
  verifies.
\<close>

definition accepts_signed ::
  "('p, 's, 'n) library \<Rightarrow> 'p \<Rightarrow> string \<Rightarrow> (event_claims \<Rightarrow> string option) \<Rightarrow> (time \<Rightarrow> string) \<Rightarrow> ('n \<Rightarrow> time) \<Rightarrow> bool" where
  "accepts_signed lb p issuer sign fmt clock = (\<forall>c raw n. ev_issuer c = issuer \<longrightarrow> sign c = Some raw \<longrightarrow> clock n < ev_expires_at c \<longrightarrow>
     lb_token_types lb raw = Some [Some (ev_type c)]
     \<and> fst (lb_verify lb p (ev_audience c) raw n) = Some (claims_token fmt c))"

section \<open>Reading what was written\<close>

definition sdk_link_of :: "account_link \<Rightarrow> sdk_link" where
  "sdk_link_of l = \<lparr>sl_id = ln_id l, sl_client_id = ln_client_id l, sl_local_ref = ln_local_ref l, sl_subject = ln_subject l,
     sl_state = state_name (ln_state l), sl_version = ln_version l, sl_verified_at = ln_verified_at l\<rparr>"

definition sdk_intent_of :: "link_intent \<Rightarrow> sdk_intent" where
  "sdk_intent_of n = \<lparr>si_id = ni_id n, si_client_id = ni_client_id n, si_local_ref = ni_local_ref n, si_nonce = ni_nonce n,
     si_state = state_name (ni_state n), si_expires_at = ni_expires_at n\<rparr>"

lemmas struct_decoding = timed_struct_def known_fields_def values_at_def without_field_def field_named_def set_field.simps
  struct_fields

lemma decode_link_json:
  assumes "times_agree fmt parse" "int_range (ln_version l)"
  shows "timed_struct parse link_shape ''verified_at'' zero_time (link_json fmt l) Map.empty \<noteq> None"
    and "decode_link parse (link_json fmt l) = Some (sdk_link_of l)"
  using assms by (simp_all add: decode_link_def link_json_def struct_decoding link_shape_def link_from_def times_agree_def sdk_link_of_def)

lemma decode_intent_json:
  assumes "times_agree fmt parse"
  shows "decode_intent parse (intent_json fmt n) = Some (sdk_intent_of n)"
  using assms by (simp add: decode_intent_def intent_json_def struct_decoding intent_shape_def times_agree_def sdk_intent_of_def)

section \<open>Forms with one value\<close>

lemma escape_chars: "c \<in> set (query_escape s) \<Longrightarrow> unreserved c \<or> c \<in> {CHR ''+'', CHR ''%''}"
proof -
  have hex: "\<forall>n\<in>set [0..<16]. unreserved (upper_hex n)" by code_simp
  have "unreserved (upper_hex (of_char d div 16))" "unreserved (upper_hex (of_char d mod 16))" for d
  proof -
    have "(of_char d :: nat) < 256" by simp
    then show "unreserved (upper_hex (of_char d div 16))" "unreserved (upper_hex (of_char d mod 16))"
      using hex by (simp_all add: less_mult_imp_div_less)
  qed
  then show "c \<in> set (query_escape s) \<Longrightarrow> unreserved c \<or> c \<in> {CHR ''+'', CHR ''%''}"
    by (auto simp: query_escape_def escape_char_def split: if_splits)
qed

lemma unreserved_plain [simp]:
  "\<not> unreserved CHR ''&''" "\<not> unreserved CHR ''=''" "\<not> unreserved CHR '';''" "\<not> unreserved CHR ''+''" "\<not> unreserved CHR ''%''"
  by (simp_all add: unreserved_def)

lemma escape_plain [simp]:
  "CHR ''&'' \<notin> set (query_escape s)" "CHR ''='' \<notin> set (query_escape s)" "CHR '';'' \<notin> set (query_escape s)"
  using escape_chars [of "CHR ''&''" s] escape_chars [of "CHR ''=''" s] escape_chars [of "CHR '';''" s] by auto

text \<open>\<open>ParseQuery\<close> reads one pair back.\<close>

lemma parse_query_pair:
  assumes "CHR ''&'' \<notin> set k" "CHR ''='' \<notin> set k" "CHR '';'' \<notin> set k" "query_unescape k = Some k"
  shows "parse_query (k @ CHR ''='' # query_escape v) = ([(k, v)], True)"
proof -
  have "split_on CHR ''&'' (k @ CHR ''='' # query_escape v) = [k @ CHR ''='' # query_escape v]"
    using assms by (intro split_on_none) auto
  moreover have "takeWhile (\<lambda>c. c \<noteq> CHR ''='') (k @ CHR ''='' # query_escape v) = k"
    "dropWhile (\<lambda>c. c \<noteq> CHR ''='') (k @ CHR ''='' # query_escape v) = CHR ''='' # query_escape v"
    using assms(2) by (auto simp: takeWhile_append2 dropWhile_append2 takeWhile_append dropWhile_append)
  ultimately show ?thesis using assms by (simp add: parse_query_def parse_pair_def)
qed

section \<open>Libraries for examples\<close>

text \<open>Times in unary, URLs that are their path, and a network and a store that fail.\<close>

definition written_time :: "time \<Rightarrow> string" where
  "written_time t = (if t < 0 then CHR ''-'' else CHR ''+'') # replicate (nat \<bar>t\<bar>) CHR ''1''"

definition read_time :: "string \<Rightarrow> time option" where
  "read_time s = (case s of [] \<Rightarrow> None | c # ones \<Rightarrow> Some (if c = CHR ''-'' then - int (length ones) else int (length ones)))"

lemma written_times_agree: "times_agree written_time read_time"
  by (simp add: times_agree_def written_time_def read_time_def)

definition path_url :: "string \<Rightarrow> url" where
  "path_url s = \<lparr>url_scheme = ''https'', url_host = ''shop'', url_hostname = ''shop'', url_user = False, url_path = takeWhile (\<lambda>c. c \<noteq> CHR ''?'') s,
     url_raw_query = drop 1 (dropWhile (\<lambda>c. c \<noteq> CHR ''?'') s), url_fragment = []\<rparr>"

definition silent_library :: "(unit, 's, 'n) library" where
  "silent_library = \<lparr>lb_url = (\<lambda>s. Some (path_url s)), lb_url_string = (\<lambda>s. s), lb_time = read_time, lb_provider = (\<lambda>_ n. (None, n)),
     lb_discovered = (\<lambda>_. JNull), lb_verify = (\<lambda>_ _ _ n. (None, n)), lb_token_types = (\<lambda>_. None), lb_auth_url = (\<lambda>_ _ state _ _. state),
     lb_exchange = (\<lambda>_ _ _ _ n. (None, n)), lb_refresh = (\<lambda>_ _ _ n. (None, n)), lb_userinfo = (\<lambda>_ _ n. (None, n)),
     lb_do = (\<lambda>_ n. (None, n)), lb_put = (\<lambda>_ s. (False, s)), lb_take = (\<lambda>_ s. (None, s))\<rparr>"

definition example_config :: "string \<Rightarrow> sdk_config" where
  "example_config app = \<lparr>cf_issuer = ''https://cas'', cf_client_id = app, cf_client_secret = replicate 32 CHR ''k'',
     cf_redirect_uri = ''https://shop/cb'', cf_loopback = False\<rparr>"

end
