(* ===== verification/Notices.thy ===== *)
theory Notices
  imports System
begin

text \<open>
  What the queued notices of \<open>links.go\<close>, \<open>account_security.go\<close>, \<open>logout.go\<close> and \<open>recovery.go\<close> say, in every reachable state:
  the contract their receivers, the SDKs, check.
\<close>

definition notice_ok :: "outbox_row \<Rightarrow> bool" where
  "notice_ok r = (case o_payload r of
     LinkRevoked l \<Rightarrow> o_kind r = EventKind \<and> ln_client_id l = o_client_id r \<and> ln_state l = Revoked \<and> ln_version l \<in> {2, 3}
       \<and> ln_local_ref l \<noteq> []
   | StatusChanged subject status version \<Rightarrow> o_kind r = EventKind \<and> parse_status status \<noteq> None \<and> 2 \<le> version
   | LogoutOf subject sid \<Rightarrow> o_kind r = LogoutKind)"

section \<open>What the notices rest on\<close>

text \<open>Intents name a local account.\<close>

definition intents_named :: "db \<Rightarrow> bool" where
  "intents_named db \<longleftrightarrow> (\<forall>n\<in>set (link_intents db). n_local_ref n \<noteq> [])"

lemma intents_untouched: "touches T db db' \<Longrightarrow> T_intents \<notin> T \<Longrightarrow> intents_named db' = intents_named db"
  by (simp add: intents_named_def untouched)

lemma intents_named_kept:
  assumes "intents_named db"
  shows "intents_named (snd (CreateLinkIntent wall new_id nonce c localRef key db))"
    and "intents_named (snd (CompleteAuthorization now rid session db))"
    and "intents_named (snd (PrepareLink now wall c lid nonce subject db))"
    and "intents_named (snd (ActivateLink now wall c lid db))"
    and "intents_named (snd (RevokeLink now event_id c lid expected db))"
    and "intents_named (Maintenance now db)"
    and "intents_named (snd (FenceRestoredState now ids1 ids2 db))"
  using assms
  by (auto simp: CreateLinkIntent_def CompleteAuthorization_def PrepareLink_def ActivateLink_def RevokeLink_def Maintenance_def
      FenceRestoredState_def intents_named_def Let_def insert_row_Some insert_rows_Some set_intent_state_def confirm_intents_def
      release_links_def release_intents_def fence_links_def fence_stamps_def kill_deliveries_def revoke_link_access_def
      consume_requests_def table_simps
      split: option.splits sum.splits if_splits elim!: in_update_rows)

lemma operation_intents:
  assumes "operation X db db'" "intents_named db"
  shows "intents_named db'"
  using assms(1) by (cases rule: operation.cases)
    (simp_all add: operation_touches [THEN intents_untouched] assms(2) intents_named_kept)

text \<open>The status of an identity has a version, from 1 on.\<close>

definition status_counted :: "db \<Rightarrow> bool" where
  "status_counted db \<longleftrightarrow> (\<forall>i\<in>set (identities db). 1 \<le> i_status_version i)"

lemma status_untouched: "touches T db db' \<Longrightarrow> T_identities \<notin> T \<Longrightarrow> status_counted db' = status_counted db"
  by (simp add: status_counted_def untouched)

lemma status_update: "status_counted db \<Longrightarrow> (\<And>i. i_status_version i \<le> i_status_version (f i))
    \<Longrightarrow> identities b = update_rows P f (identities db) \<Longrightarrow> status_counted b"
  unfolding status_counted_def by (auto elim!: in_update_rows) (meson order_trans)

lemma status_cong: "identities b = identities a \<Longrightarrow> status_counted b = status_counted a"
  by (simp add: status_counted_def)

lemma VerifyMFA_status: "status_counted db \<Longrightarrow> status_counted (snd (VerifyMFA unseal totp now wall subject code db))"
  by (auto simp: VerifyMFA_def Allow_unfold Let_def status_counted_def split: sum.splits option.splits elim!: in_update_rows)

lemma commit_password_status: "status_counted db \<Longrightarrow> status_counted (snd (commit_password kdf now ids subject sid e current en db))"
  by (auto simp: commit_password_def set_password_def status_counted_def split: option.splits dest!: end_access_identities elim!: in_update_rows)

lemma ChangePassword_status:
  assumes "status_counted db"
  shows "status_counted (snd (ChangePassword kdf unseal totp now wall salt ids subject sid current new code peer db))"
proof -
  have "status_counted b" if "Authenticate kdf now e pw peer db = (r, b)" for e pw r b
    using assms Authenticate_identities [OF that] by (simp add: status_counted_def)
  moreover have "status_counted b'" if "VerifyMFA unseal totp now wall subject code b = (r, b')" "status_counted b" for b r b'
    using VerifyMFA_status [OF that(2), of unseal totp now wall subject code] that(1) by simp
  ultimately show ?thesis using assms
    by (auto simp: ChangePassword_def split: option.splits sum.splits prod.splits if_splits intro!: commit_password_status)
qed

lemma CreateIdentity_status:
  "status_counted db \<Longrightarrow> status_counted (snd (CreateIdentity parse kdf salt new_id email name password role db))"
  by (auto simp: CreateIdentity_def status_counted_def Let_def insert_row_Some split: option.splits sum.splits)

lemma BeginMFA_status: "status_counted db \<Longrightarrow> status_counted (snd (BeginMFA seal now new_key subject db))"
  by (auto simp: BeginMFA_def status_counted_def split: sum.splits elim!: in_update_rows)

lemma ConfirmMFA_status:
  "status_counted db \<Longrightarrow> status_counted (snd (ConfirmMFA unseal totp now wall codes subject sid code db))"
  by (auto simp: ConfirmMFA_def status_counted_def Let_def split: option.splits sum.splits elim!: in_update_rows)

lemma RedeemMFAReset_status: "status_counted db \<Longrightarrow> status_counted (snd (RedeemMFAReset kdf now ids raw password peer db))"
  by (auto simp: RedeemMFAReset_def status_counted_def Let_def consume_credential_def split: option.splits sum.splits prod.splits
      dest!: end_access_identities Authenticate_identities elim!: in_update_rows)

lemma RedeemCredential_status:
  assumes "status_counted db"
  shows "status_counted (snd (RedeemCredential kdf now salt new_id ids kind raw name password db))"
proof -
  have invite: "status_counted (audit now x y z ((consume_credential now raw k db)\<lparr>identities := identities db @ [i]\<rparr>))"
    if "i_status_version i = 1" for x y z k i
    using assms that by (auto simp: status_counted_def)
  have "status_counted (set_password x e (consume_credential now raw k db))" for x e k
    using assms by (auto simp: status_counted_def consume_credential_def set_password_def elim!: in_update_rows)
  then have recover: "status_counted b" if "end_access now ids act x (set_password y e (consume_credential now raw k db)) = Some b" for act x y e k b
    using end_access_identities [OF that] by (simp add: status_counted_def)
  show ?thesis
    by (auto simp: RedeemCredential_def Let_def insert_row_Some split: option.splits sum.splits
      intro: assms invite recover)
qed

lemma Maintenance_status: "status_counted db \<Longrightarrow> status_counted (Maintenance now db)"
  by (auto simp: Maintenance_def status_counted_def Let_def release_links_def release_intents_def elim!: in_update_rows)

lemmas status_counted_kept = CreateIdentity_status BeginMFA_status ConfirmMFA_status RedeemMFAReset_status RedeemCredential_status
  Maintenance_status

lemma SetIdentityStatus_status:
  assumes "status_counted db"
  shows "status_counted (snd (SetIdentityStatus now ids ids' actor subject status db))"
  using assms
  by (auto simp: SetIdentityStatus_def status_counted_def Let_def queueLogout_def split: option.splits if_splits elim!: in_update_rows)

lemma operation_status:
  assumes "operation X db db'" "status_counted db"
  shows "status_counted db'"
  using assms(1) by (cases rule: operation.cases)
    (simp_all add: operation_touches [THEN status_untouched] assms(2) status_counted_kept SetIdentityStatus_status VerifyMFA_status
      ChangePassword_status)

section \<open>What the notices say\<close>

text \<open>An operation that queues appends notices that are in order.\<close>

definition announces :: "db \<Rightarrow> db \<Rightarrow> bool" where
  "announces a b \<longleftrightarrow> (\<exists>rs. outbox b = outbox a @ rs \<and> list_all notice_ok rs)"

lemma announces_same [simp]: "outbox b = outbox a \<Longrightarrow> announces a b"
  by (simp add: announces_def)

lemma announces_append: "outbox b = outbox a @ rs \<Longrightarrow> list_all notice_ok rs \<Longrightarrow> announces a b"
  by (auto simp: announces_def)

lemma announces_cong: "outbox b = outbox b' \<Longrightarrow> announces a b = announces a b'"
  by (simp add: announces_def)

lemma logout_notice_ok [simp]: "notice_ok (outbox_event now i c (LogoutOf subject sid) LogoutKind)"
  by (simp add: notice_ok_def outbox_event_def)

lemma queueLogout_announces:
  assumes "queueLogout now ids subject sid b = Some b'" "announces a b"
  shows "announces a b'"
proof -
  obtain rs where "b' = b\<lparr>outbox := outbox b @ rs\<rparr>"
    "rs = map (\<lambda>(i, c). outbox_event now i c (LogoutOf subject sid) LogoutKind)
       (numbered ids (linked_clients subject b))"
    using assms(1) by (rule queueLogout_Some)
  with assms(2) show ?thesis by (auto simp: announces_def list_all_iff)
qed

lemma end_access_announces: "end_access now ids action subject b = Some b' \<Longrightarrow> announces a b \<Longrightarrow> announces a b'"
  by (auto simp: end_access_def dest!: queueLogout_announces [where a = a] intro: announces_cong [THEN iffD1, rotated])

lemma logouts_announce:
  shows "announces db (snd (LogoutAll now ids subject db))"
    and "announces db (snd (LogoutSession now ids subject sid db))"
    and "announces db (snd (RedeemMFAReset kdf now ids raw password peer db))"
    and "announces db (snd (RedeemCredential kdf now salt new_id ids kind raw name pw db))"
  by (auto simp: LogoutAll_def LogoutSession_def RedeemMFAReset_def RedeemCredential_def Let_def consume_credential_def set_password_def
      split: option.splits sum.splits prod.splits
      dest!: queueLogout_announces [where a = db] dest: Authenticate_outbox elim!: end_access_announces
      intro: announces_cong [THEN iffD1, rotated])

lemma ChangePassword_announces:
  "announces db (snd (ChangePassword kdf unseal totp now wall salt ids subject sid current new code peer db))"
proof -
  have com: "announces db (snd (commit_password kdf now ids subject sid e current en b))"
    if "outbox b = outbox db" for b e en
    using that by (auto simp: commit_password_def set_password_def split: option.splits elim!: end_access_announces)
  show ?thesis
    by (auto simp: ChangePassword_def split: option.splits sum.splits prod.splits if_splits
      dest!: Authenticate_outbox VerifyMFA_outbox intro!: com)
qed

lemma SetIdentityStatus_announces:
  assumes "status_counted db"
  shows "announces db (snd (SetIdentityStatus now ids ids' actor subject status db))"
proof -
  have ev: "announces db (b\<lparr>outbox := t\<rparr>)"
    if "insert_rows outbox_clash (map (\<lambda>(n, c). outbox_event now n c (StatusChanged subject status (i_status_version i + 1)) EventKind) xs)
        (outbox db) = Some t" "parse_status status = Some st" "first_row (\<lambda>i. i_id i = subject) (identities db) = Some i"
    for t xs b st i
    using that assms first_row_Some [OF that(3)]
    by (auto simp: insert_rows_Some announces_def list_all_iff notice_ok_def outbox_event_def status_counted_def)
  show ?thesis
    by (auto simp: SetIdentityStatus_def Let_def split: option.splits
      dest!: queueLogout_announces [where a = db] intro: announces_cong [THEN iffD1, rotated] ev dest: ev)
qed

lemma link_row_facts:
  assumes "link_inv db" "intents_named db" "l \<in> set (account_links db)"
  shows "l_local_ref l \<noteq> []" "l_version l \<in> link_version (l_state l)"
  using assms by (auto simp: link_inv_def link_fits_def intents_named_def)

lemma RevokeLink_announces:
  assumes "link_inv db" "intents_named db"
  shows "announces db (snd (RevokeLink now event_id c lid expected db))"
proof -
  have "notice_ok (outbox_event now event_id c (LinkRevoked ((view_link l)\<lparr>ln_version := l_version l + 1, ln_state := Revoked\<rparr>)) EventKind)"
    if "first_row (\<lambda>l. l_id l = lid \<and> l_client_id l = c) (account_links db) = Some l" "l_state l \<noteq> Revoked" for l
    using first_row_Some [OF that(1)] that(2) link_row_facts [OF assms, of l]
    by (cases "l_state l") (auto simp: notice_ok_def outbox_event_def view_link_def)
  then show ?thesis
    by (auto simp: RevokeLink_def Let_def insert_row_Some set_intent_state_def intro: announces_append split: option.splits)
qed

lemma announces_outbox:
  assumes "announces a b" "list_all notice_ok (outbox a)"
  shows "list_all notice_ok (outbox b)"
  using assms by (auto simp: announces_def)

lemma notice_ok_cong: "o_payload s = o_payload r \<Longrightarrow> o_kind s = o_kind r \<Longrightarrow> o_client_id s = o_client_id r \<Longrightarrow> notice_ok s = notice_ok r"
  by (simp add: notice_ok_def split: payload.split)

lemma notices_updated:
  assumes "list_all notice_ok t" "\<And>r. o_payload (f r) = o_payload r \<and> o_kind (f r) = o_kind r \<and> o_client_id (f r) = o_client_id r"
  shows "list_all notice_ok (update_rows P f t)"
proof -
  have "notice_ok (f r) = notice_ok r" for r using assms(2) by (intro notice_ok_cong) simp_all
  then show ?thesis using assms(1) by (auto simp: list_all_iff elim!: in_update_rows)
qed

lemma in_numbered: "x \<in> set (numbered ids xs) \<Longrightarrow> snd x \<in> set xs"
  by (auto simp: numbered_def in_set_enumerate_eq)

lemma FenceRestoredState_notices:
  assumes "link_inv db" "intents_named db" "list_all notice_ok (outbox db)"
  shows "list_all notice_ok (outbox (snd (FenceRestoredState now ids1 ids2 db)))"
proof -
  have killed: "list_all notice_ok (outbox (kill_deliveries now db))"
    unfolding kill_deliveries_def using assms(3) by (simp add: notices_updated)
  have notices: "list_all notice_ok (fence_notices now ids1 b)" for b
    by (auto simp: fence_notices_def list_all_iff)
  have events: "list_all notice_ok (fence_events now ids2 b)" if "account_links b = account_links db" for b
  proof -
    have "notice_ok (outbox_event now i (l_client_id l) (LinkRevoked (fence_link_event l)) EventKind)" if "l \<in> set (account_links db)" for i l
      using link_row_facts [OF assms(1,2) that] by (cases "l_state l") (auto simp: notice_ok_def outbox_event_def fence_link_event_def view_link_def)
    then show ?thesis using that by (fastforce simp: fence_events_def list_all_iff dest: in_numbered)
  qed
  have "account_links (fence_stamps now b) = account_links b" for b
    by (simp add: fence_stamps_def Let_def revoke_access_def revoke_families_def revoke_sessions_def consume_requests_def)
  then show ?thesis
    using assms(3) killed notices events
    by (auto simp: FenceRestoredState_def Let_def insert_rows_Some kill_deliveries_def split: option.splits)
qed

lemma claim_event_notices: "list_all notice_ok (outbox db) \<Longrightarrow> list_all notice_ok (outbox (snd (claim_event now lease db)))"
  by (simp add: claim_event_def lease_row_def notices_updated split: option.splits)

lemma complete_event_notices:
  "list_all notice_ok (outbox db) \<Longrightarrow> list_all notice_ok (outbox (complete_event now eid lease status attempts oc elapsed db))"
  by (simp add: complete_event_def complete_row_def Let_def notices_updated)

lemma RetryDeadEvent_notices: "list_all notice_ok (outbox db) \<Longrightarrow> list_all notice_ok (outbox (snd (RetryDeadEvent now actor eid db)))"
  by (simp add: RetryDeadEvent_def notices_updated)

lemma Maintenance_notices: "list_all notice_ok (outbox db) \<Longrightarrow> list_all notice_ok (outbox (Maintenance now db))"
  by (auto simp: Maintenance_def Let_def release_links_def release_intents_def delete_rows_def list_all_iff)

lemmas workers_notices = claim_event_notices complete_event_notices RetryDeadEvent_notices Maintenance_notices

lemma outbox_notices_untouched: "touches T db db' \<Longrightarrow> T_outbox \<notin> T \<Longrightarrow> list_all notice_ok (outbox db') = list_all notice_ok (outbox db)"
  by (simp add: untouched)

lemma operation_notices:
  assumes "operation X db db'" "link_inv db" "intents_named db" "status_counted db" "list_all notice_ok (outbox db)"
  shows "list_all notice_ok (outbox db')"
  using assms(1) by (cases rule: operation.cases)
    (simp_all add: operation_touches [THEN outbox_notices_untouched] assms workers_notices FenceRestoredState_notices
      logouts_announce [THEN announces_outbox] ChangePassword_announces [THEN announces_outbox]
      SetIdentityStatus_announces [THEN announces_outbox] RevokeLink_announces [THEN announces_outbox])

text \<open>Every queued notice keeps the contract of its kind, in any reachable state.\<close>

lemma reach_notices:
  assumes "reach D db" "r \<in> set (outbox db)"
  shows "notice_ok r"
proof -
  have "run none empty_db E db \<Longrightarrow> intents_named db \<and> status_counted db \<and> list_all notice_ok (outbox db)" for E db
  proof (induction "none :: drawn" empty_db E db rule: run.induct)
    case (stop)
    show ?case by (simp add: intents_named_def status_counted_def empty_db_def)
  next
    case (further E db E' db')
    then have "sound E db" using run_sound sound_empty by blast
    then have "link_inv db" by (rule soundD(3))
    with further show ?case
      by (auto elim!: stepE intro: operation_intents operation_status operation_notices)
  qed
  then show ?thesis using assms by (auto simp: reach_def list_all_iff)
qed

end
