(* ===== verification/Sdk_Notices.thy ===== *)
theory Sdk_Notices
  imports Sdk_Server Notices Deliveries
begin

text \<open>
  From the outbox to the application: what \<open>DeliverEvent\<close> signs and posts is what the handlers of \<open>ginadapter/adapter.go\<close>
  verify and give to the application, for every notice of a reachable database.
\<close>

lemma logout_form_body: "raw \<noteq> [] \<Longrightarrow> logout_form (delivery_body LogoutKind raw) = Some raw"
  using parse_query_pair [of "''logout_token''" raw] by (simp add: logout_form_def delivery_body_def)

section \<open>Reading the notices\<close>

definition notification_of :: "outbox_row \<Rightarrow> notification" where
  "notification_of r = (case o_payload r of
     LinkRevoked l \<Rightarrow> \<lparr>nt_id = o_id r, nt_type = ''account_link.revoked'', nt_link = Some (sdk_link_of l), nt_subject = [],
       nt_status = [], nt_version = 0\<rparr>
   | StatusChanged subject status version \<Rightarrow> \<lparr>nt_id = o_id r, nt_type = ''identity.status_changed'', nt_link = None,
       nt_subject = subject, nt_status = status, nt_version = version\<rparr>
   | LogoutOf subject sid \<Rightarrow> \<lparr>nt_id = o_id r, nt_type = [], nt_link = None, nt_subject = subject, nt_status = [], nt_version = 0\<rparr>)"

definition logout_of :: "outbox_row \<Rightarrow> time \<Rightarrow> logout_notice" where
  "logout_of r expiry = (case o_payload r of
     LogoutOf subject sid \<Rightarrow> \<lparr>lo_id = o_id r, lo_subject = subject, lo_session = sid, lo_expires_at = expiry\<rparr>
   | _ \<Rightarrow> \<lparr>lo_id = o_id r, lo_subject = [], lo_session = [], lo_expires_at = expiry\<rparr>)"

text \<open>The ids the database generates are not empty, and versions fit.\<close>

definition named :: "outbox_row \<Rightarrow> bool" where
  "named r = (o_id r \<noteq> [] \<and> (case o_payload r of
     LinkRevoked l \<Rightarrow> ln_id l \<noteq> [] \<and> ln_subject l \<noteq> []
   | StatusChanged subject status version \<Rightarrow> subject \<noteq> [] \<and> int_range version
   | LogoutOf subject sid \<Rightarrow> subject \<noteq> []))"

lemma decode_link_values_json:
  assumes "times_agree fmt parse" "int_range (ln_version l)"
  shows "\<exists>vt. decode_link_values parse None [link_json fmt l] = Some (Some vt) \<and> link_from vt = sdk_link_of l"
proof -
  have "map_option link_from (timed_struct parse link_shape ''verified_at'' zero_time (link_json fmt l) Map.empty) = Some (sdk_link_of l)"
    using decode_link_json(2) [OF assms] by (simp add: decode_link_def)
  then obtain vt where "timed_struct parse link_shape ''verified_at'' zero_time (link_json fmt l) Map.empty = Some vt"
      "link_from vt = sdk_link_of l" by auto
  then show ?thesis by (simp add: link_json_def)
qed

lemma decode_events_json:
  assumes "times_agree fmt parse"
  shows "int_range (ln_version l) \<Longrightarrow> \<exists>v vt. decode_events parse (Map.empty, None) [payload_json fmt (LinkRevoked l)] = Some (v, Some vt)
      \<and> link_from vt = sdk_link_of l \<and> v = [''type'' \<mapsto> VString ''account_link.revoked'']"
    and "int_range version \<Longrightarrow> decode_events parse (Map.empty, None) [payload_json fmt (StatusChanged subject status version)]
      = Some ([''status'' \<mapsto> VString status, ''subject'' \<mapsto> VString subject, ''type'' \<mapsto> VString ''identity.status_changed'',
          ''version'' \<mapsto> VInt version], None)"
proof -
  show "\<exists>v vt. decode_events parse (Map.empty, None) [payload_json fmt (LinkRevoked l)] = Some (v, Some vt)
      \<and> link_from vt = sdk_link_of l \<and> v = [''type'' \<mapsto> VString ''account_link.revoked'']" if fits: "int_range (ln_version l)"
    using decode_link_values_json [OF assms fits] by (auto simp: payload_json_def event_shape_def struct_decoding)
qed (simp add: payload_json_def event_shape_def struct_decoding)

lemma envelope_names [simp]:
  "field_named envelope_shape ''aud'' = None" "field_named envelope_shape ''exp'' = None" "field_named envelope_shape ''iat'' = None"
  "field_named envelope_shape ''iss'' = None" "field_named envelope_shape ''jti'' = Some (''jti'', TString)"
  "field_named envelope_shape ''event'' = Some (''event'', TString)"
  by code_simp+

lemma envelope_fields:
  "decode_envelope parse (JObj [(''aud'', a), (''event'', e), (''exp'', x), (''iat'', i), (''iss'', s), (''jti'', JStr d)])
    = map_option (\<lambda>(v, l). \<lparr>nt_id = d, nt_type = string_field ''type'' v, nt_link = map_option link_from l,
        nt_subject = string_field ''subject'' v, nt_status = string_field ''status'' v, nt_version = int_field ''version'' v\<rparr>)
      (decode_events parse (Map.empty, None) [e])"
proof -
  have "known_fields envelope_shape [(''aud'', a), (''event'', e), (''exp'', x), (''iat'', i), (''iss'', s), (''jti'', JStr d)]
      = [(''event'', e), (''jti'', JStr d)]"
    "without_field envelope_shape ''event'' [(''event'', e), (''jti'', JStr d)] = [(''jti'', JStr d)]"
    "values_at envelope_shape ''event'' [(''aud'', a), (''event'', e), (''exp'', x), (''iat'', i), (''iss'', s), (''jti'', JStr d)] = [e]"
    "set_fields envelope_shape Map.empty [(''jti'', JStr d)] = Some [''jti'' \<mapsto> VString d]"
    by (simp_all add: known_fields_def without_field_def values_at_def)
  then show ?thesis
    by (simp only: decode_envelope_def json.case) (simp add: string_field_def split: option.split)
qed

lemma event_claims_json:
  assumes "o_kind r = EventKind" "event_token issuer wall r = Some c"
  shows "claims_json fmt c = JObj [(''aud'', JArr [JStr (o_client_id r)]), (''event'', payload_json fmt (o_payload r)),
     (''exp'', JInt ((wall + minutes 5) div 1000000)), (''iat'', JInt (wall div 1000000)), (''iss'', JStr issuer), (''jti'', JStr (o_id r))]"
  using assms by (auto simp: event_token_def Let_def claims_json_def)

lemma decode_envelope_json:
  assumes "times_agree fmt parse" "named r" "notice_ok r" "o_kind r = EventKind" "event_token issuer wall r = Some c"
  shows "decode_envelope parse (claims_json fmt c) = Some (notification_of r)"
proof (cases "o_payload r")
  case (LinkRevoked l)
  then have "int_range (ln_version l)" using assms(3) by (auto simp: notice_ok_def int_range_def)
  then obtain v vt where "decode_events parse (Map.empty, None) [payload_json fmt (LinkRevoked l)] = Some (v, Some vt)"
      "link_from vt = sdk_link_of l" "v = [''type'' \<mapsto> VString ''account_link.revoked'']"
    using decode_events_json(1) [OF assms(1), of l] by blast
  then show ?thesis
    by (simp add: event_claims_json [OF assms(4,5)] envelope_fields LinkRevoked notification_of_def struct_fields)
next
  case (StatusChanged subject status version)
  then have "int_range version" using assms(2) by (simp add: named_def)
  then show ?thesis
    by (simp add: event_claims_json [OF assms(4,5)] envelope_fields StatusChanged notification_of_def struct_fields
        decode_events_json(2) [OF assms(1)])
next
  case (LogoutOf subject sid)
  then show ?thesis using assms(3,4) by (simp add: notice_ok_def)
qed

text \<open>The times of delivery and receipt on the two clocks.\<close>

definition in_time :: "time \<Rightarrow> time \<Rightarrow> bool" where
  "in_time sent received = (0 \<le> sent \<and> sent - minutes 1 \<le> received \<and> received \<le> sent + minutes 4)"

lemma in_time_recent:
  assumes "in_time sent received" "it_issued_at it = whole_seconds sent"
  shows "recent_token received it"
proof -
  have "whole_seconds sent = sent - sent mod 1000000"
    by (simp add: whole_seconds_def minus_mod_eq_div_mult)
  moreover have "0 \<le> sent mod 1000000" "sent mod 1000000 < 1000000" by simp_all
  moreover have "0 \<le> sent div 1000000" using assms(1) by (simp add: in_time_def pos_imp_zdiv_nonneg_iff)
  ultimately have "whole_seconds sent \<le> sent" "sent - 1000000 < whole_seconds sent" "0 \<le> whole_seconds sent"
    by (linarith, linarith, simp add: whole_seconds_def)
  with assms show ?thesis by (simp add: recent_token_def in_time_def zero_time_def)
qed

lemma notice_accepted:
  assumes "notice_ok r" "named r" "o_kind r = EventKind" "cf_client_id cf = o_client_id r"
  shows "notification_ok cf (notification_of r) = None" "nt_id (notification_of r) \<noteq> []"
  using assms by (auto simp: notice_ok_def named_def notification_ok_def notification_of_def sdk_link_of_def state_name_def
      parse_status_def split: payload.splits if_splits)

section \<open>Delivery\<close>

text \<open>How a post of the worker reaches a handler, and the two handlers of an application.\<close>

definition post_request :: "string \<Rightarrow> string \<Rightarrow> gin_request" where
  "post_request ctype raw = \<lparr>gr_content_type = ctype, gr_body = Some raw, gr_authorization = []\<rparr>"

text \<open>What a handler of the application answers and leaves, by what its transaction did.\<close>

definition committed :: "sdk_error option \<times> 's \<Rightarrow> int \<times> outcome" where
  "committed result = (case fst result of None \<Rightarrow> (204, Delivered) | Some _ \<Rightarrow> (503, HttpError))"

lemma verified_notice_signed:
  assumes "accepts_signed lb p (cf_issuer cf) sign fmt clock" "sd_provider st = Some (p, m)" "sign c = Some raw"
    and "ev_issuer c = cf_issuer cf" "ev_audience c = cf_client_id cf" "clock (sd_net st) < ev_expires_at c" "typ = ev_type c"
  shows "\<exists>n. verified_notice cf lb typ msg raw st = (Inr (claims_token fmt c), st\<lparr>sd_net := n\<rparr>)"
proof -
  have "lb_token_types lb raw = Some [Some (ev_type c)]"
    "fst (lb_verify lb p (cf_client_id cf) raw (sd_net st)) = Some (claims_token fmt c)"
    using assms unfolding accepts_signed_def by auto
  then show ?thesis
    using assms(2,7) by (cases "lb_verify lb p (cf_client_id cf) raw (sd_net st)")
      (auto simp: verified_notice_def sdk_then_def sdk_some_def sdk_check_def sdk_give_def discovery_def on_net_def)
qed

lemma verify_notification_signed:
  assumes "accepts_signed lb p (cf_issuer cf) sign fmt clock" "sd_provider st = Some (p, m)" "sign c = Some raw"
    and "clock (sd_net st) < sent + minutes 5" "times_agree fmt (lb_time lb)" "length raw \<le> 65536" "in_time sent received"
    and "notice_ok r" "named r" "o_kind r = EventKind" "cf_client_id cf = o_client_id r" "event_token (cf_issuer cf) sent r = Some c"
  shows "\<exists>n. verify_notification cf lb received raw st = (Inr (notification_of r), st\<lparr>sd_net := n\<rparr>)"
proof -
  have c: "ev_issuer c = cf_issuer cf" "ev_audience c = cf_client_id cf" "ev_expires_at c = sent + minutes 5"
      "ev_type c = ''fastcas-event+jwt''" "ev_issued_at c = sent"
    using assms(10-12) by (auto simp: event_token_def Let_def)
  have "\<exists>n. verified_notice cf lb ''fastcas-event+jwt'' ''invalid event token type'' raw st = (Inr (claims_token fmt c), st\<lparr>sd_net := n\<rparr>)"
    using assms(4) by (intro verified_notice_signed [OF assms(1-3) c(1,2)]) (simp_all add: c)
  then obtain n where "verified_notice cf lb ''fastcas-event+jwt'' ''invalid event token type'' raw st = (Inr (claims_token fmt c), st\<lparr>sd_net := n\<rparr>)"
    by blast
  moreover have "decode_envelope (lb_time lb) (it_claims (claims_token fmt c)) = Some (notification_of r)"
    using decode_envelope_json [OF assms(5,9,8,10,12)] by (simp add: claims_token_def)
  moreover have "recent_token received (claims_token fmt c)"
    using in_time_recent [OF assms(7)] by (simp add: claims_token_def c(5))
  ultimately show ?thesis
    using assms(6) notice_accepted [OF assms(8-11)]
    by (auto simp: verify_notification_def sdk_then_def sdk_some_def sdk_check_def sdk_give_def)
qed

lemma plain_media [simp]:
  "mediaType (post_request ''application/jwt'' raw) ''application/jwt''"
  "mediaType (post_request ''application/x-www-form-urlencoded'' raw) ''application/x-www-form-urlencoded''"
  by (simp_all add: mediaType_def post_request_def) code_simp+

text \<open>C14: Notices reach the applications: in every reachable database, an event of the outbox that the worker signs and posts to the
\<open>Events\<close> handler of its application is verified and given to the application as what it says, the revoked link or the new
status; the delivery succeeds if the application commits and is an HTTP error, to be retried, if not. That the provider
accepts what the service signs, that times are read as they are written and that ids are not empty is assumed of libraries and
database, a warm discovery cache and a clock that is a minute apart at most of the host.\<close>

theorem notices_reach_applications:
  assumes "reach D db" "r \<in> set (outbox db)" "o_kind r = EventKind" "named r"
    and "Client (o_client_id r) db = Inr app" "cl_events_url app \<noteq> []" "cf_client_id cf = o_client_id r"
    and "accepts_signed lb p (cf_issuer cf) sign fmt clock" "times_agree fmt (lb_time lb)"
    and "sd_provider st = Some (p, m)" "clock (sd_net st) < sent + minutes 5" "in_time sent received"
    and "event_token (cf_issuer cf) sent r = Some c" "sign c = Some raw" "length raw \<le> 65536"
    and "receive = Events (Some (Some (cf, lb))) (Some app_apply) received"
    and "post = (\<lambda>url ctype b. if url = cl_events_url app then Some (fst (receive (post_request ctype b) st)) else None)"
  shows "attempt_delivery sign post (cf_issuer cf) sent r db = committed (app_apply (notification_of r) (sd_store st))
    \<and> sd_store (snd (receive (post_request ''application/jwt'' raw) st)) = snd (app_apply (notification_of r) (sd_store st))"
proof -
  note ok = reach_notices [OF assms(1,2)]
  obtain n where v: "verify_notification cf lb received raw st = (Inr (notification_of r), st\<lparr>sd_net := n\<rparr>)"
    using verify_notification_signed [OF assms(8,10,14,11,9,15,12) ok assms(4,3,7,13)] by blast
  have body: "boundedBody (post_request ''application/jwt'' raw) = Some raw"
    using assms(15) by (simp add: boundedBody_def post_request_def MaxNotificationBytes_def)
  obtain res s where f: "app_apply (notification_of r) (sd_store st) = (res, s)" by fastforce
  have handled: "receive (post_request ''application/jwt'' raw) st
      = (case res of None \<Rightarrow> (204, st\<lparr>sd_net := n, sd_store := s\<rparr>) | Some _ \<Rightarrow> (503, st\<lparr>sd_net := n, sd_store := s\<rparr>))"
    by (simp add: assms(16) Events_def body v sdk_apply_def f split: option.split)
  have "attempt_delivery sign post (cf_issuer cf) sent r db
      = (let status = fst (receive (post_request ''application/jwt'' raw) st) in (status, if 200 \<le> status \<and> status < 300 then Delivered else HttpError))"
    using assms(3,5,6,13,14) by (simp add: attempt_delivery_def event_endpoint_def delivery_body_def assms(17) Let_def)
  then show ?thesis using f by (simp add: handled committed_def split: option.split)
qed

section \<open>Logout tokens\<close>

lemma logout_names [simp]:
  "field_named logout_shape ''aud'' = None" "field_named logout_shape ''exp'' = None" "field_named logout_shape ''iat'' = None"
  "field_named logout_shape ''iss'' = None" "field_named logout_shape ''jti'' = Some (''jti'', TString)"
  "field_named logout_shape ''sid'' = Some (''sid'', TString)" "field_named logout_shape ''sub'' = Some (''sub'', TString)"
  "field_named logout_shape ''events'' = Some (''events'', TString)"
  by code_simp+

lemma logout_fields:
  "decode_logout (JObj ([(''aud'', a), (''events'', JObj [(logout_event, JObj [])]), (''exp'', x), (''iat'', i), (''iss'', s), (''jti'', JStr d)]
      @ (if sid = [] then [] else [(''sid'', JStr sid)]) @ [(''sub'', JStr who)]))
    = Some ((if sid = [] then id else (\<lambda>v. v(''sid'' \<mapsto> VString sid))) [''jti'' \<mapsto> VString d, ''sub'' \<mapsto> VString who], None, [logout_event \<mapsto> True])"
  by (auto simp: decode_logout_def known_fields_def without_field_def values_at_def fun_upd_def)

lemma logout_claims_json:
  assumes "o_kind r = LogoutKind" "o_payload r = LogoutOf subject sid" "event_token issuer wall r = Some c"
  shows "claims_json fmt c = JObj ([(''aud'', JArr [JStr (o_client_id r)]), (''events'', JObj [(logout_event, JObj [])]),
     (''exp'', JInt ((wall + minutes 5) div 1000000)), (''iat'', JInt (wall div 1000000)), (''iss'', JStr issuer), (''jti'', JStr (o_id r))]
      @ (if sid = [] then [] else [(''sid'', JStr sid)]) @ [(''sub'', JStr subject)])"
  using assms by (auto simp: event_token_def Let_def claims_json_def logout_event_def split: if_splits)

lemma VerifyLogout_signed:
  assumes "accepts_signed lb p (cf_issuer cf) sign fmt clock" "sd_provider st = Some (p, m)" "sign c = Some raw"
    and "clock (sd_net st) < sent + minutes 5" "raw \<noteq> []" "length raw \<le> 65536" "in_time sent received"
    and "notice_ok r" "named r" "o_kind r = LogoutKind" "cf_client_id cf = o_client_id r" "event_token (cf_issuer cf) sent r = Some c"
  shows "\<exists>n. VerifyLogout cf lb received raw st = (Inr (logout_of r (whole_seconds (sent + minutes 5))), st\<lparr>sd_net := n\<rparr>)"
proof -
  obtain subject sid where load: "o_payload r = LogoutOf subject sid" using assms(8,10) by (auto simp: notice_ok_def split: payload.splits)
  have who: "subject \<noteq> []" "o_id r \<noteq> []" using assms(9) by (simp_all add: named_def load)
  have c: "ev_issuer c = cf_issuer cf" "ev_audience c = cf_client_id cf" "ev_expires_at c = sent + minutes 5"
      "ev_type c = ''logout+jwt''" "ev_issued_at c = sent"
    using assms(10-12) by (auto simp: event_token_def Let_def load split: if_splits)
  have "\<exists>n. verified_notice cf lb ''logout+jwt'' ''invalid logout token type'' raw st = (Inr (claims_token fmt c), st\<lparr>sd_net := n\<rparr>)"
    using assms(4) by (intro verified_notice_signed [OF assms(1-3) c(1,2)]) (simp_all add: c)
  then obtain n where "verified_notice cf lb ''logout+jwt'' ''invalid logout token type'' raw st = (Inr (claims_token fmt c), st\<lparr>sd_net := n\<rparr>)"
    by blast
  moreover define v where "v = (if sid = [] then id else (\<lambda>v. v(''sid'' \<mapsto> VString sid))) [''jti'' \<mapsto> VString (o_id r), ''sub'' \<mapsto> VString subject]"
  moreover have "decode_logout (it_claims (claims_token fmt c)) = Some (v, None, [logout_event \<mapsto> True])"
    unfolding claims_token_def v_def id_token.simps logout_claims_json [OF assms(10) load assms(12)] by (rule logout_fields)
  moreover have "string_field ''jti'' v = o_id r" "string_field ''sub'' v = subject" "string_field ''sid'' v = sid"
    by (simp_all add: v_def string_field_def)
  moreover have "recent_token received (claims_token fmt c)"
    using in_time_recent [OF assms(7)] by (simp add: claims_token_def c(5))
  moreover have "it_expiry (claims_token fmt c) = whole_seconds (sent + minutes 5)" by (simp add: claims_token_def c(3))
  ultimately show ?thesis
    using assms(5,6) who
    by (auto simp: VerifyLogout_def sdk_then_def sdk_some_def sdk_check_def sdk_give_def logout_of_def load)
qed

text \<open>C15: Logouts reach the applications: in every reachable database, a logout notice of the outbox that the worker signs and posts to the
\<open>Logout\<close> handler of its application is verified as an OpenID back-channel token and given to the application as the
session, or the whole subject, it ends; the delivery succeeds if the application commits and is an HTTP error, to be retried, if not.\<close>

theorem logouts_reach_applications:
  assumes "reach D db" "r \<in> set (outbox db)" "o_kind r = LogoutKind" "named r"
    and "Client (o_client_id r) db = Inr app" "cl_backchannel_url app \<noteq> []" "cf_client_id cf = o_client_id r"
    and "accepts_signed lb p (cf_issuer cf) sign fmt clock"
    and "sd_provider st = Some (p, m)" "clock (sd_net st) < sent + minutes 5" "in_time sent received"
    and "event_token (cf_issuer cf) sent r = Some c" "sign c = Some raw" "raw \<noteq> []" "length (delivery_body LogoutKind raw) \<le> 65536"
    and "receive = Logout (Some (Some (cf, lb))) (Some app_apply) received"
    and "post = (\<lambda>url ctype b. if url = cl_backchannel_url app then Some (fst (receive (post_request ctype b) st)) else None)"
    and "heard = logout_of r (whole_seconds (sent + minutes 5))"
  shows "attempt_delivery sign post (cf_issuer cf) sent r db = committed (app_apply heard (sd_store st))
    \<and> sd_store (snd (receive (post_request ''application/x-www-form-urlencoded'' (delivery_body LogoutKind raw)) st)) = snd (app_apply heard (sd_store st))"
proof -
  let ?req = "post_request ''application/x-www-form-urlencoded'' (delivery_body LogoutKind raw)"
  note ok = reach_notices [OF assms(1,2)]
  have "length raw \<le> length (query_escape raw)"
    by (induction raw) (auto simp: query_escape_def escape_char_def)
  then have short: "length raw \<le> 65536" using assms(15) by (simp add: delivery_body_def)
  obtain n where v: "VerifyLogout cf lb received raw st = (Inr heard, st\<lparr>sd_net := n\<rparr>)"
    using VerifyLogout_signed [OF assms(8,9,13,10,14) short assms(11) ok assms(4,3,7,12)] assms(18) by blast
  have form: "boundedBody ?req = Some (delivery_body LogoutKind raw)" "logout_form (delivery_body LogoutKind raw) = Some raw"
    using assms(15) logout_form_body [OF assms(14)] by (simp_all add: boundedBody_def post_request_def MaxNotificationBytes_def)
  obtain res s where f: "app_apply heard (sd_store st) = (res, s)" by fastforce
  have handled: "receive ?req st
      = (case res of None \<Rightarrow> (204, st\<lparr>sd_net := n, sd_store := s\<rparr>) | Some _ \<Rightarrow> (503, st\<lparr>sd_net := n, sd_store := s\<rparr>))"
    by (simp add: assms(16) Logout_def form v sdk_apply_def f split: option.split)
  have "attempt_delivery sign post (cf_issuer cf) sent r db
      = (let status = fst (receive ?req st) in (status, if 200 \<le> status \<and> status < 300 then Delivered else HttpError))"
    using assms(3,5,6,12,13) by (simp add: attempt_delivery_def event_endpoint_def assms(17) Let_def)
  then show ?thesis using f by (simp add: handled committed_def split: option.split)
qed

section \<open>An application\<close>

text \<open>The libraries of an application that knows the tokens of one delivery.\<close>

definition example_library :: "event_claims \<Rightarrow> (unit, 's, unit) library" where
  "example_library c = silent_library\<lparr>lb_verify := (\<lambda>_ _ _ n. (Some (claims_token written_time c), n)),
     lb_token_types := (\<lambda>_. Some [Some (ev_type c)])\<rparr>"

definition signed_once :: "event_claims \<Rightarrow> event_claims \<Rightarrow> string option" where
  "signed_once c d = (if d = c then Some ''jwt'' else None)"

lemma example_accepts: "accepts_signed (example_library c) () issuer (signed_once c) written_time (\<lambda>_. 0)"
  by (simp add: accepts_signed_def example_library_def signed_once_def silent_library_def)

definition no_endpoints :: metadata where
  "no_endpoints = \<lparr>md_issuer = [], md_authorization = [], md_token = [], md_jwks = [], md_userinfo = [], md_revocation = [],
     md_introspection = [], md_device = []\<rparr>"

definition started :: "'s \<Rightarrow> (unit, 's, unit) sdk_state" where
  "started s = \<lparr>sd_provider = Some ((), no_endpoints), sd_store = s, sd_net = ()\<rparr>"

lemma unlinked_named:
  "RevokeLink 0 ''o'' ''shop'' ''i1'' 2 db18 = (Inr v, t) \<Longrightarrow> named (outbox_event 0 ''o'' ''shop'' (LinkRevoked v) EventKind)"
  by (simp add: RevokeLink_def db18_tables scenario_simps activate_row_def set_intent_state_def revoke_link_access_def outbox_clash_def
      named_def outbox_event_def view_link_def) auto

lemma shop_notified:
  assumes "RevokeLink 0 ''o'' ''shop'' ''i1'' 2 db18 = (Inr v, t)" "applications t = applications db18"
  shows "\<exists>app. Client ''shop'' t = Inr app \<and> cl_events_url app \<noteq> []"
  using assms by (simp add: Client_def db18_tables app_row_def shop_def active_app_def first_row_simps)

theorem notices_reach_applications_witness:
  "\<exists>v t r sign post. RevokeLink 0 ''o'' ''shop'' ''i1'' 2 db18 = (Inr v, t) \<and> outbox t = [r] \<and>
    attempt_delivery sign post ''https://cas'' 0 r t = (204, Delivered) \<and> nt_link (notification_of r) = Some (sdk_link_of v)"
proof -
  obtain v t where t: "RevokeLink 0 ''o'' ''shop'' ''i1'' 2 db18 = (Inr v, t)" "applications t = applications db18"
      "outbox t = [outbox_event 0 ''o'' ''shop'' (LinkRevoked v) EventKind]"
    using shop_unlinked by blast
  define r where "r = outbox_event 0 ''o'' ''shop'' (LinkRevoked v) EventKind"
  obtain app where app: "Client ''shop'' t = Inr app" "cl_events_url app \<noteq> []" using shop_notified [OF t(1,2)] by blast
  obtain c where c: "event_token ''https://cas'' 0 r = Some c" by (simp add: event_token_def r_def outbox_event_def)
  let ?cf = "example_config ''shop''" and ?apply = "\<lambda>n s. (None, n # s)"
  have reached: "reach (\<lambda>x. D_db15 x \<union> draws T_outbox {''o''} x) t"
    using reach_drawing [OF db18_reach revoke_link [of "''o''" db18 0 "''shop''" "''i1''" 2] _ refl] t(1)
    by (simp add: draws_eq none_def D_db15_def)
  have row: "r \<in> set (outbox t)" "o_kind r = EventKind" "named r"
    using unlinked_named [OF t(1)] by (simp_all add: t(3) r_def outbox_event_def)
  have client: "Client (o_client_id r) t = Inr app" "cf_client_id ?cf = o_client_id r" "event_token (cf_issuer ?cf) 0 r = Some c"
    using app c by (simp_all add: r_def outbox_event_def example_config_def)
  have agree: "times_agree written_time (lb_time (example_library c))" "signed_once c c = Some ''jwt''" "length ''jwt'' \<le> 65536"
      "in_time 0 0" "sd_provider (started s) = Some ((), no_endpoints)" "(0::time) < 0 + minutes 5" for s :: "notification list"
    using written_times_agree by (simp_all add: example_library_def silent_library_def signed_once_def in_time_def started_def)
  define post where "post = (\<lambda>url ctype b. if url = cl_events_url app
      then Some (fst (Events (Some (Some (?cf, example_library c))) (Some ?apply) 0 (post_request ctype b) (started []))) else None)"
  have "attempt_delivery (signed_once c) post (cf_issuer ?cf) 0 r t = committed (?apply (notification_of r) (sd_store (started [])))"
    using notices_reach_applications [OF reached row client(1) app(2) client(2) example_accepts agree(1,5,6,4) client(3) agree(2,3) refl post_def]
    by blast
  then have "attempt_delivery (signed_once c) post ''https://cas'' 0 r t = (204, Delivered)"
    by (simp add: example_config_def committed_def)
  moreover have "nt_link (notification_of r) = Some (sdk_link_of v)" by (simp add: notification_of_def r_def outbox_event_def)
  ultimately show ?thesis using t(1,3) unfolding r_def by blast
qed

theorem logouts_reach_applications_witness:
  "\<exists>sign post. attempt_delivery sign post ''https://cas'' 0 (notice 0 ''shop'') db28 = (204, Delivered)
    \<and> logout_of (notice 0 ''shop'') (minutes 5) = \<lparr>lo_id = ''o'', lo_subject = ''ann'', lo_session = ''s1'', lo_expires_at = minutes 5\<rparr>"
proof -
  let ?cf = "example_config ''shop''" and ?apply = "\<lambda>n s. (None, n # s)" and ?r = "notice 0 ''shop''"
  have row: "?r \<in> set (outbox db28)" "o_kind ?r = LogoutKind" "named ?r"
    by (simp_all add: db28_tables notice_def outbox_event_def named_def notices_def)
  obtain app where app: "Client (o_client_id ?r) db28 = Inr app" "cl_backchannel_url app \<noteq> []"
    by (simp add: Client_def db28_tables app_row_def shop_def active_app_def first_row_simps notice_def outbox_event_def)
  obtain c where c: "event_token (cf_issuer ?cf) 0 ?r = Some c" by (simp add: event_token_def notice_def outbox_event_def)
  have client: "cf_client_id ?cf = o_client_id ?r" by (simp add: notice_def outbox_event_def example_config_def)
  have body: "delivery_body LogoutKind ''jwt'' = ''logout_token=jwt''" by code_simp
  have agree: "signed_once c c = Some ''jwt''" "''jwt'' \<noteq> []" "length (delivery_body LogoutKind ''jwt'') \<le> 65536"
      "in_time 0 0" "sd_provider (started s) = Some ((), no_endpoints)" "(0::time) < 0 + minutes 5" for s :: "logout_notice list"
    by (simp_all add: signed_once_def in_time_def started_def body)
  define post where "post = (\<lambda>url ctype b. if url = cl_backchannel_url app
      then Some (fst (Logout (Some (Some (?cf, example_library c))) (Some ?apply) 0 (post_request ctype b) (started []))) else None)"
  have "attempt_delivery (signed_once c) post (cf_issuer ?cf) 0 ?r db28 = committed (?apply (logout_of ?r (whole_seconds (0 + minutes 5))) (sd_store (started [])))"
    using logouts_reach_applications [OF db28_reach row app client example_accepts agree(5,6,4) c agree(1,2,3) refl post_def refl]
    by blast
  then have "attempt_delivery (signed_once c) post ''https://cas'' 0 ?r db28 = (204, Delivered)"
    by (simp add: example_config_def committed_def)
  moreover have "logout_of ?r (minutes 5) = \<lparr>lo_id = ''o'', lo_subject = ''ann'', lo_session = ''s1'', lo_expires_at = minutes 5\<rparr>"
    by (simp add: logout_of_def notice_def outbox_event_def notices_def)
  ultimately show ?thesis by blast
qed

end
