(* ===== verification/Sdk_Links.thy ===== *)
theory Sdk_Links
  imports Sdk_Server System Http_Scenario
begin

text \<open>
  The link calls of the SDK, \<open>sdk/go/client.go\<close>, in front of the HTTP API, \<open>internal/httpapi/server.go\<close>: what a call of an
  application does to the database and what it gets back are those of the store operation of its client.
\<close>

section \<open>The wire\<close>

text \<open>
  The path of a request is what follows the issuer, up to a question mark; \<open>len\<close> is the length of an encoded body.
\<close>

definition wire_request :: "string \<Rightarrow> (sdk_body \<Rightarrow> nat) \<Rightarrow> sdk_request \<Rightarrow> http_request" where
  "wire_request issuer len q = (let target = drop (length issuer) (sq_url q) in
     \<lparr>hq_method = sq_method q, hq_path = takeWhile (\<lambda>c. c \<noteq> CHR ''?'') target,
       hq_query = fst (parse_query (drop 1 (dropWhile (\<lambda>c. c \<noteq> CHR ''?'') target))), hq_headers = sq_headers q, hq_cookies = [],
       hq_basic = sq_basic q, hq_remote = [], hq_length = len (sq_body q), hq_form_encoded = False, hq_form = None,
       hq_json = Some (case sq_body q of JsonBody j \<Rightarrow> [j] | _ \<Rightarrow> [])\<rparr>)"

text \<open>The JSON of the bodies the link API sends; the bodies of other routes are left out.\<close>

definition body_json :: "(time \<Rightarrow> string) \<Rightarrow> body \<Rightarrow> json option" where
  "body_json fmt b = (case b of
     ErrorBody code message request_id retry \<Rightarrow> Some (JObj [(''code'', JStr code), (''message'', JStr message),
       (''request_id'', JStr request_id), (''retryable'', JBool retry)])
   | CodeBody code \<Rightarrow> Some (JObj [(''code'', JStr code)])
   | IntentBody n \<Rightarrow> Some (intent_json fmt n)
   | LinkBody l \<Rightarrow> Some (link_json fmt l)
   | _ \<Rightarrow> None)"

definition wire_response :: "(time \<Rightarrow> string) \<Rightarrow> response \<Rightarrow> sdk_response" where
  "wire_response fmt a = (let sent = (case rs_answer a of Json _ b \<Rightarrow> body_json fmt b | _ \<Rightarrow> None) in
     \<lparr>sp_status = status_of (rs_answer a), sp_first = sent, sp_whole = sent\<rparr>)"

text \<open>A network whose state is the database of the service.\<close>

definition over_wire ::
  "server \<Rightarrow> env \<Rightarrow> string \<Rightarrow> (time \<Rightarrow> string) \<Rightarrow> string \<Rightarrow> (sdk_body \<Rightarrow> nat) \<Rightarrow> sdk_request \<Rightarrow> db \<Rightarrow> sdk_response option \<times> db" where
  "over_wire sv en request_id fmt issuer len q db =
     (case serve sv en request_id (wire_request issuer len q) db of
        None \<Rightarrow> (None, db)
      | Some (a, db) \<Rightarrow> (Some (wire_response fmt a), db))"

text \<open>
  The libraries of an application whose requests reach the service: URLs below the issuer parse, times are read as they are
  written, bodies are short.
\<close>

definition path_char :: "char \<Rightarrow> bool" where "path_char c = (unreserved c \<or> c = CHR ''/'')"

definition query_char :: "char \<Rightarrow> bool" where "query_char c = (unreserved c \<or> c \<in> {CHR ''='', CHR ''+'', CHR ''%''})"

definition connected ::
  "server \<Rightarrow> env \<Rightarrow> string \<Rightarrow> (time \<Rightarrow> string) \<Rightarrow> (sdk_body \<Rightarrow> nat) \<Rightarrow> sdk_config \<Rightarrow> ('p, 's, db) library \<Rightarrow> bool" where
  "connected sv en request_id fmt len cf lb =
     ((\<forall>q db. lb_do lb q db = over_wire sv en request_id fmt (cf_issuer cf) len q db)
      \<and> (\<forall>path q. list_all path_char path \<longrightarrow> list_all query_char q \<longrightarrow> lb_url lb (cf_issuer cf @ path) \<noteq> None
          \<and> lb_url lb (cf_issuer cf @ path @ CHR ''?'' # q) \<noteq> None)
      \<and> (\<forall>b. len b \<le> max_body) \<and> times_agree fmt (lb_time lb) \<and> cf_client_secret cf \<noteq> [])"

section \<open>A call as its client\<close>

definition sdk_failure :: "err \<Rightarrow> sdk_error" where
  "sdk_failure e = (case e of
     ErrUnauthorized \<Rightarrow> ApiError ''authentication_required'' ''Please sign in again'' 401
   | ErrForbidden \<Rightarrow> ApiError ''forbidden'' ''Operation not permitted'' 403
   | ErrConflict \<Rightarrow> ApiError ''conflict'' ''Account link conflicts with an existing relationship'' 409
   | ErrExpired \<Rightarrow> ApiError ''expired'' ''Request expired or was already consumed'' 400
   | _ \<Rightarrow> ApiError ''internal_error'' ''Request could not be completed'' 500)"

definition as_client :: "env \<Rightarrow> sdk_config \<Rightarrow> (string \<Rightarrow> db \<Rightarrow> (err + 'a) \<times> db) \<Rightarrow> ('a \<Rightarrow> 'b) \<Rightarrow> ('p, 's, db, 'b) sdk" where
  "as_client en cf f view st =
     (case AuthorizeClientIDSecret (en_now en 0) (cf_client_id cf) (cf_client_secret cf) (sd_net st) of
        Inl _ \<Rightarrow> (Inl (sdk_failure ErrUnauthorized), st)
      | Inr _ \<Rightarrow> (case f (cf_client_id cf) (sd_net st) of
          (Inl e, db) \<Rightarrow> (Inl (sdk_failure e), st\<lparr>sd_net := db\<rparr>)
        | (Inr x, db) \<Rightarrow> (Inr (view x), st\<lparr>sd_net := db\<rparr>)))"

lemma client_of_basic:
  assumes "hq_basic r = Some (basic_auth cf)"
  shows "client_of en r = andThen (query_or ErrUnauthorized (AuthorizeClientIDSecret (en_now en 0) (cf_client_id cf) (cf_client_secret cf)))
    (\<lambda>_. give (cf_client_id cf))"
  using assms by (simp add: client_of_def basic_auth_def)

text \<open>What the wire makes of a handler that authenticates its client, calls the store and sends the result.\<close>

definition client_handler :: "env \<Rightarrow> http_request \<Rightarrow> (string \<Rightarrow> db \<Rightarrow> (err + 'a) \<times> db) \<Rightarrow> int \<Rightarrow> ('a \<Rightarrow> body) \<Rightarrow> answer http" where
  "client_handler en r f status b = andThen (client_of en r) (\<lambda>c. andThen (call (f c)) (\<lambda>x. send status (b x)))"

lemmas http_defs = andThen_def call_def query_def query_or_def send_def give_def failure_def as_json_def set_header_def stop_with_def

lemma error_names:
  "field_named [(''code'', TString), (''message'', TString)] ''code'' = Some (''code'', TString)"
  "field_named [(''code'', TString), (''message'', TString)] ''message'' = Some (''message'', TString)"
  "field_named [(''code'', TString), (''message'', TString)] ''request_id'' = None"
  "field_named [(''code'', TString), (''message'', TString)] ''retryable'' = None"
  by code_simp+

lemma api_error_body:
  "api_error \<lparr>sp_status = s, sp_first = Some (JObj [(''code'', JStr c), (''message'', JStr m), (''request_id'', x), (''retryable'', y)]),
      sp_whole = w\<rparr> = ApiError c m s"
  by (simp add: api_error_def salvage_json_def error_names string_field_def Let_def)

lemma failure_shape:
  "\<exists>s c m b. failure_answer e rid = Json s (ErrorBody c m rid b) \<and> sdk_failure e = ApiError c m s \<and> 300 \<le> s"
  by (cases e) (simp_all add: failure_answer_def sdk_failure_def ex_bool_eq)

lemma failed_answer:
  "api_error (wire_response fmt \<lparr>rs_headers = h, rs_cookies = k, rs_answer = failure_answer e rid\<rparr>) = sdk_failure e"
  "sp_status (wire_response fmt \<lparr>rs_headers = h, rs_cookies = k, rs_answer = failure_answer e rid\<rparr>) \<ge> 300"
proof -
  obtain s c m b where "failure_answer e rid = Json s (ErrorBody c m rid b)" "sdk_failure e = ApiError c m s" "300 \<le> s"
    using failure_shape by blast
  then show "api_error (wire_response fmt \<lparr>rs_headers = h, rs_cookies = k, rs_answer = failure_answer e rid\<rparr>) = sdk_failure e"
    "sp_status (wire_response fmt \<lparr>rs_headers = h, rs_cookies = k, rs_answer = failure_answer e rid\<rparr>) \<ge> 300"
    by (simp_all add: wire_response_def body_json_def api_error_body Let_def)
qed

lemma wired_call:
  assumes "connected sv en rid fmt len cf lb"
    and "list_all path_char path" "list_all query_char qs" "target = path \<or> target = path @ CHR ''?'' # qs"
    and "q = api_request cf meth target payload headers" "r = wire_request (cf_issuer cf) len q"
    and "List.find (route_matches r) (routes sv en) = Some route"
    and "snd (snd route) (route_id r route) (cap_body r) = client_handler en r f status b"
    and "200 \<le> status" "status < 300"
    and "\<And>x. x \<in> Basic_BNFs.setr (fst (f (cf_client_id cf) (sd_net st))) \<Longrightarrow> Option.bind (body_json fmt (b x)) out = Some (view x)"
  shows "api cf lb meth target payload headers out st = as_client en cf f view st"
proof -
  have u: "lb_url lb (cf_issuer cf @ target) \<noteq> None" and secret: "cf_client_secret cf \<noteq> []"
    and wire: "lb_do lb q db = over_wire sv en rid fmt (cf_issuer cf) len q db" for db
    using assms(1-4) unfolding connected_def by auto
  have basic: "hq_basic r = Some (basic_auth cf)" by (simp add: assms(5,6) wire_request_def api_request_def Let_def)
  obtain res db where f: "f (cf_client_id cf) (sd_net st) = (res, db)" by fastforce
  show ?thesis
  proof (cases "AuthorizeClientIDSecret (en_now en 0) (cf_client_id cf) (cf_client_secret cf) (sd_net st)")
    case (Inl e)
    have "\<exists>h c. serve sv en rid r (sd_net st) = Some (\<lparr>rs_headers = h, rs_cookies = c, rs_answer = failure_answer ErrUnauthorized rid\<rparr>, sd_net st)"
      by (simp add: serve_def assms(7,8) boundary_def client_handler_def client_of_basic [OF basic] http_defs Inl boundary_headers_def
          get_value_def values_of_def set_value_def)
    then obtain h c where "over_wire sv en rid fmt (cf_issuer cf) len q (sd_net st)
        = (Some (wire_response fmt \<lparr>rs_headers = h, rs_cookies = c, rs_answer = failure_answer ErrUnauthorized rid\<rparr>), sd_net st)"
      by (auto simp: over_wire_def assms(6))
    then show ?thesis using u secret failed_answer [of fmt h c ErrUnauthorized rid]
      by (auto simp: api_def sdk_then_def sdk_check_def sdk_some_def sdk_give_def sdk_fail_def on_net_def wire assms(5) [symmetric]
          as_client_def Inl)
  next
    case (Inr a)
    show ?thesis
    proof (cases res)
      case e: (Inl e)
      have "\<exists>h c. serve sv en rid r (sd_net st) = Some (\<lparr>rs_headers = h, rs_cookies = c, rs_answer = failure_answer e rid\<rparr>, db)"
        by (simp add: serve_def assms(7,8) boundary_def client_handler_def client_of_basic [OF basic] http_defs Inr f e boundary_headers_def
            get_value_def values_of_def set_value_def)
      then obtain h c where "over_wire sv en rid fmt (cf_issuer cf) len q (sd_net st)
          = (Some (wire_response fmt \<lparr>rs_headers = h, rs_cookies = c, rs_answer = failure_answer e rid\<rparr>), db)"
        by (auto simp: over_wire_def assms(6))
      then show ?thesis using u secret failed_answer [of fmt h c e rid]
        by (auto simp: api_def sdk_then_def sdk_check_def sdk_some_def sdk_give_def sdk_fail_def on_net_def wire assms(5) [symmetric]
            as_client_def Inr f e)
    next
      case x: (Inr x)
      have "\<exists>h c. serve sv en rid r (sd_net st) = Some (\<lparr>rs_headers = h, rs_cookies = c, rs_answer = Json status (b x)\<rparr>, db)"
        by (simp add: serve_def assms(7,8) boundary_def client_handler_def client_of_basic [OF basic] http_defs Inr f x)
      then obtain h c where "over_wire sv en rid fmt (cf_issuer cf) len q (sd_net st)
          = (Some (wire_response fmt \<lparr>rs_headers = h, rs_cookies = c, rs_answer = Json status (b x)\<rparr>), db)"
        by (auto simp: over_wire_def assms(6))
      moreover have "Option.bind (body_json fmt (b x)) out = Some (view x)" by (rule assms(11)) (simp add: f x)
      ultimately show ?thesis using u secret assms(9,10)
        by (auto simp: api_def sdk_then_def sdk_check_def sdk_some_def sdk_give_def sdk_fail_def on_net_def wire assms(5) [symmetric]
            as_client_def Inr f x wire_response_def Let_def)
    qed
  qed
qed

section \<open>Routing\<close>

text \<open>Ids as the service makes them: they need no escaping, and none is the name of a route.\<close>

definition plain_id :: "string \<Rightarrow> bool" where
  "plain_id lid = (lid \<noteq> [] \<and> list_all unreserved lid \<and> lid \<noteq> ''resolve'')"

lemma plain_segments:
  assumes "list_all unreserved lid"
  shows "path_escape lid = lid" "CHR ''/'' \<notin> set lid" "CHR ''?'' \<notin> set lid" "list_all path_char lid" "split_on CHR ''/'' lid = [lid]"
    "takeWhile (\<lambda>c. c \<noteq> CHR ''?'') lid = lid" "dropWhile (\<lambda>c. c \<noteq> CHR ''?'') lid = []"
proof -
  have slash: "\<not> unreserved CHR ''/''" "\<not> unreserved CHR ''?''" by (simp_all add: unreserved_def)
  then show out: "CHR ''/'' \<notin> set lid" "CHR ''?'' \<notin> set lid" using assms by (auto simp: list_all_iff)
  show "list_all path_char lid" using assms by (simp add: list_all_iff path_char_def)
  show "path_escape lid = lid"
    using assms by (induction lid) (auto simp: path_escape_def escape_segment_char_def)
  show "split_on CHR ''/'' lid = [lid]" using out(1) by (rule split_on_none)
  show "takeWhile (\<lambda>c. c \<noteq> CHR ''?'') lid = lid" "dropWhile (\<lambda>c. c \<noteq> CHR ''?'') lid = []"
    using out(2) by (auto simp: takeWhile_eq_all_conv dropWhile_eq_Nil_conv)
qed

lemma route_patterns:
  "split_on CHR ''/'' ''/health/live'' = [[], ''health'', ''live'']"
  "split_on CHR ''/'' ''/health/ready'' = [[], ''health'', ''ready'']"
  "split_on CHR ''/'' ''/login'' = [[], ''login'']"
  "split_on CHR ''/'' ''/device'' = [[], ''device'']"
  "split_on CHR ''/'' ''/api/v1/me'' = [[], ''api'', ''v1'', ''me'']"
  "split_on CHR ''/'' ''/api/v1/logout'' = [[], ''api'', ''v1'', ''logout'']"
  "split_on CHR ''/'' ''/api/v1/link-intents'' = [[], ''api'', ''v1'', ''link-intents'']"
  "split_on CHR ''/'' ''/api/v1/link-intents/{id}/prepare'' = [[], ''api'', ''v1'', ''link-intents'', id_segment, ''prepare'']"
  "split_on CHR ''/'' ''/api/v1/link-intents/{id}/activate'' = [[], ''api'', ''v1'', ''link-intents'', id_segment, ''activate'']"
  "split_on CHR ''/'' ''/api/v1/account-links/resolve'' = [[], ''api'', ''v1'', ''account-links'', ''resolve'']"
  "split_on CHR ''/'' ''/api/v1/account-links/{id}'' = [[], ''api'', ''v1'', ''account-links'', id_segment]"
  "split_on CHR ''/'' ''/api/v1/account-links/{id}/revoke'' = [[], ''api'', ''v1'', ''account-links'', id_segment, ''revoke'']"
  by code_simp+

text \<open>The paths of the calls, in segments.\<close>

lemma call_paths:
  assumes "list_all unreserved lid"
  shows "split_on CHR ''/'' (''/api/v1/link-intents/'' @ lid @ ''/prepare'') = [[], ''api'', ''v1'', ''link-intents'', lid, ''prepare'']"
    and "split_on CHR ''/'' (''/api/v1/link-intents/'' @ lid @ ''/activate'') = [[], ''api'', ''v1'', ''link-intents'', lid, ''activate'']"
    and "split_on CHR ''/'' (''/api/v1/account-links/'' @ lid) = [[], ''api'', ''v1'', ''account-links'', lid]"
    and "split_on CHR ''/'' (''/api/v1/account-links/'' @ lid @ ''/revoke'') = [[], ''api'', ''v1'', ''account-links'', lid, ''revoke'']"
  using split_on_append [OF plain_segments(2) [OF assms], of "''prepare''"] split_on_append [OF plain_segments(2) [OF assms], of "''activate''"]
    split_on_append [OF plain_segments(2) [OF assms], of "''revoke''"] plain_segments(5) [OF assms]
  by simp_all

lemma find_routes:
  "hq_method r = ''POST'' \<Longrightarrow> split_on CHR ''/'' (hq_path r) = [[], ''api'', ''v1'', ''link-intents''] \<Longrightarrow>
    List.find (route_matches r) (routes sv en) = Some (''POST'', ''/api/v1/link-intents'', \<lambda>_. linkIntent en)"
  "hq_method r = ''POST'' \<Longrightarrow> split_on CHR ''/'' (hq_path r) = [[], ''api'', ''v1'', ''link-intents'', lid, ''prepare''] \<Longrightarrow>
    List.find (route_matches r) (routes sv en) = Some (''POST'', ''/api/v1/link-intents/{id}/prepare'', prepare en)"
  "hq_method r = ''POST'' \<Longrightarrow> split_on CHR ''/'' (hq_path r) = [[], ''api'', ''v1'', ''link-intents'', lid, ''activate''] \<Longrightarrow>
    List.find (route_matches r) (routes sv en) = Some (''POST'', ''/api/v1/link-intents/{id}/activate'', activate en)"
  "hq_method r = ''GET'' \<Longrightarrow> split_on CHR ''/'' (hq_path r) = [[], ''api'', ''v1'', ''account-links'', ''resolve''] \<Longrightarrow>
    List.find (route_matches r) (routes sv en) = Some (''GET'', ''/api/v1/account-links/resolve'', \<lambda>_. resolve en)"
  "hq_method r = ''GET'' \<Longrightarrow> split_on CHR ''/'' (hq_path r) = [[], ''api'', ''v1'', ''account-links'', lid] \<Longrightarrow> lid \<noteq> ''resolve'' \<Longrightarrow>
    List.find (route_matches r) (routes sv en) = Some (''GET'', ''/api/v1/account-links/{id}'', link_status en)"
  "hq_method r = ''POST'' \<Longrightarrow> split_on CHR ''/'' (hq_path r) = [[], ''api'', ''v1'', ''account-links'', lid, ''revoke''] \<Longrightarrow>
    List.find (route_matches r) (routes sv en) = Some (''POST'', ''/api/v1/account-links/{id}/revoke'', revoke en)"
  by (simp_all add: routes_def server_routes_def route_matches_def route_patterns id_segment_def)

section \<open>Versions\<close>

lemma decimal_value_snoc: "decimal_value (s @ [c]) = 10 * decimal_value s + (of_char c - 48)"
  by (simp add: decimal_value_def)

lemma digit_char:
  fixes n :: nat
  shows "n < 10 \<Longrightarrow> (of_char (char_of (48 + n) :: char) :: nat) = 48 + n" "n < 10 \<Longrightarrow> (of_char (char_of (48 + n) :: char) :: int) = 48 + int n"
proof -
  show nat: "(of_char (char_of (48 + n) :: char) :: nat) = 48 + n" if "n < 10" using that by simp
  show "(of_char (char_of (48 + n) :: char) :: int) = 48 + int n" if "n < 10"
    using nat [OF that] by (metis of_nat_add of_nat_numeral of_nat_of_char)
qed

lemma digit_is_digit: "(n :: nat) < 10 \<Longrightarrow> decimal_digit (char_of (48 + n))"
  using digit_char(1) [of n] by (simp add: decimal_digit_def)

lemma decimal_digits_read:
  "decimal_value (decimal_digits n) = int n" "list_all decimal_digit (decimal_digits n)" "decimal_digits n \<noteq> []"
proof (induction n rule: decimal_digits.induct)
  case (1 n)
  have ds: "decimal_digits n = (if n < 10 then [char_of (48 + n)] else decimal_digits (n div 10) @ [char_of (48 + n mod 10)])"
    by (rule decimal_digits.simps)
  have last: "n mod 10 < 10" by simp
  {
    case 1
    show ?case using "1.IH"(1) digit_char(2) [of n] digit_char(2) [OF last]
      by (subst ds) (simp add: decimal_value_snoc decimal_value_def [of "[_]"], presburger)
  next
    case 2
    show ?case using "1.IH"(2) digit_is_digit [of n] digit_is_digit [OF last]
      by (subst ds) simp
  next
    case 3
    show ?case by (subst ds) simp
  }
qed

lemma format_int_read:
  assumes "int_range n"
  shows "parse_int (format_int n) = Some n"
proof -
  obtain d ds where d: "decimal_digits (nat \<bar>n\<bar>) = d # ds" using decimal_digits_read(3) by (metis list.exhaust)
  have "decimal_digit d" using decimal_digits_read(2) [of "nat \<bar>n\<bar>"] by (simp add: d)
  then have "d \<noteq> CHR ''+''" "d \<noteq> CHR ''-''" by (auto simp: decimal_digit_def)
  then show ?thesis
    using assms decimal_digits_read(1,2) [of "nat \<bar>n\<bar>"] d by (auto simp: format_int_def parse_int_def int_range_def Let_def)
qed

lemma quoted_version: "trim_chars [CHR 0x22] ([CHR 0x22] @ format_int n @ [CHR 0x22]) = format_int n"
proof -
  have digits: "c \<noteq> CHR 0x22" if "c \<in> set (format_int n)" for c
    using that decimal_digits_read(2) [of "nat \<bar>n\<bar>"] by (auto simp: format_int_def decimal_digit_def list_all_iff split: if_splits)
  have plain: "dropWhile (\<lambda>c. c = CHR 0x22) s = s" if "\<And>c. c \<in> set s \<Longrightarrow> c \<noteq> CHR 0x22" for s
    using that by (cases s) auto
  have "dropWhile (\<lambda>c. c = CHR 0x22) (format_int n @ [CHR 0x22]) = format_int n @ [CHR 0x22]"
    using digits decimal_digits_read(3) by (cases "format_int n") (auto simp: format_int_def split: if_splits)
  then show ?thesis using plain [of "rev (format_int n)"] digits by (simp add: trim_chars_def)
qed

lemma link_version_range: "n \<in> link_version s \<Longrightarrow> int_range n" "n \<in> link_version s \<Longrightarrow> s \<noteq> Revoked \<Longrightarrow> int_range (n + 1)"
  by (cases s; auto simp: int_range_def)+

lemma Link_range: "link_inv db \<Longrightarrow> Link c lid db = Inr l \<Longrightarrow> int_range (ln_version l)"
  by (auto simp: Link_def link_inv_def link_fits_def view_link_def dest!: first_row_Some link_version_range(1) split: option.splits)

lemma calls_range:
  assumes "link_inv db"
  shows "ResolveLink c subject db = Inr l \<Longrightarrow> int_range (ln_version l)"
    and "fst (PrepareLink now wall c lid nonce subject db) = Inr l \<Longrightarrow> int_range (ln_version l)"
    and "fst (ActivateLink now wall c lid db) = Inr l \<Longrightarrow> int_range (ln_version l)"
    and "fst (RevokeLink now event_id c lid expected db) = Inr l \<Longrightarrow> int_range (ln_version l)"
proof -
  have one: "int_range 1" by (simp add: int_range_def)
  have inv: "int_range (l_version k)" "l_state k \<noteq> Revoked \<Longrightarrow> int_range (l_version k + 1)" if "k \<in> set (account_links db)" for k
    using assms that link_version_range by (auto simp: link_inv_def link_fits_def)
  show "ResolveLink c subject db = Inr l \<Longrightarrow> int_range (ln_version l)"
    by (auto simp: ResolveLink_def intro: Link_range [OF assms] split: option.splits)
  show "fst (PrepareLink now wall c lid nonce subject db) = Inr l \<Longrightarrow> int_range (ln_version l)"
    by (auto simp: PrepareLink_def Let_def view_link_def one intro: Link_range [OF assms] split: option.splits if_splits)
  show "fst (ActivateLink now wall c lid db) = Inr l \<Longrightarrow> int_range (ln_version l)"
    by (auto simp: ActivateLink_def view_link_def activate_row_def inv intro: Link_range [OF assms] dest!: first_row_Some
        split: option.splits if_splits)
  show "fst (RevokeLink now event_id c lid expected db) = Inr l \<Longrightarrow> int_range (ln_version l)"
    by (auto simp: RevokeLink_def Let_def view_link_def inv dest!: first_row_Some split: option.splits if_splits)
qed

section \<open>The calls\<close>

lemma as_client_give: "sdk_then (as_client en cf f view) (\<lambda>x. sdk_give (g x)) = as_client en cf f (\<lambda>x. g (view x))"
  by (simp add: fun_eq_iff sdk_then_def as_client_def sdk_give_def split: sum.split prod.split)

lemma plain_handlers:
  "activate en lid r = client_handler en r (\<lambda>c. ActivateLink (en_now en 1) (en_wall en 0) c lid) 200 LinkBody"
  "link_status en lid r = client_handler en r (\<lambda>c db. (Link c lid db, db)) 200 LinkBody"
  "resolve en r = client_handler en r (\<lambda>c db. (ResolveLink c (get_value ''subject'' (hq_query r)) db, db)) 200 LinkBody"
  by (simp_all add: activate_def link_status_def resolve_def client_handler_def query_def)

lemma decode_give: "decode_json shape (hq_json r) = Some v \<Longrightarrow> andThen (decode r shape) f = f v"
  by (simp add: decode_def fun_eq_iff andThen_def give_def)

lemma input_handlers:
  "hq_json r = Some [JObj [(''nonce'', JStr nonce), (''subject'', JStr subject)]] \<Longrightarrow>
    prepare en lid r = client_handler en r (\<lambda>c. PrepareLink (en_now en 1) (en_wall en 0) c lid nonce subject) 200 LinkBody"
  "hq_json r = Some [JObj [(''local_account_ref'', JStr localRef)]] \<Longrightarrow>
    linkIntent en r = client_handler en r (\<lambda>c. CreateLinkIntent (en_wall en 0) (en_token en 0) (en_token en 1) c localRef
      (header r ''Idempotency-Key'')) 201 IntentBody"
  "header r ''If-Match'' = [CHR 0x22] @ format_int n @ [CHR 0x22] \<Longrightarrow> int_range n \<Longrightarrow>
    revoke en lid r = client_handler en r (\<lambda>c. RevokeLink (en_now en 1) (en_token en 0) c lid n) 200 LinkBody"
  by (simp_all add: prepare_def linkIntent_def revoke_def client_handler_def decode_give decode_json_def field_named_def string_field_def
      quoted_version format_int_read del: append.simps)

text \<open>The fields of a request below the issuer, with and without a query.\<close>

lemma wired_fields:
  assumes "q = api_request cf meth target payload headers" "r = wire_request (cf_issuer cf) len q"
  shows "hq_method r = meth" "hq_path r = takeWhile (\<lambda>c. c \<noteq> CHR ''?'') target" "hq_headers r = sq_headers q"
    "hq_json r = Some (case payload of None \<Rightarrow> [] | Some j \<Rightarrow> [j])"
    "hq_query r = fst (parse_query (drop 1 (dropWhile (\<lambda>c. c \<noteq> CHR ''?'') target)))"
  by (simp_all add: assms wire_request_def api_request_def Let_def split: option.split)

lemma short_body: "connected sv en rid fmt len cf lb \<Longrightarrow> r = wire_request (cf_issuer cf) len q \<Longrightarrow> cap_body r = r"
  by (simp add: connected_def cap_body_def wire_request_def Let_def)

lemma link_decoded: "connected sv en rid fmt len cf lb \<Longrightarrow> int_range (ln_version l) \<Longrightarrow>
    Option.bind (body_json fmt (LinkBody l)) (decode_link (lb_time lb)) = Some (sdk_link_of l)"
  by (simp add: connected_def body_json_def decode_link_json(2))

lemma intent_decoded: "connected sv en rid fmt len cf lb \<Longrightarrow>
    Option.bind (body_json fmt (IntentBody n)) (decode_intent (lb_time lb)) = Some (sdk_intent_of n)"
  by (simp add: connected_def body_json_def decode_intent_json)

lemma route_ids:
  "split_on CHR ''/'' (hq_path r) = [[], ''api'', ''v1'', ''link-intents'', lid, ''prepare''] \<Longrightarrow>
    route_id r (''POST'', ''/api/v1/link-intents/{id}/prepare'', h) = lid"
  "split_on CHR ''/'' (hq_path r) = [[], ''api'', ''v1'', ''link-intents'', lid, ''activate''] \<Longrightarrow>
    route_id r (''POST'', ''/api/v1/link-intents/{id}/activate'', h) = lid"
  "split_on CHR ''/'' (hq_path r) = [[], ''api'', ''v1'', ''account-links'', lid] \<Longrightarrow>
    route_id r (''GET'', ''/api/v1/account-links/{id}'', h) = lid"
  "split_on CHR ''/'' (hq_path r) = [[], ''api'', ''v1'', ''account-links'', lid, ''revoke''] \<Longrightarrow>
    route_id r (''POST'', ''/api/v1/account-links/{id}/revoke'', h) = lid"
  by (simp_all add: route_id_def route_patterns id_segment_def)

lemma plain_path: "list_all path_char path \<Longrightarrow> takeWhile (\<lambda>c. c \<noteq> CHR ''?'') path = path"
  by (induction path) (auto simp: path_char_def unreserved_def)

lemma wired_link_call:
  assumes "connected sv en rid fmt len cf lb" "link_inv (sd_net st)"
    and "list_all path_char path" "list_all query_char qs" "target = path \<or> target = path @ CHR ''?'' # qs"
    and "q = api_request cf meth target payload headers" "r = wire_request (cf_issuer cf) len q"
    and "List.find (route_matches r) (routes sv en) = Some route"
    and "snd (snd route) (route_id r route) r = client_handler en r f 200 LinkBody"
    and "\<And>c l. fst (f c (sd_net st)) = Inr l \<Longrightarrow> int_range (ln_version l)"
  shows "api cf lb meth target payload headers (decode_link (lb_time lb)) st = as_client en cf f sdk_link_of st"
  by (rule wired_call [OF assms(1,3-8)])
    (use assms(9,10) in \<open>auto simp: short_body [OF assms(1,7)] intro!: link_decoded [OF assms(1)] elim!: setr.cases dest: sym\<close>)

lemma plain_chars [simp]: "path_char CHR ''/''" "unreserved c \<Longrightarrow> path_char c"
  by (simp_all add: path_char_def)

lemma fixed_paths:
  "list_all path_char ''/api/v1/link-intents''" "list_all path_char ''/api/v1/link-intents/''" "list_all path_char ''/api/v1/account-links/''"
  "list_all path_char ''/prepare''" "list_all path_char ''/activate''" "list_all path_char ''/revoke''"
  "list_all path_char ''/api/v1/account-links/resolve''"
  by (simp_all add: unreserved_def)

lemma activate_wired:
  assumes "connected sv en rid fmt len cf lb" "link_inv (sd_net st)" "list_all unreserved lid"
  shows "ActivateLink_sdk cf lb lid st = as_client en cf (\<lambda>c. ActivateLink (en_now en 1) (en_wall en 0) c lid) sdk_link_of st"
proof -
  let ?path = "''/api/v1/link-intents/'' @ lid @ ''/activate''"
  have chars: "list_all path_char ?path"
    using plain_segments(4) [OF assms(3)] fixed_paths by (simp only: list_all_append simp_thms)
  define q where "q = api_request cf ''POST'' ?path None []"
  define r where "r = wire_request (cf_issuer cf) len q"
  note f = wired_fields [OF q_def r_def]
  have p: "split_on CHR ''/'' (hq_path r) = [[], ''api'', ''v1'', ''link-intents'', lid, ''activate'']"
    using call_paths(2) [OF assms(3)] by (simp only: f(2) plain_path [OF chars])
  show ?thesis unfolding ActivateLink_sdk_def plain_segments(1) [OF assms(3)]
    by (rule wired_link_call [where qs = "[]", OF assms(1,2) chars _ _ q_def r_def find_routes(3) [OF f(1) p]])
      (auto simp: route_ids(2) [OF p] plain_handlers intro: calls_range(3) [OF assms(2)])
qed

lemma prepare_wired:
  assumes "connected sv en rid fmt len cf lb" "link_inv (sd_net st)" "list_all unreserved (si_id n)"
    and "tx_intent (lr_transaction x) = Some n" "tx_purpose (lr_transaction x) \<in> {''link'', ''register''}"
  shows "PrepareLink_sdk cf lb x st
    = as_client en cf (\<lambda>c. PrepareLink (en_now en 1) (en_wall en 0) c (si_id n) (si_nonce n) (id_subject (lr_identity x))) sdk_link_of st"
proof -
  let ?path = "''/api/v1/link-intents/'' @ si_id n @ ''/prepare''"
    and ?load = "JObj [(''nonce'', JStr (si_nonce n)), (''subject'', JStr (id_subject (lr_identity x)))]"
  have chars: "list_all path_char ?path"
    using plain_segments(4) [OF assms(3)] fixed_paths by (simp only: list_all_append simp_thms)
  define q where "q = api_request cf ''POST'' ?path (Some ?load) []"
  define r where "r = wire_request (cf_issuer cf) len q"
  note f = wired_fields [OF q_def r_def]
  have p: "split_on CHR ''/'' (hq_path r) = [[], ''api'', ''v1'', ''link-intents'', si_id n, ''prepare'']"
    using call_paths(1) [OF assms(3)] by (simp only: f(2) plain_path [OF chars])
  have j: "hq_json r = Some [?load]" by (simp add: f(4))
  have "PrepareLink_sdk cf lb x = api cf lb ''POST'' ?path (Some ?load) [] (decode_link (lb_time lb))"
    using assms(4,5) by (auto simp: PrepareLink_sdk_def plain_segments(1) [OF assms(3)])
  then show ?thesis
    by (simp only:, intro wired_link_call [where qs = "[]", OF assms(1,2) chars _ _ q_def r_def find_routes(2) [OF f(1) p]])
      (auto simp: route_ids(1) [OF p] input_handlers(1) [OF j] intro: calls_range(2) [OF assms(2)])
qed

lemma status_wired:
  assumes "connected sv en rid fmt len cf lb" "link_inv (sd_net st)" "plain_id lid"
  shows "GetLink cf lb lid st = as_client en cf (\<lambda>c db. (Link c lid db, db)) sdk_link_of st"
proof -
  let ?path = "''/api/v1/account-links/'' @ lid"
  have lid: "list_all unreserved lid" "lid \<noteq> ''resolve''" using assms(3) by (simp_all add: plain_id_def)
  have chars: "list_all path_char ?path"
    using plain_segments(4) [OF lid(1)] fixed_paths by (simp only: list_all_append simp_thms)
  define q where "q = api_request cf ''GET'' ?path None []"
  define r where "r = wire_request (cf_issuer cf) len q"
  note f = wired_fields [OF q_def r_def]
  have p: "split_on CHR ''/'' (hq_path r) = [[], ''api'', ''v1'', ''account-links'', lid]"
    using call_paths(3) [OF lid(1)] by (simp only: f(2) plain_path [OF chars])
  show ?thesis unfolding GetLink_def plain_segments(1) [OF lid(1)]
    by (rule wired_link_call [where qs = "[]", OF assms(1,2) chars _ _ q_def r_def find_routes(5) [OF f(1) p lid(2)]])
      (auto simp: route_ids(3) [OF p] plain_handlers intro: Link_range [OF assms(2)])
qed

lemma revoke_wired:
  assumes "connected sv en rid fmt len cf lb" "link_inv (sd_net st)" "list_all unreserved (sl_id l)" "int_range (sl_version l)"
  shows "RevokeLink_sdk cf lb l st
    = as_client en cf (\<lambda>c. RevokeLink (en_now en 1) (en_token en 0) c (sl_id l) (sl_version l)) sdk_link_of st"
proof -
  let ?path = "''/api/v1/account-links/'' @ sl_id l @ ''/revoke''" and ?hs = "[(''If-Match'', [CHR 0x22] @ format_int (sl_version l) @ [CHR 0x22])]"
  have chars: "list_all path_char ?path"
    using plain_segments(4) [OF assms(3)] fixed_paths by (simp only: list_all_append simp_thms)
  define q where "q = api_request cf ''POST'' ?path None ?hs"
  define r where "r = wire_request (cf_issuer cf) len q"
  note f = wired_fields [OF q_def r_def]
  have p: "split_on CHR ''/'' (hq_path r) = [[], ''api'', ''v1'', ''account-links'', sl_id l, ''revoke'']"
    using call_paths(4) [OF assms(3)] by (simp only: f(2) plain_path [OF chars])
  have h: "header r ''If-Match'' = [CHR 0x22] @ format_int (sl_version l) @ [CHR 0x22]"
    by (simp add: header_def f(3) q_def api_request_def get_value_def values_of_def)
  show ?thesis unfolding RevokeLink_sdk_def plain_segments(1) [OF assms(3)]
    by (rule wired_link_call [where qs = "[]", OF assms(1,2) chars _ _ q_def r_def find_routes(6) [OF f(1) p]])
      (auto simp: route_ids(4) [OF p] input_handlers(3) [OF h assms(4)] intro: calls_range(4) [OF assms(2)])
qed

lemma resolve_wired:
  assumes "connected sv en rid fmt len cf lb" "link_inv (sd_net st)"
  shows "ResolveLink_sdk cf lb subject st = as_client en cf (\<lambda>c db. (ResolveLink c subject db, db)) sdk_link_of st"
proof -
  let ?path = "''/api/v1/account-links/resolve''" and ?qs = "''subject'' @ CHR ''='' # query_escape subject"
  let ?target = "?path @ CHR ''?'' # ?qs"
  have qs: "list_all query_char ?qs"
    using escape_chars [of _ subject] by (auto simp: list_all_iff query_char_def) (auto simp: unreserved_def)
  have "takeWhile (\<lambda>c. c \<noteq> CHR ''?'') ?target = ?path" "dropWhile (\<lambda>c. c \<noteq> CHR ''?'') ?target = CHR ''?'' # ?qs" by simp_all
  moreover define q where "q = api_request cf ''GET'' ?target None []"
  moreover define r where "r = wire_request (cf_issuer cf) len q"
  moreover note f = wired_fields [OF q_def r_def]
  ultimately have path: "hq_path r = ?path" and query: "hq_query r = [(''subject'', subject)]"
    using parse_query_pair [of "''subject''" subject] by simp_all
  have p: "split_on CHR ''/'' (hq_path r) = [[], ''api'', ''v1'', ''account-links'', ''resolve'']" unfolding path by code_simp
  have "ResolveLink_sdk cf lb subject = api cf lb ''GET'' ?target None [] (decode_link (lb_time lb))"
    by (simp add: ResolveLink_sdk_def)
  then show ?thesis
    by (simp only:, intro wired_link_call [OF assms fixed_paths(7) qs _ q_def r_def find_routes(4) [OF f(1) p]])
      (auto simp: plain_handlers query get_value_def values_of_def intro: calls_range(1) [OF assms(2)])
qed

lemma intent_wired:
  assumes "connected sv en rid fmt len cf lb" "tx_purpose t \<in> {''link'', ''register''}"
  shows "with_intent cf lb opts t st = as_client en cf (\<lambda>c. CreateLinkIntent (en_wall en 0) (en_token en 0) (en_token en 1) c
      (bo_local_account opts) (tx_state t)) (\<lambda>n. t\<lparr>tx_local_account := bo_local_account opts, tx_local_session := bo_local_session opts,
        tx_intent := Some (sdk_intent_of n), tx_nonce := ni_nonce n\<rparr>) st"
proof -
  let ?path = "''/api/v1/link-intents''" and ?load = "JObj [(''local_account_ref'', JStr (bo_local_account opts))]"
    and ?f = "\<lambda>c. CreateLinkIntent (en_wall en 0) (en_token en 0) (en_token en 1) c (bo_local_account opts) (tx_state t)"
  define q where "q = api_request cf ''POST'' ?path (Some ?load) [(''Idempotency-Key'', tx_state t)]"
  define r where "r = wire_request (cf_issuer cf) len q"
  note f = wired_fields [OF q_def r_def]
  have p: "split_on CHR ''/'' (hq_path r) = [[], ''api'', ''v1'', ''link-intents'']"
    unfolding f(2) plain_path [OF fixed_paths(1)] by code_simp
  have j: "hq_json r = Some [?load]" by (simp add: f(4))
  have h: "header r ''Idempotency-Key'' = tx_state t"
    by (simp add: header_def f(3) q_def api_request_def get_value_def values_of_def)
  have "api cf lb ''POST'' ?path (Some ?load) [(''Idempotency-Key'', tx_state t)] (decode_intent (lb_time lb)) st
      = as_client en cf ?f sdk_intent_of st" for st
    by (rule wired_call [where qs = "[]", OF assms(1) fixed_paths(1) _ _ q_def r_def find_routes(1) [OF f(1) p]])
      (auto simp: short_body [OF assms(1) r_def] input_handlers(2) [OF j] h intro: intent_decoded [OF assms(1)])
  then have "api cf lb ''POST'' ?path (Some ?load) [(''Idempotency-Key'', tx_state t)] (decode_intent (lb_time lb))
      = as_client en cf ?f sdk_intent_of" by (rule ext)
  then show ?thesis using assms(2) by (auto simp: with_intent_def as_client_give sdk_intent_of_def)
qed

text \<open>C12: The link calls of the SDK are the operations of the store: in every reachable database, creating an intent, preparing,
activating, reading, resolving and revoking a link through the SDK, the HTTP request, the router, the decoders and encoders on both
sides and back, does to the database exactly what the store operation does for the client whose credentials are configured, and
returns the link it returned; a refusal comes back as the API error of its kind, wrong credentials as a 401 that changes nothing.\<close>

theorem link_calls_are_store_calls:
  assumes "connected sv en rid fmt len cf lb" "reach D (sd_net st)" "plain_id (sl_id l)" "int_range (sl_version l)" "si_id n = sl_id l"
    and "tx_intent (lr_transaction x) = Some n" "tx_purpose (lr_transaction x) \<in> {''link'', ''register''}"
    and "tx_purpose t \<in> {''link'', ''register''}"
  shows "with_intent cf lb opts t st = as_client en cf (\<lambda>c. CreateLinkIntent (en_wall en 0) (en_token en 0) (en_token en 1) c
        (bo_local_account opts) (tx_state t)) (\<lambda>n. t\<lparr>tx_local_account := bo_local_account opts, tx_local_session := bo_local_session opts,
        tx_intent := Some (sdk_intent_of n), tx_nonce := ni_nonce n\<rparr>) st
    \<and> PrepareLink_sdk cf lb x st
      = as_client en cf (\<lambda>c. PrepareLink (en_now en 1) (en_wall en 0) c (sl_id l) (si_nonce n) (id_subject (lr_identity x))) sdk_link_of st
    \<and> ActivateLink_sdk cf lb (sl_id l) st = as_client en cf (\<lambda>c. ActivateLink (en_now en 1) (en_wall en 0) c (sl_id l)) sdk_link_of st
    \<and> GetLink cf lb (sl_id l) st = as_client en cf (\<lambda>c db. (Link c (sl_id l) db, db)) sdk_link_of st
    \<and> ResolveLink_sdk cf lb subject st = as_client en cf (\<lambda>c db. (ResolveLink c subject db, db)) sdk_link_of st
    \<and> RevokeLink_sdk cf lb l st = as_client en cf (\<lambda>c. RevokeLink (en_now en 1) (en_token en 0) c (sl_id l) (sl_version l)) sdk_link_of st"
proof -
  have inv: "link_inv (sd_net st)" using reach_sound [OF assms(2)] by (rule soundD(3))
  have lid: "list_all unreserved (sl_id l)" "list_all unreserved (si_id n)" using assms(3,5) by (simp_all add: plain_id_def)
  show ?thesis
    using intent_wired [OF assms(1,8)] prepare_wired [OF assms(1) inv lid(2) assms(6,7)] activate_wired [OF assms(1) inv lid(1)]
      status_wired [OF assms(1) inv assms(3)] resolve_wired [OF assms(1) inv] revoke_wired [OF assms(1) inv lid(1) assms(4)]
    by (simp add: assms(5))
qed

definition wired_library :: "(unit, unit, db) library" where
  "wired_library = silent_library\<lparr>lb_do := over_wire api_server api_env ''rid'' written_time ''https://cas'' (\<lambda>_. 0)\<rparr>"

definition shop_client :: "db \<Rightarrow> (unit, unit, db) sdk_state" where
  "shop_client db = \<lparr>sd_provider = None, sd_store = (), sd_net = db\<rparr>"

definition shop_link :: sdk_link where
  "shop_link = \<lparr>sl_id = ''i1'', sl_client_id = ''shop'', sl_local_ref = ''u7'', sl_subject = ''ann'', sl_state = ''active'', sl_version = 2,
     sl_verified_at = 0\<rparr>"

lemma shop_connected: "connected api_server api_env ''rid'' written_time (\<lambda>_. 0) (example_config ''shop'') wired_library"
  by (simp add: connected_def wired_library_def silent_library_def example_config_def written_times_agree max_body_def)

lemma shop_authorized: "AuthorizeClientIDSecret 0 ''shop'' shop_secret db18 = Inr ()"
  by (simp add: AuthorizeClientIDSecret_def db18_tables app_row_def shop_def active_app_def first_row_simps equalHash_def shop_secret_def)

theorem link_calls_are_store_calls_witness:
  "GetLink (example_config ''shop'') wired_library ''i1'' (shop_client db18) = (Inr shop_link, shop_client db18)
    \<and> fst (RevokeLink_sdk (example_config ''shop'') wired_library (shop_link\<lparr>sl_version := 1\<rparr>) (shop_client db18)) = Inl (sdk_failure ErrConflict)"
proof -
  define n where "n = \<lparr>si_id = ''i1'', si_client_id = ''shop'', si_local_ref = ''u7'', si_nonce = ''n1'', si_state = [], si_expires_at = 0\<rparr>"
  define t where "t = (login_transaction (\<lambda>_. []) [] 0 ''link'' ''/'' \<lparr>bo_binding = [], bo_return_to = [], bo_local_account = [],
     bo_local_session = [], bo_scopes = []\<rparr>)\<lparr>tx_intent := Some n\<rparr>"
  define x where "x = \<lparr>lr_identity = \<lparr>id_issuer = [], id_subject = [], id_name = [], id_email = [], id_email_verified = False, id_session = []\<rparr>,
     lr_transaction = t, lr_token = \<lparr>ot_access = [], ot_refresh = [], ot_expiry = 0, ot_id_token = None\<rparr>, lr_id_token = []\<rparr>"
  have tx: "tx_intent (lr_transaction x) = Some n" "tx_purpose (lr_transaction x) \<in> {''link'', ''register''}" "tx_purpose t \<in> {''link'', ''register''}"
    by (simp_all add: x_def t_def login_transaction_def)
  have r: "reach D_db15 (sd_net (shop_client db18))" using db18_reach by (simp add: shop_client_def)
  have l: "plain_id (sl_id (shop_link\<lparr>sl_version := 1\<rparr>))" "int_range (sl_version (shop_link\<lparr>sl_version := 1\<rparr>))"
    "si_id n = sl_id (shop_link\<lparr>sl_version := 1\<rparr>)"
    by (simp_all add: plain_id_def shop_link_def int_range_def n_def unreserved_def)
  note calls = link_calls_are_store_calls [OF shop_connected r l tx]
  have secret: "cf_client_secret (example_config ''shop'') = shop_secret" "cf_client_id (example_config ''shop'') = ''shop''"
    by (simp_all add: example_config_def shop_secret_def)
  have "GetLink (example_config ''shop'') wired_library ''i1'' (shop_client db18)
      = as_client api_env (example_config ''shop'') (\<lambda>c db. (Link c ''i1'' db, db)) sdk_link_of (shop_client db18)"
    using calls by (simp add: shop_link_def)
  then have "GetLink (example_config ''shop'') wired_library ''i1'' (shop_client db18) = (Inr shop_link, shop_client db18)"
    by (simp add: as_client_def secret shop_authorized shop_client_def Link_def db18_tables scenario_simps activate_row_def view_link_def
        sdk_link_of_def shop_link_def state_name_def)
  moreover have "RevokeLink_sdk (example_config ''shop'') wired_library (shop_link\<lparr>sl_version := 1\<rparr>) (shop_client db18)
      = as_client api_env (example_config ''shop'') (\<lambda>c. RevokeLink 0 ''T'' c ''i1'' 1) sdk_link_of (shop_client db18)"
    using calls by (simp add: shop_link_def)
  then have "fst (RevokeLink_sdk (example_config ''shop'') wired_library (shop_link\<lparr>sl_version := 1\<rparr>) (shop_client db18)) = Inl (sdk_failure ErrConflict)"
    by (simp add: as_client_def secret shop_authorized shop_client_def RevokeLink_def db18_tables scenario_simps activate_row_def)
  ultimately show ?thesis by blast
qed

end
