(* ===== verification/Sdk_Sign_In.thy ===== *)
theory Sdk_Sign_In
  imports Sdk_Server
begin

text \<open>
  Signing in with the SDK, \<open>sdk/go/client.go\<close>: the contract of the application's store of transactions, and what holds of every
  login that is finished, whatever callbacks arrive in whatever order.
\<close>

section \<open>Results of a composed operation\<close>

lemma sdk_laws [simp]:
  "sdk_then (sdk_give a) f = f a" "sdk_then (sdk_fail e) f = sdk_fail e"
  "sdk_check msg True = sdk_give ()" "sdk_check msg False = sdk_fail (SdkError msg)"
  "sdk_some e (Some a) = sdk_give a" "sdk_some e None = sdk_fail e"
  by (simp_all add: fun_eq_iff sdk_then_def sdk_give_def sdk_fail_def sdk_check_def sdk_some_def)

lemma sdk_then_run:
  "m st = (Inl e, mid) \<Longrightarrow> sdk_then m f st = (Inl e, mid)" "m st = (Inr a, mid) \<Longrightarrow> sdk_then m f st = f a mid"
  by (simp_all add: sdk_then_def)

lemma sdk_then_Inr: "sdk_then m f st = (Inr b, st') \<longleftrightarrow> (\<exists>a mid. m st = (Inr a, mid) \<and> f a mid = (Inr b, st'))"
  by (auto simp: sdk_then_def split: prod.split sum.split)

lemma sdk_give_Inr: "sdk_give a st = (Inr b, st') \<longleftrightarrow> b = a \<and> st' = st"
  by (auto simp: sdk_give_def)

lemma sdk_fail_Inr: "sdk_fail e st = (Inr b, st') \<longleftrightarrow> False"
  by (simp add: sdk_fail_def)

lemma sdk_check_Inr: "sdk_check msg P st = (Inr u, st') \<longleftrightarrow> P \<and> st' = st"
  by (auto simp: sdk_check_def sdk_give_def sdk_fail_def)

lemma sdk_some_Inr: "sdk_some e x st = (Inr a, st') \<longleftrightarrow> x = Some a \<and> st' = st"
  by (auto simp: sdk_some_def sdk_give_def sdk_fail_def split: option.split)

lemma on_net_Inr: "on_net e f st = (Inr a, st') \<longleftrightarrow> (\<exists>n. f (sd_net st) = (Some a, n) \<and> st' = st\<lparr>sd_net := n\<rparr>)"
  by (auto simp: on_net_def sdk_some_Inr split: prod.split)

lemma on_transactions_Inr: "on_transactions f st = (Inr a, st') \<longleftrightarrow> (\<exists>s. f (sd_store st) = (a, s) \<and> st' = st\<lparr>sd_store := s\<rparr>)"
  by (auto simp: on_transactions_def split: prod.split)

lemma sdk_result_Inr: "sdk_result x st = (Inr a, st') \<longleftrightarrow> x = Inr a \<and> st' = st"
  by (auto simp: sdk_result_def)

lemmas sdk_Inr = sdk_then_Inr sdk_give_Inr sdk_fail_Inr sdk_check_Inr sdk_some_Inr on_net_Inr on_transactions_Inr sdk_result_Inr

section \<open>Operations that leave the transactions alone\<close>

definition keeps :: "('p, 's, 'n, 'a) sdk \<Rightarrow> bool" where
  "keeps m = (\<forall>st. sd_store (snd (m st)) = sd_store st)"

lemma keeps_then [intro]: "keeps m \<Longrightarrow> (\<And>a. keeps (f a)) \<Longrightarrow> keeps (sdk_then m f)"
  by (auto simp: keeps_def sdk_then_def split: prod.split sum.split) (metis snd_conv)+

lemma keeps_basic [intro, simp]:
  "keeps (sdk_give a)" "keeps (sdk_fail e)" "keeps (sdk_check msg P)" "keeps (sdk_some e x)" "keeps (on_net e f)" "keeps (sdk_result y)"
  "keeps ResetVerificationCache"
  by (auto simp: keeps_def sdk_give_def sdk_fail_def sdk_check_def sdk_some_def on_net_def sdk_result_def ResetVerificationCache_def
      split: option.split prod.split)

lemma keeps_if [intro]: "(P \<Longrightarrow> keeps m) \<Longrightarrow> (\<not> P \<Longrightarrow> keeps m') \<Longrightarrow> keeps (if P then m else m')"
  by simp

lemma keeps_discovery [simp]:
  fixes lb :: "('p, 's, 'n) library"
  shows "keeps (discovery cf lb)"
proof -
  have "keeps (\<lambda>st :: ('p, 's, 'n) sdk_state. (Inr (p, m), st\<lparr>sd_provider := Some (p, m)\<rparr>))" for p m
    by (simp add: keeps_def)
  moreover define first :: "('p, 's, 'n, 'p \<times> metadata) sdk" where "first = sdk_then (on_net LibraryError (lb_provider lb (cf_issuer cf))) (\<lambda>p.
      sdk_then (sdk_some LibraryError (unmarshal_json metadata_fields (Some (lb_discovered lb p)))) (\<lambda>v.
      let m = metadata_from v in
      sdk_then (sdk_result (check_endpoints (lb_url lb) cf [md_authorization m, md_token m, md_jwks m, md_userinfo m])) (\<lambda>_.
      \<lambda>st. (Inr (p, m), st\<lparr>sd_provider := Some (p, m)\<rparr>))))"
  ultimately have "keeps first" unfolding first_def Let_def by (intro keeps_then keeps_basic(1-6)) assumption
  moreover have "discovery cf lb st = (case sd_provider st of Some pm \<Rightarrow> (Inr pm, st) | None \<Rightarrow> first st)" for st
    unfolding discovery_def first_def ..
  ultimately show ?thesis by (simp add: keeps_def split: option.split)
qed

lemma keeps_api [simp]: "keeps (api cf lb meth path payload headers out)"
  unfolding api_def by (intro keeps_then keeps_if keeps_basic)

lemma keeps_with_intent [simp]: "keeps (with_intent cf lb opts t)"
  unfolding with_intent_def by (intro keeps_then keeps_if keeps_basic keeps_api)

lemma keeps_redeem [simp]: "keeps (redeem_code cf lb code t)"
  unfolding redeem_code_def by (intro keeps_then keeps_if keeps_basic keeps_discovery) (auto simp: split_def intro!: keeps_then)

lemma keepsD: "keeps m \<Longrightarrow> m st = (x, st') \<Longrightarrow> sd_store st' = sd_store st"
  unfolding keeps_def by (metis snd_conv)

section \<open>Beginning and finishing\<close>

record begun =
  bg_wall :: time
  bg_purpose :: string
  bg_options :: begin_options
  bg_state :: string

text \<open>The transaction of a sign-in that was begun.\<close>

definition begun_as :: "begun \<Rightarrow> transaction \<Rightarrow> bool" where
  "begun_as b t = (tx_state t = bg_state b \<and> tx_purpose t = bg_purpose b \<and> tx_expires_at t = bg_wall b + minutes 5
     \<and> tx_binding_hash t = hash_sdk (bo_binding (bg_options b)) \<and> 32 \<le> length (bo_binding (bg_options b))
     \<and> tx_return_to t = (if bo_return_to (bg_options b) = [] then ''/'' else bo_return_to (bg_options b))
     \<and> application_path (tx_return_to t)
     \<and> (bg_purpose b \<in> {''link'', ''register''} \<longrightarrow> tx_intent t \<noteq> None
          \<and> tx_local_account t = bo_local_account (bg_options b) \<and> tx_local_session t = bo_local_session (bg_options b)))"

lemma begun_state: "begun_as b t \<Longrightarrow> tx_state t = bg_state b"
  by (simp add: begun_as_def)

definition begun_now :: "(nat \<Rightarrow> string) \<Rightarrow> time \<Rightarrow> string \<Rightarrow> begin_options \<Rightarrow> begun" where
  "begun_now draw wall purpose opts = \<lparr>bg_wall = wall, bg_purpose = purpose, bg_options = opts, bg_state = RandomBinding (draw 0)\<rparr>"

lemma with_intent_begun:
  assumes "with_intent cf lb opts (login_transaction draw verifier wall purpose path opts) st = (Inr t, st')"
    and "32 \<le> length (bo_binding opts)" "application_path path" "path = (if bo_return_to opts = [] then ''/'' else bo_return_to opts)"
  shows "begun_as (begun_now draw wall purpose opts) t"
  using assms by (auto simp: with_intent_def sdk_Inr login_transaction_def begun_as_def begun_now_def split: if_splits)

lemma begin_stores:
  assumes "begin_sdk cf lb draw verifier wall purpose opts st = (res, st')"
  shows "sd_store st' = sd_store st \<and> (\<exists>e. res = Inl e)
    \<or> (\<exists>t stored. lb_put lb t (sd_store st) = (stored, sd_store st') \<and> begun_as (begun_now draw wall purpose opts) t)"
proof -
  let ?path = "if bo_return_to opts = [] then ''/'' else bo_return_to opts"
    and ?scopes = "if bo_scopes opts = [] then [''openid'', ''profile'', ''email''] else bo_scopes opts"
  show ?thesis
  proof (cases "32 \<le> length (bo_binding opts) \<and> application_path ?path")
    case False
    then have "\<exists>msg. begin_sdk cf lb draw verifier wall purpose opts = sdk_fail (SdkError msg)"
      by (cases "32 \<le> length (bo_binding opts)") (auto simp: begin_sdk_def Let_def)
    then show ?thesis using assms by (auto simp: sdk_fail_def)
  next
    case True
    then have b: "begin_sdk cf lb draw verifier wall purpose opts = sdk_then (discovery cf lb) (\<lambda>(p, _).
       sdk_then (with_intent cf lb opts (login_transaction draw verifier wall purpose ?path opts)) (\<lambda>t.
       sdk_then (on_transactions (lb_put lb t)) (\<lambda>stored. if \<not> stored then sdk_fail LibraryError
         else sdk_give (lb_auth_url lb p (oauth_config cf ?scopes) (tx_state t) (tx_verifier t) (tx_nonce t)))))"
      by (simp add: begin_sdk_def Let_def)
    obtain x mid where d: "discovery cf lb st = (x, mid)" by fastforce
    note same = keepsD [OF keeps_discovery d]
    show ?thesis
    proof (cases x)
      case (Inl e)
      then show ?thesis using assms same d by (auto simp: b sdk_then_run)
    next
      case (Inr pm)
      obtain p m where pm: "pm = (p, m)" by fastforce
      obtain y st2 where w: "with_intent cf lb opts (login_transaction draw verifier wall purpose ?path opts) mid = (y, st2)" by fastforce
      note same2 = keepsD [OF keeps_with_intent w]
      show ?thesis
      proof (cases y)
        case e: (Inl e)
        show ?thesis using assms same same2
          by (auto simp: b sdk_then_def [of "discovery cf lb"] sdk_then_def [of "with_intent _ _ _ _"] d Inr pm w e)
      next
        case t: (Inr t)
        obtain stored s where put: "lb_put lb t (sd_store st2) = (stored, s)" by fastforce
        have "sd_store st' = s" using assms
          by (auto simp: b sdk_then_def [of "discovery cf lb"] sdk_then_def [of "with_intent _ _ _ _"] d Inr pm w t
              sdk_then_def [of "on_transactions _"] on_transactions_def put sdk_give_def sdk_fail_def split: if_splits)
        then show ?thesis using put same same2 with_intent_begun [OF w [unfolded t] _ _ refl] True by auto
      qed
    qed
  qed
qed

text \<open>A finished login: the clock, the browser and the result.\<close>

record finished =
  fi_wall :: time
  fi_options :: finish_options
  fi_result :: login_result

definition proven_by :: "sdk_config \<Rightarrow> ('p, 's, 'n) library \<Rightarrow> login_result \<Rightarrow> bool" where
  "proven_by cf lb r = (\<exists>p it n n'. lb_verify lb p (cf_client_id cf) (lr_id_token r) n = (Some it, n')
     \<and> it_nonce it = tx_nonce (lr_transaction r) \<and> id_subject (lr_identity r) = it_subject it
     \<and> id_issuer (lr_identity r) = cf_issuer cf \<and> ot_id_token (lr_token r) = Some (lr_id_token r))"

lemma signed_in_subject:
  "signed_in_identity cf it up = Some who \<Longrightarrow> id_subject who = it_subject it \<and> id_issuer who = cf_issuer cf"
  by (cases "it_claims it") (auto simp: signed_in_identity_def Let_def bind_eq_Some_conv)

lemma redeem_proven:
  "redeem_code cf lb code t st = (Inr r, st') \<Longrightarrow> lr_transaction r = t \<and> proven_by cf lb r"
  by (auto simp: redeem_code_def sdk_Inr proven_by_def dest: signed_in_subject) (blast dest: signed_in_subject)+

lemma FinishLogin_takes:
  assumes "FinishLogin cf lb wall callback opts st = (res, st')"
  shows "sd_store st' = sd_store st \<and> (\<exists>e. res = Inl e)
    \<or> (\<exists>k taken. lb_take lb k (sd_store st) = (taken, sd_store st') \<and> (\<forall>r. res = Inr r \<longrightarrow> taken = Some (Some (lr_transaction r))
        \<and> transaction_usable wall opts (lr_transaction r) \<and> same_account opts (lr_transaction r) \<and> proven_by cf lb r))"
proof -
  let ?guards = "\<lambda>u expected. url_scheme u = url_scheme expected \<and> url_host u = url_host expected \<and> url_path u = url_path expected
    \<and> query_value ''state'' u \<noteq> []"
  show ?thesis
  proof (cases "\<exists>u expected. lb_url lb callback = Some u \<and> lb_url lb (cf_redirect_uri cf) = Some expected \<and> ?guards u expected")
    case False
    have "\<exists>e. FinishLogin cf lb wall callback opts = sdk_fail e"
    proof (cases "lb_url lb callback = None \<or> lb_url lb (cf_redirect_uri cf) = None")
      case True
      then show ?thesis by (cases "lb_url lb callback") (auto simp: FinishLogin_def)
    next
      case ok: False
      then obtain u expected where "lb_url lb callback = Some u" "lb_url lb (cf_redirect_uri cf) = Some expected" by auto
      then show ?thesis using False
        by (cases "url_scheme u = url_scheme expected \<and> url_host u = url_host expected \<and> url_path u = url_path expected")
          (auto simp: FinishLogin_def)
    qed
    then show ?thesis using assms by (auto simp: sdk_fail_def)
  next
    case True
    then obtain u expected where u: "lb_url lb callback = Some u" "lb_url lb (cf_redirect_uri cf) = Some expected" "?guards u expected"
      by blast
    define k where "k = query_value ''state'' u"
    obtain taken s where t: "lb_take lb k (sd_store st) = (taken, s)" by fastforce
    define rest where "rest = sdk_then (sdk_some LibraryError taken) (\<lambda>found.
     sdk_then (sdk_some (SdkError ''transaction expired, consumed or belongs to another browser'') found) (\<lambda>t.
     sdk_then (sdk_check ''transaction expired, consumed or belongs to another browser'' (transaction_usable wall opts t)) (\<lambda>_.
     sdk_then (sdk_check ''local account changed during linking'' (same_account opts t)) (\<lambda>_.
     sdk_then (sdk_check ''authorization was not granted'' (query_value ''error'' u = [] \<and> query_value ''code'' u \<noteq> [])) (\<lambda>_.
     redeem_code cf lb (query_value ''code'' u) t)))))"
    have go: "rest (st\<lparr>sd_store := s\<rparr>) = (res, st')"
    proof -
      have "sdk_then (on_transactions (lb_take lb k)) f st = f taken (st\<lparr>sd_store := s\<rparr>)" for f :: "_ \<Rightarrow> ('a, 'b, 'c, login_result) sdk"
        by (rule sdk_then_run(2)) (simp add: on_transactions_def t)
      then show ?thesis using assms u by (simp add: FinishLogin_def rest_def k_def)
    qed
    have "keeps rest" unfolding rest_def by (intro keeps_then keeps_basic keeps_redeem)
    then have "sd_store st' = s" using keepsD [of rest, OF _ go] by simp
    moreover have "taken = Some (Some (lr_transaction r)) \<and> transaction_usable wall opts (lr_transaction r)
        \<and> same_account opts (lr_transaction r) \<and> proven_by cf lb r" if "res = Inr r" for r
      using go [unfolded that rest_def] by (auto simp: sdk_Inr dest: redeem_proven)
    ultimately show ?thesis using t by blast
  qed
qed

section \<open>The store of transactions\<close>

text \<open>What the history of sign-ins keeps: \<open>bs\<close> were begun, \<open>fs\<close> finished, \<open>held\<close> is in the store.\<close>

definition accounted :: "begun list \<Rightarrow> finished list \<Rightarrow> (string \<Rightarrow> transaction option) \<Rightarrow> bool" where
  "accounted bs fs held = ((\<forall>k t. held k = Some t \<longrightarrow> k = tx_state t \<and> (\<exists>b\<in>set bs. begun_as b t))
     \<and> (\<forall>f\<in>set fs. held (tx_state (lr_transaction (fi_result f))) = None
          \<and> (\<exists>b\<in>set bs. begun_as b (lr_transaction (fi_result f))))
     \<and> distinct (map (\<lambda>f. tx_state (lr_transaction (fi_result f))) fs))"

lemma accountedD:
  assumes "accounted bs fs held"
  shows "held k = Some t \<Longrightarrow> k = tx_state t" "held k = Some t \<Longrightarrow> \<exists>b\<in>set bs. begun_as b t"
    and "f \<in> set fs \<Longrightarrow> held (tx_state (lr_transaction (fi_result f))) = None"
    and "f \<in> set fs \<Longrightarrow> \<exists>b\<in>set bs. begun_as b (lr_transaction (fi_result f))"
    and "distinct (map (\<lambda>f. tx_state (lr_transaction (fi_result f))) fs)"
  using assms unfolding accounted_def by blast+

text \<open>
  The contract of \<open>TransactionStore\<close>, \<open>content\<close> being what a store holds under a state: \<open>Put\<close> adds at most its
  transaction, and adds it if it reports no error; \<open>Take\<close> gives what is there and removes it.
\<close>

locale transaction_store =
  fixes put :: "transaction \<Rightarrow> 's \<Rightarrow> bool \<times> 's"
    and take_out :: "string \<Rightarrow> 's \<Rightarrow> transaction option option \<times> 's"
    and content :: "'s \<Rightarrow> string \<Rightarrow> transaction option"
  assumes put_stores: "put t s = (True, s') \<Longrightarrow> content s' (tx_state t) = Some t"
    and put_adds: "put t s = (stored, s') \<Longrightarrow> content s' k = Some u \<Longrightarrow> content s k = Some u \<or> k = tx_state t \<and> u = t"
    and take_gives: "take_out k s = (Some found, s') \<Longrightarrow> found = content s k \<and> content s' k = None"
    and take_keeps: "take_out k s = (res, s') \<Longrightarrow> content s' j = Some u \<Longrightarrow> content s j = Some u"
begin

text \<open>A transaction is taken once: as long as none is put under its state again, \<open>Take\<close> finds nothing.\<close>

lemma taken_once:
  assumes "take_out k s = (Some (Some t), s')" "take_out k s' = (Some found, s'')"
  shows "found = None"
  using take_gives [OF assms(1)] take_gives [OF assms(2)] by simp

lemma accounted_put:
  assumes "accounted bs fs (content s)" "put t s = (stored, s')" "begun_as b t" "bg_state b \<notin> bg_state ` set bs"
  shows "accounted (b # bs) fs (content s')"
  unfolding accounted_def
proof (intro conjI ballI allI impI)
  note old = accountedD [OF assms(1)]
  show "content s' (tx_state (lr_transaction (fi_result f))) = None" if f: "f \<in> set fs" for f
  proof (rule ccontr)
    assume "content s' (tx_state (lr_transaction (fi_result f))) \<noteq> None"
    then have "tx_state (lr_transaction (fi_result f)) = tx_state t" using put_adds [OF assms(2)] old(3) [OF f] by fastforce
    moreover obtain b' where "b' \<in> set bs" "begun_as b' (lr_transaction (fi_result f))" using old(4) [OF f] by blast
    ultimately show False using assms(3,4) begun_state by (metis imageI)
  qed
  show "k = tx_state u" if "content s' k = Some u" for k u using put_adds [OF assms(2) that] old(1) by blast
  show "\<exists>b'\<in>set (b # bs). begun_as b' u" if "content s' k = Some u" for k u
    using put_adds [OF assms(2) that] old(2) assms(3) by auto
  show "\<exists>b'\<in>set (b # bs). begun_as b' (lr_transaction (fi_result f))" if "f \<in> set fs" for f using old(4) [OF that] by auto
  show "distinct (map (\<lambda>f. tx_state (lr_transaction (fi_result f))) fs)" by (rule old(5))
qed

lemma accounted_take:
  assumes "accounted bs fs (content s)" "take_out k s = (res, s')"
  shows "accounted bs fs (content s')"
    and "res = Some (Some t) \<Longrightarrow> lr_transaction (fi_result f) = t \<Longrightarrow> accounted bs (f # fs) (content s')"
proof -
  note old = accountedD [OF assms(1)]
  have gone: "content s j = None \<Longrightarrow> content s' j = None" for j
    using take_keeps [OF assms(2), of j] by (cases "content s' j") auto
  show kept: "accounted bs fs (content s')"
    unfolding accounted_def using old(1,2) take_keeps [OF assms(2)] old(3) [THEN gone] old(4,5) by blast
  assume f: "res = Some (Some t)" "lr_transaction (fi_result f) = t"
  then have t: "content s k = Some t" "content s' k = None" using take_gives assms(2) by auto
  have k: "k = tx_state t" "\<exists>b\<in>set bs. begun_as b t" using old(1,2) [OF t(1)] by auto
  have "tx_state t \<noteq> tx_state (lr_transaction (fi_result g))" if "g \<in> set fs" for g using old(3) [OF that] t(1) k(1) by auto
  then show "accounted bs (f # fs) (content s')"
    using kept f(2) k t(2) unfolding accounted_def by auto
qed

end

text \<open>The in-memory store of the tests of \<open>internal/httpapi\<close>, and the store of a service that has no browser, of the examples.\<close>

definition Put_memory :: "transaction \<Rightarrow> (string \<Rightarrow> transaction option) \<Rightarrow> bool \<times> (string \<Rightarrow> transaction option)" where
  "Put_memory t items = (True, items(tx_state t \<mapsto> t))"

definition Take_memory :: "string \<Rightarrow> (string \<Rightarrow> transaction option) \<Rightarrow> transaction option option \<times> (string \<Rightarrow> transaction option)" where
  "Take_memory k items = (Some (items k), items(k := None))"

interpretation memory: transaction_store Put_memory Take_memory "\<lambda>items. items"
  by unfold_locales (auto simp: Put_memory_def Take_memory_def split: if_splits)

definition Put_noBrowser :: "transaction \<Rightarrow> unit \<Rightarrow> bool \<times> unit" where
  "Put_noBrowser t s = (False, s)"

definition Take_noBrowser :: "string \<Rightarrow> unit \<Rightarrow> transaction option option \<times> unit" where
  "Take_noBrowser k s = (None, s)"

interpretation no_browser: transaction_store Put_noBrowser Take_noBrowser "\<lambda>_ _. None"
  by unfold_locales (auto simp: Put_noBrowser_def Take_noBrowser_def)

section \<open>Every sign-in of a client\<close>

text \<open>
  The sign-ins a client begins and the callbacks it is given, in any order, with anything between that leaves the
  transactions alone. Random states are not drawn twice.
\<close>

inductive sign_ins ::
  "sdk_config \<Rightarrow> ('p, 's, 'n) library \<Rightarrow> ('p, 's, 'n) sdk_state \<Rightarrow> begun list \<Rightarrow> finished list \<Rightarrow> ('p, 's, 'n) sdk_state \<Rightarrow> bool"
  for cf lb st0 where
  started_out: "sign_ins cf lb st0 [] [] st0"
| begins: "sign_ins cf lb st0 bs fs st \<Longrightarrow> begin_sdk cf lb draw verifier wall purpose opts st = (res, st')
    \<Longrightarrow> RandomBinding (draw 0) \<notin> bg_state ` set bs \<Longrightarrow> sign_ins cf lb st0 (begun_now draw wall purpose opts # bs) fs st'"
| finishes: "sign_ins cf lb st0 bs fs st \<Longrightarrow> FinishLogin cf lb wall callback opts st = (Inr r, st')
    \<Longrightarrow> sign_ins cf lb st0 bs (\<lparr>fi_wall = wall, fi_options = opts, fi_result = r\<rparr> # fs) st'"
| refuses: "sign_ins cf lb st0 bs fs st \<Longrightarrow> FinishLogin cf lb wall callback opts st = (Inl e, st') \<Longrightarrow> sign_ins cf lb st0 bs fs st'"
| other: "sign_ins cf lb st0 bs fs st \<Longrightarrow> sd_store st' = sd_store st \<Longrightarrow> sign_ins cf lb st0 bs fs st'"

lemma sign_ins_accounted:
  assumes "transaction_store (lb_put lb) (lb_take lb) content" "content (sd_store st0) = Map.empty" "sign_ins cf lb st0 bs fs st"
  shows "accounted bs fs (content (sd_store st))
    \<and> (\<forall>f\<in>set fs. transaction_usable (fi_wall f) (fi_options f) (lr_transaction (fi_result f))
        \<and> same_account (fi_options f) (lr_transaction (fi_result f)) \<and> proven_by cf lb (fi_result f))"
  using assms(3)
proof (induction rule: sign_ins.induct)
  case started_out
  show ?case by (simp add: accounted_def assms(2))
next
  case (begins bs fs st draw verifier wall purpose opts res st')
  have grown: "accounted (b # bs) fs held" if "accounted bs fs held" for held b
    using that by (auto simp: accounted_def)
  from begin_stores [OF begins.hyps(2)] show ?case
  proof
    assume "sd_store st' = sd_store st \<and> (\<exists>e. res = Inl e)"
    then show ?thesis using begins.IH grown by simp
  next
    assume "\<exists>t stored. lb_put lb t (sd_store st) = (stored, sd_store st') \<and> begun_as (begun_now draw wall purpose opts) t"
    then obtain t stored where t: "lb_put lb t (sd_store st) = (stored, sd_store st')" "begun_as (begun_now draw wall purpose opts) t"
      by blast
    have fresh: "bg_state (begun_now draw wall purpose opts) \<notin> bg_state ` set bs" using begins.hyps(3) by (simp add: begun_now_def)
    show ?thesis
      using transaction_store.accounted_put [OF assms(1) _ t fresh] begins.IH by blast
  qed
next
  case (finishes bs fs st wall callback opts r st')
  obtain k taken where t: "lb_take lb k (sd_store st) = (taken, sd_store st')" "taken = Some (Some (lr_transaction r))"
      "transaction_usable wall opts (lr_transaction r)" "same_account opts (lr_transaction r)" "proven_by cf lb r"
    using FinishLogin_takes [OF finishes.hyps(2)] by auto
  show ?case
    using transaction_store.accounted_take(2) [OF assms(1) _ t(1,2), of bs fs "\<lparr>fi_wall = wall, fi_options = opts, fi_result = r\<rparr>"]
      finishes.IH t(3-5) by simp
next
  case (refuses bs fs st wall callback opts e st')
  from FinishLogin_takes [OF refuses.hyps(2)] show ?case
    using transaction_store.accounted_take(1) [OF assms(1)] refuses.IH by auto
next
  case (other bs fs st st')
  then show ?case by simp
qed

text \<open>C13: A sign-in is finished at most once, by the browser that began it: over a store that takes a transaction out when it gives
it, every login a client returns belongs to one sign-in the client began before, with the binding of the same browser, not later than
five minutes after, with the return path the application gave and, when an account is linked, for the same local account and session;
the identity is the subject of an ID token that was verified for this client and carries the nonce of the transaction; and no two
logins belong to the same sign-in.\<close>

theorem logins_finish_once:
  assumes "transaction_store (lb_put lb) (lb_take lb) content" "content (sd_store st0) = Map.empty" "sign_ins cf lb st0 bs fs st"
  shows "distinct (map (\<lambda>f. tx_state (lr_transaction (fi_result f))) fs)
    \<and> (\<forall>f\<in>set fs. \<exists>b\<in>set bs. begun_as b (lr_transaction (fi_result f)) \<and> fi_wall f \<le> bg_wall b + minutes 5
        \<and> hash_sdk (fo_binding (fi_options f)) = hash_sdk (bo_binding (bg_options b))
        \<and> (bg_purpose b = ''link'' \<longrightarrow> fo_local_account (fi_options f) = bo_local_account (bg_options b)
            \<and> fo_local_session (fi_options f) = bo_local_session (bg_options b))
        \<and> proven_by cf lb (fi_result f))"
proof -
  note all = sign_ins_accounted [OF assms]
  have "\<exists>b\<in>set bs. begun_as b (lr_transaction (fi_result f)) \<and> fi_wall f \<le> bg_wall b + minutes 5
        \<and> hash_sdk (fo_binding (fi_options f)) = hash_sdk (bo_binding (bg_options b))
        \<and> (bg_purpose b = ''link'' \<longrightarrow> fo_local_account (fi_options f) = bo_local_account (bg_options b)
            \<and> fo_local_session (fi_options f) = bo_local_session (bg_options b))
        \<and> proven_by cf lb (fi_result f)" if f: "f \<in> set fs" for f
  proof -
    obtain b where "b \<in> set bs" "begun_as b (lr_transaction (fi_result f))" using accountedD(4) [OF all [THEN conjunct1] f] by blast
    moreover have "transaction_usable (fi_wall f) (fi_options f) (lr_transaction (fi_result f))"
      "same_account (fi_options f) (lr_transaction (fi_result f))" "proven_by cf lb (fi_result f)" using all f by auto
    ultimately show ?thesis by (intro bexI [of _ b]) (auto simp: begun_as_def transaction_usable_def same_account_def)
  qed
  then show ?thesis using accountedD(5) [OF all [THEN conjunct1]] by blast
qed

text \<open>Ann signs in at the shop: a provider that is known, a code that is exchanged for a token of hers.\<close>

definition ann_token :: id_token where
  "ann_token = \<lparr>it_issuer = ''https://cas'', it_subject = ''ann'', it_audience = [''shop''], it_expiry = minutes 10, it_issued_at = 0,
     it_nonce = ''YQ'', it_claims = JObj [(''sid'', JStr ''s1'')]\<rparr>"

definition ann_library :: "(unit, string \<Rightarrow> transaction option, unit) library" where
  "ann_library = silent_library\<lparr>lb_put := Put_memory, lb_take := Take_memory,
     lb_exchange := (\<lambda>_ _ _ _ n. (Some \<lparr>ot_access = ''at'', ot_refresh = [], ot_expiry = minutes 10, ot_id_token = Some ''jwt''\<rparr>, n)),
     lb_verify := (\<lambda>_ _ _ n. (Some ann_token, n)),
     lb_userinfo := (\<lambda>_ _ n. (Some \<lparr>up_subject = ''ann'', up_email = ''a@x.y'', up_email_verified = True, up_claims = JObj []\<rparr>, n))\<rparr>"

definition shop_started :: "(unit, string \<Rightarrow> transaction option, unit) sdk_state" where
  "shop_started = \<lparr>sd_provider = Some ((), metadata_from Map.empty), sd_store = Map.empty, sd_net = ()\<rparr>"

definition ann_options :: begin_options where
  "ann_options = \<lparr>bo_binding = replicate 32 CHR ''b'', bo_return_to = ''/cart'', bo_local_account = [], bo_local_session = [], bo_scopes = []\<rparr>"

definition ann_finish :: finish_options where
  "ann_finish = \<lparr>fo_binding = replicate 32 CHR ''b'', fo_local_account = [], fo_local_session = []\<rparr>"

definition ann_transaction :: transaction where
  "ann_transaction = login_transaction (\<lambda>_. ''a'') ''v'' 0 ''login'' ''/cart'' ann_options"

lemma ann_begins: "\<exists>url. begin_sdk (example_config ''shop'') ann_library (\<lambda>_. ''a'') ''v'' 0 ''login'' ann_options shop_started
    = (Inr url, shop_started\<lparr>sd_store := [RandomBinding ''a'' \<mapsto> ann_transaction]\<rparr>)"
  by (simp add: begin_sdk_def application_path_def has_prefix_def contains_any_def discovery_def shop_started_def
      sdk_then_def on_transactions_def with_intent_def login_transaction_def ann_library_def Put_memory_def
      ann_transaction_def sdk_give_def ann_options_def silent_library_def Let_def)

lemma example_config_cb:
  "cf_redirect_uri (example_config app) = ''https://shop/cb''" "url_scheme (path_url s) = ''https''" "url_host (path_url s) = ''shop''"
  by (simp_all add: example_config_def path_url_def)

lemma callback_values:
  "query_value ''state'' (path_url ''https://shop/cb?state=YQ&code=c'') = ''YQ''"
  "query_value ''code'' (path_url ''https://shop/cb?state=YQ&code=c'') = ''c''"
  "query_value ''error'' (path_url ''https://shop/cb?state=YQ&code=c'') = []"
  "url_path (path_url ''https://shop/cb?state=YQ&code=c'') = url_path (path_url ''https://shop/cb'')"
  "RandomBinding ''a'' = ''YQ''"
  by code_simp+

lemma ann_libraries:
  "lb_url ann_library s = Some (path_url s)" "lb_take ann_library = Take_memory" "lb_put ann_library = Put_memory"
  "lb_exchange ann_library p oa code v n = (Some \<lparr>ot_access = ''at'', ot_refresh = [], ot_expiry = minutes 10, ot_id_token = Some ''jwt''\<rparr>, n)"
  "lb_verify ann_library p aud raw n = (Some ann_token, n)"
  "lb_userinfo ann_library p token n = (Some \<lparr>up_subject = ''ann'', up_email = ''a@x.y'', up_email_verified = True, up_claims = JObj []\<rparr>, n)"
  "it_nonce ann_token = ''YQ''" "it_subject ann_token = ''ann''"
  by (simp_all add: ann_library_def silent_library_def ann_token_def)

lemma ann_finishes: "\<exists>r st. FinishLogin (example_config ''shop'') ann_library (minutes 1) ''https://shop/cb?state=YQ&code=c'' ann_finish
      (shop_started\<lparr>sd_store := [''YQ'' \<mapsto> ann_transaction]\<rparr>) = (Inr r, st) \<and> lr_transaction r = ann_transaction \<and> id_subject (lr_identity r) = ''ann''"
proof -
  have cached: "discovery (example_config ''shop'') ann_library (shop_started\<lparr>sd_store := s\<rparr>) = (Inr ((), metadata_from Map.empty), shop_started\<lparr>sd_store := s\<rparr>)" for s
    by (simp add: discovery_def shop_started_def)
  have who: "signed_in_identity (example_config ''shop'') ann_token \<lparr>up_subject = ''ann'', up_email = ''a@x.y'', up_email_verified = True, up_claims = JObj []\<rparr>
      = Some \<lparr>id_issuer = ''https://cas'', id_subject = ''ann'', id_name = [], id_email = ''a@x.y'', id_email_verified = True, id_session = ''s1''\<rparr>"
    by code_simp
  have ok: "transaction_usable (minutes 1) ann_finish ann_transaction" "same_account ann_finish ann_transaction"
      "tx_nonce ann_transaction = ''YQ''"
    using callback_values(5) by (simp_all add: transaction_usable_def ann_finish_def ann_transaction_def login_transaction_def same_account_def ann_options_def)
  have redeemed: "\<exists>r st. redeem_code (example_config ''shop'') ann_library ''c'' ann_transaction (shop_started\<lparr>sd_store := s\<rparr>) = (Inr r, st)
      \<and> lr_transaction r = ann_transaction \<and> id_subject (lr_identity r) = ''ann''" for s
    unfolding redeem_code_def
    by (simp add: sdk_then_def [of "discovery _ _"] cached sdk_then_def [of "on_net _ _"] on_net_def ok(3) who ann_libraries sdk_give_def)
  show ?thesis using redeemed
    by (simp add: FinishLogin_def sdk_then_def [of "on_transactions _"] on_transactions_def ok ok(1) [simplified] callback_values Take_memory_def ann_libraries
        example_config_cb)
qed

theorem logins_finish_once_witness:
  "\<exists>r st. sign_ins (example_config ''shop'') ann_library shop_started [begun_now (\<lambda>_. ''a'') 0 ''login'' ann_options]
      [\<lparr>fi_wall = minutes 1, fi_options = ann_finish, fi_result = r\<rparr>] st
    \<and> begun_as (begun_now (\<lambda>_. ''a'') 0 ''login'' ann_options) (lr_transaction r) \<and> proven_by (example_config ''shop'') ann_library r
    \<and> id_subject (lr_identity r) = ''ann''"
proof -
  obtain r st where f: "FinishLogin (example_config ''shop'') ann_library (minutes 1) ''https://shop/cb?state=YQ&code=c'' ann_finish
      (shop_started\<lparr>sd_store := [''YQ'' \<mapsto> ann_transaction]\<rparr>) = (Inr r, st)" "id_subject (lr_identity r) = ''ann''"
    using ann_finishes by blast
  obtain url where "begin_sdk (example_config ''shop'') ann_library (\<lambda>_. ''a'') ''v'' 0 ''login'' ann_options shop_started
    = (Inr url, shop_started\<lparr>sd_store := [''YQ'' \<mapsto> ann_transaction]\<rparr>)" using ann_begins callback_values(5) by auto
  then have "sign_ins (example_config ''shop'') ann_library shop_started [begun_now (\<lambda>_. ''a'') 0 ''login'' ann_options] []
      (shop_started\<lparr>sd_store := [''YQ'' \<mapsto> ann_transaction]\<rparr>)"
    by (rule sign_ins.begins [OF sign_ins.started_out]) simp
  from sign_ins.finishes [OF this f(1)]
  have run: "sign_ins (example_config ''shop'') ann_library shop_started [begun_now (\<lambda>_. ''a'') 0 ''login'' ann_options]
      [\<lparr>fi_wall = minutes 1, fi_options = ann_finish, fi_result = r\<rparr>] st" .
  have store: "transaction_store (lb_put ann_library) (lb_take ann_library) (\<lambda>items. items)"
    using memory.transaction_store_axioms by (simp add: ann_library_def silent_library_def)
  have "sd_store shop_started = Map.empty" by (simp add: shop_started_def)
  from logins_finish_once [OF store this run] show ?thesis using run f(2) by auto
qed

section \<open>Return paths\<close>

text \<open>
  A path with a tab passes the check of \<open>begin\<close>. A browser that follows a redirect to it drops the tab and reads two
  slashes, the host of another site, which the check is there to refuse.
\<close>

lemma tab_path_accepted: "application_path (''/'' @ [CHR 0x09] @ ''/evil.example'')" "\<not> application_path ''//evil.example''"
  by (simp_all add: application_path_def has_prefix_def contains_any_def)

end
