(* ===== verification/Sdk_Resource.thy ===== *)
theory Sdk_Resource
  imports Sdk_Links Sdk_Sign_In Guarantees
begin

text \<open>
  Where the requests of the SDK go, \<open>sdk/go/client.go\<close>, \<open>grants.go\<close>, \<open>introspection.go\<close> and \<open>device.go\<close>, and what the middleware
  of a resource server, \<open>RequireAccessToken\<close> of \<open>ginadapter/adapter.go\<close>, lets through.
\<close>

section \<open>The destination of a request\<close>






section \<open>Two networks that differ elsewhere\<close>















section \<open>Protected resources\<close>

text \<open>
  Introspection over the network of a resource server \<open>cf\<close>: whenever the endpoint answers 200, it says what the service's
  \<open>SetIntrospectionFromToken\<close> said for the caller, and \<open>active: false\<close> when that refused or the text is no token of the
  service. \<open>read\<close> is the library's reading of a token: its id and subject.
\<close>

definition introspection_json :: "(err + Tokens.introspection) option \<Rightarrow> json" where
  "introspection_json answer = (case answer of
     Some (Inr i) \<Rightarrow> JObj [(''active'', JBool True), (''sub'', JStr (introspection.in_subject i)), (''client_id'', JStr (introspection.in_client_id i)),
       (''aud'', JArr (map JStr (introspection.in_audience i))), (''scope'', JStr (join_with '' '' (introspection.in_scope i)))]
   | _ \<Rightarrow> JObj [(''active'', JBool False)])"

definition introspects ::
  "time \<Rightarrow> (string \<Rightarrow> (string \<times> string) option) \<Rightarrow> sdk_config \<Rightarrow> ('p, 's, db) library \<Rightarrow> bool" where
  "introspects now read cf lb = (\<forall>u raw db a n. lb_do lb (form_request cf True True u [(''token'', raw)]) db = (Some a, n) \<longrightarrow>
     sp_status a = 200 \<longrightarrow> sp_first a = Some (introspection_json
       (map_option (\<lambda>(tid, subject). SetIntrospectionFromToken now tid subject (cf_client_id cf) db) (read raw))))"

lemma introspection_names [simp]:
  "field_named introspection_shape ''active'' = Some (''active'', TBoolPtr)" "field_named introspection_shape ''sub'' = Some (''sub'', TString)"
  "field_named introspection_shape ''client_id'' = Some (''client_id'', TString)" "field_named introspection_shape ''aud'' = Some (''aud'', TStrings)"
  "field_named introspection_shape ''scope'' = Some (''scope'', TString)"
  by code_simp+

lemma active_answer:
  assumes "unmarshal_json introspection_shape (Some (introspection_json answer)) = Some v" "bool_pointer ''active'' v = Some True"
  shows "\<exists>i. answer = Some (Inr i) \<and> string_field ''sub'' v = introspection.in_subject i \<and> string_field ''client_id'' v = introspection.in_client_id i"
proof (cases "\<exists>i. answer = Some (Inr i)")
  case True
  then obtain i where "answer = Some (Inr i)" by blast
  then show ?thesis using assms
    by (auto simp: introspection_json_def unmarshal_json_def known_fields_def string_field_def split: option.splits)
next
  case False
  then have "introspection_json answer = JObj [(''active'', JBool False)]" by (auto simp: introspection_json_def split: option.splits sum.splits)
  then show ?thesis using assms by (auto simp: unmarshal_json_def known_fields_def bool_pointer_def)
qed

lemma introspected_active:
  assumes "introspects now read cf lb" "IntrospectToken cf lb raw st = (Inr state, st')" "sd_provider st = Some (p, m)" "sdk_introspection.in_active state"
  shows "\<exists>tid subject i. read raw = Some (tid, subject) \<and> SetIntrospectionFromToken now tid subject (cf_client_id cf) (sd_net st) = Inr i
    \<and> sdk_introspection.in_subject state = introspection.in_subject i \<and> sdk_introspection.in_client_id state = introspection.in_client_id i"
proof -
  obtain a n v where a: "lb_do lb (form_request cf True True (lb_url_string lb (md_introspection m)) [(''token'', raw)]) (sd_net st) = (Some a, n)"
      "sp_status a = 200" "unmarshal_json introspection_shape (sp_first a) = Some v" "bool_pointer ''active'' v = Some True"
      "sdk_introspection.in_subject state = string_field ''sub'' v" "sdk_introspection.in_client_id state = string_field ''client_id'' v"
    using assms(2-4) by (auto simp: IntrospectToken_def sdk_Inr discovery_def split: if_splits option.splits)
  let ?answer = "map_option (\<lambda>(tid, subject). SetIntrospectionFromToken now tid subject (cf_client_id cf) (sd_net st)) (read raw)"
  have "sp_first a = Some (introspection_json ?answer)" using assms(1) a(1,2) unfolding introspects_def by blast
  then obtain i where "?answer = Some (Inr i)" "string_field ''sub'' v = introspection.in_subject i" "string_field ''client_id'' v = introspection.in_client_id i"
    using active_answer [of ?answer v] a(3,4) by auto
  then show ?thesis using a(5,6) by auto
qed

lemma ended_rejected:
  assumes "reach D db" "run D db D' db'" "a \<in> set (access_tokens db)" "ended db a"
  shows "ActiveToken now (t_id a) db' = Inl ErrUnauthorized"
  using ended_run [OF assms] ended_unusable [OF run_schema(2) [OF assms(1,2)]]
  by (intro unusable_rejected [OF run_kept(2) [OF assms(1,2)]]) blast

text \<open>C16: What a resource server lets through is current: a request passes \<open>RequireAccessToken\<close> with introspection only with a bearer
token that is verified for the audience as an API access token with every required scope, and that is active in the database of
the service at that moment, for the subject and client of its claims; in particular no token passes that was revoked, or whose
family or session was, at any time before.\<close>

theorem resource_access_is_current:
  assumes "RequireAccessToken (Some (Some (cf, lb))) audience scopes True r st = (Next claims, st')"
    and "introspects now read cf lb" "sd_provider st = Some (p, m)" "\<forall>p aud raw n. snd (lb_verify lb p aud raw n) = n"
  shows "\<exists>raw it tid t. bearer_token r = Some raw \<and> fst (lb_verify lb p audience raw (sd_net st)) = Some it
    \<and> map_option access_from (unmarshal_json access_shape (Some (it_claims it))) = Some claims
    \<and> sdk_access_claims.ac_token_use claims = ''access'' \<and> set scopes \<subseteq> set (string_fields (sdk_access_claims.ac_scope claims))
    \<and> map_option fst (read raw) = Some tid \<and> ActiveToken now tid (sd_net st) = Inr t
    \<and> tk_subject t = sdk_access_claims.ac_subject claims \<and> tk_client_id t = sdk_access_claims.ac_client_id claims
    \<and> (\<forall>D past D' a. reach D past \<longrightarrow> run D past D' (sd_net st) \<longrightarrow> a \<in> set (access_tokens past) \<longrightarrow> ended past a \<longrightarrow> t_id a \<noteq> tid)"
proof -
  obtain raw mid state where b: "bearer_token r = Some raw" "VerifyAccessToken cf lb raw audience scopes st = (Inr claims, mid)"
      "IntrospectToken cf lb raw mid = (Inr state, st')" "sdk_introspection.in_active state"
      "sdk_introspection.in_subject state = sdk_access_claims.ac_subject claims" "sdk_introspection.in_client_id state = sdk_access_claims.ac_client_id claims"
    using assms(1) by (auto simp: RequireAccessToken_def split: option.splits prod.splits sum.splits if_splits)
  obtain it v n where v: "lb_verify lb p audience raw (sd_net st) = (Some it, n)" "unmarshal_json access_shape (Some (it_claims it)) = Some v"
      "claims = access_from v" "sdk_access_claims.ac_token_use claims = ''access''" "list_all (\<lambda>scope. scope \<in> set (string_fields (sdk_access_claims.ac_scope claims))) scopes"
      "mid = st\<lparr>sd_net := n\<rparr>"
    using b(2) assms(3) by (auto simp: VerifyAccessToken_def sdk_Inr discovery_def Let_def)
  have n: "n = sd_net st" using assms(4) v(1) by (metis snd_conv)
  obtain tid subject i where i: "read raw = Some (tid, subject)" "SetIntrospectionFromToken now tid subject (cf_client_id cf) (sd_net st) = Inr i"
      "introspection.in_subject i = sdk_access_claims.ac_subject claims" "introspection.in_client_id i = sdk_access_claims.ac_client_id claims"
    using introspected_active [OF assms(2) b(3) _ b(4), of p m] assms(3) b(5,6) by (auto simp: v(6) n)
  obtain t where t: "ActiveToken now tid (sd_net st) = Inr t" "tk_subject t = sdk_access_claims.ac_subject claims" "tk_client_id t = sdk_access_claims.ac_client_id claims"
    using i(2-4) by (auto simp: SetIntrospectionFromToken_def split: sum.splits if_splits)
  have "\<forall>D past D' a. reach D past \<longrightarrow> run D past D' (sd_net st) \<longrightarrow> a \<in> set (access_tokens past) \<longrightarrow> ended past a \<longrightarrow> t_id a \<noteq> tid"
    using ended_rejected [of _ _ _ "sd_net st" _ now] t(1) by fastforce
  then show ?thesis
    using b(1) v i(1) t by (intro exI [of _ raw] exI [of _ it] exI [of _ tid] exI [of _ t]) (auto simp: list_all_iff)
qed

text \<open>The vault is presented a token the shop got by exchange for its files.\<close>

definition cas_url :: url where
  "cas_url = \<lparr>url_scheme = ''https'', url_host = ''cas'', url_hostname = ''cas'', url_user = False, url_path = ''/introspect'',
     url_raw_query = [], url_fragment = []\<rparr>"

definition exchanged_token :: id_token where
  "exchanged_token = \<lparr>it_issuer = ''https://cas'', it_subject = ''ann'', it_audience = [''files''], it_expiry = minutes 5, it_issued_at = 0,
     it_nonce = [], it_claims = JObj [(''sub'', JStr ''ann''), (''client_id'', JStr ''shop''), (''scope'', JStr ''read''),
       (''token_use'', JStr ''access'')]\<rparr>"

definition vault_library :: "(unit, unit, db) library" where
  "vault_library = silent_library\<lparr>lb_url := (\<lambda>_. Some cas_url), lb_verify := (\<lambda>_ _ _ n. (Some exchanged_token, n)),
     lb_do := (\<lambda>q db. let j = introspection_json (Some (SetIntrospectionFromToken 0 ''t2'' ''ann'' ''vault'' db))
       in (Some \<lparr>sp_status = 200, sp_first = Some j, sp_whole = Some j\<rparr>, db))\<rparr>"

definition vault_server :: "(unit, unit, db) sdk_state" where
  "vault_server = \<lparr>sd_provider = Some ((), metadata_from Map.empty), sd_store = (), sd_net = db21\<rparr>"

definition file_request :: gin_request where
  "file_request = \<lparr>gr_content_type = [], gr_body = None, gr_authorization = ''Bearer jwt''\<rparr>"

definition shop_claims :: sdk_access_claims where
  "shop_claims = access_from [''sub'' \<mapsto> VString ''ann'', ''client_id'' \<mapsto> VString ''shop'', ''scope'' \<mapsto> VString ''read'', ''token_use'' \<mapsto> VString ''access'']"

lemma shop_claims_simps:
  "sdk_access_claims.ac_subject shop_claims = ''ann''" "sdk_access_claims.ac_client_id shop_claims = ''shop''"
  "sdk_access_claims.ac_scope shop_claims = ''read''" "sdk_access_claims.ac_token_use shop_claims = ''access''"
  by (simp_all add: shop_claims_def access_from_def struct_fields)

lemma vault_asks: "\<exists>i. SetIntrospectionFromToken 0 ''t2'' ''ann'' ''vault'' db21 = Inr i
    \<and> introspection.in_subject i = ''ann'' \<and> introspection.in_client_id i = ''shop''"
proof -
  have "introspection_policies token2 ''vault'' db21 = 1"
    by (simp add: introspection_policies_def db21_tables policy1_def token2_def)
  then show ?thesis by (simp add: SetIntrospectionFromToken_def token2_active) (simp add: token2_def)
qed

lemma vault_lets_through: "RequireAccessToken (Some (Some (example_config ''vault'', vault_library))) ''files'' [''read''] True file_request vault_server
    = (Next shop_claims, vault_server)"
proof -
  have cached: "discovery cf lb vault_server = (Inr ((), metadata_from Map.empty), vault_server)" for cf :: sdk_config and lb :: "(unit, unit, db) library"
    by (simp add: discovery_def vault_server_def)
  have [simp]: "vault_server\<lparr>sd_net := sd_net vault_server\<rparr> = vault_server" by simp
  have bearer: "bearer_token file_request = Some ''jwt''" by code_simp
  have claims: "unmarshal_json access_shape (Some (it_claims exchanged_token)) = Some [''sub'' \<mapsto> VString ''ann'', ''client_id'' \<mapsto> VString ''shop'',
      ''scope'' \<mapsto> VString ''read'', ''token_use'' \<mapsto> VString ''access'']"
    "access_from [''sub'' \<mapsto> VString ''ann'', ''client_id'' \<mapsto> VString ''shop'', ''scope'' \<mapsto> VString ''read'', ''token_use'' \<mapsto> VString ''access''] = shop_claims"
    by (simp_all add: exchanged_token_def unmarshal_json_def struct_decoding access_shape_def shop_claims_def)
  have lib: "lb_verify vault_library p aud raw n = (Some exchanged_token, n)" "lb_url vault_library s = Some cas_url"
    "lb_do vault_library q n = (let j = introspection_json (Some (SetIntrospectionFromToken 0 ''t2'' ''ann'' ''vault'' n))
       in (Some \<lparr>sp_status = 200, sp_first = Some j, sp_whole = Some j\<rparr>, n))" for p aud raw n s q
    by (simp_all add: vault_library_def)
  have ours: "issuer_endpoint (example_config ''vault'') (lb_url vault_library) raw" for raw
    by (simp add: issuer_endpoint_def endpoint_def lib cas_url_def example_config_def origin_of_def)
  have scopes: "''read'' \<in> set (string_fields (sdk_access_claims.ac_scope shop_claims))" by code_simp
  have verified: "VerifyAccessToken (example_config ''vault'') vault_library ''jwt'' ''files'' [''read''] vault_server = (Inr shop_claims, vault_server)"
    by (simp add: VerifyAccessToken_def sdk_then_def [of "discovery _ _"] cached sdk_then_def [of "on_net _ _"] on_net_def lib claims Let_def
        scopes [unfolded shop_claims_simps] shop_claims_simps sdk_give_def)
  obtain i where i: "SetIntrospectionFromToken 0 ''t2'' ''ann'' ''vault'' db21 = Inr i" "introspection.in_subject i = ''ann''"
      "introspection.in_client_id i = ''shop''"
    using vault_asks by blast
  have asks: "sd_net vault_server = db21" by (simp add: vault_server_def)
  have strings: "set_strings old (map JStr ss) = Some ss" for old ss by (induction ss arbitrary: old) simp_all
  have "\<exists>state. IntrospectToken (example_config ''vault'') vault_library ''jwt'' vault_server = (Inr state, vault_server)
      \<and> sdk_introspection.in_active state \<and> sdk_introspection.in_subject state = ''ann'' \<and> sdk_introspection.in_client_id state = ''shop''"
    by (simp add: IntrospectToken_def sdk_then_def [of "discovery _ _"] cached ours sdk_then_def [of "on_net _ _"] on_net_def lib Let_def
        example_config_def [of "''vault''", THEN arg_cong [of _ _ cf_client_secret]] asks i introspection_json_def unmarshal_json_def
        known_fields_def strings bool_pointer_def string_field_def sdk_give_def)
  then show ?thesis using verified
    by (auto simp: RequireAccessToken_def bearer shop_claims_simps)
qed

theorem resource_access_is_current_witness:
  "RequireAccessToken (Some (Some (example_config ''vault'', vault_library))) ''files'' [''read''] True file_request vault_server = (Next shop_claims, vault_server)
    \<and> (\<exists>t. ActiveToken 0 ''t2'' db21 = Inr t \<and> tk_subject t = ''ann'' \<and> tk_client_id t = ''shop'')"
proof -
  have truthful: "introspects 0 (\<lambda>_. Some (''t2'', ''ann'')) (example_config ''vault'') vault_library"
    by (simp add: introspects_def vault_library_def example_config_def Let_def)
  have "sd_provider vault_server = Some ((), metadata_from Map.empty)" "\<forall>p aud raw n. snd (lb_verify vault_library p aud raw n) = n"
    by (simp_all add: vault_server_def vault_library_def)
  from resource_access_is_current [OF vault_lets_through truthful this] show ?thesis
    using vault_lets_through by (auto simp: vault_server_def shop_claims_simps)
qed

end
