(* ===== verification/Provider.thy ===== *)
theory Provider
  imports Sdk_Server
begin

text \<open>
  What the OpenID library asks of the values the store gives it: the methods of \<open>op.Client\<close> in \<open>client.go\<close>, of \<open>op.AuthRequest\<close> in
  \<open>authorization.go\<close> and of the token requests in \<open>tokens.go\<close>, and that they agree with what the store has checked.
\<close>

section \<open>Clients\<close>

datatype application_type = ApplicationTypeUserAgent | ApplicationTypeWeb

datatype auth_method = AuthMethodNone | AuthMethodBasic

definition ApplicationType :: "client \<Rightarrow> application_type" where
  "ApplicationType c = (if cl_public c then ApplicationTypeUserAgent else ApplicationTypeWeb)"

definition AuthMethod :: "client \<Rightarrow> auth_method" where
  "AuthMethod c = (if cl_public c then AuthMethodNone else AuthMethodBasic)"

definition RedirectURIs :: "client \<Rightarrow> string list" where "RedirectURIs c = cl_redirects c"

definition PostLogoutRedirectURIs :: "client \<Rightarrow> string list" where "PostLogoutRedirectURIs c = cl_logout_redirects c"

definition ResponseTypes :: "client \<Rightarrow> string list" where "ResponseTypes c = [ResponseTypeCode]"

definition GrantTypes :: "client \<Rightarrow> string list" where "GrantTypes c = cl_grants c"

definition LoginURL :: "client \<Rightarrow> string \<Rightarrow> string" where
  "LoginURL c rid = ''/login?auth_request_id='' @ query_escape rid"

definition IDTokenLifetime :: "client \<Rightarrow> time" where "IDTokenLifetime c = minutes 5"

definition DevMode :: "client \<Rightarrow> bool" where "DevMode c = cl_development c"

definition RestrictAdditionalIdTokenScopes :: "client \<Rightarrow> string list \<Rightarrow> string list" where
  "RestrictAdditionalIdTokenScopes c scopes = []"

definition RestrictAdditionalAccessTokenScopes :: "client \<Rightarrow> string list \<Rightarrow> string list" where
  "RestrictAdditionalAccessTokenScopes c scopes = scopes"

definition IsScopeAllowed :: "client \<Rightarrow> string \<Rightarrow> bool" where "IsScopeAllowed c scope = (scope \<in> set (cl_scopes c))"

section \<open>Authorization requests and tokens\<close>

definition GetClientID :: "authorization \<Rightarrow> string" where "GetClientID a = rq_client_id (az_request a)"

definition GetCodeChallenge :: "authorization \<Rightarrow> string \<times> string" where
  "GetCodeChallenge a = (rq_code_challenge (az_request a), rq_code_challenge_method (az_request a))"

definition GetNonce :: "authorization \<Rightarrow> string" where "GetNonce a = rq_nonce (az_request a)"

definition GetRedirectURI :: "authorization \<Rightarrow> string" where "GetRedirectURI a = rq_redirect_uri (az_request a)"

definition GetResponseType :: "authorization \<Rightarrow> string" where "GetResponseType a = rq_response_type (az_request a)"

definition GetScopes :: "authorization \<Rightarrow> string list" where "GetScopes a = rq_scopes (az_request a)"

definition GetState :: "authorization \<Rightarrow> string" where "GetState a = rq_state (az_request a)"

definition GetSubject :: "authorization \<Rightarrow> string" where "GetSubject a = az_subject a"

definition Done :: "authorization \<Rightarrow> bool" where "Done a = az_authenticated a"

definition GetAMR :: "token \<Rightarrow> string list" where "GetAMR t = (if tk_service t then [] else [''pwd''])"

definition SetCurrentScopes :: "string list \<Rightarrow> token \<Rightarrow> token" where "SetCurrentScopes scopes t = t\<lparr>tk_scopes := scopes\<rparr>"

section \<open>Agreement with the store\<close>

text \<open>An accepted request is one the library's own checks on the client accept: a registered redirect, the code flow with a challenge, and
allowed scopes only. It is not done before a user approved it.\<close>

lemma accepted_request_fits:
  assumes "CreateAuthRequest now wall new_id r db = (Inr a, db')"
  shows "\<exists>c. Client (GetClientID a) db = Inr c \<and> GetRedirectURI a \<in> set (RedirectURIs c) \<and> GetResponseType a \<in> set (ResponseTypes c)
    \<and> list_all (IsScopeAllowed c) (GetScopes a) \<and> snd (GetCodeChallenge a) = CodeChallengeMethodS256
    \<and> length (fst (GetCodeChallenge a)) = 43 \<and> GetState a \<noteq> [] \<and> GetNonce a \<noteq> [] \<and> \<not> Done a"
  using assms
  by (auto simp: CreateAuthRequest_def Let_def GetClientID_def GetRedirectURI_def RedirectURIs_def GetResponseType_def ResponseTypes_def
      IsScopeAllowed_def GetScopes_def GetCodeChallenge_def GetState_def GetNonce_def Done_def list_all_iff list_ex_iff
      split: sum.splits if_splits option.splits)

text \<open>A completed request gives the library the user of the session, and the tokens made from it are for its client and scopes.\<close>

lemma completed_request_done:
  assumes "CompleteAuthorization now rid session db = (Inr (), db')" "r \<in> set (auth_requests db')" "r_id r = rid"
  shows "Done (r_payload r)" "GetSubject (r_payload r) = w_identity_id session"
proof -
  obtain s :: auth_request_row where rows: "auth_requests db' = update_rows (\<lambda>r. r_id r = rid) (\<lambda>x. x\<lparr>r_payload := (r_payload s)
       \<lparr>az_subject := w_identity_id session, az_session_id := w_id session, az_auth_time := w_authenticated_at session,
        az_authenticated := True\<rparr>\<rparr>) (auth_requests db)"
    by (rule CompleteAuthorization_success [OF assms(1)])
  obtain x where "r = (if r_id x = rid then x\<lparr>r_payload := (r_payload s)
       \<lparr>az_subject := w_identity_id session, az_session_id := w_id session, az_auth_time := w_authenticated_at session,
        az_authenticated := True\<rparr>\<rparr> else x)"
    using assms(2) unfolding rows set_update_rows by (rule imageE)
  with assms(3) show "Done (r_payload r)" "GetSubject (r_payload r) = w_identity_id session"
    by (auto simp: Done_def GetSubject_def split: if_splits)
qed

text \<open>The login page that the library redirects to reads the id of the request back.\<close>

lemma login_url_opens:
  "fst (parse_query (drop 1 (dropWhile (\<lambda>c. c \<noteq> CHR ''?'') (LoginURL c rid)))) = [(''auth_request_id'', rid)]"
proof -
  have "drop 1 (dropWhile (\<lambda>c. c \<noteq> CHR ''?'') (LoginURL c rid)) = ''auth_request_id'' @ CHR ''='' # query_escape rid"
    by (simp add: LoginURL_def)
  moreover have "query_unescape ''auth_request_id'' = Some ''auth_request_id''" by (simp add: query_unescape.simps)
  ultimately show ?thesis using parse_query_pair [of "''auth_request_id''" rid] by simp
qed

end
