(* ===== verification/Spec2Isabelle.thy ===== *)
theory Spec2Isabelle
  imports Sign_In Client_Rules Deliveries Listings Upkeep Http_Guarantees Key_Guarantees Serving Honest_Use Sdk_Notices Sdk_Resource Provider
begin

text \<open>
  FastCAS is an identity provider in Go: a service with its database, a command line, and an SDK for the applications. The
  service (\<open>internal/core\<close>, \<open>internal/httpapi\<close>, \<open>cmd/fastcas\<close>) keeps identities, sessions and applications in PostgreSQL, issues
  tokens through an OpenID library, links the accounts of applications to identities, and tells the applications of logouts,
  revoked links and disabled identities through an outbox. An application embeds the SDK (\<open>sdk/go\<close>) to sign users in, to
  manage its links, to receive the notices and to guard its own API. This theory imports the development; it has no
  definitions of its own.

  Parts and theories

  The database. \<open>Prelude\<close>: tables as lists of rows with the SQL statements of the code, and the contracts \<open>unique_index\<close> and
  \<open>keyed_table\<close>. \<open>Schema\<close>: \<open>internal/core/migrations\<close>, one record per table, the record \<open>db\<close> of all tables, the unique indexes.
  \<open>History\<close>: how an operation may change a row (\<open>evolves\<close>, \<open>touches\<close>), once for all operations. \<open>Revocation\<close>: the revoking
  updates, with the contract \<open>stamped\<close>. \<open>Migrations\<close>: \<open>Migrate\<close> of \<open>store.go\<close>.

  The libraries computed with. \<open>Go_Library\<close>, \<open>Net_Library\<close> and \<open>Json\<close>: strings, encodings, URLs, HMAC, the decoding of parsed JSON
  into structs. \<open>Sha256\<close>: SHA-256 on 32-bit words, checked on known answers in \<open>Test_Vectors\<close>.

  The store, \<open>internal/core\<close>. Each Go method is a definition of the same name that takes the clock, the drawn random values, the
  arguments and the database, and gives the result (an error is \<open>Inl\<close>) with the database left behind. A transaction that
  is rolled back leaves the database it was given.
    \<^item> \<open>Security\<close>: \<open>security.go\<close>, and the errors; \<open>Store\<close>: \<open>store.go\<close>; \<open>Clients\<close>: \<open>client.go\<close>, \<open>service_accounts.go\<close>
    \<^item> \<open>Tokens\<close>: \<open>tokens.go\<close>; \<open>Authorization\<close>: \<open>authorization.go\<close>; \<open>Exchange\<close>: \<open>exchange.go\<close>
    \<^item> \<open>Links\<close>: \<open>links.go\<close>, \<open>logout.go\<close>; \<open>Account_Security\<close>: \<open>account_security.go\<close>
    \<^item> \<open>Devices\<close>: \<open>device.go\<close>, \<open>installations.go\<close>; \<open>Outbox\<close>: \<open>events.go\<close>, \<open>outbox_admin.go\<close>, \<open>outbox_telemetry.go\<close>
    \<^item> \<open>Lifecycle\<close>: \<open>maintenance.go\<close>, \<open>recovery.go\<close>, and the deactivation of service accounts
    \<^item> \<open>Keys\<close>: \<open>keys.go\<close>, \<open>key_rotation.go\<close>, on a directory of files whose every system call may fail

  The HTTP API, \<open>internal/httpapi\<close>. \<open>Http\<close>: requests, responses, cookies, JSON bodies and the checks of session, CSRF proof, role and
  client. \<open>Pages\<close>: \<open>server.go\<close>, \<open>device.go\<close>; \<open>Accounts_Api\<close>: \<open>accounts.go\<close>, \<open>installations.go\<close>, \<open>outbox.go\<close>; \<open>Routes\<close>: the route
  tables, the boundary, \<open>console.go\<close>, and \<open>serve\<close>, one request against the database.

  The command line, \<open>cmd/fastcas/main.go\<close>. \<open>Command\<close>: each command on environment, key directory and database, the start of the
  server, a tick of the delivery worker; \<open>Serving\<close> has the process while it listens. \<open>Provider\<close>: what the OpenID library reads from
  clients, requests and tokens.

  The SDK, \<open>sdk/go\<close>. \<open>Sdk\<close>: \<open>client.go\<close>; \<open>Sdk_Grants\<close>: \<open>grants.go\<close>, \<open>introspection.go\<close>, \<open>device.go\<close>; \<open>Sdk_Events\<close>: \<open>events.go\<close>,
  \<open>logout.go\<close>, \<open>ginadapter/adapter.go\<close>. \<open>Sdk_Server\<close> puts it in front of the service.

  What the theorems show

  \<open>System\<close> makes the service a transition system: \<open>operation\<close> is one step, by any method that writes, \<open>run\<close> a sequence of them
  and \<open>reach\<close> the reachable databases; \<open>sound\<close> collects the invariants of the components. A guarantee about the store holds for every run:
    \<^item> \<open>Guarantees\<close>: what was revoked, consumed or leased stays so: tokens, refresh families with replay detection, codes, device
      codes, one-time credentials, leases; an administrator remains
    \<^item> \<open>Cutoff\<close>: what logouts, password changes, withdrawals and the restore fence end (locales \<open>token_cutoff\<close>, \<open>subject_cutoff\<close>)
    \<^item> \<open>Link_Protocol\<close>: links refine an abstract protocol of phases; \<open>Delegation\<close>: an exchange is accepted exactly if every scope is granted
    \<^item> \<open>Sign_In\<close>: one-time codes and rate limits; \<open>Client_Rules\<close>: stored clients and accepted authorization requests
    \<^item> \<open>Deliveries\<close>: the queue is drained; \<open>Listings\<close>: cursors enumerate; \<open>Notices\<close>: what every queued notice says
    \<^item> \<open>Upkeep\<close>: \<open>ActiveToken\<close> ends, the clean-up changes no answer, polling is paced, reachable databases are well formed
    \<^item> \<open>Honest_Use\<close>: an honest login ends in tokens that work, an enrolled second factor is accepted
    \<^item> \<open>Key_Guarantees\<close>: rotations are atomic under crashes and keep the verifiers' keys

  \<open>Http_Steps\<close> proves that the combinators of the handlers keep any contract on the state (locale \<open>handler_contract\<close>), so that a
  served request is a run of \<open>System\<close>; \<open>Http_Guarantees\<close> has what each kind of route demands before it does anything.
  \<open>Command_Guarantees\<close> does the same for the commands, and \<open>Serving\<close> for the whole deployment: requests, calls of the OpenID
  provider, ticks of both workers and commands, in any order.

  The last group composes the SDK with the service. \<open>Sdk_Links\<close>: a link call of the SDK, over the wire and through the router, is the
  store operation of its client, in both directions. \<open>Sdk_Notices\<close>: what the worker signs and posts is what the application is
  given. \<open>Sdk_Sign_In\<close>: sign-ins over any store that keeps the contract \<open>transaction_store\<close>. \<open>Sdk_Resource\<close>: the SDK talks to its issuer only, and
  a resource server admits only tokens that are active in the database at that moment.

  \<open>Scenario\<close> and \<open>Http_Scenario\<close> evaluate one run of the service step by step; the witnesses use its databases.

  Bounds and time

  Instants are microseconds as integers. \<open>now\<close> is the clock of the database and \<open>wall\<close> that of the server; a theorem relates them only
  where it says so. Versions and counters are integers; the decoder of JSON refuses what does not fit 64 bits. \<open>ActiveToken\<close>
  calls itself on the source of a delegated token. The model gives it one call more than there are access tokens; two are enough in
  every reachable database (\<open>active_token_terminates\<close>). No other definition needs fuel: the loops of the code run over
  lists, over the 32 events of a burst or over the rounds of SHA-256.

  Parameters

  Code that is not in the repository is an argument: the OpenID libraries of the server and the client, JWT signing and
  verification, RSA with its encodings, AES-GCM, Argon2id, TOTP, the HTTP transport, and the parsers of URLs, mail addresses, JSON texts and
  times. What a theorem relies on is a hypothesis with a name: \<open>codec_ok\<close> and \<open>gcm_ok\<close> (decoding inverts encoding, opening inverts
  sealing), \<open>accepts_signed\<close>
  (the verifier accepts what the service signs), \<open>times_agree\<close>, \<open>connected\<close> (the transport of the SDK is \<open>serve\<close>), \<open>introspects\<close> (the provider's
  introspection endpoint answers with \<open>SetIntrospectionFromToken\<close>). Every one is instantiated in a witness. Random values are drawn
  freely; where a table has deletions, \<open>reach\<close> asks that the keys drawn for it do not repeat.

  Not modelled

  The OpenID endpoints served by the library, on which the server only mounts its store; opening, closing and pinging the
  database; the isolation of concurrent transactions below whole operations, as the code takes row locks and each operation is
  one step; log output and the pages' markup; the SDKs in other languages, the console's user interface, the scripts and examples, and the
  helpers of the tests, \<open>internal/testutil\<close>. Of the examples and tests only their two transaction stores are there, as instances of
  \<open>transaction_store\<close>.
\<close>

end
